(* ===== verification/Prelude.thy ===== *)
theory Prelude
  imports Main "HOL-Library.Word" "HOL-Library.AList" "HOL-Library.Char_ord" "HOL-Library.List_Lexorder"
begin

text \<open>
  Shared vocabulary of the development: the machine types of the Rust sources, results and
  state-passing operations with an error branch, checked arithmetic, big-endian byte codecs,
  decimal rendering of identifiers, and the few list facts the component proofs share.
  Nothing here is specific to one component.
\<close>

section \<open>Proof collections\<close>

named_theorems res_simps \<open>rewriting of results and state-passing operations\<close>
named_theorems byte_simps \<open>big-endian encoding and decoding\<close>

section \<open>Machine types\<close>

type_synonym u8 = "8 word"
type_synonym u16 = "16 word"
type_synonym u32 = "32 word"
type_synonym u64 = "64 word"
type_synonym bytes = "u8 list"

text \<open>
  \<open>std::time::Instant\<close> is monotonic and only compared and subtracted; an instant is a number of
  nanoseconds since an arbitrary origin. \<open>Instant::duration_since\<close> and
  \<open>saturating_duration_since\<close> both give zero when the argument is later, which is subtraction
  on \<^typ>\<open>nat\<close>.
\<close>

type_synonym instant = nat
type_synonym duration = nat

definition from_secs :: "nat \<Rightarrow> duration" where
  "from_secs n = n * 1000000000"

definition from_millis :: "nat \<Rightarrow> duration" where
  "from_millis n = n * 1000000"

section \<open>Results\<close>

text \<open>
  \<open>Result<T, E>\<close> is the sum \<open>'e + 'a\<close> with \<open>Inl\<close> for the error. A method on \<open>&mut self\<close> that
  returns a result keeps the writes it made before the error, so its model returns the new state
  in both branches.
\<close>

definition bind_res :: "'e + 'a \<Rightarrow> ('a \<Rightarrow> 'e + 'b) \<Rightarrow> 'e + 'b" where
  "bind_res m f = (case m of Inl e \<Rightarrow> Inl e | Inr x \<Rightarrow> f x)"

definition bind_op :: "'s \<times> ('e + 'a) \<Rightarrow> ('s \<Rightarrow> 'a \<Rightarrow> 's \<times> ('e + 'b)) \<Rightarrow> 's \<times> ('e + 'b)" where
  "bind_op m f = (case m of (s, Inl e) \<Rightarrow> (s, Inl e) | (s, Inr x) \<Rightarrow> f s x)"

definition ensure_that :: "bool \<Rightarrow> 'e \<Rightarrow> 'e + unit" where
  "ensure_that b e = (if b then Inr () else Inl e)"

fun is_ok :: "'e + 'a \<Rightarrow> bool" where
  "is_ok (Inl e) = False"
| "is_ok (Inr x) = True"

lemma bind_res_simps [simp, res_simps]:
  "bind_res (Inl e) f = Inl e"
  "bind_res (Inr x) f = f x"
  by (simp_all add: bind_res_def)

lemma bind_res_eq_Inr [res_simps]: "bind_res m f = Inr y \<longleftrightarrow> (\<exists>x. m = Inr x \<and> f x = Inr y)"
  by (cases m) simp_all

lemma bind_op_simps [simp, res_simps]:
  "bind_op (s, Inl e) f = (s, Inl e)"
  "bind_op (s, Inr x) f = f s x"
  by (simp_all add: bind_op_def)

lemma ensure_that_eq_Inr [simp, res_simps]: "ensure_that b e = Inr u \<longleftrightarrow> b"
  by (simp add: ensure_that_def)

lemma ensure_that_simps [simp]:
  "ensure_that True e = Inr ()"
  "ensure_that False e = Inl e"
  by (simp_all add: ensure_that_def)

lemma bind_ensure_eq_Inr [simp, res_simps]:
  "bind_res (ensure_that b e) f = Inr y \<longleftrightarrow> b \<and> f () = Inr y"
  by (simp add: ensure_that_def)

lemma is_ok_iff: "is_ok r \<longleftrightarrow> (\<exists>x. r = Inr x)"
  by (cases r) simp_all

lemma is_ok_unit [simp]: "is_ok (r :: 'e + unit) \<longleftrightarrow> r = Inr ()"
  by (cases r) simp_all

section \<open>Checked and saturating arithmetic\<close>

lemma unat_lt2p: "unat (w :: 'w::len word) < 2 ^ LENGTH('w)"
  by (rule unsigned_less)

lemma unat_of_nat_small: "n < 2 ^ LENGTH('w) \<Longrightarrow> unat (of_nat n :: 'w::len word) = n"
  by (simp add: unsigned_of_nat take_bit_nat_eq_self)

definition checked_add :: "'w::len word \<Rightarrow> 'w word \<Rightarrow> 'w word option" where
  "checked_add a b = (if unat a + unat b < 2 ^ LENGTH('w) then Some (a + b) else None)"

definition saturating_add :: "'w::len word \<Rightarrow> 'w word \<Rightarrow> 'w word" where
  "saturating_add a b = (if unat a + unat b < 2 ^ LENGTH('w) then a + b else - 1)"

definition saturating_sub :: "'w::len word \<Rightarrow> 'w word \<Rightarrow> 'w word" where
  "saturating_sub a b = (if a < b then 0 else a - b)"

lemma checked_add_Some_unat:
  "checked_add (a :: 'w::len word) b = Some c \<Longrightarrow> unat c = unat a + unat b"
  by (auto simp: checked_add_def unat_word_ariths split: if_splits)

lemma checked_add_1_Some:
  fixes a :: u64
  shows "checked_add a 1 = Some c \<longleftrightarrow> a \<noteq> - 1 \<and> c = a + 1"
proof -
  have lt: "unat a < 2 ^ 64"
    using unat_lt2p [of a] by simp
  have "unat a + 1 < 2 ^ 64 \<longleftrightarrow> a \<noteq> - 1"
  proof -
    have "unat (- 1 :: u64) = 2 ^ 64 - 1"
      by (simp add: unsigned_minus_1_eq_mask mask_eq_exp_minus_1)
    moreover have "a = - 1 \<longleftrightarrow> unat a = unat (- 1 :: u64)"
      by (rule word_unat_eq_iff)
    ultimately show ?thesis
      using lt by auto
  qed
  then show ?thesis
    by (auto simp: checked_add_def)
qed

lemma checked_add_1_less:
  fixes a :: u64
  assumes "checked_add a 1 = Some c"
  shows "a < c" and "c \<noteq> 0"
proof -
  have "unat c = unat a + 1"
    using checked_add_Some_unat [OF assms] by simp
  then show "a < c" and "c \<noteq> 0"
    by (auto simp: word_less_nat_alt unat_eq_zero [symmetric] simp del: unat_eq_zero)
qed

section \<open>Big-endian bytes\<close>

fun nat_to_be :: "nat \<Rightarrow> nat \<Rightarrow> bytes" where
  "nat_to_be 0 n = []"
| "nat_to_be (Suc k) n = nat_to_be k (n div 256) @ [of_nat (n mod 256)]"

definition be_to_nat :: "bytes \<Rightarrow> nat" where
  "be_to_nat bs = foldl (\<lambda>a b. a * 256 + unat b) 0 bs"

lemma length_nat_to_be [simp, byte_simps]: "length (nat_to_be k n) = k"
  by (induction k arbitrary: n) auto

lemma be_to_nat_snoc [simp]: "be_to_nat (bs @ [b]) = be_to_nat bs * 256 + unat b"
  by (simp add: be_to_nat_def)

lemma be_to_nat_Nil [simp]: "be_to_nat [] = 0"
  by (simp add: be_to_nat_def)

lemma unat_of_nat_byte [simp]: "unat (of_nat (n mod 256) :: u8) = n mod 256"
  by (simp add: unat_of_nat)

lemma be_to_nat_to_be: "be_to_nat (nat_to_be k n) = n mod 256 ^ k"
proof (induction k arbitrary: n)
  case 0
  then show ?case by simp
next
  case (Suc k)
  have "n mod 256 ^ Suc k = (n div 256) mod 256 ^ k * 256 + n mod 256"
    by (metis mod_mult2_eq mult.commute power_Suc add.commute)
  with Suc show ?case by simp
qed

lemma be_to_nat_less: "be_to_nat bs < 256 ^ length bs"
proof (induction bs rule: rev_induct)
  case Nil
  then show ?case by simp
next
  case (snoc b bs)
  have b: "unat b < 256"
    using unat_lt2p [of b] by simp
  from snoc have "be_to_nat bs + 1 \<le> 256 ^ length bs" by simp
  then have "(be_to_nat bs + 1) * 256 \<le> 256 ^ length bs * 256"
    by (rule mult_le_mono1)
  with b have "be_to_nat bs * 256 + unat b < 256 ^ length bs * 256"
    by simp
  then show ?case by simp
qed

lemma nat_to_be_of_be: "nat_to_be (length bs) (be_to_nat bs) = bs"
proof (induction bs rule: rev_induct)
  case Nil
  then show ?case by simp
next
  case (snoc b bs)
  have b: "unat b < 256"
    using unat_lt2p [of b] by simp
  have "(be_to_nat bs * 256 + unat b) div 256 = be_to_nat bs"
    and "(be_to_nat bs * 256 + unat b) mod 256 = unat b"
    using b by simp_all
  with snoc show ?case by simp
qed

definition to_be_bytes :: "'w::len word \<Rightarrow> bytes" where
  "to_be_bytes w = nat_to_be (LENGTH('w) div 8) (unat w)"

definition from_be_bytes :: "bytes \<Rightarrow> 'w::len word" where
  "from_be_bytes bs = of_nat (be_to_nat bs)"

lemma length_to_be_bytes [simp, byte_simps]: "length (to_be_bytes (w :: 'w::len word)) = LENGTH('w) div 8"
  by (simp add: to_be_bytes_def)

lemma from_to_be_aux:
  assumes "256 ^ (LENGTH('w) div 8) = (2::nat) ^ LENGTH('w)"
  shows "from_be_bytes (to_be_bytes w) = (w :: 'w::len word)"
proof -
  have "unat w < 2 ^ LENGTH('w)" by (rule unat_lt2p)
  with assms show ?thesis
    by (simp add: from_be_bytes_def to_be_bytes_def be_to_nat_to_be)
qed

lemma from_to_be_bytes [simp, byte_simps]:
  "from_be_bytes (to_be_bytes w8) = (w8 :: u8)"
  "from_be_bytes (to_be_bytes w16) = (w16 :: u16)"
  "from_be_bytes (to_be_bytes w32) = (w32 :: u32)"
  "from_be_bytes (to_be_bytes w64) = (w64 :: u64)"
  by (rule from_to_be_aux, simp)+

lemma to_from_be_aux:
  assumes "length bs = LENGTH('w) div 8" and "256 ^ (LENGTH('w) div 8) = (2::nat) ^ LENGTH('w)"
  shows "to_be_bytes (from_be_bytes bs :: 'w::len word) = bs"
proof -
  have "be_to_nat bs < 2 ^ LENGTH('w)"
    using be_to_nat_less [of bs] assms by simp
  then have "unat (of_nat (be_to_nat bs) :: 'w word) = be_to_nat bs"
    by (rule unat_of_nat_small)
  then show ?thesis
    using assms(1) nat_to_be_of_be [of bs] by (simp add: to_be_bytes_def from_be_bytes_def)
qed

lemma to_from_be_bytes [byte_simps]:
  "length bs = 2 \<Longrightarrow> to_be_bytes (from_be_bytes bs :: u16) = bs"
  "length bs = 4 \<Longrightarrow> to_be_bytes (from_be_bytes bs :: u32) = bs"
  "length bs = 8 \<Longrightarrow> to_be_bytes (from_be_bytes bs :: u64) = bs"
  by (rule to_from_be_aux; simp)+

text \<open>A fixed slice \<open>bytes[from..to]\<close> of a byte array.\<close>

definition slice :: "nat \<Rightarrow> nat \<Rightarrow> 'a list \<Rightarrow> 'a list" where
  "slice from_ix to_ix bs = take (to_ix - from_ix) (drop from_ix bs)"

lemma length_slice [simp]: "to_ix \<le> length bs \<Longrightarrow> length (slice from_ix to_ix bs) = to_ix - from_ix"
  by (simp add: slice_def)

lemma slice_prefix [byte_simps]:
  "slice (length xs) (length xs + length ys) (xs @ ys @ zs) = ys"
  by (simp add: slice_def)

lemma slice_skip: "length xs \<le> i \<Longrightarrow> slice i j (xs @ ys) = slice (i - length xs) (j - length xs) ys"
  by (simp add: slice_def)

section \<open>Decimal rendering\<close>

text \<open>\<open>format!("{id}")\<close> of an unsigned integer.\<close>

fun dec_digits :: "nat \<Rightarrow> string" where
  "dec_digits n =
     (if n < 10 then [char_of (48 + n)] else dec_digits (n div 10) @ [char_of (48 + n mod 10)])"

declare dec_digits.simps [simp del]

definition dec_value :: "string \<Rightarrow> nat" where
  "dec_value s = foldl (\<lambda>a c. a * 10 + (of_char c - 48)) 0 s"

lemma dec_value_snoc: "dec_value (s @ [c]) = dec_value s * 10 + (of_char c - 48)"
  by (simp add: dec_value_def)

lemma of_char_digit: "d < 10 \<Longrightarrow> of_char (char_of (48 + d) :: char) = (48 + d :: nat)"
  by simp

lemma dec_value_digits: "dec_value (dec_digits n) = n"
proof (induction n rule: dec_digits.induct)
  case (1 n)
  show ?case
  proof (cases "n < 10")
    case True
    then show ?thesis
      by (subst dec_digits.simps) (simp add: dec_value_def)
  next
    case False
    with 1 have IH: "dec_value (dec_digits (n div 10)) = n div 10" by simp
    from False show ?thesis
      by (subst dec_digits.simps) (simp add: dec_value_snoc IH)
  qed
qed

lemma dec_digits_inj: "dec_digits a = dec_digits b \<longleftrightarrow> a = b"
  by (metis dec_value_digits)

lemma dec_digits_nonempty [simp]: "dec_digits n \<noteq> []"
  by (subst dec_digits.simps) simp

lemma dec_digits_ascii: "c \<in> set (dec_digits n) \<Longrightarrow> (of_char c :: nat) < 128"
proof (induction n rule: dec_digits.induct)
  case (1 n)
  then show ?case
    by (subst (asm) (2) dec_digits.simps) (auto split: if_splits)
qed

lemma length_dec_digits: "n < 10 ^ k \<Longrightarrow> 0 < k \<Longrightarrow> length (dec_digits n) \<le> k"
proof (induction k arbitrary: n)
  case 0
  then show ?case by simp
next
  case (Suc k)
  show ?case
  proof (cases "n < 10")
    case True
    then show ?thesis by (subst dec_digits.simps) simp
  next
    case False
    with Suc.prems have k: "0 < k" by (cases k) auto
    have "n div 10 < 10 ^ k"
      using Suc.prems by (simp add: less_mult_imp_div_less mult.commute)
    then have "length (dec_digits (n div 10)) \<le> k"
      using k by (rule Suc.IH)
    with False show ?thesis by (subst dec_digits.simps) simp
  qed
qed

lemma length_dec_digits_u64: "length (dec_digits (unat (w :: u64))) \<le> 20"
proof -
  have "unat w < 2 ^ 64"
    using unat_lt2p [of w] by simp
  then have "unat w < 10 ^ 20" by simp
  then show ?thesis by (rule length_dec_digits) simp
qed

text \<open>\<open>u8::is_ascii_alphanumeric\<close> and \<open>str::is_ascii\<close> on the bytes of a string.\<close>

definition is_ascii_alphanumeric :: "char \<Rightarrow> bool" where
  "is_ascii_alphanumeric c \<longleftrightarrow>
     (let n = of_char c :: nat in 48 \<le> n \<and> n \<le> 57 \<or> 65 \<le> n \<and> n \<le> 90 \<or> 97 \<le> n \<and> n \<le> 122)"

definition is_ascii :: "string \<Rightarrow> bool" where
  "is_ascii s \<longleftrightarrow> list_all (\<lambda>c. (of_char c :: nat) < 128) s"

section \<open>Hash maps as association lists\<close>

text \<open>
  A \<open>HashMap\<close> is an association list with distinct keys, so that its length is the number of
  entries and it stays executable; \<open>AList.update\<close> is \<open>insert\<close> and \<open>AList.delete\<close> is \<open>remove\<close>.
\<close>

lemma map_of_delete_Some [simp]: "map_of (AList.delete k xs) k' = Some v \<longleftrightarrow> k' \<noteq> k \<and> map_of xs k' = Some v"
  by (auto simp: AList.delete_conv')

lemma length_delete_absent: "k \<notin> fst ` set xs \<Longrightarrow> AList.delete k xs = xs"
  by (induction xs) (auto simp: AList.delete_eq)

lemma length_delete_present:
  "distinct (map fst xs) \<Longrightarrow> k \<in> fst ` set xs \<Longrightarrow> Suc (length (AList.delete k xs)) = length xs"
proof (induction xs)
  case Nil
  then show ?case by simp
next
  case (Cons p xs)
  show ?case
  proof (cases "fst p = k")
    case True
    with Cons.prems have "k \<notin> fst ` set xs" by auto
    then have "AList.delete k xs = xs" by (rule length_delete_absent)
    with True show ?thesis by (cases p) (simp add: AList.delete_eq)
  next
    case False
    with Cons have "Suc (length (AList.delete k xs)) = length xs" by auto
    with False show ?thesis by (cases p) (simp add: AList.delete_eq)
  qed
qed

lemma length_update:
  "length (AList.update k v xs) = (if k \<in> fst ` set xs then length xs else Suc (length xs))"
  by (induction xs) auto

lemma map_of_in_keys: "map_of xs k = Some v \<Longrightarrow> k \<in> fst ` set xs"
  by (metis map_of_eq_None_iff option.distinct(1))

end
