(* ===== verification/Protocol_Base.thy ===== *)
theory Protocol_Base
  imports Prelude
begin

text \<open>
  The data and checks every part of the wire protocol shares: \<open>error.rs\<close>, the length-prefixed
  framing of \<open>framing.rs\<close>, the v1 handshake of \<open>handshake.rs\<close>, the permission bits of
  \<open>invitation.rs\<close>, the controller slot of \<open>input_v2.rs\<close> and the broadcast names of \<open>lib.rs\<close>
  (all under \<open>crates/sigil-protocol/src\<close>). \<open>serde_json\<close> is not part of the repository: its
  \<open>to_vec\<close> and \<open>from_slice\<close> are parameters of the framing functions.
\<close>

unbundle bit_operations_syntax

section \<open>Errors\<close>

datatype protocol_error =
    Io string
  | InvalidMediaMagic bytes
  | InvalidAudioMagic bytes
  | InvalidInvitationMagic bytes
  | UnsupportedVersion u16 u16
  | InvalidHeaderLength u8 u8
  | UnsupportedCodec u8
  | UnsupportedAudioCodec u8
  | UnsupportedFlags u8
  | InvalidDimensions u16 u16
  | InvalidMediaPayloadLength nat nat
  | InvalidAudioPayloadLength nat nat
  | InvalidMessageLength nat nat
  | InvalidMessage string string
  | Json

type_synonym 'a proto = "protocol_error + 'a"

abbreviation invalid :: "string \<Rightarrow> string \<Rightarrow> 'a proto" where
  "invalid message_type reason \<equiv> Inl (InvalidMessage message_type reason)"

section \<open>Constants and broadcast names (lib.rs)\<close>

definition PROTOCOL_VERSION :: u16 where "PROTOCOL_VERSION = 1"
definition PROTOCOL_VERSION_V2 :: u16 where "PROTOCOL_VERSION_V2 = 2"
definition MAX_MEDIA_PAYLOAD_LEN :: nat where "MAX_MEDIA_PAYLOAD_LEN = 16 * 1024 * 1024"
definition MAX_VIDEO_DIMENSION :: u16 where "MAX_VIDEO_DIMENSION = 8192"
definition MAX_VIDEO_PIXELS :: u32 where "MAX_VIDEO_PIXELS = 7680 * 4320"
definition MAX_INPUT_MESSAGE_LEN :: nat where "MAX_INPUT_MESSAGE_LEN = 4 * 1024"
definition MAX_HANDSHAKE_MESSAGE_LEN :: nat where "MAX_HANDSHAKE_MESSAGE_LEN = 16 * 1024"
definition MAX_AUDIO_PAYLOAD_LEN :: nat where "MAX_AUDIO_PAYLOAD_LEN = 512"
definition OPUS_SAMPLE_RATE :: u32 where "OPUS_SAMPLE_RATE = 48000"
definition OPUS_CHANNELS :: u8 where "OPUS_CHANNELS = 2"
definition OPUS_FRAME_SAMPLES :: u16 where "OPUS_FRAME_SAMPLES = 960"

definition media_moq_broadcast_name :: "u64 \<Rightarrow> string proto" where
  "media_moq_broadcast_name session_id =
     (if session_id = 0 then invalid ''MoQ broadcast name'' ''session id must be non-zero''
      else Inr (''sigil/session/'' @ dec_digits (unat session_id) @ ''/video''))"

definition media_generation_moq_broadcast_name :: "u64 \<Rightarrow> string proto" where
  "media_generation_moq_broadcast_name generation_id =
     (if generation_id = 0
      then invalid ''MoQ generation broadcast name'' ''generation id must be non-zero''
      else Inr (''sigil/generation/'' @ dec_digits (unat generation_id) @ ''/media''))"

lemma generation_name_inj:
  assumes "media_generation_moq_broadcast_name a = Inr n" "media_generation_moq_broadcast_name b = Inr n"
  shows "a = b"
  using assms
  by (auto simp: media_generation_moq_broadcast_name_def dec_digits_inj word_unat_eq_iff
      split: if_splits)

lemma session_name_inj:
  assumes "media_moq_broadcast_name a = Inr n" "media_moq_broadcast_name b = Inr n"
  shows "a = b"
  using assms
  by (auto simp: media_moq_broadcast_name_def dec_digits_inj word_unat_eq_iff split: if_splits)

lemma is_ascii_simps [simp]:
  "is_ascii []"
  "is_ascii (c # s) \<longleftrightarrow> (of_char c :: nat) < 128 \<and> is_ascii s"
  by (simp_all add: is_ascii_def)

lemma is_ascii_append [simp]: "is_ascii (s @ t) \<longleftrightarrow> is_ascii s \<and> is_ascii t"
  by (simp add: is_ascii_def)

lemma is_ascii_dec_digits [simp]: "is_ascii (dec_digits n)"
  by (auto simp: is_ascii_def list_all_iff dest: dec_digits_ascii)

lemma generation_name_ok:
  assumes "media_generation_moq_broadcast_name g = Inr n"
  shows "g \<noteq> 0" "n \<noteq> []" "length n \<le> 43" "is_ascii n"
proof -
  show "g \<noteq> 0" "n \<noteq> []" "length n \<le> 43" "is_ascii n"
    using assms length_dec_digits_u64 [of g]
    by (auto simp: media_generation_moq_broadcast_name_def split: if_splits)
qed

section \<open>Length-prefixed JSON framing (framing.rs)\<close>

text \<open>
  A reader is the list of bytes that are still to come before the peer closes the stream; a
  successful read returns what is left. \<open>read_exact\<close> past the end is an I/O error.
\<close>

definition read_prefix_or_eof :: "bytes \<Rightarrow> (bytes option \<times> bytes) proto" where
  "read_prefix_or_eof reader =
     (case reader of
        [] \<Rightarrow> Inr (None, [])
      | b # rest \<Rightarrow>
          if length rest < 3 then Inl (Io ''unexpected end of file'')
          else Inr (Some (b # take 3 rest), drop 3 rest))"

definition validate_message_length :: "nat \<Rightarrow> nat \<Rightarrow> unit proto" where
  "validate_message_length actual maximum =
     (if actual = 0 \<or> maximum < actual \<or> 2 ^ 32 - 1 < actual
      then Inl (InvalidMessageLength actual maximum) else Inr ())"

definition write_json :: "('a \<Rightarrow> bytes option) \<Rightarrow> 'a \<Rightarrow> nat \<Rightarrow> bytes proto" where
  "write_json to_vec v maximum =
     (case to_vec v of
        None \<Rightarrow> Inl Json
      | Some payload \<Rightarrow>
          bind_res (validate_message_length (length payload) maximum) (\<lambda>_.
            Inr (to_be_bytes (of_nat (length payload) :: u32) @ payload)))"

definition read_json :: "(bytes \<Rightarrow> 'a option) \<Rightarrow> bytes \<Rightarrow> nat \<Rightarrow> ('a option \<times> bytes) proto" where
  "read_json from_slice reader maximum =
     bind_res (read_prefix_or_eof reader) (\<lambda>(prefix, rest).
       case prefix of
         None \<Rightarrow> Inr (None, rest)
       | Some length_bytes \<Rightarrow>
           (let n = unat (from_be_bytes length_bytes :: u32) in
            bind_res (validate_message_length n maximum) (\<lambda>_.
              if length rest < n then Inl (Io ''unexpected end of file'')
              else (case from_slice (take n rest) of
                      None \<Rightarrow> Inl Json
                    | Some v \<Rightarrow> Inr (Some v, drop n rest)))))"

text \<open>
  The readers and writers of the message types: a decoded value is validated before it is
  returned and a value is validated before anything is written.
\<close>

definition write_validated :: "('a \<Rightarrow> unit proto) \<Rightarrow> ('a \<Rightarrow> bytes option) \<Rightarrow> 'a \<Rightarrow> nat \<Rightarrow> bytes proto" where
  "write_validated validate to_vec v maximum = bind_res (validate v) (\<lambda>_. write_json to_vec v maximum)"

definition read_validated :: "('a \<Rightarrow> unit proto) \<Rightarrow> (bytes \<Rightarrow> 'a option) \<Rightarrow> bytes \<Rightarrow> nat \<Rightarrow> ('a option \<times> bytes) proto" where
  "read_validated validate from_slice reader maximum =
     bind_res (read_json from_slice reader maximum) (\<lambda>(v, rest).
       case v of
         None \<Rightarrow> Inr (None, rest)
       | Some x \<Rightarrow> bind_res (validate x) (\<lambda>_. Inr (Some x, rest)))"

lemma read_prefix_append:
  "length p = 4 \<Longrightarrow> read_prefix_or_eof (p @ rest) = Inr (Some p, rest)"
  by (cases p) (auto simp: read_prefix_or_eof_def)

lemma validate_message_length_ok [simp]:
  "validate_message_length n m = Inr u \<longleftrightarrow> 0 < n \<and> n \<le> m \<and> n < 2 ^ 32"
  by (auto simp: validate_message_length_def)

lemma read_json_write_json:
  assumes w: "write_json to_vec v maximum = Inr out"
    and inv: "\<And>p. to_vec v = Some p \<Longrightarrow> from_slice p = Some v"
  shows "read_json from_slice (out @ rest) maximum = Inr (Some v, rest)"
proof -
  from w obtain p where p: "to_vec v = Some p" and len: "0 < length p" "length p \<le> maximum" "length p < 2 ^ 32"
    and out: "out = to_be_bytes (of_nat (length p) :: u32) @ p"
    by (auto simp: write_json_def res_simps split: option.splits)
  have n: "unat (of_nat (length p) :: u32) = length p"
    by (rule unat_of_nat_small) (use len in simp)
  have ok: "validate_message_length (length p) maximum = Inr ()"
    using len by simp
  have pre: "read_prefix_or_eof (out @ rest) = Inr (Some (to_be_bytes (of_nat (length p) :: u32)), p @ rest)"
    using read_prefix_append [of "to_be_bytes (of_nat (length p) :: u32)" "p @ rest"] by (simp add: out)
  show ?thesis
    unfolding read_json_def pre bind_res_simps prod.case option.case from_to_be_bytes n Let_def ok
    using inv [OF p] by simp
qed

lemma read_validated_ok_valid:
  "read_validated validate from_slice reader maximum = Inr (Some v, rest) \<Longrightarrow> validate v = Inr ()"
  by (auto simp: read_validated_def res_simps split: option.splits)

lemma read_write_validated:
  assumes w: "write_validated validate to_vec v maximum = Inr out"
    and inv: "\<And>p. to_vec v = Some p \<Longrightarrow> from_slice p = Some v"
  shows "read_validated validate from_slice (out @ rest) maximum = Inr (Some v, rest)"
proof -
  from w have v: "validate v = Inr ()" and j: "write_json to_vec v maximum = Inr out"
    by (auto simp: write_validated_def res_simps)
  have "read_json from_slice (out @ rest) maximum = Inr (Some v, rest)"
    by (rule read_json_write_json [OF j]) (rule inv)
  then show ?thesis
    by (simp add: read_validated_def v)
qed

text \<open>The peer-controlled length is checked before the payload is looked at.\<close>

lemma read_json_bounded:
  assumes "read_json from_slice reader maximum = Inr (Some v, rest)"
  shows "\<exists>p. reader = take 4 reader @ p @ rest \<and> 0 < length p \<and> length p \<le> maximum \<and> from_slice p = Some v"
proof -
  from assms obtain b r where reader: "reader = b # r" and r3: "\<not> length r < 3"
    by (auto simp: read_json_def read_prefix_or_eof_def res_simps split: list.splits if_splits)
  define n where "n = unat (from_be_bytes (b # take 3 r) :: u32)"
  from assms have n: "0 < n" "n \<le> maximum" "n \<le> length (drop 3 r)"
    and v: "from_slice (take n (drop 3 r)) = Some v" and rest: "rest = drop n (drop 3 r)"
    by (auto simp: read_json_def read_prefix_or_eof_def reader r3 res_simps n_def [symmetric]
        Let_def split: if_splits option.splits)
  have "reader = take 4 reader @ take n (drop 3 r) @ rest"
    unfolding rest append_take_drop_id using append_take_drop_id [of 3 r] by (simp add: reader)
  moreover have "length (take n (drop 3 r)) = n"
    using n by simp
  ultimately show ?thesis
    using n v by metis
qed

section \<open>Permission bits (invitation.rs)\<close>

datatype invitation_grants = InvitationGrants (grant_bits: u8)

definition GRANT_VIEW :: invitation_grants where "GRANT_VIEW = InvitationGrants 1"
definition GRANT_POINTER_KEYBOARD :: invitation_grants where "GRANT_POINTER_KEYBOARD = InvitationGrants 2"
definition GRANT_GAMEPAD :: invitation_grants where "GRANT_GAMEPAD = InvitationGrants 4"
definition GRANT_ALL :: invitation_grants where "GRANT_ALL = InvitationGrants 7"

definition grants_new :: "u8 \<Rightarrow> invitation_grants proto" where
  "grants_new bits =
     (if bits = 0 \<or> bits AND NOT (grant_bits GRANT_ALL) \<noteq> 0
      then invalid ''invitation grants'' ''grants must contain only known non-zero permission bits''
      else Inr (InvitationGrants bits))"

definition grants_contains :: "invitation_grants \<Rightarrow> invitation_grants \<Rightarrow> bool" where
  "grants_contains g required \<longleftrightarrow> grant_bits g AND grant_bits required = grant_bits required"

definition grants_union :: "invitation_grants \<Rightarrow> invitation_grants \<Rightarrow> invitation_grants" where
  "grants_union a b = InvitationGrants (grant_bits a OR grant_bits b)"

definition grants_validate :: "invitation_grants \<Rightarrow> unit proto" where
  "grants_validate g = bind_res (grants_new (grant_bits g)) (\<lambda>_. Inr ())"

text \<open>The test the host makes in several places before a viewer may inject input.\<close>

definition input_capable_grants :: "invitation_grants \<Rightarrow> bool" where
  "input_capable_grants g \<longleftrightarrow>
     grants_contains g GRANT_POINTER_KEYBOARD \<or> grants_contains g GRANT_GAMEPAD"

lemma grants_contains_refl [simp]: "grants_contains g g"
  by (simp add: grants_contains_def)

lemma grants_contains_union [simp]:
  "grants_contains (grants_union a b) a" "grants_contains (grants_union a b) b"
  by (auto simp: grants_contains_def grants_union_def bit_simps intro!: bit_eqI)

section \<open>Controller slot (input_v2.rs)\<close>

datatype controller_slot = ControllerSlot u8

definition SLOT_ZERO :: controller_slot where "SLOT_ZERO = ControllerSlot 0"

definition controller_slot_new :: "u8 \<Rightarrow> controller_slot proto" where
  "controller_slot_new value =
     (if value \<noteq> 0 then invalid ''controller slot'' ''only controller slot 0 is supported''
      else Inr (ControllerSlot value))"

fun controller_slot_validate :: "controller_slot \<Rightarrow> unit proto" where
  "controller_slot_validate (ControllerSlot v) = bind_res (controller_slot_new v) (\<lambda>_. Inr ())"

lemma controller_slot_validate_iff [simp]: "controller_slot_validate s = Inr u \<longleftrightarrow> s = SLOT_ZERO"
  by (cases s) (auto simp: controller_slot_new_def SLOT_ZERO_def)

lemma controller_slot_validate_ZERO [simp]: "controller_slot_validate SLOT_ZERO = Inr ()"
  by simp

section \<open>Handshake v1 (handshake.rs)\<close>

datatype capability =
    VideoH264 | AbsolutePointer | RelativePointer | Keyboard | Text_Capability | Gamepad_Capability
  | InputAck_Capability | PointerPositionFeedback | PointerVisibilityFeedback | AudioOpus

record pointer_surface_dimensions =
  psd_width :: u16
  psd_height :: u16

definition psd_validate :: "pointer_surface_dimensions \<Rightarrow> unit proto" where
  "psd_validate d =
     (if \<not> (64 \<le> psd_width d \<and> psd_width d \<le> 7680) \<or> \<not> (64 \<le> psd_height d \<and> psd_height d \<le> 4320)
      then invalid ''pointer surface dimensions'' ''width must be 64..=7680 and height must be 64..=4320''
      else Inr ())"

definition psd_new :: "u16 \<Rightarrow> u16 \<Rightarrow> pointer_surface_dimensions proto" where
  "psd_new w h =
     (let d = \<lparr>psd_width = w, psd_height = h\<rparr> in bind_res (psd_validate d) (\<lambda>_. Inr d))"

definition MAX_AGENT_LEN :: nat where "MAX_AGENT_LEN = 128"
definition MAX_REJECTION_MESSAGE_LEN :: nat where "MAX_REJECTION_MESSAGE_LEN = 512"
definition MAX_CAPABILITIES :: nat where "MAX_CAPABILITIES = 16"

text \<open>The loop that looks for each capability among the ones before it.\<close>

fun duplicate_capability :: "string \<Rightarrow> capability list \<Rightarrow> capability list \<Rightarrow> unit proto" where
  "duplicate_capability label seen [] = Inr ()"
| "duplicate_capability label seen (c # cs) =
     (if c \<in> set seen then invalid label ''duplicate capability''
      else duplicate_capability label (seen @ [c]) cs)"

definition hello_validate_capabilities :: "string \<Rightarrow> capability list \<Rightarrow> unit proto" where
  "hello_validate_capabilities label cs =
     (if MAX_CAPABILITIES < length cs then invalid label ''too many capabilities''
      else duplicate_capability label [] cs)"

lemma duplicate_capability_ok:
  "duplicate_capability label seen cs = Inr u \<longleftrightarrow> distinct cs \<and> set seen \<inter> set cs = {}"
  by (induction label seen cs rule: duplicate_capability.induct) auto

lemma hello_validate_capabilities_ok:
  "hello_validate_capabilities label cs = Inr u \<longleftrightarrow> length cs \<le> MAX_CAPABILITIES \<and> distinct cs"
  by (simp add: hello_validate_capabilities_def duplicate_capability_ok not_less)

definition validate_version :: "u16 \<Rightarrow> u16 \<Rightarrow> unit proto" where
  "validate_version expected actual =
     (if actual \<noteq> expected then Inl (UnsupportedVersion expected actual) else Inr ())"

lemma validate_version_ok [simp]: "validate_version e a = Inr u \<longleftrightarrow> a = e"
  by (simp add: validate_version_def)

definition validate_agent :: "string \<Rightarrow> string \<Rightarrow> unit proto" where
  "validate_agent label agent =
     (if agent = [] \<or> MAX_AGENT_LEN < length agent
      then invalid label ''agent must contain 1..=128 UTF-8 bytes'' else Inr ())"

record host_hello =
  hh_version :: u16
  hh_accepted :: bool
  hh_session_id :: "u64 option"
  hh_capabilities :: "capability list"
  hh_message :: "string option"
  hh_pointer_surface_dimensions :: "pointer_surface_dimensions option"

definition host_hello_accepted :: "u64 \<Rightarrow> capability list \<Rightarrow> host_hello" where
  "host_hello_accepted sid caps =
     \<lparr>hh_version = PROTOCOL_VERSION, hh_accepted = True, hh_session_id = Some sid,
      hh_capabilities = caps, hh_message = None, hh_pointer_surface_dimensions = None\<rparr>"

definition host_hello_rejected :: "string \<Rightarrow> host_hello" where
  "host_hello_rejected message =
     \<lparr>hh_version = PROTOCOL_VERSION, hh_accepted = False, hh_session_id = None,
      hh_capabilities = [], hh_message = Some message, hh_pointer_surface_dimensions = None\<rparr>"

definition host_hello_validate :: "host_hello \<Rightarrow> unit proto" where
  "host_hello_validate h =
     bind_res (validate_version PROTOCOL_VERSION (hh_version h)) (\<lambda>_.
     bind_res (hello_validate_capabilities ''hello'' (hh_capabilities h)) (\<lambda>_.
     if hh_accepted h \<noteq> (hh_session_id h \<noteq> None)
     then invalid ''host hello'' ''accepted responses require a session id; rejections forbid one''
     else bind_res
       (case hh_message h of
          None \<Rightarrow> Inr ()
        | Some m \<Rightarrow> if m = [] \<or> MAX_REJECTION_MESSAGE_LEN < length m
                    then invalid ''host hello'' ''message must contain 1..=512 UTF-8 bytes'' else Inr ()) (\<lambda>_.
     if \<not> hh_accepted h \<and> hh_message h = None
     then invalid ''host hello'' ''rejections require a message''
     else (case hh_pointer_surface_dimensions h of
             None \<Rightarrow> Inr ()
           | Some d \<Rightarrow>
               bind_res (psd_validate d) (\<lambda>_.
                 if \<not> hh_accepted h \<or> VideoH264 \<notin> set (hh_capabilities h)
                 then invalid ''host hello'' ''pointer surface dimensions require accepted H.264 media''
                 else Inr ())))))"

end
