(* ===== verification/Tokens.thy ===== *)
theory Tokens
  imports Protocol_Base
begin

text \<open>
  The two signed tokens of the protocol: enrollment invitations (\<open>invitation.rs\<close>) and
  endpoint-bound subscription capabilities (\<open>subscription.rs\<close>). Ed25519 and base64url come from
  external crates; they are a parameter of type \<open>crypto\<close> of every definition that calls them, and
  \<open>crypto_ok\<close> names the documented behaviour the round-trip theorems rely on. A Rust array
  \<open>[u8; n]\<close> is a list whose length the \<open>_typed\<close> predicates state.
\<close>

section \<open>Signature and text-encoding primitives\<close>

record crypto =
  valid_public_key :: "bytes \<Rightarrow> bool"
  public_key_of :: "bytes \<Rightarrow> bytes"
  sign_with :: "bytes \<Rightarrow> bytes \<Rightarrow> bytes"
  verify_strict :: "bytes \<Rightarrow> bytes \<Rightarrow> bytes \<Rightarrow> bool"
  base64url_encode :: "bytes \<Rightarrow> string"
  base64url_decode :: "string \<Rightarrow> bytes option"

definition is_ascii_whitespace :: "char \<Rightarrow> bool" where
  "is_ascii_whitespace c \<longleftrightarrow> (of_char c :: nat) \<in> {9, 10, 12, 13, 32}"

definition token_char :: "char \<Rightarrow> bool" where
  "token_char c \<longleftrightarrow> c \<noteq> CHR ''='' \<and> \<not> is_ascii_whitespace c"

definition crypto_ok :: "crypto \<Rightarrow> bool" where
  "crypto_ok c \<longleftrightarrow>
     (\<forall>sk. length sk = 32 \<longrightarrow> valid_public_key c (public_key_of c sk)) \<and>
     (\<forall>sk m. length sk = 32 \<longrightarrow>
        length (sign_with c sk m) = 64 \<and> verify_strict c (public_key_of c sk) m (sign_with c sk m)) \<and>
     (\<forall>b. base64url_decode c (base64url_encode c b) = Some b \<and>
        length (base64url_encode c b) \<le> (4 * length b + 2) div 3 \<and>
        list_all token_char (base64url_encode c b))"

lemma crypto_ok_sign:
  assumes "crypto_ok c" "length sk = 32"
  shows "length (sign_with c sk m) = 64" "verify_strict c (public_key_of c sk) m (sign_with c sk m)"
  using assms by (auto simp: crypto_ok_def)

lemma crypto_ok_base64:
  assumes "crypto_ok c"
  shows "base64url_decode c (base64url_encode c b) = Some b"
    "length (base64url_encode c b) \<le> (4 * length b + 2) div 3"
    "list_all token_char (base64url_encode c b)"
  using assms by (auto simp: crypto_ok_def)

section \<open>Invitations\<close>

definition ascii_bytes :: "string \<Rightarrow> bytes" where
  "ascii_bytes s = map of_char s"

definition INVITATION_MAGIC :: bytes where "INVITATION_MAGIC = ascii_bytes ''SGIV''"
definition INVITATION_CLAIMS_LEN :: nat where "INVITATION_CLAIMS_LEN = 127"
definition SIGNATURE_LEN :: nat where "SIGNATURE_LEN = 64"
definition INVITATION_LEN :: nat where "INVITATION_LEN = INVITATION_CLAIMS_LEN + SIGNATURE_LEN"
definition INVITATION_SIGNATURE_DOMAIN :: bytes where
  "INVITATION_SIGNATURE_DOMAIN = ascii_bytes ''goq.sh/sigil-invitation/v1'' @ [0]"
definition INVITATION_TOKEN_PREFIX :: string where "INVITATION_TOKEN_PREFIX = ''goq-invite-v1.''"
definition MAX_INVITATION_TOKEN_LEN :: nat where "MAX_INVITATION_TOKEN_LEN = 384"
definition MAX_INVITATION_TTL_SECS :: u64 where "MAX_INVITATION_TTL_SECS = 15 * 60"
definition INVITATION_CLOCK_SKEW_SECS :: u64 where "INVITATION_CLOCK_SKEW_SECS = 60"

record invitation_claims =
  ic_host_node_id :: bytes
  ic_intended_peer_id :: bytes
  ic_issued_at_unix :: u64
  ic_expires_at_unix :: u64
  ic_enrollment_epoch :: u64
  ic_nonce :: bytes
  ic_grants :: invitation_grants

definition invitation_claims_typed :: "invitation_claims \<Rightarrow> bool" where
  "invitation_claims_typed cl \<longleftrightarrow>
     length (ic_host_node_id cl) = 32 \<and> length (ic_intended_peer_id cl) = 32 \<and> length (ic_nonce cl) = 32"

definition invitation_claims_validate :: "crypto \<Rightarrow> invitation_claims \<Rightarrow> unit proto" where
  "invitation_claims_validate c cl =
     bind_res (grants_validate (ic_grants cl)) (\<lambda>_.
     if ic_expires_at_unix cl \<le> ic_issued_at_unix cl
        \<or> MAX_INVITATION_TTL_SECS < ic_expires_at_unix cl - ic_issued_at_unix cl
     then invalid ''invitation claims'' ''invitation lifetime must be 1..=900 seconds''
     else if ic_enrollment_epoch cl = 0
     then invalid ''invitation claims'' ''enrollment epoch must be non-zero''
     else if ic_nonce cl = replicate 32 0
     then invalid ''invitation claims'' ''invitation nonce must be non-zero''
     else if \<not> valid_public_key c (ic_host_node_id cl)
     then invalid ''invitation claims'' ''host node ID is not a valid Ed25519 public key''
     else if \<not> valid_public_key c (ic_intended_peer_id cl)
     then invalid ''invitation claims'' ''intended peer ID is not a valid Ed25519 public key''
     else Inr ())"

definition invitation_claims_new ::
  "crypto \<Rightarrow> bytes \<Rightarrow> bytes \<Rightarrow> u64 \<Rightarrow> u64 \<Rightarrow> u64 \<Rightarrow> bytes \<Rightarrow> invitation_grants \<Rightarrow> invitation_claims proto" where
  "invitation_claims_new c host peer issued expires epoch nonce grants =
     (let cl = \<lparr>ic_host_node_id = host, ic_intended_peer_id = peer, ic_issued_at_unix = issued,
                ic_expires_at_unix = expires, ic_enrollment_epoch = epoch, ic_nonce = nonce,
                ic_grants = grants\<rparr>
      in bind_res (invitation_claims_validate c cl) (\<lambda>_. Inr cl))"

definition invitation_claims_encode :: "invitation_claims \<Rightarrow> bytes" where
  "invitation_claims_encode cl =
     INVITATION_MAGIC @ to_be_bytes PROTOCOL_VERSION @ ic_host_node_id cl @ ic_intended_peer_id cl @
     to_be_bytes (ic_issued_at_unix cl) @ to_be_bytes (ic_expires_at_unix cl) @
     to_be_bytes (ic_enrollment_epoch cl) @ ic_nonce cl @ [grant_bits (ic_grants cl)]"

definition invitation_signing_message :: "invitation_claims \<Rightarrow> bytes" where
  "invitation_signing_message cl = INVITATION_SIGNATURE_DOMAIN @ invitation_claims_encode cl"

record signed_invitation =
  si_claims :: invitation_claims
  si_signature :: bytes

definition invitation_issue :: "crypto \<Rightarrow> invitation_claims \<Rightarrow> bytes \<Rightarrow> signed_invitation proto" where
  "invitation_issue c cl host_secret =
     bind_res (invitation_claims_validate c cl) (\<lambda>_.
     if public_key_of c host_secret \<noteq> ic_host_node_id cl
     then invalid ''invitation claims'' ''signing key does not match the claimed host''
     else Inr \<lparr>si_claims = cl, si_signature = sign_with c host_secret (invitation_signing_message cl)\<rparr>)"

definition invitation_verify :: "crypto \<Rightarrow> signed_invitation \<Rightarrow> unit proto" where
  "invitation_verify c si =
     bind_res (invitation_claims_validate c (si_claims si)) (\<lambda>_.
     if \<not> valid_public_key c (ic_host_node_id (si_claims si))
     then invalid ''invitation'' ''invalid host verification key''
     else if verify_strict c (ic_host_node_id (si_claims si)) (invitation_signing_message (si_claims si)) (si_signature si)
     then Inr () else invalid ''invitation'' ''signature verification failed'')"

definition invitation_encode :: "crypto \<Rightarrow> signed_invitation \<Rightarrow> string" where
  "invitation_encode c si =
     INVITATION_TOKEN_PREFIX @ base64url_encode c (invitation_claims_encode (si_claims si) @ si_signature si)"

fun strip_prefix :: "string \<Rightarrow> string \<Rightarrow> string option" where
  "strip_prefix [] s = Some s"
| "strip_prefix (p # ps) [] = None"
| "strip_prefix (p # ps) (x # s) = (if p = x then strip_prefix ps s else None)"

definition invitation_decode :: "crypto \<Rightarrow> string \<Rightarrow> signed_invitation proto" where
  "invitation_decode c token =
     (if MAX_INVITATION_TOKEN_LEN < length token \<or> CHR ''='' \<in> set token \<or> list_ex is_ascii_whitespace token
      then invalid ''invitation'' ''token is oversized or non-canonical''
      else case strip_prefix INVITATION_TOKEN_PREFIX token of
        None \<Rightarrow> invalid ''invitation'' ''token prefix is invalid''
      | Some encoded \<Rightarrow>
      (case base64url_decode c encoded of
        None \<Rightarrow> invalid ''invitation'' ''token is not canonical base64url''
      | Some bs \<Rightarrow>
      if length bs \<noteq> INVITATION_LEN then Inl (InvalidMessageLength (length bs) INVITATION_LEN)
      else if slice 0 4 bs \<noteq> INVITATION_MAGIC then Inl (InvalidInvitationMagic (slice 0 4 bs))
      else bind_res (validate_version PROTOCOL_VERSION (from_be_bytes (slice 4 6 bs))) (\<lambda>_.
      bind_res (grants_new (bs ! 126)) (\<lambda>grants.
      bind_res (invitation_claims_new c (slice 6 38 bs) (slice 38 70 bs)
                 (from_be_bytes (slice 70 78 bs)) (from_be_bytes (slice 78 86 bs))
                 (from_be_bytes (slice 86 94 bs)) (slice 94 126 bs) grants) (\<lambda>claims.
      let si = \<lparr>si_claims = claims, si_signature = drop INVITATION_CLAIMS_LEN bs\<rparr> in
      bind_res (invitation_verify c si) (\<lambda>_.
      if invitation_encode c si \<noteq> token
      then invalid ''invitation'' ''token encoding is not canonical''
      else Inr si))))))"

section \<open>Subscription capabilities\<close>

definition SUBSCRIPTION_MAGIC :: bytes where "SUBSCRIPTION_MAGIC = ascii_bytes ''SGSC''"
definition SUBSCRIPTION_VERSION :: u16 where "SUBSCRIPTION_VERSION = 1"
definition SUBSCRIPTION_CLAIMS_LEN :: nat where "SUBSCRIPTION_CLAIMS_LEN = 136"
definition CAPABILITY_LEN :: nat where "CAPABILITY_LEN = SUBSCRIPTION_CLAIMS_LEN + SIGNATURE_LEN"
definition SUBSCRIPTION_SIGNATURE_DOMAIN :: bytes where
  "SUBSCRIPTION_SIGNATURE_DOMAIN = ascii_bytes ''goq.sh/sigil-subscription/v1'' @ [0]"
definition SUBSCRIPTION_CAPABILITY_TOKEN_PREFIX :: string where
  "SUBSCRIPTION_CAPABILITY_TOKEN_PREFIX = ''goq-subscription-v1.''"
definition MAX_SUBSCRIPTION_CAPABILITY_TOKEN_LEN :: nat where "MAX_SUBSCRIPTION_CAPABILITY_TOKEN_LEN = 320"
definition MAX_SUBSCRIPTION_TTL_SECS :: u64 where "MAX_SUBSCRIPTION_TTL_SECS = 15 * 60"

datatype subscription_tracks = SubscriptionTracks (track_bits: u8)

definition TRACK_VIDEO_H264 :: subscription_tracks where "TRACK_VIDEO_H264 = SubscriptionTracks 1"
definition TRACK_AUDIO_OPUS :: subscription_tracks where "TRACK_AUDIO_OPUS = SubscriptionTracks 2"
definition TRACK_ALL :: subscription_tracks where "TRACK_ALL = SubscriptionTracks 3"

definition tracks_new :: "u8 \<Rightarrow> subscription_tracks proto" where
  "tracks_new bits =
     (if bits = 0 \<or> bits AND NOT (track_bits TRACK_ALL) \<noteq> 0
      then invalid ''subscription tracks'' ''tracks must contain only known non-zero bits''
      else Inr (SubscriptionTracks bits))"

definition tracks_contains :: "subscription_tracks \<Rightarrow> subscription_tracks \<Rightarrow> bool" where
  "tracks_contains t required \<longleftrightarrow> track_bits t AND track_bits required = track_bits required"

record subscription_claims =
  sc_host_node_id :: bytes
  sc_media_generation_id :: u64
  sc_subscriber_endpoint_id :: bytes
  sc_tracks :: subscription_tracks
  sc_authorization_revision :: u64
  sc_issued_at_unix :: u64
  sc_expires_at_unix :: u64
  sc_nonce :: bytes
  sc_relay_hops :: u8

definition subscription_claims_typed :: "subscription_claims \<Rightarrow> bool" where
  "subscription_claims_typed cl \<longleftrightarrow>
     length (sc_host_node_id cl) = 32 \<and> length (sc_subscriber_endpoint_id cl) = 32 \<and> length (sc_nonce cl) = 32"

definition subscription_claims_validate :: "crypto \<Rightarrow> subscription_claims \<Rightarrow> unit proto" where
  "subscription_claims_validate c cl =
     bind_res (tracks_new (track_bits (sc_tracks cl))) (\<lambda>_.
     if sc_media_generation_id cl = 0 \<or> sc_authorization_revision cl = 0
     then invalid ''subscription capability'' ''media generation and authorization revision must be non-zero''
     else if sc_relay_hops cl \<noteq> 1
     then invalid ''subscription capability'' ''exactly one authorized relay hop is required''
     else if sc_expires_at_unix cl \<le> sc_issued_at_unix cl
        \<or> MAX_SUBSCRIPTION_TTL_SECS < sc_expires_at_unix cl - sc_issued_at_unix cl
     then invalid ''subscription capability'' ''capability lifetime must be within 1..=900 seconds''
     else if sc_nonce cl = replicate 32 0
     then invalid ''subscription capability'' ''nonce must be non-zero''
     else if \<not> valid_public_key c (sc_host_node_id cl)
     then invalid ''subscription capability'' ''host node id is not an Ed25519 public key''
     else if \<not> valid_public_key c (sc_subscriber_endpoint_id cl)
     then invalid ''subscription capability'' ''subscriber endpoint id is not an Ed25519 public key''
     else Inr ())"

definition subscription_claims_new ::
  "crypto \<Rightarrow> bytes \<Rightarrow> u64 \<Rightarrow> bytes \<Rightarrow> subscription_tracks \<Rightarrow> u64 \<Rightarrow> u64 \<Rightarrow> u64 \<Rightarrow> bytes \<Rightarrow> u8 \<Rightarrow> subscription_claims proto" where
  "subscription_claims_new c host gen subscriber tracks revision issued expires nonce hops =
     (let cl = \<lparr>sc_host_node_id = host, sc_media_generation_id = gen,
                sc_subscriber_endpoint_id = subscriber, sc_tracks = tracks,
                sc_authorization_revision = revision, sc_issued_at_unix = issued,
                sc_expires_at_unix = expires, sc_nonce = nonce, sc_relay_hops = hops\<rparr>
      in bind_res (subscription_claims_validate c cl) (\<lambda>_. Inr cl))"

definition subscription_claims_encode :: "subscription_claims \<Rightarrow> bytes" where
  "subscription_claims_encode cl =
     SUBSCRIPTION_MAGIC @ to_be_bytes SUBSCRIPTION_VERSION @ [sc_relay_hops cl] @ [track_bits (sc_tracks cl)] @
     sc_host_node_id cl @ to_be_bytes (sc_media_generation_id cl) @ sc_subscriber_endpoint_id cl @
     to_be_bytes (sc_authorization_revision cl) @ to_be_bytes (sc_issued_at_unix cl) @
     to_be_bytes (sc_expires_at_unix cl) @ sc_nonce cl"

definition subscription_signing_message :: "subscription_claims \<Rightarrow> bytes" where
  "subscription_signing_message cl = SUBSCRIPTION_SIGNATURE_DOMAIN @ subscription_claims_encode cl"

record signed_subscription_capability =
  sub_claims :: subscription_claims
  sub_signature :: bytes

definition subscription_issue :: "crypto \<Rightarrow> subscription_claims \<Rightarrow> bytes \<Rightarrow> signed_subscription_capability proto" where
  "subscription_issue c cl host_secret =
     bind_res (subscription_claims_validate c cl) (\<lambda>_.
     if public_key_of c host_secret \<noteq> sc_host_node_id cl
     then invalid ''subscription capability'' ''host signing key does not match the capability host''
     else Inr \<lparr>sub_claims = cl, sub_signature = sign_with c host_secret (subscription_signing_message cl)\<rparr>)"

definition subscription_verify :: "crypto \<Rightarrow> signed_subscription_capability \<Rightarrow> unit proto" where
  "subscription_verify c cap =
     bind_res (subscription_claims_validate c (sub_claims cap)) (\<lambda>_.
     if \<not> valid_public_key c (sc_host_node_id (sub_claims cap))
     then invalid ''subscription capability'' ''invalid host verification key''
     else if verify_strict c (sc_host_node_id (sub_claims cap))
               (subscription_signing_message (sub_claims cap)) (sub_signature cap)
     then Inr () else invalid ''subscription capability'' ''host signature verification failed'')"

definition verify_binding ::
  "crypto \<Rightarrow> signed_subscription_capability \<Rightarrow> bytes \<Rightarrow> u64 \<Rightarrow> bytes \<Rightarrow> subscription_tracks \<Rightarrow> u64 \<Rightarrow> u64 \<Rightarrow> unit proto" where
  "verify_binding c cap expected_host expected_generation expected_subscriber required_tracks
     expected_authorization_revision now_unix =
     (let cl = sub_claims cap in
     bind_res (subscription_verify c cap) (\<lambda>_.
     if sc_host_node_id cl \<noteq> expected_host
     then invalid ''subscription capability'' ''capability is bound to another host''
     else if sc_media_generation_id cl \<noteq> expected_generation
     then invalid ''subscription capability'' ''capability is bound to another media generation''
     else if sc_subscriber_endpoint_id cl \<noteq> expected_subscriber
     then invalid ''subscription capability'' ''capability is bound to another subscriber''
     else if \<not> tracks_contains (sc_tracks cl) required_tracks
     then invalid ''subscription capability'' ''capability does not authorize the required tracks''
     else if sc_authorization_revision cl \<noteq> expected_authorization_revision
     then invalid ''subscription capability'' ''capability authorization revision is stale''
     else if now_unix < sc_issued_at_unix cl \<or> sc_expires_at_unix cl < now_unix
     then invalid ''subscription capability'' ''capability is not currently valid''
     else Inr ()))"

definition subscription_encode :: "crypto \<Rightarrow> signed_subscription_capability \<Rightarrow> string" where
  "subscription_encode c cap =
     SUBSCRIPTION_CAPABILITY_TOKEN_PREFIX @
     base64url_encode c (subscription_claims_encode (sub_claims cap) @ sub_signature cap)"

definition subscription_decode :: "crypto \<Rightarrow> string \<Rightarrow> signed_subscription_capability proto" where
  "subscription_decode c token =
     (if MAX_SUBSCRIPTION_CAPABILITY_TOKEN_LEN < length token \<or> CHR ''='' \<in> set token
         \<or> list_ex is_ascii_whitespace token
      then invalid ''subscription capability'' ''capability token is oversized or non-canonical''
      else case strip_prefix SUBSCRIPTION_CAPABILITY_TOKEN_PREFIX token of
        None \<Rightarrow> invalid ''subscription capability'' ''capability token prefix is invalid''
      | Some encoded \<Rightarrow>
      (case base64url_decode c encoded of
        None \<Rightarrow> invalid ''subscription capability'' ''capability token is not canonical base64url''
      | Some bs \<Rightarrow>
      if length bs \<noteq> CAPABILITY_LEN then Inl (InvalidMessageLength (length bs) CAPABILITY_LEN)
      else if slice 0 4 bs \<noteq> SUBSCRIPTION_MAGIC
      then invalid ''subscription capability'' ''capability magic is invalid''
      else bind_res (validate_version SUBSCRIPTION_VERSION (from_be_bytes (slice 4 6 bs))) (\<lambda>_.
      bind_res (tracks_new (bs ! 7)) (\<lambda>tracks.
      bind_res (subscription_claims_new c (slice 8 40 bs) (from_be_bytes (slice 40 48 bs))
                 (slice 48 80 bs) tracks (from_be_bytes (slice 80 88 bs))
                 (from_be_bytes (slice 88 96 bs)) (from_be_bytes (slice 96 104 bs))
                 (slice 104 136 bs) (bs ! 6)) (\<lambda>claims.
      let cap = \<lparr>sub_claims = claims, sub_signature = drop SUBSCRIPTION_CLAIMS_LEN bs\<rparr> in
      bind_res (subscription_verify c cap) (\<lambda>_.
      if subscription_encode c cap \<noteq> token
      then invalid ''subscription capability'' ''capability encoding is not canonical''
      else Inr cap))))))"

section \<open>Round trips\<close>

lemma strip_prefix_append [simp]: "strip_prefix p (p @ s) = Some s"
  by (induction p) auto

lemma strip_prefix_Some: "strip_prefix p t = Some s \<longleftrightarrow> t = p @ s"
  by (induction p t rule: strip_prefix.induct) auto

text \<open>
  A token built from a clean prefix and a base64url payload passes the first check of the
  decoders: no padding, no white space, bounded length.
\<close>

lemma token_clean:
  assumes "list_all token_char p" "list_all token_char s"
  shows "CHR ''='' \<notin> set (p @ s)" "\<not> list_ex is_ascii_whitespace (p @ s)"
  using assms by (auto simp: token_char_def list_all_iff list_ex_iff)

lemma prefix_clean:
  "list_all token_char INVITATION_TOKEN_PREFIX" "list_all token_char SUBSCRIPTION_CAPABILITY_TOKEN_PREFIX"
  by (simp_all add: INVITATION_TOKEN_PREFIX_def SUBSCRIPTION_CAPABILITY_TOKEN_PREFIX_def
      token_char_def is_ascii_whitespace_def)

lemma grants_new_ok:
  "grants_validate g = Inr () \<Longrightarrow> grants_new (grant_bits g) = Inr g"
  by (cases g) (auto simp: grants_validate_def grants_new_def split: if_splits)

lemma tracks_new_ok:
  "tracks_new (track_bits t) = Inr u \<Longrightarrow> tracks_new (track_bits t) = Inr t"
  by (cases t) (auto simp: tracks_new_def split: if_splits)

lemma magic_lengths [simp]: "length INVITATION_MAGIC = 4" "length SUBSCRIPTION_MAGIC = 4"
  by (simp_all add: INVITATION_MAGIC_def SUBSCRIPTION_MAGIC_def ascii_bytes_def)

lemma invitation_bytes:
  assumes "invitation_claims_typed cl" "length sig = 64"
  defines "bs \<equiv> invitation_claims_encode cl @ sig"
  shows "length bs = INVITATION_LEN" "slice 0 4 bs = INVITATION_MAGIC"
    "slice 4 6 bs = to_be_bytes PROTOCOL_VERSION" "bs ! 126 = grant_bits (ic_grants cl)"
    "slice 6 38 bs = ic_host_node_id cl" "slice 38 70 bs = ic_intended_peer_id cl"
    "slice 70 78 bs = to_be_bytes (ic_issued_at_unix cl)" "slice 78 86 bs = to_be_bytes (ic_expires_at_unix cl)"
    "slice 86 94 bs = to_be_bytes (ic_enrollment_epoch cl)" "slice 94 126 bs = ic_nonce cl"
    "drop INVITATION_CLAIMS_LEN bs = sig"
  using assms(1,2)
  by (simp_all add: bs_def invitation_claims_encode_def invitation_claims_typed_def slice_def
      INVITATION_LEN_def INVITATION_CLAIMS_LEN_def SIGNATURE_LEN_def nth_append)

lemma subscription_bytes:
  assumes "subscription_claims_typed cl" "length sig = 64"
  defines "bs \<equiv> subscription_claims_encode cl @ sig"
  shows "length bs = CAPABILITY_LEN" "slice 0 4 bs = SUBSCRIPTION_MAGIC"
    "slice 4 6 bs = to_be_bytes SUBSCRIPTION_VERSION" "bs ! 6 = sc_relay_hops cl"
    "bs ! 7 = track_bits (sc_tracks cl)"
    "slice 8 40 bs = sc_host_node_id cl" "slice 40 48 bs = to_be_bytes (sc_media_generation_id cl)"
    "slice 48 80 bs = sc_subscriber_endpoint_id cl"
    "slice 80 88 bs = to_be_bytes (sc_authorization_revision cl)"
    "slice 88 96 bs = to_be_bytes (sc_issued_at_unix cl)"
    "slice 96 104 bs = to_be_bytes (sc_expires_at_unix cl)" "slice 104 136 bs = sc_nonce cl"
    "drop SUBSCRIPTION_CLAIMS_LEN bs = sig"
  using assms(1,2)
  by (simp_all add: bs_def subscription_claims_encode_def subscription_claims_typed_def slice_def
      CAPABILITY_LEN_def SUBSCRIPTION_CLAIMS_LEN_def SIGNATURE_LEN_def nth_append)

lemma invitation_issue_verified:
  assumes "crypto_ok c" "length sk = 32" "invitation_issue c cl sk = Inr si"
  shows "invitation_verify c si = Inr ()" "si_claims si = cl" "length (si_signature si) = 64"
    "invitation_claims_validate c cl = Inr ()"
  using assms crypto_ok_sign [OF assms(1,2)]
  by (auto simp: invitation_issue_def invitation_verify_def invitation_claims_validate_def res_simps
      split: if_splits)

lemma subscription_issue_verified:
  assumes "crypto_ok c" "length sk = 32" "subscription_issue c cl sk = Inr cap"
  shows "subscription_verify c cap = Inr ()" "sub_claims cap = cl" "length (sub_signature cap) = 64"
    "subscription_claims_validate c cl = Inr ()"
  using assms crypto_ok_sign [OF assms(1,2)]
  by (auto simp: subscription_issue_def subscription_verify_def subscription_claims_validate_def res_simps
      split: if_splits)

lemma invitation_claims_rebuild:
  "invitation_claims_validate c cl = Inr () \<Longrightarrow>
   invitation_claims_new c (ic_host_node_id cl) (ic_intended_peer_id cl) (ic_issued_at_unix cl)
     (ic_expires_at_unix cl) (ic_enrollment_epoch cl) (ic_nonce cl) (ic_grants cl) = Inr cl"
  by (cases cl) (simp add: invitation_claims_new_def)

lemma subscription_claims_rebuild:
  "subscription_claims_validate c cl = Inr () \<Longrightarrow>
   subscription_claims_new c (sc_host_node_id cl) (sc_media_generation_id cl) (sc_subscriber_endpoint_id cl)
     (sc_tracks cl) (sc_authorization_revision cl) (sc_issued_at_unix cl) (sc_expires_at_unix cl)
     (sc_nonce cl) (sc_relay_hops cl) = Inr cl"
  by (cases cl) (simp add: subscription_claims_new_def)

lemma signed_rebuild [simp]:
  "\<lparr>si_claims = si_claims si, si_signature = si_signature si\<rparr> = si"
  "\<lparr>sub_claims = sub_claims cap, sub_signature = sub_signature cap\<rparr> = cap"
  by simp_all

lemma invitation_decode_encode:
  assumes c: "crypto_ok c" and typed: "invitation_claims_typed (si_claims si)"
    and sig: "length (si_signature si) = 64" and v: "invitation_verify c si = Inr ()"
  shows "invitation_decode c (invitation_encode c si) = Inr si"
proof -
  define bs where "bs = invitation_claims_encode (si_claims si) @ si_signature si"
  note facts = invitation_bytes [OF typed sig, folded bs_def]
  have enc: "invitation_encode c si = INVITATION_TOKEN_PREFIX @ base64url_encode c bs"
    by (simp add: invitation_encode_def bs_def)
  note b64 = crypto_ok_base64 [OF c, of bs]
  have len: "length (invitation_encode c si) \<le> MAX_INVITATION_TOKEN_LEN"
    using b64(2) facts(1) by (simp add: enc INVITATION_TOKEN_PREFIX_def MAX_INVITATION_TOKEN_LEN_def
        INVITATION_LEN_def INVITATION_CLAIMS_LEN_def SIGNATURE_LEN_def)
  have valid: "invitation_claims_validate c (si_claims si) = Inr ()"
    using v by (auto simp: invitation_verify_def res_simps)
  then have g: "grants_new (grant_bits (ic_grants (si_claims si))) = Inr (ic_grants (si_claims si))"
    by (intro grants_new_ok) (auto simp: invitation_claims_validate_def res_simps)
  show ?thesis
    using len token_clean [OF prefix_clean(1) b64(3)] v valid
    by (simp add: invitation_decode_def enc b64(1) facts g invitation_claims_rebuild
        validate_version_def Let_def)
qed

lemma subscription_decode_encode:
  assumes c: "crypto_ok c" and typed: "subscription_claims_typed (sub_claims cap)"
    and sig: "length (sub_signature cap) = 64" and v: "subscription_verify c cap = Inr ()"
  shows "subscription_decode c (subscription_encode c cap) = Inr cap"
proof -
  define bs where "bs = subscription_claims_encode (sub_claims cap) @ sub_signature cap"
  note facts = subscription_bytes [OF typed sig, folded bs_def]
  have enc: "subscription_encode c cap = SUBSCRIPTION_CAPABILITY_TOKEN_PREFIX @ base64url_encode c bs"
    by (simp add: subscription_encode_def bs_def)
  note b64 = crypto_ok_base64 [OF c, of bs]
  have len: "length (subscription_encode c cap) \<le> MAX_SUBSCRIPTION_CAPABILITY_TOKEN_LEN"
    using b64(2) facts(1) by (simp add: enc SUBSCRIPTION_CAPABILITY_TOKEN_PREFIX_def
        MAX_SUBSCRIPTION_CAPABILITY_TOKEN_LEN_def CAPABILITY_LEN_def SUBSCRIPTION_CLAIMS_LEN_def SIGNATURE_LEN_def)
  have valid: "subscription_claims_validate c (sub_claims cap) = Inr ()"
    using v by (auto simp: subscription_verify_def res_simps)
  then have t: "tracks_new (track_bits (sc_tracks (sub_claims cap))) = Inr (sc_tracks (sub_claims cap))"
    by (auto simp: subscription_claims_validate_def res_simps intro: tracks_new_ok)
  show ?thesis
    using len token_clean [OF prefix_clean(2) b64(3)] v valid
    by (simp add: subscription_decode_def enc b64(1) facts t subscription_claims_rebuild
        validate_version_def Let_def)
qed

text \<open>What a decoder accepts is verified and is the only spelling of its value.\<close>

lemma invitation_decode_Inr:
  assumes "invitation_decode c token = Inr si"
  shows "invitation_verify c si = Inr ()" "invitation_encode c si = token"
    "invitation_claims_validate c (si_claims si) = Inr ()" "length token \<le> MAX_INVITATION_TOKEN_LEN"
  using assms
  by (auto simp: invitation_decode_def invitation_verify_def res_simps Let_def
      split: if_splits option.splits)

lemma subscription_decode_Inr:
  assumes "subscription_decode c token = Inr cap"
  shows "subscription_verify c cap = Inr ()" "subscription_encode c cap = token"
    "subscription_claims_validate c (sub_claims cap) = Inr ()"
    "length token \<le> MAX_SUBSCRIPTION_CAPABILITY_TOKEN_LEN"
  using assms
  by (auto simp: subscription_decode_def subscription_verify_def res_simps Let_def
      split: if_splits option.splits)

end
