(* ===== verification/Control_Protocol.thy ===== *)
theory Control_Protocol
  imports Tokens
begin

text \<open>
  The control protocol v2 (\<open>crates/sigil-protocol/src/control_v2.rs\<close>): presence identifiers, the
  focus state of controller slot 0, hand-off proposals, session snapshots, focus commands and
  their results, the control envelopes and the two hellos, each with the validation that runs on
  both sides of the wire.
\<close>

section \<open>Presence identifiers\<close>

definition MAX_PRESENCE_ID_LEN :: nat where "MAX_PRESENCE_ID_LEN = 32"
definition MAX_BROADCAST_NAME_LEN :: nat where "MAX_BROADCAST_NAME_LEN = 128"
definition MAX_SESSION_ROSTER_VIEWERS :: nat where "MAX_SESSION_ROSTER_VIEWERS = 8"
definition MAX_CONTROL_V2_MESSAGE_LEN :: nat where "MAX_CONTROL_V2_MESSAGE_LEN = 32 * 1024"

datatype viewer_presence_id = ViewerPresenceId (presence_str: string)

definition presence_new :: "string \<Rightarrow> viewer_presence_id proto" where
  "presence_new v =
     (if v = [] \<or> MAX_PRESENCE_ID_LEN < length v
         \<or> \<not> list_all (\<lambda>b. is_ascii_alphanumeric b \<or> b = CHR ''-'') v
      then invalid ''viewer presence id''
             ''presence id must contain 1..=32 ASCII letters, digits, or hyphens''
      else Inr (ViewerPresenceId v))"

definition presence_validate :: "viewer_presence_id \<Rightarrow> unit proto" where
  "presence_validate p = bind_res (presence_new (presence_str p)) (\<lambda>_. Inr ())"

text \<open>\<open>#[derive(Ord)]\<close> on the newtype compares the strings bytewise.\<close>

instantiation viewer_presence_id :: linorder
begin

definition less_eq_viewer_presence_id :: "viewer_presence_id \<Rightarrow> viewer_presence_id \<Rightarrow> bool" where
  "less_eq_viewer_presence_id a b \<longleftrightarrow> presence_str a \<le> presence_str b"

definition less_viewer_presence_id :: "viewer_presence_id \<Rightarrow> viewer_presence_id \<Rightarrow> bool" where
  "less_viewer_presence_id a b \<longleftrightarrow> presence_str a < presence_str b"

instance
  by standard (auto simp: less_eq_viewer_presence_id_def less_viewer_presence_id_def
      viewer_presence_id.expand)

end

lemma presence_new_valid: "presence_new v = Inr p \<Longrightarrow> presence_validate p = Inr () \<and> presence_str p = v"
  by (auto simp: presence_new_def presence_validate_def split: if_splits)

record viewer_presence_v2 =
  vp_presence_id :: viewer_presence_id
  vp_session_id :: u64
  vp_input_capable :: bool
  vp_you :: bool

definition viewer_presence_validate :: "viewer_presence_v2 \<Rightarrow> unit proto" where
  "viewer_presence_validate v =
     bind_res (presence_validate (vp_presence_id v)) (\<lambda>_.
     if vp_session_id v = 0 then invalid ''viewer presence'' ''session id must be non-zero'' else Inr ())"

section \<open>Focus state and proposals\<close>

datatype focus_transition_reason_v2 =
    Initial | Requested | HandoffRequested | HandoffApproved | HandoffDenied | ProposalExpired
  | Preempted | ActivationExpired | Released | Disconnected | Replaced | Revoked

datatype focus_state_v2 =
    Vacant (fs_slot: controller_slot)
  | Held (fs_slot: controller_slot) (fs_holder: viewer_presence_id) (fs_session_id: u64)
      (fs_focus_generation: u64)
  | Neutralizing (fs_slot: controller_slot) (fs_former_holder: viewer_presence_id)
      (fs_former_session_id: u64) (fs_former_focus_generation: u64) (fs_transition_id: u64)

definition focus_state_validate :: "focus_state_v2 \<Rightarrow> unit proto" where
  "focus_state_validate fs =
     bind_res (controller_slot_validate (fs_slot fs)) (\<lambda>_.
     (case fs of
        Vacant slot \<Rightarrow> Inr ()
      | Held slot holder session_id focus_generation \<Rightarrow>
          bind_res (presence_validate holder) (\<lambda>_.
          if session_id = 0 \<or> focus_generation = 0
          then invalid ''focus state'' ''held focus requires non-zero session and focus generations''
          else Inr ())
      | Neutralizing slot former_holder former_session_id former_focus_generation transition_id \<Rightarrow>
          bind_res (presence_validate former_holder) (\<lambda>_.
          if former_session_id = 0 \<or> former_focus_generation = 0 \<or> transition_id = 0
          then invalid ''focus state'' ''neutralizing focus requires non-zero generations and transition id''
          else Inr ())))"

record focus_proposal_v2 =
  fp_proposal_id :: u64
  fp_slot :: controller_slot
  fp_requester :: viewer_presence_id
  fp_requester_session_id :: u64
  fp_holder :: viewer_presence_id
  fp_holder_session_id :: u64
  fp_expires_at_unix_ms :: u64

definition focus_proposal_validate :: "focus_proposal_v2 \<Rightarrow> unit proto" where
  "focus_proposal_validate p =
     (if fp_proposal_id p = 0 \<or> fp_requester_session_id p = 0 \<or> fp_holder_session_id p = 0
         \<or> fp_expires_at_unix_ms p = 0
      then invalid ''focus proposal'' ''proposal, session, and expiry identifiers must be non-zero''
      else bind_res (controller_slot_validate (fp_slot p)) (\<lambda>_.
           bind_res (presence_validate (fp_requester p)) (\<lambda>_.
           bind_res (presence_validate (fp_holder p)) (\<lambda>_.
           if fp_requester p = fp_holder p \<and> fp_requester_session_id p = fp_holder_session_id p
           then invalid ''focus proposal'' ''holder cannot request focus from itself''
           else Inr ()))))"

record media_generation_descriptor_v2 =
  mg_generation_id :: u64
  mg_broadcast_name :: string

definition media_generation_validate :: "media_generation_descriptor_v2 \<Rightarrow> unit proto" where
  "media_generation_validate m =
     (if mg_generation_id m = 0 then invalid ''media generation'' ''generation id must be non-zero''
      else if mg_broadcast_name m = [] \<or> MAX_BROADCAST_NAME_LEN < length (mg_broadcast_name m)
              \<or> \<not> is_ascii (mg_broadcast_name m)
      then invalid ''media generation'' ''broadcast name must contain 1..=128 ASCII bytes''
      else Inr ())"

section \<open>Session snapshots\<close>

record session_snapshot_v2 =
  ss_revision :: u64
  ss_self_presence_id :: viewer_presence_id
  ss_viewers :: "viewer_presence_v2 list"
  ss_focus :: focus_state_v2
  ss_focus_proposal :: "focus_proposal_v2 option"
  ss_self_is_focus_owner :: bool
  ss_transition_reason :: focus_transition_reason_v2
  ss_media :: media_generation_descriptor_v2

text \<open>
  The roster loop of \<open>validate\<close>: the identities seen so far (a \<open>BTreeSet\<close>) and the number of
  entries marked \<open>you\<close>.
\<close>

fun roster_loop ::
  "viewer_presence_id \<Rightarrow> viewer_presence_id list \<Rightarrow> nat \<Rightarrow> viewer_presence_v2 list
   \<Rightarrow> (viewer_presence_id list \<times> nat) proto" where
  "roster_loop self ids n [] = Inr (ids, n)"
| "roster_loop self ids n (v # vs) =
     bind_res (viewer_presence_validate v) (\<lambda>_.
     if vp_presence_id v \<in> set ids
     then invalid ''session snapshot'' ''roster contains a duplicate identity''
     else if vp_you v
     then (if vp_presence_id v \<noteq> self
           then invalid ''session snapshot'' ''the you marker does not match self identity''
           else roster_loop self (vp_presence_id v # ids) (n + 1) vs)
     else roster_loop self (vp_presence_id v # ids) n vs)"

definition snapshot_focus_validate :: "session_snapshot_v2 \<Rightarrow> unit proto" where
  "snapshot_focus_validate s =
     bind_res (focus_state_validate (ss_focus s)) (\<lambda>_.
     (case ss_focus s of
        Held slot holder session_id focus_generation \<Rightarrow>
          if \<not> list_ex (\<lambda>v. vp_presence_id v = holder \<and> vp_session_id v = session_id) (ss_viewers s)
          then invalid ''session snapshot'' ''focus holder is absent from the roster'' else Inr ()
      | Vacant slot \<Rightarrow> Inr ()
      | Neutralizing slot h si g t \<Rightarrow> Inr ()))"

definition snapshot_proposal_validate :: "session_snapshot_v2 \<Rightarrow> unit proto" where
  "snapshot_proposal_validate s =
     (case ss_focus_proposal s of
        None \<Rightarrow> Inr ()
      | Some p \<Rightarrow>
          bind_res (focus_proposal_validate p) (\<lambda>_.
          (case ss_focus s of
             Held slot holder session_id focus_generation \<Rightarrow>
               if slot \<noteq> fp_slot p \<or> holder \<noteq> fp_holder p \<or> session_id \<noteq> fp_holder_session_id p
               then invalid ''session snapshot'' ''focus proposal does not match the authoritative holder''
               else if \<not> list_ex (\<lambda>v. vp_presence_id v = fp_requester p
                          \<and> vp_session_id v = fp_requester_session_id p \<and> vp_input_capable v) (ss_viewers s)
               then invalid ''session snapshot'' ''focus proposal requester is absent or not input-capable''
               else Inr ()
           | Vacant slot \<Rightarrow> invalid ''session snapshot'' ''focus proposals require a held slot''
           | Neutralizing slot h si g t \<Rightarrow> invalid ''session snapshot'' ''focus proposals require a held slot'')))"

definition snapshot_validate :: "session_snapshot_v2 \<Rightarrow> unit proto" where
  "snapshot_validate s =
     (if ss_revision s = 0 then invalid ''session snapshot'' ''revision must be non-zero''
      else bind_res (presence_validate (ss_self_presence_id s)) (\<lambda>_.
      if ss_viewers s = [] \<or> MAX_SESSION_ROSTER_VIEWERS < length (ss_viewers s)
      then invalid ''session snapshot'' ''roster must contain 1..=8 viewers''
      else bind_res (roster_loop (ss_self_presence_id s) [] 0 (ss_viewers s)) (\<lambda>(ids, self_entries).
      if self_entries \<noteq> 1 \<or> ss_self_presence_id s \<notin> set ids
      then invalid ''session snapshot'' ''roster requires exactly one matching you entry''
      else bind_res (snapshot_focus_validate s) (\<lambda>_.
           bind_res (snapshot_proposal_validate s) (\<lambda>_.
           media_generation_validate (ss_media s))))))"

text \<open>\<open>expect\<close> panics when no entry matches, which the model shows as \<open>None\<close>.\<close>

definition self_viewer :: "session_snapshot_v2 \<Rightarrow> viewer_presence_v2 option" where
  "self_viewer s = find (\<lambda>v. vp_presence_id v = ss_self_presence_id s) (ss_viewers s)"

definition self_focus_generation :: "session_snapshot_v2 \<Rightarrow> u64 option" where
  "self_focus_generation s =
     (case ss_focus s of
        Held slot holder session_id focus_generation \<Rightarrow>
          if holder = ss_self_presence_id s \<and> Some session_id = map_option vp_session_id (self_viewer s)
          then Some focus_generation else None
      | Vacant slot \<Rightarrow> None
      | Neutralizing slot h si g t \<Rightarrow> None)"

section \<open>Focus commands\<close>

datatype focus_command_action_v2 = Request | Approve | Deny | Release | Preempt

record focus_command_v2 =
  fc_request_id :: u64
  fc_action :: focus_command_action_v2
  fc_slot :: controller_slot
  fc_expected_revision :: u64
  fc_expected_focus_generation :: "u64 option"
  fc_expected_proposal_id :: "u64 option"

definition nonzero_option :: "u64 option \<Rightarrow> u64 option" where
  "nonzero_option x = (case x of None \<Rightarrow> None | Some v \<Rightarrow> if v \<noteq> 0 then Some v else None)"

definition focus_command_validate :: "focus_command_v2 \<Rightarrow> unit proto" where
  "focus_command_validate c =
     (if fc_request_id c = 0 \<or> fc_expected_revision c = 0
      then invalid ''focus command'' ''request id and expected revision must be non-zero''
      else bind_res (controller_slot_validate (fc_slot c)) (\<lambda>_.
      let focus_generation = nonzero_option (fc_expected_focus_generation c);
          proposal_id = nonzero_option (fc_expected_proposal_id c)
      in (case fc_action c of
            Request \<Rightarrow>
              if focus_generation \<noteq> None \<or> proposal_id \<noteq> None
              then invalid ''focus command'' ''focus requests forbid expected ownership'' else Inr ()
          | Approve \<Rightarrow>
              if focus_generation = None \<or> proposal_id = None
              then invalid ''focus command'' ''handoff decisions require focus generation and proposal id''
              else Inr ()
          | Deny \<Rightarrow>
              if focus_generation = None \<or> proposal_id = None
              then invalid ''focus command'' ''handoff decisions require focus generation and proposal id''
              else Inr ()
          | Release \<Rightarrow>
              if focus_generation = None \<or> proposal_id \<noteq> None
              then invalid ''focus command'' ''release and preempt require only a focus generation'' else Inr ()
          | Preempt \<Rightarrow>
              if focus_generation = None \<or> proposal_id \<noteq> None
              then invalid ''focus command'' ''release and preempt require only a focus generation'' else Inr ())))"

record focus_command_result_v2 =
  fr_request_id :: u64
  fr_accepted :: bool
  fr_revision :: u64
  fr_message :: "string option"

definition focus_command_result_validate :: "focus_command_result_v2 \<Rightarrow> unit proto" where
  "focus_command_result_validate r =
     (if fr_request_id r = 0 \<or> fr_revision r = 0
      then invalid ''focus command result'' ''request id and revision must be non-zero''
      else if (case fr_message r of None \<Rightarrow> False
               | Some m \<Rightarrow> m = [] \<or> MAX_REJECTION_MESSAGE_LEN < length m)
      then invalid ''focus command result'' ''message must contain 1..=512 UTF-8 bytes''
      else if fr_accepted r \<and> fr_message r \<noteq> None
      then invalid ''focus command result'' ''accepted results must not carry a message''
      else if \<not> fr_accepted r \<and> fr_message r = None
      then invalid ''focus command result'' ''rejected results require a message''
      else Inr ())"

datatype control_keyframe_reason_v2 = Join | DecoderReset | TransportGap | DeliveryTimeout | FrontendBackpressure

datatype client_control_envelope_v2 =
    Focus_Envelope focus_command_v2
  | Keyframe_Envelope u64 "u64 option" control_keyframe_reason_v2

fun client_control_validate :: "client_control_envelope_v2 \<Rightarrow> unit proto" where
  "client_control_validate (Focus_Envelope command) = focus_command_validate command"
| "client_control_validate (Keyframe_Envelope request_id last_sequence reason) =
     (if request_id = 0 then invalid ''client control envelope v2'' ''request id must be non-zero''
      else Inr ())"

datatype server_control_envelope_v2 =
    Snapshot_Envelope session_snapshot_v2
  | FocusResult_Envelope focus_command_result_v2

fun server_control_validate :: "server_control_envelope_v2 \<Rightarrow> unit proto" where
  "server_control_validate (Snapshot_Envelope snapshot) = snapshot_validate snapshot"
| "server_control_validate (FocusResult_Envelope result) = focus_command_result_validate result"

section \<open>Hellos\<close>

record client_hello_v2 =
  ch_version :: u16
  ch_agent :: string
  ch_nonce :: bytes
  ch_capabilities :: "capability list"
  ch_invitation :: "string option"

definition client_hello_v2_validate :: "crypto \<Rightarrow> client_hello_v2 \<Rightarrow> unit proto" where
  "client_hello_v2_validate c h =
     bind_res (validate_version PROTOCOL_VERSION_V2 (ch_version h)) (\<lambda>_.
     bind_res (validate_agent ''client hello v2'' (ch_agent h)) (\<lambda>_.
     bind_res (hello_validate_capabilities ''hello v2'' (ch_capabilities h)) (\<lambda>_.
     (case ch_invitation h of
        None \<Rightarrow> Inr ()
      | Some invitation \<Rightarrow>
          if MAX_INVITATION_TOKEN_LEN < length invitation
          then invalid ''client hello v2'' ''invitation exceeds the bounded token length''
          else bind_res (invitation_decode c invitation) (\<lambda>_. Inr ())))))"

record host_hello_v2 =
  h2_version :: u16
  h2_accepted :: bool
  h2_session_id :: "u64 option"
  h2_capabilities :: "capability list"
  h2_message :: "string option"
  h2_pointer_surface_dimensions :: "pointer_surface_dimensions option"
  h2_snapshot :: "session_snapshot_v2 option"
  h2_media_subscription_capability :: "string option"
  h2_media_authorization_revision :: "u64 option"

definition host_hello_v2_accepted :: "u64 \<Rightarrow> capability list \<Rightarrow> session_snapshot_v2 \<Rightarrow> host_hello_v2" where
  "host_hello_v2_accepted session_id caps snapshot =
     \<lparr>h2_version = PROTOCOL_VERSION_V2, h2_accepted = True, h2_session_id = Some session_id,
      h2_capabilities = caps, h2_message = None, h2_pointer_surface_dimensions = None,
      h2_snapshot = Some snapshot, h2_media_subscription_capability = None,
      h2_media_authorization_revision = None\<rparr>"

definition host_hello_v2_rejected :: "string \<Rightarrow> host_hello_v2" where
  "host_hello_v2_rejected message =
     \<lparr>h2_version = PROTOCOL_VERSION_V2, h2_accepted = False, h2_session_id = None,
      h2_capabilities = [], h2_message = Some message, h2_pointer_surface_dimensions = None,
      h2_snapshot = None, h2_media_subscription_capability = None,
      h2_media_authorization_revision = None\<rparr>"

definition with_media_subscription_capability :: "host_hello_v2 \<Rightarrow> string \<Rightarrow> u64 \<Rightarrow> host_hello_v2" where
  "with_media_subscription_capability h capability authorization_revision =
     h\<lparr>h2_media_subscription_capability := Some capability,
       h2_media_authorization_revision := Some authorization_revision\<rparr>"

text \<open>The two parts of \<open>HostHelloV2::validate\<close> for accepted responses.\<close>

definition hello_capability_validate :: "crypto \<Rightarrow> host_hello_v2 \<Rightarrow> session_snapshot_v2 \<Rightarrow> unit proto" where
  "hello_capability_validate c h snapshot =
     (case (h2_media_subscription_capability h, h2_media_authorization_revision h) of
        (Some capability, Some authorization_revision) \<Rightarrow>
          bind_res (subscription_decode c capability) (\<lambda>cap.
          if sc_media_generation_id (sub_claims cap) \<noteq> mg_generation_id (ss_media snapshot)
          then invalid ''host hello v2'' ''subscription capability generation does not match the snapshot''
          else if authorization_revision = 0
                  \<or> sc_authorization_revision (sub_claims cap) \<noteq> authorization_revision
          then invalid ''host hello v2''
                 ''subscription capability revision does not match the advertised authorization revision''
          else Inr ())
      | (None, None) \<Rightarrow> Inr ()
      | _ \<Rightarrow> invalid ''host hello v2''
               ''a subscription capability and its authorization revision must be advertised together'')"

definition host_hello_v2_accepted_validate :: "crypto \<Rightarrow> host_hello_v2 \<Rightarrow> unit proto" where
  "host_hello_v2_accepted_validate c h =
     (case nonzero_option (h2_session_id h) of
        None \<Rightarrow> invalid ''host hello v2'' ''accepted responses require a non-zero session id''
      | Some session_id \<Rightarrow>
          if h2_message h \<noteq> None then invalid ''host hello v2'' ''accepted responses forbid a message''
          else (case h2_snapshot h of
             None \<Rightarrow> invalid ''host hello v2'' ''accepted responses require an initial snapshot''
           | Some snapshot \<Rightarrow>
               bind_res (snapshot_validate snapshot) (\<lambda>_.
               if map_option vp_session_id (self_viewer snapshot) \<noteq> Some session_id
               then invalid ''host hello v2'' ''snapshot session does not match host hello''
               else hello_capability_validate c h snapshot)))"

definition host_hello_v2_validate :: "crypto \<Rightarrow> host_hello_v2 \<Rightarrow> unit proto" where
  "host_hello_v2_validate c h =
     bind_res (validate_version PROTOCOL_VERSION_V2 (h2_version h)) (\<lambda>_.
     bind_res (hello_validate_capabilities ''hello v2'' (h2_capabilities h)) (\<lambda>_.
     bind_res
       (if h2_accepted h then host_hello_v2_accepted_validate c h
        else if h2_session_id h \<noteq> None \<or> h2_snapshot h \<noteq> None
             \<or> h2_media_subscription_capability h \<noteq> None \<or> h2_media_authorization_revision h \<noteq> None
             \<or> (case h2_message h of None \<Rightarrow> True
                | Some m \<Rightarrow> m = [] \<or> MAX_REJECTION_MESSAGE_LEN < length m)
        then invalid ''host hello v2'' ''rejections require a bounded message and forbid session state''
        else Inr ()) (\<lambda>_.
     (case h2_pointer_surface_dimensions h of
        None \<Rightarrow> Inr ()
      | Some d \<Rightarrow>
          bind_res (psd_validate d) (\<lambda>_.
          if \<not> h2_accepted h \<or> VideoH264 \<notin> set (h2_capabilities h)
          then invalid ''host hello v2'' ''pointer dimensions require accepted H.264 media''
          else Inr ())))))"

section \<open>What validation means\<close>

lemma viewer_presence_validate_ok:
  "viewer_presence_validate v = Inr u \<longleftrightarrow> presence_validate (vp_presence_id v) = Inr () \<and> vp_session_id v \<noteq> 0"
  by (auto simp: viewer_presence_validate_def res_simps)

text \<open>
  The loop succeeds exactly on rosters of valid entries with distinct identities, new to the
  accumulator, in which only the viewer itself is marked \<open>you\<close>.
\<close>

lemma roster_loop_ok:
  "roster_loop self ids n vs = Inr (ids', n') \<longleftrightarrow>
     (\<forall>v \<in> set vs. viewer_presence_validate v = Inr () \<and> (vp_you v \<longrightarrow> vp_presence_id v = self)) \<and>
     distinct (map vp_presence_id vs) \<and> set ids \<inter> vp_presence_id ` set vs = {} \<and>
     ids' = rev (map vp_presence_id vs) @ ids \<and> n' = n + length (filter vp_you vs)"
proof (induction vs arbitrary: ids n)
  case Nil
  then show ?case by auto
next
  case (Cons v vs)
  show ?case
    by (cases "viewer_presence_validate v") (auto simp: Cons.IH)
qed

lemma roster_self_unique:
  assumes "distinct (map vp_presence_id vs)" "\<forall>v \<in> set vs. vp_you v \<longrightarrow> vp_presence_id v = self"
    "length (filter vp_you vs) = 1"
  shows "\<exists>v \<in> set vs. vp_you v \<and> vp_presence_id v = self \<and> find (\<lambda>v. vp_presence_id v = self) vs = Some v"
  using assms
proof (induction vs)
  case Nil
  then show ?case by simp
next
  case (Cons w vs)
  show ?case
  proof (cases "vp_you w")
    case True
    with Cons.prems show ?thesis by auto
  next
    case False
    with Cons.prems have n: "length (filter vp_you vs) = 1" by simp
    from Cons.IH [OF _ _ n] Cons.prems obtain v where
      v: "v \<in> set vs" "vp_you v" "vp_presence_id v = self" "find (\<lambda>v. vp_presence_id v = self) vs = Some v"
      by auto
    have "vp_presence_id w \<notin> vp_presence_id ` set vs"
      using Cons.prems(1) by simp
    moreover have "self \<in> vp_presence_id ` set vs"
      using v(1) v(3) by (metis imageI)
    ultimately have "vp_presence_id w \<noteq> self"
      by metis
    with v show ?thesis by auto
  qed
qed

text \<open>The whole check, as one characterisation.\<close>

definition snapshot_wf :: "session_snapshot_v2 \<Rightarrow> bool" where
  "snapshot_wf s \<longleftrightarrow>
     ss_revision s \<noteq> 0 \<and> presence_validate (ss_self_presence_id s) = Inr () \<and>
     ss_viewers s \<noteq> [] \<and> length (ss_viewers s) \<le> MAX_SESSION_ROSTER_VIEWERS \<and>
     (\<forall>v \<in> set (ss_viewers s). viewer_presence_validate v = Inr () \<and>
        (vp_you v \<longrightarrow> vp_presence_id v = ss_self_presence_id s)) \<and>
     distinct (map vp_presence_id (ss_viewers s)) \<and>
     length (filter vp_you (ss_viewers s)) = 1 \<and>
     snapshot_focus_validate s = Inr () \<and> snapshot_proposal_validate s = Inr () \<and>
     media_generation_validate (ss_media s) = Inr ()"

lemma snapshot_validate_ok: "snapshot_validate s = Inr u \<longleftrightarrow> snapshot_wf s"
proof -
  have self: "length (filter vp_you (ss_viewers s)) = 1 \<Longrightarrow>
      \<forall>v \<in> set (ss_viewers s). vp_you v \<longrightarrow> vp_presence_id v = ss_self_presence_id s \<Longrightarrow>
      ss_self_presence_id s \<in> vp_presence_id ` set (ss_viewers s)"
    by (metis (no_types, lifting) One_nat_def filter_empty_conv image_eqI list.size(3) zero_neq_one)
  show ?thesis
    unfolding snapshot_validate_def snapshot_wf_def
    using self by (auto simp: bind_res_eq_Inr roster_loop_ok not_less)
qed

lemma snapshot_wf_self:
  assumes "snapshot_wf s"
  shows "\<exists>v \<in> set (ss_viewers s). vp_you v \<and> self_viewer s = Some v \<and> vp_presence_id v = ss_self_presence_id s"
  using roster_self_unique [of "ss_viewers s" "ss_self_presence_id s"] assms
  by (auto simp: snapshot_wf_def self_viewer_def)

end
