(* ===== verification/Rate_Window.thy ===== *)
theory Rate_Window
  imports Protocol_Base
begin

text \<open>
  The errors of the host (\<open>anyhow::Error\<close>) and the sliding-window rate limit that the session
  registry applies to admissions, MoQ attachments, keyframe requests and feedback claims
  (\<open>RateWindow\<close> in \<open>crates/sigil-host/src/server/session.rs\<close>). The locale \<open>sliding_window\<close> is the
  contract a limiter gives its clients; the focus arbiter's own limiter satisfies it as well.
\<close>

section \<open>Host errors\<close>

text \<open>
  \<open>anyhow\<close> errors are text; the parts that \<open>format!\<close> interpolates are left out of the text.
\<close>

datatype host_error = Host string | Protocol protocol_error

type_synonym 'a host = "host_error + 'a"

definition lift_proto :: "'a proto \<Rightarrow> 'a host" where
  "lift_proto r = (case r of Inl e \<Rightarrow> Inl (Protocol e) | Inr x \<Rightarrow> Inr x)"

lemma lift_proto_simps [simp, res_simps]:
  "lift_proto (Inl e) = Inl (Protocol e)"
  "lift_proto (Inr x) = Inr x"
  by (simp_all add: lift_proto_def)

lemma lift_proto_eq_Inr [simp, res_simps]: "lift_proto r = Inr x \<longleftrightarrow> r = Inr x"
  by (cases r) simp_all

section \<open>Rate windows\<close>

record rate_window =
  rw_events :: "instant list"
  rw_last_seen :: "instant option"

definition rate_window_default :: rate_window where
  "rate_window_default = \<lparr>rw_events = [], rw_last_seen = None\<rparr>"

definition rate_window_check ::
  "instant \<Rightarrow> duration \<Rightarrow> nat \<Rightarrow> string \<Rightarrow> rate_window \<Rightarrow> rate_window \<times> unit host" where
  "rate_window_check now window maximum label rw =
     (let events = dropWhile (\<lambda>event. window \<le> now - event) (rw_events rw);
          rw' = rw\<lparr>rw_events := events, rw_last_seen := Some now\<rparr>
      in if length events < maximum
         then (rw'\<lparr>rw_events := events @ [now]\<rparr>, Inr ())
         else (rw', Inl (Host (label @ '' rate limit exceeded''))))"

definition rate_window_expired :: "rate_window \<Rightarrow> instant \<Rightarrow> duration \<Rightarrow> bool" where
  "rate_window_expired rw now window =
     (case rw_last_seen rw of None \<Rightarrow> True | Some seen \<Rightarrow> window \<le> now - seen)"

section \<open>The contract of a limiter\<close>

text \<open>
  \<open>admitted check s ts\<close> are the instants of \<open>ts\<close> at which a limiter in state \<open>s\<close> says yes when it
  is asked at each of them in turn. \<open>in_window W t u\<close>: the event \<open>u\<close> lies in the window of length
  \<open>W\<close> that ends at \<open>t\<close>.
\<close>

fun admitted :: "(instant \<Rightarrow> 's \<Rightarrow> 's \<times> bool) \<Rightarrow> 's \<Rightarrow> instant list \<Rightarrow> instant list" where
  "admitted check s [] = []"
| "admitted check s (t # ts) =
     (case check t s of (s', ok) \<Rightarrow> (if ok then t # admitted check s' ts else admitted check s' ts))"

definition in_window :: "duration \<Rightarrow> instant \<Rightarrow> instant \<Rightarrow> bool" where
  "in_window W t u \<longleftrightarrow> u \<le> t \<and> t - u < W"

lemma admitted_subset: "set (admitted check s ts) \<subseteq> set ts"
  by (induction ts arbitrary: s) (auto split: prod.splits if_splits)

lemma filter_in_window_late:
  "\<forall>u \<in> set xs. t < u \<Longrightarrow> filter (in_window W t) xs = []"
  by (auto simp: in_window_def filter_empty_conv)

lemma sorted_optional:
  "sorted (xs @ n # ys) \<Longrightarrow> sorted ((xs @ (if b then [n] else [])) @ ys)"
  for xs :: "nat list"
  by (auto simp: sorted_append)

locale sliding_window =
  fixes check :: "instant \<Rightarrow> 's \<Rightarrow> 's \<times> bool"
    and log :: "'s \<Rightarrow> instant list"
    and window :: duration
    and maximum :: nat
  assumes admit: "check now s = (s', True) \<Longrightarrow>
      log s' = dropWhile (\<lambda>u. window \<le> now - u) (log s) @ [now] \<and>
      length (dropWhile (\<lambda>u. window \<le> now - u) (log s)) < maximum"
    and refuse: "check now s = (s', False) \<Longrightarrow>
      log s' = dropWhile (\<lambda>u. window \<le> now - u) (log s) \<and> maximum \<le> length (log s')"
begin

lemma log_split: "log s = takeWhile (\<lambda>u. window \<le> now - u) (log s) @ dropWhile (\<lambda>u. window \<le> now - u) (log s)"
  by simp

lemma length_log_check: "length (log s) \<le> maximum \<Longrightarrow> check now s = (s', ok) \<Longrightarrow> length (log s') \<le> maximum"
  using admit [of now s s'] refuse [of now s s'] length_dropWhile_le [of "\<lambda>u. window \<le> now - u" "log s"]
  by (cases ok) auto

lemma forgotten_out_of_window:
  "now \<le> t \<Longrightarrow> filter (in_window window t) (takeWhile (\<lambda>u. window \<le> now - u) (log s)) = []"
  by (auto simp: filter_empty_conv in_window_def dest!: set_takeWhileD)

text \<open>One check either forgets events that no later window can contain or keeps the log short.\<close>

lemma window_step:
  assumes len: "length (log s) \<le> maximum"
    and late: "\<forall>u \<in> set later. now \<le> u"
    and kept: "length (filter (in_window window t) (dropWhile (\<lambda>u. window \<le> now - u) (log s) @ later)) \<le> maximum"
  shows "length (filter (in_window window t) (log s @ later)) \<le> maximum"
proof (cases "now \<le> t")
  case True
  have "filter (in_window window t) (log s @ later) =
      filter (in_window window t) (dropWhile (\<lambda>u. window \<le> now - u) (log s) @ later)"
    by (subst log_split [of s now]) (simp only: filter_append forgotten_out_of_window [OF True] append_Nil)
  with kept show ?thesis by simp
next
  case False
  then have "filter (in_window window t) later = []"
    using late by (intro filter_in_window_late) auto
  moreover have "length (filter (in_window window t) (log s)) \<le> length (log s)"
    by simp
  ultimately show ?thesis
    using len by (metis append_Nil2 filter_append le_trans)
qed

lemma sorted_dropWhile_append: "sorted (xs @ ys) \<Longrightarrow> sorted (dropWhile P xs @ ys)"
  by (auto simp: sorted_append sorted_dropWhile dest: set_dropWhileD)

theorem at_most_maximum:
  assumes "length (log s) \<le> maximum" "sorted (log s @ ts)"
  shows "length (filter (in_window window t) (log s @ admitted check s ts)) \<le> maximum"
  using assms
proof (induction ts arbitrary: s)
  case Nil
  then show ?case
    by (simp add: le_trans [OF length_filter_le])
next
  case (Cons now ts)
  obtain s' ok where c: "check now s = (s', ok)" by fastforce
  let ?kept = "dropWhile (\<lambda>u. window \<le> now - u) (log s)"
  have log': "log s' = ?kept @ (if ok then [now] else [])"
    using admit [of now s s'] refuse [of now s s'] c by (cases ok) simp_all
  have "sorted (?kept @ now # ts)"
    using Cons.prems(2) by (rule sorted_dropWhile_append)
  then have "sorted (log s' @ ts)"
    unfolding log' by (rule sorted_optional)
  with Cons.IH length_log_check [OF Cons.prems(1) c]
  have IH: "length (filter (in_window window t) (log s' @ admitted check s' ts)) \<le> maximum"
    by simp
  have late: "\<forall>u \<in> set ((if ok then [now] else []) @ admitted check s' ts). now \<le> u"
    using Cons.prems(2) admitted_subset [of check s' ts] by (auto simp: sorted_append)
  have "admitted check s (now # ts) = (if ok then [now] else []) @ admitted check s' ts"
    by (simp add: c)
  then show ?case
    using window_step [OF Cons.prems(1) late] IH unfolding log' append_assoc by simp
qed

text \<open>From an empty log, no window of the given length ever contains more than the maximum.\<close>

corollary from_empty:
  assumes "log s = []" "sorted ts"
  shows "length (filter (in_window window t) (admitted check s ts)) \<le> maximum"
  using at_most_maximum [of s ts t] assms by simp

text \<open>A refusal is never spurious: the window that ends at the refusal is full.\<close>

lemma refused_full:
  assumes "check now s = (s', False)"
  shows "maximum \<le> length (dropWhile (\<lambda>u. window \<le> now - u) (log s))"
  using refuse [OF assms] by (metis)

end

definition rate_window_admit :: "duration \<Rightarrow> nat \<Rightarrow> string \<Rightarrow> instant \<Rightarrow> rate_window \<Rightarrow> rate_window \<times> bool" where
  "rate_window_admit window maximum label now rw =
     (case rate_window_check now window maximum label rw of (rw', r) \<Rightarrow> (rw', is_ok r))"

interpretation rate: sliding_window "rate_window_admit window maximum label" rw_events window maximum
  for window maximum label
  by unfold_locales
    (auto simp: rate_window_admit_def rate_window_check_def Let_def split: if_splits)

text \<open>
  C4: Between 0 and \<open>maximum\<close> events per window: however often and whenever (at non-decreasing
  instants) a \<open>RateWindow\<close> is asked, no time window of the configured length contains more than
  \<open>maximum\<close> admitted events.
\<close>

theorem rate_window_bounds_admissions:
  assumes "sorted ts"
  shows "length (filter (in_window window t)
     (admitted (rate_window_admit window maximum label) rate_window_default ts)) \<le> maximum"
  by (rule rate.from_empty) (use assms in \<open>simp_all add: rate_window_default_def\<close>)

theorem rate_window_bounds_admissions_witness:
  "admitted (rate_window_admit 10 2 ''x'') rate_window_default [0, 1, 2, 10, 11, 12] = [0, 1, 10, 11] \<and>
   length (filter (in_window 10 11)
     (admitted (rate_window_admit 10 2 ''x'') rate_window_default [0, 1, 2, 10, 11, 12])) \<le> 2"
proof
  show "admitted (rate_window_admit 10 2 ''x'') rate_window_default [0, 1, 2, 10, 11, 12] = [0, 1, 10, 11]"
    by (simp add: rate_window_admit_def rate_window_check_def rate_window_default_def)
  show "length (filter (in_window 10 11)
     (admitted (rate_window_admit 10 2 ''x'') rate_window_default [0, 1, 2, 10, 11, 12])) \<le> 2"
    by (rule rate_window_bounds_admissions) simp
qed

end
