(* ===== verification/Focus_Arbiter.thy ===== *)
theory Focus_Arbiter
  imports Control_Protocol Rate_Window
begin

text \<open>
  The focus arbiter (\<open>crates/sigil-host/src/server/focus.rs\<close>): who may inject input into
  controller slot 0. Every method of \<open>FocusArbiter\<close> is a function from the arbiter to the arbiter
  and its result; the writes a method makes before it fails are kept. The system clock that
  \<open>unix_millis_after\<close> reads is the argument \<open>sys_now\<close>, in nanoseconds from the Unix epoch.
\<close>

section \<open>State\<close>

definition FOCUS_PROPOSAL_TTL :: duration where "FOCUS_PROPOSAL_TTL = from_secs 15"
definition FOCUS_ACTIVATION_TTL :: duration where "FOCUS_ACTIVATION_TTL = from_secs 10"
definition FOCUS_COMMAND_RATE_WINDOW :: duration where "FOCUS_COMMAND_RATE_WINDOW = from_secs 2"
definition MAX_FOCUS_COMMANDS_PER_WINDOW :: nat where "MAX_FOCUS_COMMANDS_PER_WINDOW = 8"

record focus_candidate =
  cand_presence_id :: viewer_presence_id
  cand_session_id :: u64

record focus_neutralization =
  fn_transition_id :: u64
  fn_former_session_id :: u64

record focus_mutation =
  fm_changed :: bool
  fm_neutralization :: "focus_neutralization option"

definition focus_mutation_default :: focus_mutation where
  "focus_mutation_default = \<lparr>fm_changed = False, fm_neutralization = None\<rparr>"

abbreviation plain_change :: "bool \<Rightarrow> focus_mutation" where
  "plain_change b \<equiv> \<lparr>fm_changed = b, fm_neutralization = None\<rparr>"

record activation_deadline =
  ad_presence_id :: viewer_presence_id
  ad_session_id :: u64
  ad_focus_generation :: u64
  ad_deadline :: instant

record focus_arbiter =
  fa_state :: focus_state_v2
  fa_proposal :: "focus_proposal_v2 option"
  fa_proposal_deadline :: "instant option"
  fa_transition_reason :: focus_transition_reason_v2
  fa_configured_owner :: "viewer_presence_id option"
  fa_successor :: "focus_candidate option"
  fa_activation :: "activation_deadline option"
  fa_next_focus_generation :: u64
  fa_next_transition_id :: u64
  fa_next_proposal_id :: u64
  fa_command_times :: "((viewer_presence_id \<times> u64) \<times> instant list) list"

definition focus_arbiter_new :: "viewer_presence_id option \<Rightarrow> focus_arbiter" where
  "focus_arbiter_new configured_owner =
     \<lparr>fa_state = Vacant SLOT_ZERO, fa_proposal = None, fa_proposal_deadline = None,
      fa_transition_reason = Initial, fa_configured_owner = configured_owner, fa_successor = None,
      fa_activation = None, fa_next_focus_generation = 0, fa_next_transition_id = 0,
      fa_next_proposal_id = 0, fa_command_times = []\<rparr>"

definition is_configured_owner :: "focus_arbiter \<Rightarrow> viewer_presence_id \<Rightarrow> bool" where
  "is_configured_owner fa p \<longleftrightarrow> fa_configured_owner fa = Some p"

section \<open>Private helpers\<close>

definition next_nonzero :: "u64 \<Rightarrow> string \<Rightarrow> u64 host" where
  "next_nonzero current name =
     (case checked_add current 1 of None \<Rightarrow> Inl (Host (name @ '' exhausted'')) | Some n \<Rightarrow> Inr n)"

definition unix_millis_after :: "int \<Rightarrow> duration \<Rightarrow> u64 host" where
  "unix_millis_after sys_now d =
     (if sys_now < 0 then Inl (Host ''system clock is before the Unix epoch'')
      else let ms = (nat sys_now + d) div 1000000
           in if ms < 2 ^ 64 then Inr (of_nat ms) else Inl (Host ''focus proposal expiry overflowed''))"

definition clear_proposal :: "focus_arbiter \<Rightarrow> focus_arbiter" where
  "clear_proposal fa = fa\<lparr>fa_proposal := None, fa_proposal_deadline := None\<rparr>"

definition holds_focus :: "focus_state_v2 \<Rightarrow> focus_candidate \<Rightarrow> u64 \<Rightarrow> bool" where
  "holds_focus st c gen =
     (case st of
        Held slot holder session_id focus_generation \<Rightarrow>
          holder = cand_presence_id c \<and> session_id = cand_session_id c \<and> focus_generation = gen
      | Vacant slot \<Rightarrow> False
      | Neutralizing slot h s g t \<Rightarrow> False)"

definition ensure_holder :: "focus_arbiter \<Rightarrow> focus_candidate \<Rightarrow> u64 \<Rightarrow> unit host" where
  "ensure_holder fa c expected_focus_generation =
     ensure_that (holds_focus (fa_state fa) c expected_focus_generation)
       (Host ''focus command does not match the current holder generation'')"

definition ensure_proposal :: "focus_arbiter \<Rightarrow> focus_candidate \<Rightarrow> u64 \<Rightarrow> focus_proposal_v2 host" where
  "ensure_proposal fa holder expected_proposal_id =
     (case fa_proposal fa of
        Some p \<Rightarrow>
          if fp_proposal_id p = expected_proposal_id \<and> fp_holder p = cand_presence_id holder
             \<and> fp_holder_session_id p = cand_session_id holder
          then Inr p else Inl (Host ''handoff decision does not match the pending proposal'')
      | None \<Rightarrow> Inl (Host ''handoff decision does not match the pending proposal''))"

definition begin_neutralization ::
  "focus_arbiter \<Rightarrow> focus_transition_reason_v2 \<Rightarrow> focus_candidate option \<Rightarrow> focus_arbiter \<times> focus_mutation host" where
  "begin_neutralization fa reason successor =
     (case fa_state fa of
        Held slot holder session_id focus_generation \<Rightarrow>
          (case next_nonzero (fa_next_transition_id fa) ''focus transition id'' of
             Inl e \<Rightarrow> (fa, Inl e)
           | Inr tid \<Rightarrow>
               (clear_proposal
                  (fa\<lparr>fa_next_transition_id := tid,
                      fa_state := Neutralizing slot holder session_id focus_generation tid,
                      fa_transition_reason := reason,
                      fa_successor := successor,
                      fa_activation := None\<rparr>),
                Inr \<lparr>fm_changed = True,
                     fm_neutralization = Some \<lparr>fn_transition_id = tid, fn_former_session_id = session_id\<rparr>\<rparr>))
      | Vacant slot \<Rightarrow> (fa, Inl (Host ''controller slot 0 is not held''))
      | Neutralizing slot h s g t \<Rightarrow> (fa, Inl (Host ''controller slot 0 is not held'')))"

definition grant ::
  "focus_arbiter \<Rightarrow> controller_slot \<Rightarrow> focus_candidate \<Rightarrow> instant \<Rightarrow> focus_arbiter \<times> unit host" where
  "grant fa slot c now =
     (case next_nonzero (fa_next_focus_generation fa) ''focus generation'' of
        Inl e \<Rightarrow> (fa, Inl e)
      | Inr gen \<Rightarrow>
          (fa\<lparr>fa_next_focus_generation := gen,
              fa_state := Held slot (cand_presence_id c) (cand_session_id c) gen,
              fa_activation := Some \<lparr>ad_presence_id = cand_presence_id c, ad_session_id = cand_session_id c,
                                     ad_focus_generation = gen, ad_deadline = now + FOCUS_ACTIVATION_TTL\<rparr>\<rparr>,
           Inr ()))"

section \<open>Operations\<close>

definition check_rate_limit :: "focus_arbiter \<Rightarrow> focus_candidate \<Rightarrow> instant \<Rightarrow> focus_arbiter \<times> unit host" where
  "check_rate_limit fa requester now =
     (let key = (cand_presence_id requester, cand_session_id requester);
          entries = (case map_of (fa_command_times fa) key of None \<Rightarrow> [] | Some es \<Rightarrow> es);
          entries' = dropWhile (\<lambda>time. FOCUS_COMMAND_RATE_WINDOW \<le> now - time) entries
      in if length entries' < MAX_FOCUS_COMMANDS_PER_WINDOW
         then (fa\<lparr>fa_command_times := AList.update key (entries' @ [now]) (fa_command_times fa)\<rparr>, Inr ())
         else (fa\<lparr>fa_command_times := AList.update key entries' (fa_command_times fa)\<rparr>,
               Inl (Host ''focus command rate limit exceeded'')))"

definition retire_candidate :: "focus_arbiter \<Rightarrow> focus_candidate \<Rightarrow> focus_arbiter" where
  "retire_candidate fa c =
     fa\<lparr>fa_command_times := AList.delete (cand_presence_id c, cand_session_id c) (fa_command_times fa)\<rparr>"

definition expire_proposal :: "focus_arbiter \<Rightarrow> instant \<Rightarrow> focus_arbiter \<times> bool" where
  "expire_proposal fa now =
     (case fa_proposal_deadline fa of
        None \<Rightarrow> (fa, False)
      | Some deadline \<Rightarrow>
          if now < deadline then (fa, False)
          else ((clear_proposal fa)\<lparr>fa_transition_reason := ProposalExpired\<rparr>, True))"

definition focus_request ::
  "focus_arbiter \<Rightarrow> focus_candidate \<Rightarrow> instant \<Rightarrow> int \<Rightarrow> focus_arbiter \<times> focus_mutation host" where
  "focus_request fa0 requester now sys_now =
     (let fa = fst (expire_proposal fa0 now) in
      case fa_state fa of
        Vacant slot \<Rightarrow>
          bind_op (grant fa slot requester now)
            (\<lambda>fa' _. (fa'\<lparr>fa_transition_reason := Requested\<rparr>, Inr (plain_change True)))
      | Held slot holder session_id focus_generation \<Rightarrow>
          if holder = cand_presence_id requester \<and> session_id = cand_session_id requester
          then (fa, Inl (Host ''current holder cannot request focus from itself''))
          else if fa_proposal fa \<noteq> None
          then (fa, Inl (Host ''controller slot 0 already has a pending handoff proposal''))
          else (case next_nonzero (fa_next_proposal_id fa) ''focus proposal id'' of
             Inl e \<Rightarrow> (fa, Inl e)
           | Inr pid \<Rightarrow>
             (let fa' = fa\<lparr>fa_next_proposal_id := pid\<rparr> in
              case unix_millis_after sys_now FOCUS_PROPOSAL_TTL of
                Inl e \<Rightarrow> (fa', Inl e)
              | Inr expires \<Rightarrow>
                  (fa'\<lparr>fa_proposal := Some \<lparr>fp_proposal_id = pid, fp_slot = slot,
                                           fp_requester = cand_presence_id requester,
                                           fp_requester_session_id = cand_session_id requester,
                                           fp_holder = holder, fp_holder_session_id = session_id,
                                           fp_expires_at_unix_ms = expires\<rparr>,
                       fa_proposal_deadline := Some (now + FOCUS_PROPOSAL_TTL),
                       fa_transition_reason := HandoffRequested\<rparr>,
                   Inr (plain_change True))))
      | Neutralizing slot h s g t \<Rightarrow> (fa, Inl (Host ''controller slot 0 is neutralizing'')))"

definition focus_approve ::
  "focus_arbiter \<Rightarrow> focus_candidate \<Rightarrow> u64 \<Rightarrow> u64 \<Rightarrow> focus_arbiter \<times> focus_mutation host" where
  "focus_approve fa holder expected_focus_generation expected_proposal_id =
     (case ensure_holder fa holder expected_focus_generation of
        Inl e \<Rightarrow> (fa, Inl e)
      | Inr _ \<Rightarrow>
      (case ensure_proposal fa holder expected_proposal_id of
        Inl e \<Rightarrow> (fa, Inl e)
      | Inr p \<Rightarrow>
          begin_neutralization fa HandoffApproved
            (Some \<lparr>cand_presence_id = fp_requester p, cand_session_id = fp_requester_session_id p\<rparr>)))"

definition focus_deny ::
  "focus_arbiter \<Rightarrow> focus_candidate \<Rightarrow> u64 \<Rightarrow> u64 \<Rightarrow> focus_arbiter \<times> focus_mutation host" where
  "focus_deny fa holder expected_focus_generation expected_proposal_id =
     (case ensure_holder fa holder expected_focus_generation of
        Inl e \<Rightarrow> (fa, Inl e)
      | Inr _ \<Rightarrow>
      (case ensure_proposal fa holder expected_proposal_id of
        Inl e \<Rightarrow> (fa, Inl e)
      | Inr p \<Rightarrow> ((clear_proposal fa)\<lparr>fa_transition_reason := HandoffDenied\<rparr>, Inr (plain_change True))))"

definition focus_release :: "focus_arbiter \<Rightarrow> focus_candidate \<Rightarrow> u64 \<Rightarrow> focus_arbiter \<times> focus_mutation host" where
  "focus_release fa holder expected_focus_generation =
     (case ensure_holder fa holder expected_focus_generation of
        Inl e \<Rightarrow> (fa, Inl e)
      | Inr _ \<Rightarrow>
          begin_neutralization fa Released
            (map_option (\<lambda>p. \<lparr>cand_presence_id = fp_requester p, cand_session_id = fp_requester_session_id p\<rparr>)
               (fa_proposal fa)))"

definition focus_preempt :: "focus_arbiter \<Rightarrow> focus_candidate \<Rightarrow> u64 \<Rightarrow> focus_arbiter \<times> focus_mutation host" where
  "focus_preempt fa owner expected_focus_generation =
     (if \<not> is_configured_owner fa (cand_presence_id owner)
      then (fa, Inl (Host ''viewer is not the configured focus owner''))
      else case fa_state fa of
        Held slot holder session_id focus_generation \<Rightarrow>
          if focus_generation \<noteq> expected_focus_generation
          then (fa, Inl (Host ''preemption expected a stale focus generation''))
          else if holder = cand_presence_id owner \<and> session_id = cand_session_id owner
          then (fa, Inl (Host ''configured owner already holds focus''))
          else begin_neutralization fa Preempted (Some owner)
      | Vacant slot \<Rightarrow> (fa, Inl (Host ''controller slot 0 is not held''))
      | Neutralizing slot h s g t \<Rightarrow> (fa, Inl (Host ''controller slot 0 is not held'')))"

definition proposal_involves :: "focus_arbiter \<Rightarrow> focus_candidate \<Rightarrow> bool" where
  "proposal_involves fa c =
     (case fa_proposal fa of
        None \<Rightarrow> False
      | Some p \<Rightarrow>
          fp_requester p = cand_presence_id c \<and> fp_requester_session_id p = cand_session_id c
          \<or> fp_holder p = cand_presence_id c \<and> fp_holder_session_id p = cand_session_id c)"

definition candidate_holds :: "focus_arbiter \<Rightarrow> focus_candidate \<Rightarrow> bool" where
  "candidate_holds fa c =
     (case fa_state fa of
        Held slot holder session_id focus_generation \<Rightarrow>
          holder = cand_presence_id c \<and> session_id = cand_session_id c
      | Vacant slot \<Rightarrow> False
      | Neutralizing slot h s g t \<Rightarrow> False)"

definition begin_invalidation ::
  "focus_arbiter \<Rightarrow> focus_candidate \<Rightarrow> focus_transition_reason_v2 \<Rightarrow> focus_arbiter \<times> focus_mutation host" where
  "begin_invalidation fa0 c reason =
     (let involved = proposal_involves fa0 c;
          fa = (if involved then clear_proposal fa0 else fa0)
      in if candidate_holds fa c then begin_neutralization fa reason None
         else ((if involved then fa\<lparr>fa_transition_reason := reason\<rparr> else fa), Inr (plain_change involved)))"

definition mark_activated :: "focus_arbiter \<Rightarrow> focus_candidate \<Rightarrow> u64 \<Rightarrow> focus_arbiter" where
  "mark_activated fa c focus_generation =
     (case fa_activation fa of
        Some a \<Rightarrow>
          if ad_presence_id a = cand_presence_id c \<and> ad_session_id a = cand_session_id c
             \<and> ad_focus_generation a = focus_generation
          then fa\<lparr>fa_activation := None\<rparr> else fa
      | None \<Rightarrow> fa)"

definition begin_activation_expiry :: "focus_arbiter \<Rightarrow> instant \<Rightarrow> focus_arbiter \<times> focus_mutation host" where
  "begin_activation_expiry fa now =
     (case fa_activation fa of
        None \<Rightarrow> (fa, Inr focus_mutation_default)
      | Some a \<Rightarrow>
          if now < ad_deadline a then (fa, Inr focus_mutation_default)
          else (case ensure_holder fa \<lparr>cand_presence_id = ad_presence_id a, cand_session_id = ad_session_id a\<rparr>
                       (ad_focus_generation a) of
                  Inl e \<Rightarrow> (fa, Inl e)
                | Inr _ \<Rightarrow> begin_neutralization fa ActivationExpired None))"

definition transition_successor :: "focus_arbiter \<Rightarrow> u64 \<Rightarrow> focus_candidate option" where
  "transition_successor fa transition_id =
     (case fa_state fa of
        Neutralizing slot h s g current \<Rightarrow> if current = transition_id then fa_successor fa else None
      | Vacant slot \<Rightarrow> None
      | Held slot h s g \<Rightarrow> None)"

definition complete_transition ::
  "focus_arbiter \<Rightarrow> u64 \<Rightarrow> bool \<Rightarrow> instant \<Rightarrow> focus_arbiter \<times> bool host" where
  "complete_transition fa transition_id successor_is_valid now =
     (case fa_state fa of
        Neutralizing slot h s g current \<Rightarrow>
          if current \<noteq> transition_id then (fa, Inr False)
          else (let successor = (if successor_is_valid then fa_successor fa else None);
                    fa' = clear_proposal (fa\<lparr>fa_successor := None\<rparr>)
                in case successor of
                     Some c \<Rightarrow>
                       bind_op (grant fa' slot c now)
                         (\<lambda>fa'' _. ((if fa_transition_reason fa'' = Released
                                     then fa''\<lparr>fa_transition_reason := HandoffApproved\<rparr> else fa''),
                                    Inr True))
                   | None \<Rightarrow> (fa'\<lparr>fa_state := Vacant slot, fa_activation := None\<rparr>, Inr True))
      | Vacant slot \<Rightarrow> (fa, Inr False)
      | Held slot h s g \<Rightarrow> (fa, Inr False))"

end
