(* ===== verification/Focus_Invariants.thy ===== *)
theory Focus_Invariants
  imports Focus_Arbiter
begin

text \<open>
  What the focus arbiter keeps true. \<open>focus_wf\<close> ties the fields together: the current generation
  and transition are the last ones handed out, a proposal exists only against the current holder, a
  successor only while neutralizing, an activation deadline only for the current holder. It is kept
  by every operation, successful or not, so it holds along every run; the safety properties of the
  hand-off (no direct change of holder, generations that never come back, only authorised commands
  end a hold) are read off it.
\<close>

section \<open>The invariant\<close>

definition cand_ok :: "focus_candidate \<Rightarrow> bool" where
  "cand_ok c \<longleftrightarrow> presence_validate (cand_presence_id c) = Inr () \<and> cand_session_id c \<noteq> 0"

fun state_wf :: "focus_arbiter \<Rightarrow> focus_state_v2 \<Rightarrow> bool" where
  "state_wf fa (Vacant slot) \<longleftrightarrow>
     slot = SLOT_ZERO \<and> fa_proposal fa = None \<and> fa_successor fa = None \<and> fa_activation fa = None"
| "state_wf fa (Held slot holder sid gen) \<longleftrightarrow>
     slot = SLOT_ZERO \<and> presence_validate holder = Inr () \<and> sid \<noteq> 0 \<and>
     gen = fa_next_focus_generation fa \<and> gen \<noteq> 0 \<and> fa_successor fa = None \<and>
     (\<forall>p. fa_proposal fa = Some p \<longrightarrow>
        focus_proposal_validate p = Inr () \<and> fp_slot p = slot \<and> fp_holder p = holder \<and>
        fp_holder_session_id p = sid) \<and>
     (\<forall>a. fa_activation fa = Some a \<longrightarrow>
        ad_presence_id a = holder \<and> ad_session_id a = sid \<and> ad_focus_generation a = gen)"
| "state_wf fa (Neutralizing slot former sid gen tid) \<longleftrightarrow>
     slot = SLOT_ZERO \<and> presence_validate former = Inr () \<and> sid \<noteq> 0 \<and>
     gen = fa_next_focus_generation fa \<and> gen \<noteq> 0 \<and>
     tid = fa_next_transition_id fa \<and> tid \<noteq> 0 \<and> fa_proposal fa = None \<and> fa_activation fa = None \<and>
     (\<forall>c. fa_successor fa = Some c \<longrightarrow> cand_ok c)"

definition focus_wf :: "focus_arbiter \<Rightarrow> bool" where
  "focus_wf fa \<longleftrightarrow> state_wf fa (fa_state fa) \<and> (fa_proposal fa = None \<longleftrightarrow> fa_proposal_deadline fa = None)"

lemma focus_wf_new: "focus_wf (focus_arbiter_new owner)"
  by (simp add: focus_wf_def focus_arbiter_new_def)

text \<open>Fields that \<open>focus_wf\<close> does not read.\<close>

lemma focus_wf_reason [simp]: "focus_wf (fa\<lparr>fa_transition_reason := r\<rparr>) = focus_wf fa"
  by (cases "fa_state fa") (simp_all add: focus_wf_def)

lemma focus_wf_command_times [simp]: "focus_wf (fa\<lparr>fa_command_times := t\<rparr>) = focus_wf fa"
  by (cases "fa_state fa") (simp_all add: focus_wf_def)

lemma focus_wf_next_proposal [simp]: "focus_wf (fa\<lparr>fa_next_proposal_id := n\<rparr>) = focus_wf fa"
  by (cases "fa_state fa") (simp_all add: focus_wf_def)

lemma focus_wf_activation_None: "focus_wf fa \<Longrightarrow> focus_wf (fa\<lparr>fa_activation := None\<rparr>)"
  by (cases "fa_state fa") (auto simp: focus_wf_def)

lemma clear_proposal_sel [simp]:
  "fa_state (clear_proposal fa) = fa_state fa" "fa_proposal (clear_proposal fa) = None"
  "fa_proposal_deadline (clear_proposal fa) = None"
  "fa_transition_reason (clear_proposal fa) = fa_transition_reason fa"
  "fa_configured_owner (clear_proposal fa) = fa_configured_owner fa"
  "fa_successor (clear_proposal fa) = fa_successor fa" "fa_activation (clear_proposal fa) = fa_activation fa"
  "fa_next_focus_generation (clear_proposal fa) = fa_next_focus_generation fa"
  "fa_next_transition_id (clear_proposal fa) = fa_next_transition_id fa"
  "fa_next_proposal_id (clear_proposal fa) = fa_next_proposal_id fa"
  "fa_command_times (clear_proposal fa) = fa_command_times fa"
  by (simp_all add: clear_proposal_def)

lemma focus_wf_clear: "focus_wf fa \<Longrightarrow> focus_wf (clear_proposal fa)"
  by (cases "fa_state fa") (simp_all add: focus_wf_def)

lemma next_nonzero_Inr: "next_nonzero n name = Inr m \<Longrightarrow> n < m \<and> m \<noteq> 0 \<and> unat m = unat n + 1"
  using checked_add_1_less [of n m] checked_add_Some_unat [of n 1 m]
  by (auto simp: next_nonzero_def split: option.splits)

lemma next_nonzero_ok: "n \<noteq> - 1 \<Longrightarrow> next_nonzero n name = Inr (n + 1)"
  using checked_add_1_Some [of n "n + 1"] by (auto simp: next_nonzero_def)

lemma next_nonzero_Inl: "next_nonzero n name = Inl e \<Longrightarrow> n = - 1"
  using next_nonzero_ok by fastforce

lemma unix_millis_after_nonzero: "unix_millis_after sys_now FOCUS_PROPOSAL_TTL = Inr t \<Longrightarrow> t \<noteq> 0"
proof -
  assume a: "unix_millis_after sys_now FOCUS_PROPOSAL_TTL = Inr t"
  define ms where "ms = (nat sys_now + FOCUS_PROPOSAL_TTL) div 1000000"
  from a have lt: "ms < 2 ^ 64" and t: "t = of_nat ms"
    by (auto simp: unix_millis_after_def Let_def ms_def split: if_splits)
  have "15000 \<le> ms"
    by (simp add: ms_def FOCUS_PROPOSAL_TTL_def from_secs_def)
  moreover have "unat t = ms"
    unfolding t by (rule unat_of_nat_small) (use lt in simp)
  ultimately have "unat t \<noteq> 0" by simp
  then show "t \<noteq> 0" by (metis unat_0)
qed

section \<open>Every operation keeps it\<close>

lemma grant_wf:
  assumes "grant fa slot c now = (fa', r)" "focus_wf fa" "slot = SLOT_ZERO" "cand_ok c"
    "fa_proposal fa = None" "fa_successor fa = None"
  shows "focus_wf fa'"
  using assms
  by (auto simp: grant_def focus_wf_def cand_ok_def split: sum.splits dest: next_nonzero_Inr)

lemma begin_neutralization_wf:
  assumes "begin_neutralization fa reason successor = (fa', r)" "focus_wf fa"
    "\<And>c. successor = Some c \<Longrightarrow> cand_ok c"
  shows "focus_wf fa'"
  using assms
  by (auto simp: begin_neutralization_def focus_wf_def split: sum.splits focus_state_v2.splits
      dest: next_nonzero_Inr)

lemma expire_proposal_wf: "expire_proposal fa now = (fa', b) \<Longrightarrow> focus_wf fa \<Longrightarrow> focus_wf fa'"
  by (auto simp: expire_proposal_def focus_wf_clear split: option.splits if_splits)

lemma expire_proposal_state [simp]:
  "fa_state (fst (expire_proposal fa now)) = fa_state fa"
  "fa_next_focus_generation (fst (expire_proposal fa now)) = fa_next_focus_generation fa"
  "fa_next_transition_id (fst (expire_proposal fa now)) = fa_next_transition_id fa"
  "fa_configured_owner (fst (expire_proposal fa now)) = fa_configured_owner fa"
  "fa_activation (fst (expire_proposal fa now)) = fa_activation fa"
  "fa_successor (fst (expire_proposal fa now)) = fa_successor fa"
  by (auto simp: expire_proposal_def split: option.splits)

lemma expire_proposal_fst_wf: "focus_wf fa \<Longrightarrow> focus_wf (fst (expire_proposal fa now))"
  using expire_proposal_wf [of fa now] by (metis prod.collapse)

lemma request_proposal_wf:
  assumes "focus_wf fa" "fa_state fa = Held slot holder sid gen" "cand_ok c"
    "\<not> (holder = cand_presence_id c \<and> sid = cand_session_id c)" "pid \<noteq> 0" "expires \<noteq> 0"
  shows "focus_wf (fa\<lparr>fa_next_proposal_id := pid,
           fa_proposal := Some \<lparr>fp_proposal_id = pid, fp_slot = slot, fp_requester = cand_presence_id c,
              fp_requester_session_id = cand_session_id c, fp_holder = holder,
              fp_holder_session_id = sid, fp_expires_at_unix_ms = expires\<rparr>,
           fa_proposal_deadline := Some d, fa_transition_reason := r\<rparr>)"
  using assms by (auto simp: focus_wf_def focus_proposal_validate_def cand_ok_def)

lemma focus_request_wf:
  assumes r: "focus_request fa c now sys_now = (fa', r)" and wf: "focus_wf fa" and c: "cand_ok c"
  shows "focus_wf fa'"
proof -
  define fb where "fb = fst (expire_proposal fa now)"
  have wfb: "focus_wf fb"
    using expire_proposal_fst_wf [OF wf] by (simp add: fb_def)
  show ?thesis
  proof (cases "fa_state fb")
    case (Vacant slot)
    obtain fg rg where g: "grant fb slot c now = (fg, rg)" by fastforce
    have "focus_wf fg"
      by (rule grant_wf [OF g wfb]) (use wfb c Vacant in \<open>auto simp: focus_wf_def\<close>)
    with r show ?thesis
      by (cases rg) (auto simp: focus_request_def fb_def [symmetric] Vacant g)
  next
    case (Held slot holder sid gen)
    with r wfb request_proposal_wf [OF wfb Held c] show ?thesis
      by (auto simp: focus_request_def fb_def [symmetric] Let_def split: if_splits sum.splits
          dest!: next_nonzero_Inr unix_millis_after_nonzero)
  next
    case (Neutralizing slot h s g t)
    with r wfb show ?thesis
      by (auto simp: focus_request_def fb_def [symmetric])
  qed
qed

lemma proposal_requester_ok:
  assumes "focus_wf fa" "fa_proposal fa = Some p"
  shows "cand_ok \<lparr>cand_presence_id = fp_requester p, cand_session_id = fp_requester_session_id p\<rparr>"
proof (cases "fa_state fa")
  case (Held slot holder sid gen)
  with assms have "focus_proposal_validate p = Inr ()"
    by (simp add: focus_wf_def)
  then show ?thesis
    by (auto simp: focus_proposal_validate_def cand_ok_def res_simps split: if_splits)
qed (use assms in \<open>simp_all add: focus_wf_def\<close>)

lemma focus_approve_wf: "focus_approve fa c g p = (fa', r) \<Longrightarrow> focus_wf fa \<Longrightarrow> focus_wf fa'"
  by (auto simp: focus_approve_def ensure_proposal_def split: sum.splits option.splits if_splits
      elim!: begin_neutralization_wf dest: proposal_requester_ok)

lemma focus_deny_wf: "focus_deny fa c g p = (fa', r) \<Longrightarrow> focus_wf fa \<Longrightarrow> focus_wf fa'"
  by (auto simp: focus_deny_def focus_wf_clear split: sum.splits)

lemma focus_release_wf: "focus_release fa c g = (fa', r) \<Longrightarrow> focus_wf fa \<Longrightarrow> focus_wf fa'"
  by (auto simp: focus_release_def split: sum.splits elim!: begin_neutralization_wf
      dest: proposal_requester_ok)

lemma focus_preempt_wf: "focus_preempt fa c g = (fa', r) \<Longrightarrow> focus_wf fa \<Longrightarrow> cand_ok c \<Longrightarrow> focus_wf fa'"
  by (auto simp: focus_preempt_def split: focus_state_v2.splits if_splits elim!: begin_neutralization_wf)

lemma begin_invalidation_wf: "begin_invalidation fa c reason = (fa', r) \<Longrightarrow> focus_wf fa \<Longrightarrow> focus_wf fa'"
  by (auto simp: begin_invalidation_def Let_def focus_wf_clear split: if_splits
      elim!: begin_neutralization_wf)

lemma mark_activated_wf: "focus_wf fa \<Longrightarrow> focus_wf (mark_activated fa c g)"
  by (auto simp: mark_activated_def focus_wf_activation_None split: option.splits)

lemma begin_activation_expiry_wf:
  "begin_activation_expiry fa now = (fa', r) \<Longrightarrow> focus_wf fa \<Longrightarrow> focus_wf fa'"
  by (auto simp: begin_activation_expiry_def split: option.splits if_splits sum.splits
      elim!: begin_neutralization_wf)

lemma check_rate_limit_wf: "check_rate_limit fa c now = (fa', r) \<Longrightarrow> focus_wf fa' = focus_wf fa"
  by (auto simp: check_rate_limit_def Let_def split: if_splits)

lemma retire_candidate_wf [simp]: "focus_wf (retire_candidate fa c) = focus_wf fa"
  by (simp add: retire_candidate_def)

lemma complete_transition_wf:
  assumes r: "complete_transition fa tid valid now = (fa', r)" and wf: "focus_wf fa"
  shows "focus_wf fa'"
proof (cases "fa_state fa")
  case (Neutralizing slot h s g current)
  show ?thesis
  proof (cases "current = tid \<and> valid \<and> fa_successor fa \<noteq> None")
    case True
    then obtain c where c: "fa_successor fa = Some c" by auto
    define fb where "fb = clear_proposal (fa\<lparr>fa_successor := None\<rparr>)"
    have wfb: "focus_wf fb" and props: "fa_proposal fb = None" "fa_successor fb = None" "cand_ok c" "slot = SLOT_ZERO"
      using wf Neutralizing c by (auto simp: fb_def focus_wf_def)
    obtain fg rg where gr: "grant fb slot c now = (fg, rg)" by fastforce
    have "focus_wf fg"
      by (rule grant_wf [OF gr wfb]) (use props in auto)
    with r True c gr show ?thesis
      by (cases rg) (auto simp: complete_transition_def Neutralizing fb_def [symmetric])
  next
    case False
    with r wf Neutralizing show ?thesis
      by (auto simp: complete_transition_def Let_def focus_wf_def split: if_splits option.splits)
  qed
qed (use r wf in \<open>simp_all add: complete_transition_def\<close>)

section \<open>Runs\<close>

datatype focus_op =
    Op_Rate focus_candidate instant
  | Op_Retire focus_candidate
  | Op_Expire instant
  | Op_Request focus_candidate instant int
  | Op_Approve focus_candidate u64 u64
  | Op_Deny focus_candidate u64 u64
  | Op_Release focus_candidate u64
  | Op_Preempt focus_candidate u64
  | Op_Invalidate focus_candidate focus_transition_reason_v2
  | Op_Activated focus_candidate u64
  | Op_Activation_Expiry instant
  | Op_Complete u64 bool instant

fun focus_apply :: "focus_op \<Rightarrow> focus_arbiter \<Rightarrow> focus_arbiter" where
  "focus_apply (Op_Rate c now) fa = fst (check_rate_limit fa c now)"
| "focus_apply (Op_Retire c) fa = retire_candidate fa c"
| "focus_apply (Op_Expire now) fa = fst (expire_proposal fa now)"
| "focus_apply (Op_Request c now sys_now) fa = fst (focus_request fa c now sys_now)"
| "focus_apply (Op_Approve c g p) fa = fst (focus_approve fa c g p)"
| "focus_apply (Op_Deny c g p) fa = fst (focus_deny fa c g p)"
| "focus_apply (Op_Release c g) fa = fst (focus_release fa c g)"
| "focus_apply (Op_Preempt c g) fa = fst (focus_preempt fa c g)"
| "focus_apply (Op_Invalidate c reason) fa = fst (begin_invalidation fa c reason)"
| "focus_apply (Op_Activated c g) fa = mark_activated fa c g"
| "focus_apply (Op_Activation_Expiry now) fa = fst (begin_activation_expiry fa now)"
| "focus_apply (Op_Complete tid valid now) fa = fst (complete_transition fa tid valid now)"

text \<open>The registry builds candidates from roster entries only: valid identities, live sessions.\<close>

fun op_ok :: "focus_op \<Rightarrow> bool" where
  "op_ok (Op_Request c now sys_now) = cand_ok c"
| "op_ok (Op_Preempt c g) = cand_ok c"
| "op_ok _ = True"

inductive focus_steps :: "focus_arbiter \<Rightarrow> focus_arbiter \<Rightarrow> bool" where
  refl: "focus_steps fa fa"
| step: "focus_steps fa fb \<Longrightarrow> op_ok op \<Longrightarrow> focus_steps fa (focus_apply op fb)"

inductive_cases focus_stepsE: "focus_steps fa fb"

lemma focus_apply_wf:
  assumes "focus_wf fa" "op_ok op"
  shows "focus_wf (focus_apply op fa)"
proof (cases op)
  case (Op_Rate c now)
  then show ?thesis
    using check_rate_limit_wf [of fa c now] assms by (metis focus_apply.simps(1) prod.collapse)
next
  case (Op_Request c now sys_now)
  then show ?thesis
    using focus_request_wf [of fa c now sys_now] assms by (metis focus_apply.simps(4) op_ok.simps(1) prod.collapse)
next
  case (Op_Approve c g p)
  then show ?thesis
    using focus_approve_wf [of fa c g p] assms by (metis focus_apply.simps(5) prod.collapse)
next
  case (Op_Deny c g p)
  then show ?thesis
    using focus_deny_wf [of fa c g p] assms by (metis focus_apply.simps(6) prod.collapse)
next
  case (Op_Release c g)
  then show ?thesis
    using focus_release_wf [of fa c g] assms by (metis focus_apply.simps(7) prod.collapse)
next
  case (Op_Preempt c g)
  then show ?thesis
    using focus_preempt_wf [of fa c g] assms by (metis focus_apply.simps(8) op_ok.simps(2) prod.collapse)
next
  case (Op_Invalidate c reason)
  then show ?thesis
    using begin_invalidation_wf [of fa c reason] assms by (metis focus_apply.simps(9) prod.collapse)
next
  case (Op_Activation_Expiry now)
  then show ?thesis
    using begin_activation_expiry_wf [of fa now] assms by (metis focus_apply.simps(11) prod.collapse)
next
  case (Op_Complete tid valid now)
  then show ?thesis
    using complete_transition_wf [of fa tid valid now] assms by (metis focus_apply.simps(12) prod.collapse)
qed (use assms expire_proposal_fst_wf mark_activated_wf in simp_all)

lemma focus_steps_wf: "focus_steps fa fb \<Longrightarrow> focus_wf fa \<Longrightarrow> focus_wf fb"
  by (induction rule: focus_steps.induct) (auto intro: focus_apply_wf)

end
