(* ===== verification/Focus_Properties.thy ===== *)
theory Focus_Properties
  imports Focus_Invariants
begin

text \<open>
  The guarantees of the focus arbiter: hand-offs go through the neutralizing state, only the
  commands that are authorised to end a hold end it, focus generations never come back, every
  neutralization can be completed, and a viewer's focus commands are rate limited.
\<close>

section \<open>Single steps\<close>

lemmas focus_op_defs = check_rate_limit_def retire_candidate_def expire_proposal_def focus_request_def
  focus_approve_def focus_deny_def focus_release_def focus_preempt_def begin_invalidation_def
  mark_activated_def begin_activation_expiry_def complete_transition_def ensure_holder_def
  ensure_proposal_def begin_neutralization_def grant_def Let_def

lemma neutralization_state:
  assumes "fa_state fa = Held slot h sid g" "begin_neutralization fa reason successor = (fa', r)"
  shows "fa_state fa' = Held slot h sid g \<or>
     (\<exists>t. fa_state fa' = Neutralizing slot h sid g t \<and> fa_next_transition_id fa < t)"
  using assms by (auto simp: begin_neutralization_def split: sum.splits dest: next_nonzero_Inr)

lemma neutralization_state_fst:
  assumes "fa_state fa = Held slot h sid g"
  shows "fa_state (fst (begin_neutralization fa reason successor)) = Held slot h sid g \<or>
     (\<exists>t. fa_state (fst (begin_neutralization fa reason successor)) = Neutralizing slot h sid g t \<and>
        fa_next_transition_id fa < t)"
  using neutralization_state [OF assms] by (metis prod.collapse)

lemma apply_held:
  assumes "fa_state fa = Held slot h sid g"
  shows "fa_state (focus_apply op fa) = Held slot h sid g \<or>
     (\<exists>t. fa_state (focus_apply op fa) = Neutralizing slot h sid g t \<and> fa_next_transition_id fa < t)"
proof (cases op)
  case (Op_Rate c now)
  then show ?thesis using assms by (simp add: check_rate_limit_def Let_def)
next
  case (Op_Retire c)
  then show ?thesis using assms by (simp add: retire_candidate_def)
next
  case (Op_Expire now)
  then show ?thesis using assms by simp
next
  case (Op_Request c now sys_now)
  have "fa_state (fst (focus_request fa c now sys_now)) = Held slot h sid g"
    using assms by (auto simp: focus_request_def Let_def split: sum.splits)
  then show ?thesis using Op_Request by simp
next
  case (Op_Approve c g' p)
  then show ?thesis
    using assms neutralization_state_fst [OF assms]
    by (auto simp: focus_approve_def split: sum.splits)
next
  case (Op_Deny c g' p)
  then show ?thesis using assms by (auto simp: focus_deny_def split: sum.splits)
next
  case (Op_Release c g')
  then show ?thesis
    using assms neutralization_state_fst [OF assms]
    by (auto simp: focus_release_def split: sum.splits)
next
  case (Op_Preempt c g')
  then show ?thesis
    using assms neutralization_state_fst [OF assms] by (auto simp: focus_preempt_def)
next
  case (Op_Invalidate c reason)
  have held: "fa_state (clear_proposal fa) = Held slot h sid g" using assms by simp
  show ?thesis
    using Op_Invalidate assms neutralization_state_fst [OF assms] neutralization_state_fst [OF held]
    by (auto simp: begin_invalidation_def Let_def)
next
  case (Op_Activated c g')
  then show ?thesis using assms by (auto simp: mark_activated_def split: option.splits)
next
  case (Op_Activation_Expiry now)
  then show ?thesis
    using assms neutralization_state_fst [OF assms]
    by (auto simp: begin_activation_expiry_def split: option.splits sum.splits)
next
  case (Op_Complete tid valid now)
  then show ?thesis using assms by (simp add: complete_transition_def)
qed

text \<open>Who may end a hold.\<close>

fun ends_hold :: "focus_arbiter \<Rightarrow> viewer_presence_id \<Rightarrow> u64 \<Rightarrow> u64 \<Rightarrow> focus_op \<Rightarrow> bool" where
  "ends_hold fa h sid g (Op_Approve c g' pid) \<longleftrightarrow>
     cand_presence_id c = h \<and> cand_session_id c = sid \<and> g' = g \<and>
     (\<exists>p. fa_proposal fa = Some p \<and> fp_proposal_id p = pid)"
| "ends_hold fa h sid g (Op_Release c g') \<longleftrightarrow> cand_presence_id c = h \<and> cand_session_id c = sid \<and> g' = g"
| "ends_hold fa h sid g (Op_Preempt c g') \<longleftrightarrow>
     fa_configured_owner fa = Some (cand_presence_id c) \<and> g' = g \<and>
     \<not> (cand_presence_id c = h \<and> cand_session_id c = sid)"
| "ends_hold fa h sid g (Op_Invalidate c reason) \<longleftrightarrow> cand_presence_id c = h \<and> cand_session_id c = sid"
| "ends_hold fa h sid g (Op_Activation_Expiry now) \<longleftrightarrow>
     (\<exists>a. fa_activation fa = Some a \<and> ad_deadline a \<le> now)"
| "ends_hold fa h sid g _ \<longleftrightarrow> False"

lemma ends_hold_necessary:
  assumes held: "fa_state fa = Held slot h sid g" and changed: "fa_state (focus_apply op fa) \<noteq> Held slot h sid g"
  shows "ends_hold fa h sid g op"
proof (cases op)
  case (Op_Rate c now)
  then show ?thesis using assms by (simp add: check_rate_limit_def Let_def split: if_splits)
next
  case (Op_Retire c)
  then show ?thesis using assms by (simp add: retire_candidate_def)
next
  case (Op_Request c now sys_now)
  have "fa_state (fst (focus_request fa c now sys_now)) = Held slot h sid g"
    using held by (auto simp: focus_request_def Let_def split: sum.splits)
  then show ?thesis using Op_Request changed by simp
next
  case (Op_Approve c g' p)
  then show ?thesis using assms
    by (auto simp: focus_approve_def ensure_holder_def holds_focus_def ensure_proposal_def
        split: if_splits option.splits sum.splits)
next
  case (Op_Deny c g' p)
  then show ?thesis using assms by (auto simp: focus_deny_def split: sum.splits)
next
  case (Op_Release c g')
  then show ?thesis using assms
    by (auto simp: focus_release_def ensure_holder_def holds_focus_def split: if_splits sum.splits)
next
  case (Op_Preempt c g')
  then show ?thesis using assms
    by (auto simp: focus_preempt_def is_configured_owner_def split: if_splits)
next
  case (Op_Invalidate c reason)
  then show ?thesis using assms
    by (auto simp: begin_invalidation_def Let_def candidate_holds_def split: if_splits)
next
  case (Op_Activated c g')
  then show ?thesis using assms by (auto simp: mark_activated_def split: option.splits if_splits)
next
  case (Op_Activation_Expiry now)
  then show ?thesis using assms
    by (auto simp: begin_activation_expiry_def split: option.splits if_splits)
next
  case (Op_Complete tid valid now)
  then show ?thesis using assms by (simp add: complete_transition_def)
qed (use assms in simp_all)

section \<open>Generations\<close>

definition is_held :: "focus_state_v2 \<Rightarrow> bool" where
  "is_held st \<longleftrightarrow> (\<exists>slot h sid g. st = Held slot h sid g)"

lemma is_held_simps [simp]:
  "is_held (Held slot h sid g)" "\<not> is_held (Vacant slot)" "\<not> is_held (Neutralizing slot h sid g t)"
  by (simp_all add: is_held_def)

definition gen_ok :: "focus_arbiter \<Rightarrow> focus_arbiter \<Rightarrow> bool" where
  "gen_ok fa fb \<longleftrightarrow>
     fa_next_focus_generation fb = fa_next_focus_generation fa \<and> (is_held (fa_state fb) \<longrightarrow> is_held (fa_state fa))
     \<or> fa_next_focus_generation fa < fa_next_focus_generation fb"

lemma grant_gen: "grant fa slot c now = (fb, r) \<Longrightarrow> gen_ok fa fb"
  by (auto simp: grant_def gen_ok_def split: sum.splits dest: next_nonzero_Inr)

lemma neutralization_gen: "gen_ok fa (fst (begin_neutralization fa reason successor))"
  by (auto simp: begin_neutralization_def gen_ok_def split: focus_state_v2.splits sum.splits)

lemma gen_ok_same:
  "fa_next_focus_generation fb = fa_next_focus_generation fa \<Longrightarrow> fa_state fb = fa_state fa \<Longrightarrow> gen_ok fa fb"
  by (simp add: gen_ok_def)

lemma gen_ok_cong:
  "fa_next_focus_generation fa' = fa_next_focus_generation fa \<Longrightarrow> fa_state fa' = fa_state fa \<Longrightarrow>
   fa_next_focus_generation fb' = fa_next_focus_generation fb \<Longrightarrow> fa_state fb' = fa_state fb \<Longrightarrow>
   gen_ok fa' fb' = gen_ok fa fb"
  by (simp add: gen_ok_def)

lemma request_gen: "gen_ok fa (fst (focus_request fa c now sys_now))"
proof -
  define fb where "fb = fst (expire_proposal fa now)"
  have fb: "fa_next_focus_generation fb = fa_next_focus_generation fa" "fa_state fb = fa_state fa"
    by (simp_all add: fb_def)
  show ?thesis
  proof (cases "fa_state fb")
    case (Vacant slot)
    obtain fg rg where g: "grant fb slot c now = (fg, rg)" by fastforce
    have "gen_ok fa fg"
      using grant_gen [OF g] gen_ok_cong [of fb fa fg fg] fb by simp
    then show ?thesis
      using Vacant g by (cases rg) (auto simp: focus_request_def fb_def [symmetric] gen_ok_def)
  next
    case (Held slot h sid g)
    then show ?thesis
      using fb by (auto simp: focus_request_def fb_def [symmetric] Let_def gen_ok_def split: sum.splits)
  next
    case (Neutralizing slot h sid g t)
    then show ?thesis
      using fb by (auto simp: focus_request_def fb_def [symmetric] gen_ok_def)
  qed
qed

lemma complete_gen: "gen_ok fa (fst (complete_transition fa tid valid now))"
proof (cases "fa_state fa")
  case (Neutralizing slot h s g current)
  define fb where "fb = clear_proposal (fa\<lparr>fa_successor := None\<rparr>)"
  have fb: "fa_next_focus_generation fb = fa_next_focus_generation fa" "fa_state fb = fa_state fa"
    by (simp_all add: fb_def)
  have "gen_ok fa (fst (bind_op (grant fb slot c now)
      (\<lambda>fa'' _. (if fa_transition_reason fa'' = Released then fa''\<lparr>fa_transition_reason := HandoffApproved\<rparr> else fa'',
                 Inr True))))" for c
  proof -
    obtain fg rg where gr: "grant fb slot c now = (fg, rg)" by fastforce
    have "gen_ok fa fg"
      using grant_gen [OF gr] gen_ok_cong [of fb fa fg fg] fb by simp
    then show ?thesis
      by (cases rg) (auto simp: gr gen_ok_def)
  qed
  then show ?thesis
    using Neutralizing fb
    by (auto simp: complete_transition_def Let_def fb_def [symmetric] gen_ok_def split: option.splits)
qed (simp_all add: complete_transition_def gen_ok_def)

lemma focus_apply_gen: "gen_ok fa (focus_apply op fa)"
proof (cases op)
  case (Op_Invalidate c reason)
  have "gen_ok fa (fst (begin_neutralization (clear_proposal fa) reason None))"
    using neutralization_gen [of "clear_proposal fa" reason None] gen_ok_cong [of "clear_proposal fa" fa] by simp
  then show ?thesis
    using Op_Invalidate neutralization_gen [of fa reason None]
    by (auto simp: begin_invalidation_def Let_def gen_ok_same)
next
  case (Op_Activation_Expiry now)
  then show ?thesis
    using neutralization_gen
    by (auto simp: begin_activation_expiry_def gen_ok_same split: option.splits sum.splits)
next
  case (Op_Rate c now)
  then show ?thesis by (simp add: check_rate_limit_def Let_def gen_ok_same)
next
  case (Op_Activated c g)
  then show ?thesis by (auto simp: mark_activated_def gen_ok_same split: option.splits)
qed (auto simp: request_gen complete_gen neutralization_gen gen_ok_same retire_candidate_def
      focus_approve_def focus_deny_def focus_release_def focus_preempt_def
      split: sum.splits focus_state_v2.splits)

lemma focus_steps_gen: "focus_steps fa fb \<Longrightarrow> gen_ok fa fb"
proof (induction rule: focus_steps.induct)
  case (refl fa)
  then show ?case by (simp add: gen_ok_same)
next
  case (step fa fb op)
  with focus_apply_gen [of fb op] show ?case
    by (auto simp: gen_ok_def)
qed

section \<open>Properties\<close>

text \<open>
  C1: The arbiter's fields agree with each other after any sequence of its operations, accepted or
  refused: the held generation and the running transition are the last ones issued, proposals exist
  only against the current holder and pass validation, successors only while neutralizing.
\<close>

theorem focus_invariant:
  assumes "focus_steps (focus_arbiter_new owner) fa"
  shows "focus_wf fa \<and> focus_state_validate (fa_state fa) = Inr ()"
proof -
  from assms have wf: "focus_wf fa"
    by (rule focus_steps_wf) (rule focus_wf_new)
  then show ?thesis
    by (cases "fa_state fa") (auto simp: focus_wf_def focus_state_validate_def)
qed

text \<open>
  C2: A holder is never replaced in one step: whatever operation runs while the slot is held leaves
  it held by the same viewer with the same generation, or moves it to neutralizing that very hold
  under a fresh transition id.
\<close>

theorem handoff_neutralizes_first:
  assumes "fa_state fa = Held slot h sid g"
  shows "fa_state (focus_apply op fa) = Held slot h sid g \<or>
     (\<exists>t. fa_state (focus_apply op fa) = Neutralizing slot h sid g t \<and> fa_next_transition_id fa < t)"
  using assms by (rule apply_held)

text \<open>
  C3: Only an authorised operation ends a hold: an approval or release by the holder that names
  the current generation (and, for an approval, the pending proposal), a preemption by the
  configured owner that names it, the invalidation of the holder itself, or an activation deadline
  that has passed.
\<close>

theorem only_authorised_operations_end_a_hold:
  assumes "fa_state fa = Held slot h sid g" "fa_state (focus_apply op fa) \<noteq> Held slot h sid g"
  shows "ends_hold fa h sid g op"
  using assms by (rule ends_hold_necessary)

text \<open>
  A focus generation that has begun neutralizing never becomes current again: every later hold,
  after any further operations, has a strictly greater generation.
\<close>

theorem neutralized_generation_never_returns:
  assumes "focus_wf fa" "fa_state fa = Neutralizing slot h sid g t" "focus_steps fa fb"
    "fa_state fb = Held slot' h' sid' g'"
  shows "g < g'"
proof -
  have "focus_wf fb"
    using assms(3,1) by (rule focus_steps_wf)
  with assms have "g = fa_next_focus_generation fa" "g' = fa_next_focus_generation fb"
    by (simp_all add: focus_wf_def)
  with focus_steps_gen [OF assms(3)] assms(2,4) show ?thesis
    by (simp add: gen_ok_def)
qed

text \<open>
  Completing the running transition always leaves the neutralizing state (unless the 64-bit
  generation counter is exhausted): the successor holds focus under the next generation if there is
  one and it is still valid, and the slot is vacant otherwise. Any other transition id is ignored.
\<close>

theorem complete_transition_result:
  assumes "focus_wf fa" "fa_state fa = Neutralizing slot h sid g t" "fa_next_focus_generation fa \<noteq> - 1"
  shows "\<exists>fa'. complete_transition fa t valid now = (fa', Inr True) \<and>
     fa_state fa' = (case (if valid then fa_successor fa else None) of
        Some c \<Rightarrow> Held slot (cand_presence_id c) (cand_session_id c) (g + 1)
      | None \<Rightarrow> Vacant slot) \<and>
     (t' \<noteq> t \<longrightarrow> complete_transition fa t' valid now = (fa, Inr False))"
  using assms
  by (auto simp: complete_transition_def grant_def next_nonzero_ok focus_wf_def Let_def split: option.splits)

text \<open>
  An unanswered grant is withdrawn: once the activation deadline of the current hold has passed,
  the expiry check neutralizes it without a successor, and it can fail only if the 64-bit transition
  counter is exhausted.
\<close>

theorem activation_expiry_neutralizes:
  assumes "focus_wf fa" "fa_activation fa = Some a" "ad_deadline a \<le> now" "fa_next_transition_id fa \<noteq> - 1"
  shows "\<exists>fa'. begin_activation_expiry fa now =
       (fa', Inr \<lparr>fm_changed = True, fm_neutralization = Some \<lparr>fn_transition_id = fa_next_transition_id fa + 1,
                  fn_former_session_id = ad_session_id a\<rparr>\<rparr>) \<and>
     fa_state fa' = Neutralizing SLOT_ZERO (ad_presence_id a) (ad_session_id a) (ad_focus_generation a)
       (fa_next_transition_id fa + 1) \<and> fa_successor fa' = None"
proof (cases "fa_state fa")
  case (Held slot h sid g)
  with assms show ?thesis
    by (auto simp: begin_activation_expiry_def ensure_holder_def holds_focus_def focus_wf_def
        begin_neutralization_def next_nonzero_ok)
qed (use assms in \<open>simp_all add: focus_wf_def\<close>)

text \<open>
  There is never a queue of proposals: while one is pending and not expired, a further request
  by anybody but the holder is refused and changes nothing; once it has expired the same request
  replaces it (unless a counter or the clock is out of range).
\<close>

theorem one_proposal_at_a_time:
  assumes "fa_state fa = Held slot h sid g" "fa_proposal fa = Some p" "fa_proposal_deadline fa = Some d"
    "\<not> (h = cand_presence_id c \<and> sid = cand_session_id c)"
    "fa_next_proposal_id fa \<noteq> - 1" "unix_millis_after sys_now FOCUS_PROPOSAL_TTL = Inr ms"
  shows "(now < d \<longrightarrow> focus_request fa c now sys_now =
            (fa, Inl (Host ''controller slot 0 already has a pending handoff proposal''))) \<and>
         (d \<le> now \<longrightarrow> (\<exists>fa' p'. focus_request fa c now sys_now = (fa', Inr (plain_change True)) \<and>
            fa_proposal fa' = Some p' \<and> fp_requester p' = cand_presence_id c \<and>
            fp_requester_session_id p' = cand_session_id c \<and>
            fp_proposal_id p' = fa_next_proposal_id fa + 1 \<and>
            fa_proposal_deadline fa' = Some (now + FOCUS_PROPOSAL_TTL)))"
  using assms
  by (auto simp: focus_request_def expire_proposal_def clear_proposal_def next_nonzero_ok)

section \<open>The rate limit of focus commands\<close>

definition focus_rate_admit :: "focus_candidate \<Rightarrow> instant \<Rightarrow> focus_arbiter \<Rightarrow> focus_arbiter \<times> bool" where
  "focus_rate_admit c now fa = (case check_rate_limit fa c now of (fa', r) \<Rightarrow> (fa', is_ok r))"

definition focus_command_log :: "focus_candidate \<Rightarrow> focus_arbiter \<Rightarrow> instant list" where
  "focus_command_log c fa =
     (case map_of (fa_command_times fa) (cand_presence_id c, cand_session_id c) of None \<Rightarrow> [] | Some es \<Rightarrow> es)"

interpretation focus_rate: sliding_window "focus_rate_admit c" "focus_command_log c"
    FOCUS_COMMAND_RATE_WINDOW MAX_FOCUS_COMMANDS_PER_WINDOW
  for c
  by unfold_locales
    (auto simp: focus_rate_admit_def check_rate_limit_def focus_command_log_def Let_def
        update_conv' split: if_splits option.splits)

text \<open>
  A viewer session gets at most eight focus commands through in any two seconds, however
  often it sends them.
\<close>

theorem focus_commands_rate_limited:
  assumes "sorted ts"
  shows "length (filter (in_window (from_secs 2) t)
     (admitted (focus_rate_admit c) (focus_arbiter_new owner) ts)) \<le> 8"
  using focus_rate.from_empty [of c "focus_arbiter_new owner" ts t] assms
  by (simp add: focus_command_log_def focus_arbiter_new_def FOCUS_COMMAND_RATE_WINDOW_def
      MAX_FOCUS_COMMANDS_PER_WINDOW_def)

section \<open>Witnesses\<close>

text \<open>
  A concrete run: Alice is granted the vacant slot, Bob asks for it, Alice approves.
\<close>

definition demo_alice :: focus_candidate where
  "demo_alice = \<lparr>cand_presence_id = ViewerPresenceId ''viewer-1'', cand_session_id = 1\<rparr>"

definition demo_bob :: focus_candidate where
  "demo_bob = \<lparr>cand_presence_id = ViewerPresenceId ''viewer-2'', cand_session_id = 2\<rparr>"

definition demo_held :: focus_arbiter where
  "demo_held = focus_apply (Op_Request demo_alice 0 0) (focus_arbiter_new None)"

definition demo_proposed :: focus_arbiter where
  "demo_proposed = focus_apply (Op_Request demo_bob 1 0) demo_held"

definition demo_neutralizing :: focus_arbiter where
  "demo_neutralizing = focus_apply (Op_Approve demo_alice 1 1) demo_proposed"

lemma demo_candidates_ok: "cand_ok demo_alice" "cand_ok demo_bob"
  by (simp_all add: cand_ok_def demo_alice_def demo_bob_def presence_validate_def presence_new_def
      is_ascii_alphanumeric_def MAX_PRESENCE_ID_LEN_def)

lemma demo_next_nonzero [simp]:
  "next_nonzero 0 n = Inr 1" "next_nonzero 1 n = Inr 2"
  using next_nonzero_ok [of 0 n] next_nonzero_ok [of 1 n] by simp_all

lemma demo_clock [simp]: "unix_millis_after 0 FOCUS_PROPOSAL_TTL = Inr 15000"
  by (simp add: unix_millis_after_def FOCUS_PROPOSAL_TTL_def from_secs_def)

lemma demo_held_eq: "demo_held =
  \<lparr>fa_state = Held SLOT_ZERO (ViewerPresenceId ''viewer-1'') 1 1, fa_proposal = None,
   fa_proposal_deadline = None, fa_transition_reason = Requested, fa_configured_owner = None,
   fa_successor = None,
   fa_activation = Some \<lparr>ad_presence_id = ViewerPresenceId ''viewer-1'', ad_session_id = 1,
      ad_focus_generation = 1, ad_deadline = FOCUS_ACTIVATION_TTL\<rparr>,
   fa_next_focus_generation = 1, fa_next_transition_id = 0, fa_next_proposal_id = 0, fa_command_times = []\<rparr>"
  by (simp add: demo_held_def demo_alice_def focus_request_def expire_proposal_def focus_arbiter_new_def
      grant_def)

lemma demo_proposed_eq: "demo_proposed =
  demo_held\<lparr>fa_proposal := Some \<lparr>fp_proposal_id = 1, fp_slot = SLOT_ZERO,
       fp_requester = ViewerPresenceId ''viewer-2'', fp_requester_session_id = 2,
       fp_holder = ViewerPresenceId ''viewer-1'', fp_holder_session_id = 1, fp_expires_at_unix_ms = 15000\<rparr>,
    fa_proposal_deadline := Some (1 + FOCUS_PROPOSAL_TTL), fa_next_proposal_id := 1,
    fa_transition_reason := HandoffRequested\<rparr>"
  by (simp add: demo_proposed_def demo_held_eq demo_bob_def focus_request_def expire_proposal_def)

lemma demo_neutralizing_eq: "demo_neutralizing =
  demo_held\<lparr>fa_state := Neutralizing SLOT_ZERO (ViewerPresenceId ''viewer-1'') 1 1 1,
    fa_successor := Some demo_bob, fa_activation := None, fa_next_transition_id := 1,
    fa_next_proposal_id := 1, fa_transition_reason := HandoffApproved\<rparr>"
  by (simp add: demo_neutralizing_def demo_proposed_eq demo_held_eq demo_alice_def demo_bob_def
      focus_approve_def ensure_holder_def holds_focus_def ensure_proposal_def begin_neutralization_def
      clear_proposal_def)

lemma demo_steps: "focus_steps (focus_arbiter_new None) demo_neutralizing"
  unfolding demo_neutralizing_def demo_proposed_def demo_held_def
  by (intro focus_steps.intros) (simp_all add: demo_candidates_ok)

lemma demo_wf: "focus_wf demo_neutralizing" "focus_wf demo_held"
  using focus_steps_wf [OF demo_steps focus_wf_new]
    focus_apply_wf [OF focus_wf_new, of "Op_Request demo_alice 0 0" None]
  by (simp_all add: demo_held_def demo_candidates_ok)

theorem focus_invariant_witness:
  "focus_wf demo_neutralizing \<and> focus_state_validate (fa_state demo_neutralizing) = Inr ()"
  by (rule focus_invariant [OF demo_steps])

theorem handoff_neutralizes_first_witness:
  "fa_state (focus_apply (Op_Approve demo_alice 1 1) demo_proposed) = Held SLOT_ZERO (ViewerPresenceId ''viewer-1'') 1 1 \<or>
   (\<exists>t. fa_state (focus_apply (Op_Approve demo_alice 1 1) demo_proposed)
          = Neutralizing SLOT_ZERO (ViewerPresenceId ''viewer-1'') 1 1 t \<and> fa_next_transition_id demo_proposed < t)"
  by (rule handoff_neutralizes_first) (simp add: demo_proposed_eq demo_held_eq)

theorem only_authorised_operations_end_a_hold_witness:
  "ends_hold demo_proposed (ViewerPresenceId ''viewer-1'') 1 1 (Op_Approve demo_alice 1 1)"
proof (rule only_authorised_operations_end_a_hold [where slot = SLOT_ZERO])
  show "fa_state demo_proposed = Held SLOT_ZERO (ViewerPresenceId ''viewer-1'') 1 1"
    by (simp add: demo_proposed_eq demo_held_eq)
  show "fa_state (focus_apply (Op_Approve demo_alice 1 1) demo_proposed)
      \<noteq> Held SLOT_ZERO (ViewerPresenceId ''viewer-1'') 1 1"
    unfolding demo_neutralizing_def [symmetric] by (simp add: demo_neutralizing_eq)
qed

lemma demo_completed: "focus_apply (Op_Complete 1 True 2) demo_neutralizing =
  demo_held\<lparr>fa_state := Held SLOT_ZERO (ViewerPresenceId ''viewer-2'') 2 2,
    fa_activation := Some \<lparr>ad_presence_id = ViewerPresenceId ''viewer-2'', ad_session_id = 2,
      ad_focus_generation = 2, ad_deadline = 2 + FOCUS_ACTIVATION_TTL\<rparr>,
    fa_next_focus_generation := 2, fa_next_transition_id := 1,
    fa_next_proposal_id := 1, fa_transition_reason := HandoffApproved\<rparr>"
  by (simp add: demo_neutralizing_eq demo_held_eq demo_bob_def complete_transition_def grant_def
      clear_proposal_def)

theorem neutralized_generation_never_returns_witness:
  "(1 :: u64) < 2 \<and> fa_state (focus_apply (Op_Complete 1 True 2) demo_neutralizing)
      = Held SLOT_ZERO (ViewerPresenceId ''viewer-2'') 2 2"
proof
  show eq: "fa_state (focus_apply (Op_Complete 1 True 2) demo_neutralizing)
      = Held SLOT_ZERO (ViewerPresenceId ''viewer-2'') 2 2"
    by (subst demo_completed) simp
  have n: "fa_state demo_neutralizing = Neutralizing SLOT_ZERO (ViewerPresenceId ''viewer-1'') 1 1 1"
    by (simp add: demo_neutralizing_eq)
  have st: "focus_steps demo_neutralizing (focus_apply (Op_Complete 1 True 2) demo_neutralizing)"
    by (intro focus_steps.intros) simp
  show "(1 :: u64) < 2"
    by (rule neutralized_generation_never_returns [OF demo_wf(1) n st eq])
qed

theorem complete_transition_result_witness:
  "\<exists>fa'. complete_transition demo_neutralizing 1 True 5 = (fa', Inr True) \<and>
     fa_state fa' = (case (if True then fa_successor demo_neutralizing else None) of
        Some c \<Rightarrow> Held SLOT_ZERO (cand_presence_id c) (cand_session_id c) (1 + 1)
      | None \<Rightarrow> Vacant SLOT_ZERO) \<and>
     ((9 :: u64) \<noteq> 1 \<longrightarrow> complete_transition demo_neutralizing 9 True 5 = (demo_neutralizing, Inr False))"
  by (rule complete_transition_result [OF demo_wf(1)]) (simp_all add: demo_neutralizing_eq demo_held_eq)

theorem activation_expiry_neutralizes_witness:
  "\<exists>fa'. begin_activation_expiry demo_held (from_secs 10) =
       (fa', Inr \<lparr>fm_changed = True, fm_neutralization = Some \<lparr>fn_transition_id = fa_next_transition_id demo_held + 1,
                  fn_former_session_id = 1\<rparr>\<rparr>) \<and>
     fa_state fa' = Neutralizing SLOT_ZERO (ViewerPresenceId ''viewer-1'') 1 1
       (fa_next_transition_id demo_held + 1) \<and> fa_successor fa' = None"
  using activation_expiry_neutralizes [OF demo_wf(2), of "\<lparr>ad_presence_id = ViewerPresenceId ''viewer-1'',
      ad_session_id = 1, ad_focus_generation = 1, ad_deadline = FOCUS_ACTIVATION_TTL\<rparr>" "from_secs 10"]
  by (simp add: demo_held_eq FOCUS_ACTIVATION_TTL_def)

theorem one_proposal_at_a_time_witness:
  "focus_request demo_proposed \<lparr>cand_presence_id = ViewerPresenceId ''viewer-3'', cand_session_id = 3\<rparr> 2 0 =
     (demo_proposed, Inl (Host ''controller slot 0 already has a pending handoff proposal''))"
proof -
  have "(2 :: nat) < 1 + FOCUS_PROPOSAL_TTL"
    by (simp add: FOCUS_PROPOSAL_TTL_def from_secs_def)
  moreover have "fa_proposal demo_proposed = Some (the (fa_proposal demo_proposed))"
    by (simp add: demo_proposed_eq)
  ultimately show ?thesis
    using one_proposal_at_a_time [of demo_proposed SLOT_ZERO "ViewerPresenceId ''viewer-1''" 1 1
        "the (fa_proposal demo_proposed)" "1 + FOCUS_PROPOSAL_TTL"
        "\<lparr>cand_presence_id = ViewerPresenceId ''viewer-3'', cand_session_id = 3\<rparr>" 0 15000 2]
    by (simp add: demo_proposed_eq demo_held_eq)
qed

theorem focus_commands_rate_limited_witness:
  "length (filter (in_window (from_secs 2) 8)
     (admitted (focus_rate_admit demo_alice) (focus_arbiter_new None) [0, 1, 2, 3, 4, 5, 6, 7, 8])) \<le> 8"
  by (rule focus_commands_rate_limited) simp

end
