(* ===== verification/Session_Registry.thy ===== *)
theory Session_Registry
  imports Focus_Invariants
begin

text \<open>
  The session registry of the host (\<open>crates/sigil-host/src/server/session.rs\<close>): the one exclusive
  legacy session, the roster of v2 viewers with its revision, focus arbiter and media generation,
  the pending MoQ attachments and the admission limits. Every method of \<open>SessionRegistry\<close> is a
  function from the registry to the registry and its result. A method that locks the registry's
  parts one after the other is one function; the clocks it reads are arguments, one per read.
  \<open>Arc\<close>s, wake-ups (\<open>notify_waiters\<close>), log lines and the telemetry counters are left out; an
  \<open>EncoderControl\<close> and a \<open>BroadcastConsumer\<close> are opaque handles, and a snapshot channel is the
  value it holds.
\<close>

section \<open>State\<close>

definition MAX_VIEWERS :: nat where "MAX_VIEWERS = 8"
definition MAX_TRACKED_ADMISSION_PEERS :: nat where "MAX_TRACKED_ADMISSION_PEERS = MAX_VIEWERS * 4"
definition ADMISSION_RATE_WINDOW :: duration where "ADMISSION_RATE_WINDOW = from_secs 10"
definition MAX_ADMISSIONS_PER_WINDOW :: nat where "MAX_ADMISSIONS_PER_WINDOW = 12"
definition ATTACHMENT_RATE_WINDOW :: duration where "ATTACHMENT_RATE_WINDOW = from_secs 5"
definition MAX_ATTACHMENTS_PER_WINDOW :: nat where "MAX_ATTACHMENTS_PER_WINDOW = 4"
definition KEYFRAME_RATE_WINDOW :: duration where "KEYFRAME_RATE_WINDOW = from_secs 2"
definition MAX_KEYFRAME_REQUESTS_PER_WINDOW :: nat where "MAX_KEYFRAME_REQUESTS_PER_WINDOW = 8"
definition FEEDBACK_CLAIM_RATE_WINDOW :: duration where "FEEDBACK_CLAIM_RATE_WINDOW = from_secs 10"
definition MAX_FEEDBACK_CLAIMS_PER_WINDOW :: nat where "MAX_FEEDBACK_CLAIMS_PER_WINDOW = 4"

type_synonym endpoint_id = bytes
type_synonym encoder_handle = nat
type_synonym broadcast_handle = nat

datatype session_mode = LegacyExclusive | V2Single

record active_session =
  as_remote :: endpoint_id
  as_session_id :: u64
  as_nonce :: bytes
  as_session_clock :: instant
  as_media_generation_id :: u64
  as_media_broadcast_name :: string
  as_grants :: invitation_grants
  as_viewer_handle :: "string option"
  as_authorization_revision :: u64
  as_authorization_committed_revision :: u64
  as_media_active :: bool
  as_input_claimed :: bool
  as_audio_claimed :: bool
  as_feedback_claimed :: bool
  as_encoder_control :: "encoder_handle option"
  as_mode :: session_mode

record viewer_rate_limits =
  vr_attachments :: rate_window
  vr_keyframes :: rate_window
  vr_feedback_claims :: rate_window

definition viewer_rate_limits_default :: viewer_rate_limits where
  "viewer_rate_limits_default =
     \<lparr>vr_attachments = rate_window_default, vr_keyframes = rate_window_default,
      vr_feedback_claims = rate_window_default\<rparr>"

record v2_viewer_session =
  vv_session :: active_session
  vv_presence_id :: viewer_presence_id
  vv_authorization_neutralizing :: bool
  vv_snapshots :: "session_snapshot_v2 option"
  vv_rates :: viewer_rate_limits

record v2_session_state =
  vs_viewers :: "(endpoint_id \<times> v2_viewer_session) list"
  vs_revision :: u64
  vs_focus :: focus_arbiter
  vs_media :: "media_generation_descriptor_v2 option"
  vs_live_control_leases :: nat

definition v2_session_state_new :: "viewer_presence_id option \<Rightarrow> v2_session_state" where
  "v2_session_state_new configured_owner =
     \<lparr>vs_viewers = [], vs_revision = 0, vs_focus = focus_arbiter_new configured_owner,
      vs_media = None, vs_live_control_leases = 0\<rparr>"

record pending_moq_attachment =
  pm_remote :: endpoint_id
  pm_session_id :: u64
  pm_broadcast_name :: string
  pm_broadcast :: broadcast_handle
  pm_subscription_capability :: "signed_subscription_capability option"
  pm_expected_host :: "bytes option"

record session_registry =
  sr_active :: "active_session option"
  sr_pending_moq :: "((endpoint_id \<times> u64) \<times> pending_moq_attachment) list"
  sr_max_viewers :: nat
  sr_next_session_id :: u64
  sr_authorization_committed_revision :: u64
  sr_admission_rates :: "(endpoint_id \<times> rate_window) list"
  sr_v2 :: v2_session_state

text \<open>
  The \<open>assert!\<close> on the capacity and the \<open>expect\<close> on the configured owner panic, which is \<open>None\<close>.
\<close>

definition session_registry_new :: "nat \<Rightarrow> string option \<Rightarrow> session_registry option" where
  "session_registry_new max_viewers focus_owner =
     (if \<not> (1 \<le> max_viewers \<and> max_viewers \<le> MAX_VIEWERS) then None
      else case (case focus_owner of
                   None \<Rightarrow> Inr None
                 | Some o' \<Rightarrow> bind_res (presence_new o') (\<lambda>p. Inr (Some p))) of
        Inl _ \<Rightarrow> None
      | Inr owner \<Rightarrow>
          Some \<lparr>sr_active = None, sr_pending_moq = [], sr_max_viewers = max_viewers,
                sr_next_session_id = 0, sr_authorization_committed_revision = 1,
                sr_admission_rates = [], sr_v2 = v2_session_state_new owner\<rparr>)"

text \<open>What the registry needs of the authorization store: an admitted viewer and a mutation.\<close>

record authorized_viewer =
  av_handle :: string
  av_grants :: invitation_grants
  av_authorization_revision :: u64
  av_committed_revision :: u64

record authorization_mutation =
  am_handle :: string
  am_peer :: endpoint_id
  am_previous_grants :: invitation_grants
  am_current_grants :: "invitation_grants option"
  am_authorization_revision :: u64
  am_committed_revision :: u64

section \<open>Roster helpers\<close>

definition viewer_candidate :: "v2_viewer_session \<Rightarrow> focus_candidate" where
  "viewer_candidate v =
     \<lparr>cand_presence_id = vv_presence_id v, cand_session_id = as_session_id (vv_session v)\<rparr>"

text \<open>The recurring \<open>get(&remote).filter(...)\<close> chains.\<close>

definition viewer_with_session :: "v2_session_state \<Rightarrow> endpoint_id \<Rightarrow> u64 \<Rightarrow> v2_viewer_session option" where
  "viewer_with_session st remote session_id =
     (case map_of (vs_viewers st) remote of
        None \<Rightarrow> None
      | Some v \<Rightarrow> if as_session_id (vv_session v) = session_id then Some v else None)"

definition active_viewer :: "v2_session_state \<Rightarrow> endpoint_id \<Rightarrow> u64 \<Rightarrow> v2_viewer_session option" where
  "active_viewer st remote session_id =
     (case map_of (vs_viewers st) remote of
        None \<Rightarrow> None
      | Some v \<Rightarrow> if as_media_active (vv_session v) \<and> as_session_id (vv_session v) = session_id
                  then Some v else None)"

text \<open>\<open>get_mut\<close> changes an entry in place.\<close>

definition viewer_update :: "endpoint_id \<Rightarrow> (v2_viewer_session \<Rightarrow> v2_viewer_session) \<Rightarrow> v2_session_state \<Rightarrow> v2_session_state" where
  "viewer_update remote f st = st\<lparr>vs_viewers := AList.map_entry remote f (vs_viewers st)\<rparr>"

definition viewer_remove :: "endpoint_id \<Rightarrow> v2_session_state \<Rightarrow> v2_session_state" where
  "viewer_remove remote st = st\<lparr>vs_viewers := AList.delete remote (vs_viewers st)\<rparr>"

definition advance_v2_revision :: "v2_session_state \<Rightarrow> v2_session_state \<times> unit host" where
  "advance_v2_revision st =
     (case checked_add (vs_revision st) 1 of
        None \<Rightarrow> (st, Inl (Host ''v2 snapshot revision overflowed''))
      | Some r \<Rightarrow> (st\<lparr>vs_revision := r\<rparr>, Inr ()))"

definition viewer_presence_for :: "endpoint_id \<Rightarrow> v2_viewer_session \<Rightarrow> viewer_presence_v2" where
  "viewer_presence_for remote v =
     \<lparr>vp_presence_id = vv_presence_id v, vp_session_id = as_session_id (vv_session v),
      vp_input_capable = input_capable_grants (as_grants (vv_session v)),
      vp_you = (as_remote (vv_session v) = remote)\<rparr>"

definition v2_snapshot_of :: "v2_session_state \<Rightarrow> endpoint_id \<Rightarrow> v2_viewer_session \<Rightarrow> session_snapshot_v2" where
  "v2_snapshot_of st remote self =
     \<lparr>ss_revision = vs_revision st,
      ss_self_presence_id = vv_presence_id self,
      ss_viewers = sort_key vp_presence_id (map (viewer_presence_for remote \<circ> snd) (vs_viewers st)),
      ss_focus = fa_state (vs_focus st),
      ss_focus_proposal = fa_proposal (vs_focus st),
      ss_self_is_focus_owner = is_configured_owner (vs_focus st) (vv_presence_id self),
      ss_transition_reason = fa_transition_reason (vs_focus st),
      ss_media = (case vs_media st of
                    Some m \<Rightarrow> m
                  | None \<Rightarrow> \<lparr>mg_generation_id = as_media_generation_id (vv_session self),
                             mg_broadcast_name = as_media_broadcast_name (vv_session self)\<rparr>)\<rparr>"

definition v2_snapshot_for :: "v2_session_state \<Rightarrow> endpoint_id \<Rightarrow> session_snapshot_v2 host" where
  "v2_snapshot_for st remote =
     (case map_of (vs_viewers st) remote of
        None \<Rightarrow> Inl (Host ''active v2 viewer is missing from snapshot state'')
      | Some self \<Rightarrow>
          bind_res (lift_proto (snapshot_validate (v2_snapshot_of st remote self)))
            (\<lambda>_. Inr (v2_snapshot_of st remote self)))"

text \<open>
  The publication loop stops at the first viewer whose snapshot does not validate; the viewers
  before it have received theirs. A \<open>HashMap\<close> is iterated in an unspecified order, here the order
  of the list.
\<close>

fun publish_loop ::
  "v2_session_state \<Rightarrow> (endpoint_id \<times> v2_viewer_session) list
   \<Rightarrow> (endpoint_id \<times> v2_viewer_session) list \<times> unit host" where
  "publish_loop st [] = ([], Inr ())"
| "publish_loop st ((remote, v) # vs) =
     (case v2_snapshot_for st remote of
        Inl e \<Rightarrow> ((remote, v) # vs, Inl e)
      | Inr s \<Rightarrow>
          (case publish_loop st vs of
             (vs', r) \<Rightarrow> ((remote, v\<lparr>vv_snapshots := Some s\<rparr>) # vs', r)))"

definition publish_v2_snapshots :: "v2_session_state \<Rightarrow> v2_session_state \<times> unit host" where
  "publish_v2_snapshots st =
     (case publish_loop st (vs_viewers st) of (vs, r) \<Rightarrow> (st\<lparr>vs_viewers := vs\<rparr>, r))"

definition advance_and_publish :: "v2_session_state \<Rightarrow> v2_session_state \<times> unit host" where
  "advance_and_publish st = bind_op (advance_v2_revision st) (\<lambda>st' _. publish_v2_snapshots st')"

text \<open>An operation on the v2 state as an operation on the registry.\<close>

definition with_v2 :: "session_registry \<Rightarrow> v2_session_state \<times> 'a host \<Rightarrow> session_registry \<times> 'a host" where
  "with_v2 reg m = (case m of (st, r) \<Rightarrow> (reg\<lparr>sr_v2 := st\<rparr>, r))"

section \<open>Status\<close>

definition has_session :: "session_registry \<Rightarrow> bool" where
  "has_session reg \<longleftrightarrow> sr_active reg \<noteq> None \<or> vs_viewers (sr_v2 reg) \<noteq> []"

record session_runtime_status =
  rs_mode :: string
  rs_active_viewers :: nat
  rs_media_generation_id :: "u64 option"
  rs_roster_revision :: "u64 option"
  rs_focus_occupied :: "bool option"
  rs_configured_capacity :: nat
  rs_authorization_revision :: u64

definition v2_runtime_status :: "session_registry \<Rightarrow> session_runtime_status" where
  "v2_runtime_status reg =
     (let st = sr_v2 reg; empty = (vs_viewers st = []) in
      \<lparr>rs_mode = (if empty then ''inactive'' else ''moq_multi_viewer''),
       rs_active_viewers = length (vs_viewers st),
       rs_media_generation_id = map_option mg_generation_id (vs_media st),
       rs_roster_revision = (if empty then None else Some (vs_revision st)),
       rs_focus_occupied =
         (if empty then None
          else Some (case fa_state (vs_focus st) of
                       Held slot h s g \<Rightarrow> True
                     | Vacant slot \<Rightarrow> False
                     | Neutralizing slot h s g t \<Rightarrow> False)),
       rs_configured_capacity = sr_max_viewers reg,
       rs_authorization_revision = sr_authorization_committed_revision reg\<rparr>)"

definition runtime_status :: "session_registry \<Rightarrow> session_runtime_status" where
  "runtime_status reg =
     (case sr_active reg of
        Some active \<Rightarrow>
          if as_media_active active
          then \<lparr>rs_mode = ''legacy_exclusive'', rs_active_viewers = 1,
                rs_media_generation_id = Some (as_media_generation_id active),
                rs_roster_revision = None, rs_focus_occupied = None,
                rs_configured_capacity = sr_max_viewers reg,
                rs_authorization_revision = sr_authorization_committed_revision reg\<rparr>
          else v2_runtime_status reg
      | None \<Rightarrow> v2_runtime_status reg)"

section \<open>Admission\<close>

definition check_admission_rate :: "session_registry \<Rightarrow> endpoint_id \<Rightarrow> instant \<Rightarrow> session_registry \<times> unit host" where
  "check_admission_rate reg remote now =
     (let rates = filter (\<lambda>(peer, rate). \<not> rate_window_expired rate now ADMISSION_RATE_WINDOW)
                    (sr_admission_rates reg);
          reg' = reg\<lparr>sr_admission_rates := rates\<rparr>
      in if map_of rates remote = None \<and> MAX_TRACKED_ADMISSION_PEERS \<le> length rates
         then (reg', Inl (Host ''viewer admission rate table is full''))
         else (let entry = (case map_of rates remote of None \<Rightarrow> rate_window_default | Some rw \<Rightarrow> rw) in
               case rate_window_check now ADMISSION_RATE_WINDOW MAX_ADMISSIONS_PER_WINDOW
                      ''viewer reconnect'' entry of
                 (rw, r) \<Rightarrow> (reg'\<lparr>sr_admission_rates := AList.update remote rw rates\<rparr>, r)))"

record session_lease =
  sl_remote :: endpoint_id
  sl_session_id :: u64
  sl_session_clock :: instant

definition claim :: "session_registry \<Rightarrow> endpoint_id \<Rightarrow> bytes \<Rightarrow> invitation_grants \<Rightarrow> instant
    \<Rightarrow> session_registry \<times> session_lease host" where
  "claim reg remote nonce grants clock =
     (if sr_active reg \<noteq> None then (reg, Inl (Host ''host already has active client''))
      else if vs_live_control_leases (sr_v2 reg) \<noteq> 0
      then (reg, Inl (Host ''host already has an active multi-viewer generation''))
      else (let session_id = sr_next_session_id reg + 1;
                reg' = reg\<lparr>sr_next_session_id := session_id\<rparr>
            in case media_moq_broadcast_name session_id of
                 Inl e \<Rightarrow> (reg', Inl (Protocol e))
               | Inr name \<Rightarrow>
                   (reg'\<lparr>sr_active := Some
                      \<lparr>as_remote = remote, as_session_id = session_id, as_nonce = nonce,
                       as_session_clock = clock, as_media_generation_id = session_id,
                       as_media_broadcast_name = name, as_grants = grants, as_viewer_handle = None,
                       as_authorization_revision = 1, as_authorization_committed_revision = 1,
                       as_media_active = True, as_input_claimed = False, as_audio_claimed = False,
                       as_feedback_claimed = False, as_encoder_control = None,
                       as_mode = LegacyExclusive\<rparr>\<rparr>,
                    Inr \<lparr>sl_remote = remote, sl_session_id = session_id, sl_session_clock = clock\<rparr>)))"

record v2_session_lease =
  vl_remote :: endpoint_id
  vl_session_id :: u64
  vl_session_clock :: instant
  vl_initial_snapshot :: session_snapshot_v2
  vl_authorization_revision :: u64
  vl_authorization_committed_revision :: u64
  vl_replaced_snapshots :: "session_snapshot_v2 option option"
  vl_replacement_transition :: "focus_neutralization option"

text \<open>Removing the predecessor of a reconnecting peer, with its focus.\<close>

definition claim_v2_replace ::
  "v2_session_state \<Rightarrow> endpoint_id \<Rightarrow> v2_session_state \<times> focus_neutralization option host" where
  "claim_v2_replace st remote =
     (case map_of (vs_viewers st) remote of
        None \<Rightarrow> (st, Inr None)
      | Some replaced \<Rightarrow>
          (let st' = viewer_remove remote st;
               candidate = viewer_candidate replaced
           in case begin_invalidation (vs_focus st') candidate Replaced of
                (fa, Inl e) \<Rightarrow> (st'\<lparr>vs_focus := fa\<rparr>, Inl e)
              | (fa, Inr m) \<Rightarrow>
                  (st'\<lparr>vs_focus := retire_candidate fa candidate\<rparr>, Inr (fm_neutralization m))))"

definition v2_session_new ::
  "endpoint_id \<Rightarrow> u64 \<Rightarrow> bytes \<Rightarrow> instant \<Rightarrow> media_generation_descriptor_v2 \<Rightarrow> authorized_viewer \<Rightarrow> active_session" where
  "v2_session_new remote session_id nonce clock media authorized =
     \<lparr>as_remote = remote, as_session_id = session_id, as_nonce = nonce, as_session_clock = clock,
      as_media_generation_id = mg_generation_id media,
      as_media_broadcast_name = mg_broadcast_name media, as_grants = av_grants authorized,
      as_viewer_handle = Some (av_handle authorized),
      as_authorization_revision = av_authorization_revision authorized,
      as_authorization_committed_revision = av_committed_revision authorized,
      as_media_active = True, as_input_claimed = False, as_audio_claimed = False,
      as_feedback_claimed = False, as_encoder_control = None, as_mode = V2Single\<rparr>"

text \<open>
  \<open>unwrap_or\<close> evaluates its argument: the provisional broadcast name is computed, and its error
  returned, even when a generation is active.
\<close>

definition claim_v2_media :: "v2_session_state \<Rightarrow> u64 \<Rightarrow> media_generation_descriptor_v2 host" where
  "claim_v2_media st session_id =
     bind_res (lift_proto (media_generation_moq_broadcast_name session_id)) (\<lambda>name.
       Inr (case vs_media st of
              Some m \<Rightarrow> m
            | None \<Rightarrow> \<lparr>mg_generation_id = session_id, mg_broadcast_name = name\<rparr>))"

definition claim_v2_insert ::
  "v2_session_state \<Rightarrow> endpoint_id \<Rightarrow> viewer_presence_id \<Rightarrow> active_session
   \<Rightarrow> v2_session_state \<times> session_snapshot_v2 host" where
  "claim_v2_insert st remote presence_id session =
     (let viewer = \<lparr>vv_session = session, vv_presence_id = presence_id,
                    vv_authorization_neutralizing = False, vv_snapshots = None,
                    vv_rates = viewer_rate_limits_default\<rparr>;
          st' = st\<lparr>vs_viewers := AList.update remote viewer (vs_viewers st)\<rparr>
      in if \<not> (vs_live_control_leases st' + 1 < 2 ^ 64)
         then (st', Inl (Host ''v2 control lease count overflowed''))
         else bind_op (advance_and_publish
                         (st'\<lparr>vs_live_control_leases := vs_live_control_leases st' + 1\<rparr>))
                (\<lambda>st'' _. (st'', v2_snapshot_for st'' remote)))"

definition claim_v2_authorized ::
  "session_registry \<Rightarrow> endpoint_id \<Rightarrow> bytes \<Rightarrow> authorized_viewer \<Rightarrow> instant \<Rightarrow> instant
   \<Rightarrow> session_registry \<times> v2_session_lease host" where
  "claim_v2_authorized reg0 remote nonce authorized now clock =
     (case grants_validate (av_grants authorized) of
        Inl e \<Rightarrow> (reg0, Inl (Protocol e))
      | Inr _ \<Rightarrow>
      if \<not> grants_contains (av_grants authorized) GRANT_VIEW
      then (reg0, Inl (Host ''viewer lacks view permission''))
      else if av_authorization_revision authorized = 0 \<or> av_committed_revision authorized = 0
      then (reg0, Inl (Host ''viewer authorization revision is invalid''))
      else bind_op (check_admission_rate reg0 remote now) (\<lambda>reg1 _.
      let reg = reg1\<lparr>sr_authorization_committed_revision :=
                       max (sr_authorization_committed_revision reg1) (av_committed_revision authorized)\<rparr>
      in if sr_authorization_committed_revision reg \<noteq> av_committed_revision authorized
      then (reg, Inl (Host ''viewer admission used a stale authorization revision''))
      else if sr_active reg \<noteq> None
      then (reg, Inl (Host ''host already has an active legacy client''))
      else if map_of (vs_viewers (sr_v2 reg)) remote = None
              \<and> sr_max_viewers reg \<le> length (vs_viewers (sr_v2 reg))
      then (reg, Inl (Host ''multi-viewer capacity is full''))
      else (let session_id = sr_next_session_id reg + 1;
                reg' = reg\<lparr>sr_next_session_id := session_id\<rparr>
      in case presence_new (av_handle authorized) of
        Inl e \<Rightarrow> (reg', Inl (Protocol e))
      | Inr presence_id \<Rightarrow>
      if \<not> list_all (\<lambda>(peer, viewer). peer = remote \<or> vv_presence_id viewer \<noteq> presence_id)
             (vs_viewers (sr_v2 reg'))
      then (reg', Inl (Host ''viewer presence id is already active for another peer''))
      else with_v2 reg'
        (bind_op (claim_v2_replace (sr_v2 reg') remote) (\<lambda>st transition.
         case claim_v2_media st session_id of
           Inl e \<Rightarrow> (st, Inl e)
         | Inr media \<Rightarrow>
             bind_op (claim_v2_insert st remote presence_id
                        (v2_session_new remote session_id nonce clock media authorized))
               (\<lambda>st' snapshot.
                (st', Inr \<lparr>vl_remote = remote, vl_session_id = session_id, vl_session_clock = clock,
                           vl_initial_snapshot = snapshot,
                           vl_authorization_revision = av_authorization_revision authorized,
                           vl_authorization_committed_revision = av_committed_revision authorized,
                           vl_replaced_snapshots =
                             map_option vv_snapshots (map_of (vs_viewers (sr_v2 reg')) remote),
                           vl_replacement_transition = transition\<rparr>)))))))"

definition retire_replaced_viewer :: "v2_session_lease \<Rightarrow> v2_session_lease" where
  "retire_replaced_viewer lease = lease\<lparr>vl_replaced_snapshots := None\<rparr>"

definition bind_v2_generation ::
  "session_registry \<Rightarrow> endpoint_id \<Rightarrow> u64 \<Rightarrow> u64 \<Rightarrow> instant \<Rightarrow> encoder_handle option
   \<Rightarrow> session_registry \<times> session_snapshot_v2 host" where
  "bind_v2_generation reg remote session_id generation_id clock encoder_control =
     (case media_generation_moq_broadcast_name generation_id of
        Inl e \<Rightarrow> (reg, Inl (Protocol e))
      | Inr name \<Rightarrow>
      (let descriptor = \<lparr>mg_generation_id = generation_id, mg_broadcast_name = name\<rparr>;
           st0 = sr_v2 reg
       in if (case vs_media st0 of Some current \<Rightarrow> current \<noteq> descriptor | None \<Rightarrow> False)
          then (reg, Inl (Host ''viewer attempted to join a different active media generation''))
          else let st = (case vs_media st0 of Some current \<Rightarrow> st0 | None \<Rightarrow> st0\<lparr>vs_media := Some descriptor\<rparr>)
          in with_v2 reg
            (case active_viewer st remote session_id of
               None \<Rightarrow> (st, Inl (Host ''generation binding does not match the active v2 viewer''))
             | Some viewer \<Rightarrow>
                 if generation_id = 0 then (st, Inl (Host ''media generation id must be non-zero''))
                 else bind_op
                   (publish_v2_snapshots
                     (viewer_update remote (\<lambda>v. v\<lparr>vv_session := (vv_session v)
                        \<lparr>as_session_clock := clock, as_media_generation_id := generation_id,
                         as_media_broadcast_name := name, as_encoder_control := encoder_control\<rparr>\<rparr>) st))
                   (\<lambda>st' _. (st', v2_snapshot_for st' remote)))))"

end
