(* ===== verification/Session_Operations.thy ===== *)
theory Session_Operations
  imports Session_Registry
begin

text \<open>
  The operations on an admitted session
  (\<open>crates/sigil-host/src/server/session.rs\<close>): focus commands and their expiry, live authorization
  changes, the input, feedback, audio and MoQ attachments, and the releases that the lease types
  make when they are dropped.
\<close>

section \<open>Focus\<close>

definition subscribe_v2_snapshots :: "session_registry \<Rightarrow> endpoint_id \<Rightarrow> u64 \<Rightarrow> session_snapshot_v2 option host" where
  "subscribe_v2_snapshots reg remote session_id =
     (case active_viewer (sr_v2 reg) remote session_id of
        None \<Rightarrow> Inl (Host ''snapshot subscription does not match the active v2 session'')
      | Some viewer \<Rightarrow> Inr (vv_snapshots viewer))"

definition v2_revision :: "session_registry \<Rightarrow> endpoint_id \<Rightarrow> u64 \<Rightarrow> u64 host" where
  "v2_revision reg remote session_id =
     (case active_viewer (sr_v2 reg) remote session_id of
        None \<Rightarrow> Inl (Host ''revision request does not match the active v2 session'')
      | Some viewer \<Rightarrow> Inr (vs_revision (sr_v2 reg)))"

record focus_command_effect =
  fe_snapshot :: session_snapshot_v2
  fe_neutralization :: "focus_neutralization option"

text \<open>The guard of the two actions that make the sender a focus candidate.\<close>

definition input_eligible :: "v2_viewer_session \<Rightarrow> unit host" where
  "input_eligible viewer =
     bind_res (ensure_that (\<not> vv_authorization_neutralizing viewer)
       (Host ''input authorization is still neutralizing'')) (\<lambda>_.
     ensure_that (input_capable_grants (as_grants (vv_session viewer)))
       (Host ''viewer is not input-capable''))"

text \<open>
  The \<open>match\<close> on the action. The expected ids were validated to be present, so that \<open>the\<close> stands
  for an \<open>expect\<close> that does not panic.
\<close>

definition focus_dispatch ::
  "focus_arbiter \<Rightarrow> v2_viewer_session \<Rightarrow> focus_candidate \<Rightarrow> focus_command_v2 \<Rightarrow> instant \<Rightarrow> int
   \<Rightarrow> focus_arbiter \<times> focus_mutation host" where
  "focus_dispatch fa viewer candidate command now sys_now =
     (case fc_action command of
        Request \<Rightarrow>
          (case input_eligible viewer of
             Inl e \<Rightarrow> (fa, Inl e)
           | Inr _ \<Rightarrow> focus_request fa candidate now sys_now)
      | Approve \<Rightarrow> focus_approve fa candidate (the (fc_expected_focus_generation command))
                    (the (fc_expected_proposal_id command))
      | Deny \<Rightarrow> focus_deny fa candidate (the (fc_expected_focus_generation command))
                    (the (fc_expected_proposal_id command))
      | Preempt \<Rightarrow>
          (case input_eligible viewer of
             Inl e \<Rightarrow> (fa, Inl e)
           | Inr _ \<Rightarrow> focus_preempt fa candidate (the (fc_expected_focus_generation command)))
      | Release \<Rightarrow> focus_release fa candidate (the (fc_expected_focus_generation command)))"

definition publish_if :: "bool \<Rightarrow> v2_session_state \<Rightarrow> v2_session_state \<times> unit host" where
  "publish_if changed st = (if changed then advance_and_publish st else (st, Inr ()))"

definition apply_focus_command ::
  "session_registry \<Rightarrow> endpoint_id \<Rightarrow> u64 \<Rightarrow> focus_command_v2 \<Rightarrow> instant \<Rightarrow> instant \<Rightarrow> int
   \<Rightarrow> session_registry \<times> focus_command_effect host" where
  "apply_focus_command reg remote session_id command rate_now now sys_now =
     (case focus_command_validate command of
        Inl e \<Rightarrow> (reg, Inl (Protocol e))
      | Inr _ \<Rightarrow>
      (let st = sr_v2 reg in
      case active_viewer st remote session_id of
        None \<Rightarrow> (reg, Inl (Host ''focus command does not match the active v2 session''))
      | Some viewer \<Rightarrow>
      if fc_expected_revision command \<noteq> vs_revision st
      then (reg, Inl (Host ''focus command expected stale revision''))
      else (let candidate = \<lparr>cand_presence_id = vv_presence_id viewer, cand_session_id = session_id\<rparr> in
      with_v2 reg
      (case check_rate_limit (vs_focus st) candidate rate_now of
        (fa, Inl e) \<Rightarrow> (st\<lparr>vs_focus := fa\<rparr>, Inl e)
      | (fa, Inr _) \<Rightarrow>
      (case focus_dispatch fa viewer candidate command now sys_now of
        (fa', Inl e) \<Rightarrow> (st\<lparr>vs_focus := fa'\<rparr>, Inl e)
      | (fa', Inr mutation) \<Rightarrow>
          bind_op (publish_if (fm_changed mutation) (st\<lparr>vs_focus := fa'\<rparr>)) (\<lambda>st' _.
            (st', bind_res (v2_snapshot_for st' remote) (\<lambda>snapshot.
               Inr \<lparr>fe_snapshot = snapshot, fe_neutralization = fm_neutralization mutation\<rparr>))))))))"

definition invalidate_v2_focus ::
  "session_registry \<Rightarrow> endpoint_id \<Rightarrow> u64 \<Rightarrow> focus_transition_reason_v2
   \<Rightarrow> session_registry \<times> focus_neutralization option host" where
  "invalidate_v2_focus reg remote session_id reason =
     (let st = sr_v2 reg in
      case viewer_with_session st remote session_id of
        None \<Rightarrow> (reg, Inr None)
      | Some viewer \<Rightarrow>
      with_v2 reg
      (case begin_invalidation (vs_focus st)
              \<lparr>cand_presence_id = vv_presence_id viewer, cand_session_id = session_id\<rparr> reason of
        (fa, Inl e) \<Rightarrow> (st\<lparr>vs_focus := fa\<rparr>, Inl e)
      | (fa, Inr mutation) \<Rightarrow>
          bind_op (publish_if (fm_changed mutation) (st\<lparr>vs_focus := fa\<rparr>)) (\<lambda>st' _.
            (st', Inr (fm_neutralization mutation)))))"

definition successor_valid :: "v2_session_state \<Rightarrow> focus_candidate \<Rightarrow> bool" where
  "successor_valid st candidate \<longleftrightarrow>
     list_ex (\<lambda>(peer, viewer).
        vv_presence_id viewer = cand_presence_id candidate
        \<and> as_session_id (vv_session viewer) = cand_session_id candidate
        \<and> as_media_active (vv_session viewer)
        \<and> \<not> vv_authorization_neutralizing viewer
        \<and> input_capable_grants (as_grants (vv_session viewer))) (vs_viewers st)"

definition complete_v2_focus_transition ::
  "session_registry \<Rightarrow> u64 \<Rightarrow> instant \<Rightarrow> session_registry \<times> unit host" where
  "complete_v2_focus_transition reg transition_id now =
     (let st = sr_v2 reg;
          successor_is_valid = (case transition_successor (vs_focus st) transition_id of
                                  None \<Rightarrow> False | Some candidate \<Rightarrow> successor_valid st candidate)
      in with_v2 reg
      (case complete_transition (vs_focus st) transition_id successor_is_valid now of
        (fa, Inl e) \<Rightarrow> (st\<lparr>vs_focus := fa\<rparr>, Inl e)
      | (fa, Inr changed) \<Rightarrow> publish_if changed (st\<lparr>vs_focus := fa\<rparr>)))"

definition expire_v2_focus ::
  "session_registry \<Rightarrow> instant \<Rightarrow> session_registry \<times> focus_neutralization option host" where
  "expire_v2_focus reg now =
     (let st = sr_v2 reg in
      with_v2 reg
      (case expire_proposal (vs_focus st) now of
        (fa, proposal_expired) \<Rightarrow>
      (case begin_activation_expiry fa now of
        (fa', Inl e) \<Rightarrow> (st\<lparr>vs_focus := fa'\<rparr>, Inl e)
      | (fa', Inr activation) \<Rightarrow>
          bind_op (publish_if (proposal_expired \<or> fm_changed activation) (st\<lparr>vs_focus := fa'\<rparr>)) (\<lambda>st' _.
            (st', Inr (fm_neutralization activation))))))"

section \<open>Live authorization changes\<close>

record authorization_session_effect =
  ase_disconnected :: bool
  ase_neutralize_input :: bool
  ase_focus_transition_id :: "u64 option"

definition authorization_session_effect_default :: authorization_session_effect where
  "authorization_session_effect_default =
     \<lparr>ase_disconnected = False, ase_neutralize_input = False, ase_focus_transition_id = None\<rparr>"

definition input_reduced :: "authorization_mutation \<Rightarrow> bool" where
  "input_reduced mutation =
     (let current = (case am_current_grants mutation of None \<Rightarrow> GRANT_VIEW | Some g \<Rightarrow> g) in
      grants_contains (am_previous_grants mutation) GRANT_POINTER_KEYBOARD
        \<and> \<not> grants_contains current GRANT_POINTER_KEYBOARD
      \<or> grants_contains (am_previous_grants mutation) GRANT_GAMEPAD
        \<and> \<not> grants_contains current GRANT_GAMEPAD)"

definition authorization_target :: "v2_session_state \<Rightarrow> authorization_mutation \<Rightarrow> v2_viewer_session option" where
  "authorization_target st mutation =
     (case map_of (vs_viewers st) (am_peer mutation) of
        None \<Rightarrow> None
      | Some viewer \<Rightarrow> if as_viewer_handle (vv_session viewer) = Some (am_handle mutation)
                       then Some viewer else None)"

text \<open>The roster change itself, once the viewer's focus has been invalidated.\<close>

definition authorization_roster ::
  "v2_session_state \<Rightarrow> authorization_mutation \<Rightarrow> v2_viewer_session \<Rightarrow> focus_mutation \<Rightarrow> v2_session_state" where
  "authorization_roster st mutation viewer focus_mutation =
     (case am_current_grants mutation of
        None \<Rightarrow>
          (viewer_remove (am_peer mutation) st)
            \<lparr>vs_focus := retire_candidate (vs_focus st) (viewer_candidate viewer)\<rparr>
      | Some grants \<Rightarrow>
          viewer_update (am_peer mutation)
            (\<lambda>v. v\<lparr>vv_session := (vv_session v)
                     \<lparr>as_authorization_revision := am_authorization_revision mutation,
                      as_authorization_committed_revision := am_committed_revision mutation,
                      as_grants := grants\<rparr>,
                   vv_authorization_neutralizing :=
                     (if input_reduced mutation
                      then as_input_claimed (vv_session viewer) \<or> fm_neutralization focus_mutation \<noteq> None
                      else vv_authorization_neutralizing v)\<rparr>) st)"

definition apply_authorization_mutation ::
  "session_registry \<Rightarrow> authorization_mutation \<Rightarrow> session_registry \<times> authorization_session_effect host" where
  "apply_authorization_mutation reg0 mutation =
     (if am_committed_revision mutation = 0 \<or> am_authorization_revision mutation = 0
      then (reg0, Inl (Host ''authorization mutation revision is invalid''))
      else (let reg = reg0\<lparr>sr_authorization_committed_revision :=
                 max (sr_authorization_committed_revision reg0) (am_committed_revision mutation)\<rparr>;
                st = sr_v2 reg
      in case authorization_target st mutation of
        None \<Rightarrow> (reg, Inr authorization_session_effect_default)
      | Some viewer \<Rightarrow>
      if \<not> (as_authorization_revision (vv_session viewer) < am_authorization_revision mutation)
      then (reg, Inl (Host ''authorization mutation is stale for the active viewer''))
      else (let disconnected = (am_current_grants mutation = None) in
      case (if disconnected \<or> input_reduced mutation
            then begin_invalidation (vs_focus st) (viewer_candidate viewer) Revoked
            else (vs_focus st, Inr focus_mutation_default)) of
        (fa, Inl e) \<Rightarrow> (reg\<lparr>sr_v2 := st\<lparr>vs_focus := fa\<rparr>\<rparr>, Inl e)
      | (fa, Inr fm) \<Rightarrow>
          (let reg' = (if disconnected
                       then reg\<lparr>sr_pending_moq :=
                              AList.delete (am_peer mutation, as_session_id (vv_session viewer))
                                (sr_pending_moq reg)\<rparr>
                       else reg)
           in with_v2 reg'
             (bind_op (advance_and_publish (authorization_roster (st\<lparr>vs_focus := fa\<rparr>) mutation viewer fm))
               (\<lambda>st' _. (st', Inr
                  \<lparr>ase_disconnected = disconnected,
                   ase_neutralize_input =
                     (as_input_claimed (vv_session viewer) \<or> fm_neutralization fm \<noteq> None),
                   ase_focus_transition_id = map_option fn_transition_id (fm_neutralization fm)\<rparr>)))))))"

definition complete_authorization_neutralization ::
  "session_registry \<Rightarrow> endpoint_id \<Rightarrow> u64 \<Rightarrow> u64 option \<Rightarrow> instant \<Rightarrow> session_registry \<times> unit host" where
  "complete_authorization_neutralization reg remote authorization_revision focus_transition_id now =
     (let st = viewer_update remote
                 (\<lambda>v. if as_authorization_revision (vv_session v) = authorization_revision
                      then v\<lparr>vv_authorization_neutralizing := False\<rparr> else v) (sr_v2 reg)
      in with_v2 reg
      (case focus_transition_id of
        None \<Rightarrow> (st, Inr ())
      | Some transition_id \<Rightarrow>
      (case complete_transition (vs_focus st) transition_id False now of
        (fa, Inl e) \<Rightarrow> (st\<lparr>vs_focus := fa\<rparr>, Inl e)
      | (fa, Inr completed_focus) \<Rightarrow> publish_if completed_focus (st\<lparr>vs_focus := fa\<rparr>))))"

section \<open>Input\<close>

definition legacy_session ::
  "session_registry \<Rightarrow> (active_session \<Rightarrow> bool) \<Rightarrow> active_session option" where
  "legacy_session reg P =
     (case sr_active reg of None \<Rightarrow> None | Some s \<Rightarrow> if P s then Some s else None)"

record input_lease =
  il_remote :: endpoint_id
  il_session_id :: u64
  il_grants :: invitation_grants
  il_authorization_revision :: u64

definition claim_input :: "session_registry \<Rightarrow> endpoint_id \<Rightarrow> bytes \<Rightarrow> session_registry \<times> input_lease host" where
  "claim_input reg remote nonce =
     (case legacy_session reg (\<lambda>s. as_mode s = LegacyExclusive \<and> as_media_active s \<and> as_remote s = remote
               \<and> as_nonce s = nonce) of
        None \<Rightarrow> (reg, Inl (Host ''input connection does not match the active media session''))
      | Some s \<Rightarrow>
          if as_input_claimed s then (reg, Inl (Host ''active client already has an input stream''))
          else (reg\<lparr>sr_active := Some (s\<lparr>as_input_claimed := True\<rparr>)\<rparr>,
                Inr \<lparr>il_remote = remote, il_session_id = as_session_id s, il_grants = as_grants s,
                     il_authorization_revision = as_authorization_revision s\<rparr>))"

record input_v2_lease =
  i2_remote :: endpoint_id
  i2_session_id :: u64
  i2_slot :: controller_slot
  i2_focus_generation :: u64
  i2_grants :: invitation_grants
  i2_authorization_revision :: u64

text \<open>The test that the focus is held by exactly this viewer, session, slot and generation.\<close>

definition owns_focus ::
  "focus_state_v2 \<Rightarrow> viewer_presence_id \<Rightarrow> u64 \<Rightarrow> controller_slot \<Rightarrow> u64 \<Rightarrow> bool" where
  "owns_focus st presence_id session_id slot focus_generation =
     (case st of
        Held holder_slot holder holder_session_id holder_generation \<Rightarrow>
          holder = presence_id \<and> holder_session_id = session_id \<and> holder_slot = slot
          \<and> holder_generation = focus_generation
      | Vacant s \<Rightarrow> False
      | Neutralizing s h i g t \<Rightarrow> False)"

definition claim_input_v2 ::
  "session_registry \<Rightarrow> endpoint_id \<Rightarrow> bytes \<Rightarrow> u64 \<Rightarrow> controller_slot \<Rightarrow> u64
   \<Rightarrow> session_registry \<times> input_v2_lease host" where
  "claim_input_v2 reg remote nonce session_id slot focus_generation =
     (let st = sr_v2 reg in
      case (case active_viewer st remote session_id of
              None \<Rightarrow> None | Some v \<Rightarrow> if as_nonce (vv_session v) = nonce then Some v else None) of
        None \<Rightarrow> (reg, Inl (Host ''input v2 connection does not match the active session''))
      | Some viewer \<Rightarrow>
      if \<not> owns_focus (fa_state (vs_focus st)) (vv_presence_id viewer) session_id slot focus_generation
      then (reg, Inl (Host ''input v2 connection does not own the authoritative focus generation''))
      else (let st' = st\<lparr>vs_focus := mark_activated (vs_focus st)
                  \<lparr>cand_presence_id = vv_presence_id viewer, cand_session_id = session_id\<rparr> focus_generation\<rparr>
      in if as_input_claimed (vv_session viewer)
         then (reg\<lparr>sr_v2 := st'\<rparr>, Inl (Host ''active viewer already has an input stream''))
         else (reg\<lparr>sr_v2 := viewer_update remote
                 (\<lambda>v. v\<lparr>vv_session := (vv_session v)\<lparr>as_input_claimed := True\<rparr>\<rparr>) st'\<rparr>,
               Inr \<lparr>i2_remote = remote, i2_session_id = session_id, i2_slot = slot,
                    i2_focus_generation = focus_generation, i2_grants = as_grants (vv_session viewer),
                    i2_authorization_revision = as_authorization_revision (vv_session viewer)\<rparr>)))"

definition is_v2_focus_owner ::
  "session_registry \<Rightarrow> endpoint_id \<Rightarrow> u64 \<Rightarrow> controller_slot \<Rightarrow> u64 \<Rightarrow> bool" where
  "is_v2_focus_owner reg remote session_id slot focus_generation =
     (case active_viewer (sr_v2 reg) remote session_id of
        None \<Rightarrow> False
      | Some viewer \<Rightarrow>
          owns_focus (fa_state (vs_focus (sr_v2 reg))) (vv_presence_id viewer)
            (as_session_id (vv_session viewer)) slot focus_generation)"

definition install_encoder_control ::
  "session_registry \<Rightarrow> endpoint_id \<Rightarrow> u64 \<Rightarrow> encoder_handle option \<Rightarrow> session_registry \<times> unit host" where
  "install_encoder_control reg remote session_id encoder_control =
     (case legacy_session reg (\<lambda>s. as_media_active s \<and> as_remote s = remote \<and> as_session_id s = session_id) of
        None \<Rightarrow> (reg, Inl (Host ''encoder control does not match the active media session''))
      | Some s \<Rightarrow>
          if as_encoder_control s \<noteq> None
          then (reg, Inl (Host ''active media session already has encoder control''))
          else (reg\<lparr>sr_active := Some (s\<lparr>as_encoder_control := encoder_control\<rparr>)\<rparr>, Inr ()))"

section \<open>Feedback and audio\<close>

datatype feedback_scope = Legacy | SharedGeneration

record feedback_lease =
  fl_remote :: endpoint_id
  fl_session_id :: u64
  fl_encoder_control :: "encoder_handle option"
  fl_authorization_revision :: u64
  fl_media_generation_id :: u64
  fl_scope :: feedback_scope

definition feedback_lease_for :: "endpoint_id \<Rightarrow> active_session \<Rightarrow> feedback_scope \<Rightarrow> feedback_lease" where
  "feedback_lease_for remote s scope =
     \<lparr>fl_remote = remote, fl_session_id = as_session_id s, fl_encoder_control = as_encoder_control s,
      fl_authorization_revision = as_authorization_revision s,
      fl_media_generation_id = as_media_generation_id s, fl_scope = scope\<rparr>"

definition claim_feedback_v2 ::
  "session_registry \<Rightarrow> endpoint_id \<Rightarrow> bytes \<Rightarrow> instant \<Rightarrow> session_registry \<times> feedback_lease host" where
  "claim_feedback_v2 reg remote nonce now =
     (let st = sr_v2 reg in
      case (case map_of (vs_viewers st) remote of
              None \<Rightarrow> None
            | Some v \<Rightarrow> if as_media_active (vv_session v) \<and> as_nonce (vv_session v) = nonce
                        then Some v else None) of
        None \<Rightarrow> (reg, Inl (Host ''feedback connection does not match the active media session''))
      | Some viewer \<Rightarrow>
      (case rate_window_check now FEEDBACK_CLAIM_RATE_WINDOW MAX_FEEDBACK_CLAIMS_PER_WINDOW
              ''media feedback claim'' (vr_feedback_claims (vv_rates viewer)) of
        (rw, r) \<Rightarrow>
      (let st' = viewer_update remote
                   (\<lambda>v. v\<lparr>vv_rates := (vv_rates v)\<lparr>vr_feedback_claims := rw\<rparr>\<rparr>) st;
           s = vv_session viewer
      in with_v2 reg
      (case r of
        Inl e \<Rightarrow> (st', Inl e)
      | Inr _ \<Rightarrow>
      if \<not> grants_contains (as_grants s) GRANT_VIEW
      then (st', Inl (Host ''active Portal session lacks feedback view permission''))
      else if as_authorization_committed_revision s \<noteq> sr_authorization_committed_revision reg
      then (st', Inl (Host ''feedback claim used a stale committed authorization revision''))
      else if as_feedback_claimed s
      then (st', Inl (Host ''active client already has a feedback connection''))
      else (viewer_update remote (\<lambda>v. v\<lparr>vv_session := (vv_session v)\<lparr>as_feedback_claimed := True\<rparr>\<rparr>) st',
            Inr (feedback_lease_for remote s SharedGeneration))))))"

definition claim_feedback ::
  "session_registry \<Rightarrow> endpoint_id \<Rightarrow> bytes \<Rightarrow> instant \<Rightarrow> session_registry \<times> feedback_lease host" where
  "claim_feedback reg remote nonce now =
     (case legacy_session reg (\<lambda>s. as_media_active s \<and> as_remote s = remote \<and> as_nonce s = nonce) of
        Some s \<Rightarrow>
          if \<not> grants_contains (as_grants s) GRANT_VIEW
          then (reg, Inl (Host ''active Portal session lacks feedback view permission''))
          else if as_feedback_claimed s
          then (reg, Inl (Host ''active client already has a feedback connection''))
          else (reg\<lparr>sr_active := Some (s\<lparr>as_feedback_claimed := True\<rparr>)\<rparr>,
                Inr (feedback_lease_for remote s Legacy))
      | None \<Rightarrow> claim_feedback_v2 reg remote nonce now)"

record audio_lease =
  al_remote :: endpoint_id
  al_session_id :: u64
  al_session_clock :: instant
  al_grants :: invitation_grants
  al_authorization_revision :: u64

definition claim_audio :: "session_registry \<Rightarrow> endpoint_id \<Rightarrow> bytes \<Rightarrow> session_registry \<times> audio_lease host" where
  "claim_audio reg remote nonce =
     (case legacy_session reg (\<lambda>s. as_mode s = LegacyExclusive \<and> as_media_active s \<and> as_remote s = remote
               \<and> as_nonce s = nonce) of
        None \<Rightarrow> (reg, Inl (Host ''audio connection does not match the active media session''))
      | Some s \<Rightarrow>
          if as_audio_claimed s then (reg, Inl (Host ''active client already has an audio connection''))
          else (reg\<lparr>sr_active := Some (s\<lparr>as_audio_claimed := True\<rparr>)\<rparr>,
                Inr \<lparr>al_remote = remote, al_session_id = as_session_id s,
                     al_session_clock = as_session_clock s, al_grants = as_grants s,
                     al_authorization_revision = as_authorization_revision s\<rparr>))"

section \<open>MoQ attachments\<close>

definition expect_moq ::
  "session_registry \<Rightarrow> endpoint_id \<Rightarrow> u64 \<Rightarrow> string \<Rightarrow> broadcast_handle \<Rightarrow> session_registry \<times> unit host" where
  "expect_moq reg remote session_id broadcast_name broadcast =
     (case legacy_session reg (\<lambda>s. as_media_active s \<and> as_remote s = remote \<and> as_session_id s = session_id) of
        None \<Rightarrow> (reg, Inl (Host ''MoQ expectation does not match the active control session''))
      | Some s \<Rightarrow>
          if map_of (sr_pending_moq reg) (remote, session_id) \<noteq> None
          then (reg, Inl (Host ''active control session already expects MoQ''))
          else (reg\<lparr>sr_pending_moq := AList.update (remote, session_id)
                   \<lparr>pm_remote = remote, pm_session_id = session_id, pm_broadcast_name = broadcast_name,
                    pm_broadcast = broadcast, pm_subscription_capability = None,
                    pm_expected_host = None\<rparr> (sr_pending_moq reg)\<rparr>, Inr ()))"

definition expect_moq_v2 ::
  "session_registry \<Rightarrow> endpoint_id \<Rightarrow> u64 \<Rightarrow> string \<Rightarrow> broadcast_handle
   \<Rightarrow> signed_subscription_capability \<Rightarrow> bytes \<Rightarrow> session_registry \<times> unit host" where
  "expect_moq_v2 reg remote session_id broadcast_name broadcast capability expected_host =
     (case active_viewer (sr_v2 reg) remote session_id of
        None \<Rightarrow> (reg, Inl (Host ''authenticated MoQ expectation does not match the active v2 session''))
      | Some viewer \<Rightarrow>
          (let s = vv_session viewer; cl = sub_claims capability in
           if \<not> (sc_host_node_id cl = expected_host
                  \<and> sc_media_generation_id cl = as_media_generation_id s
                  \<and> sc_subscriber_endpoint_id cl = remote
                  \<and> tracks_contains (sc_tracks cl) TRACK_VIDEO_H264
                  \<and> sc_authorization_revision cl = as_authorization_revision s)
           then (reg, Inl (Host ''subscription capability does not match the v2 viewer attachment''))
           else if map_of (sr_pending_moq reg) (remote, session_id) \<noteq> None
           then (reg, Inl (Host ''active control session already expects MoQ''))
           else (reg\<lparr>sr_pending_moq := AList.update (remote, session_id)
                   \<lparr>pm_remote = remote, pm_session_id = session_id, pm_broadcast_name = broadcast_name,
                    pm_broadcast = broadcast, pm_subscription_capability = Some capability,
                    pm_expected_host = Some expected_host\<rparr> (sr_pending_moq reg)\<rparr>, Inr ())))"

record claimed_moq_attachment =
  cm_session_id :: u64
  cm_broadcast_name :: string
  cm_broadcast :: broadcast_handle

text \<open>The binding check of \<open>claim_moq_at\<close>, by the mode of the session.\<close>

definition moq_attachment_check ::
  "crypto \<Rightarrow> active_session \<Rightarrow> pending_moq_attachment \<Rightarrow> endpoint_id \<Rightarrow> u64 \<Rightarrow> unit host" where
  "moq_attachment_check c session attachment remote now_unix =
     (if as_mode session = V2Single
      then (case pm_subscription_capability attachment of
              None \<Rightarrow> Inl (Host ''v2 MoQ attachment has no subscription capability'')
            | Some capability \<Rightarrow>
            (case pm_expected_host attachment of
              None \<Rightarrow> Inl (Host ''v2 MoQ attachment has no expected host identity'')
            | Some expected_host \<Rightarrow>
                lift_proto (verify_binding c capability expected_host (as_media_generation_id session) remote
                  (sc_tracks (sub_claims capability)) (as_authorization_revision session) now_unix)))
      else ensure_that (pm_subscription_capability attachment = None)
             (Host ''legacy MoQ attachment unexpectedly carries a subscription capability''))"

definition claim_moq_session ::
  "crypto \<Rightarrow> session_registry \<Rightarrow> endpoint_id \<Rightarrow> u64 \<Rightarrow> active_session
   \<Rightarrow> session_registry \<times> claimed_moq_attachment host" where
  "claim_moq_session c reg remote now_unix session =
     (case map_of (sr_pending_moq reg) (remote, as_session_id session) of
        None \<Rightarrow> (reg, Inl (Host ''active control session is not expecting a MoQ connection''))
      | Some attachment \<Rightarrow>
      (case moq_attachment_check c session attachment remote now_unix of
        Inl e \<Rightarrow> (reg, Inl e)
      | Inr _ \<Rightarrow>
          (reg\<lparr>sr_pending_moq := AList.delete (remote, as_session_id session) (sr_pending_moq reg)\<rparr>,
           Inr \<lparr>cm_session_id = pm_session_id attachment, cm_broadcast_name = pm_broadcast_name attachment,
                cm_broadcast = pm_broadcast attachment\<rparr>)))"

text \<open>The v2 lookup consumes an attachment slot of the viewer's window even for a legacy session.\<close>

definition claim_moq_at ::
  "crypto \<Rightarrow> session_registry \<Rightarrow> endpoint_id \<Rightarrow> u64 \<Rightarrow> instant
   \<Rightarrow> session_registry \<times> claimed_moq_attachment host" where
  "claim_moq_at c reg remote now_unix now =
     (let legacy = legacy_session reg (\<lambda>s. as_media_active s \<and> as_remote s = remote) in
      case (case map_of (vs_viewers (sr_v2 reg)) remote of
              None \<Rightarrow> None
            | Some v \<Rightarrow> if as_media_active (vv_session v) then Some v else None) of
        None \<Rightarrow>
          (case legacy of
             None \<Rightarrow> (reg, Inl (Host ''MoQ connection does not match an active control session''))
           | Some session \<Rightarrow> claim_moq_session c reg remote now_unix session)
      | Some viewer \<Rightarrow>
          (case rate_window_check now ATTACHMENT_RATE_WINDOW MAX_ATTACHMENTS_PER_WINDOW
                  ''MoQ attachment'' (vr_attachments (vv_rates viewer)) of
             (rw, r) \<Rightarrow>
          (let reg' = reg\<lparr>sr_v2 := viewer_update remote
                   (\<lambda>v. v\<lparr>vv_rates := (vv_rates v)\<lparr>vr_attachments := rw\<rparr>\<rparr>) (sr_v2 reg)\<rparr>
           in case r of
                Inl e \<Rightarrow> (reg', Inl e)
              | Inr _ \<Rightarrow>
                  claim_moq_session c reg' remote now_unix
                    (case legacy of Some session \<Rightarrow> session | None \<Rightarrow> vv_session viewer))))"

definition admit_v2_keyframe_request ::
  "session_registry \<Rightarrow> endpoint_id \<Rightarrow> u64 \<Rightarrow> instant \<Rightarrow> session_registry \<times> unit host" where
  "admit_v2_keyframe_request reg remote session_id now =
     (case active_viewer (sr_v2 reg) remote session_id of
        None \<Rightarrow> (reg, Inl (Host ''keyframe request does not match the active viewer generation''))
      | Some viewer \<Rightarrow>
          (case rate_window_check now KEYFRAME_RATE_WINDOW MAX_KEYFRAME_REQUESTS_PER_WINDOW
                  ''keyframe request'' (vr_keyframes (vv_rates viewer)) of
             (rw, r) \<Rightarrow>
               (reg\<lparr>sr_v2 := viewer_update remote
                   (\<lambda>v. v\<lparr>vv_rates := (vv_rates v)\<lparr>vr_keyframes := rw\<rparr>\<rparr>) (sr_v2 reg)\<rparr>, r)))"

section \<open>Releases\<close>

definition is_active :: "session_registry \<Rightarrow> endpoint_id \<Rightarrow> u64 \<Rightarrow> bool" where
  "is_active reg remote session_id \<longleftrightarrow>
     legacy_session reg (\<lambda>s. as_media_active s \<and> as_remote s = remote \<and> as_session_id s = session_id) \<noteq> None
     \<or> active_viewer (sr_v2 reg) remote session_id \<noteq> None"

definition occupied_by :: "endpoint_id \<Rightarrow> u64 \<Rightarrow> active_session \<Rightarrow> bool" where
  "occupied_by remote session_id s \<longleftrightarrow> as_remote s = remote \<and> as_session_id s = session_id"

text \<open>The legacy slot stays occupied until media and every claimed attachment are gone.\<close>

definition legacy_settle :: "active_session \<Rightarrow> active_session option" where
  "legacy_settle s =
     (if \<not> as_media_active s \<and> \<not> as_input_claimed s \<and> \<not> as_audio_claimed s \<and> \<not> as_feedback_claimed s
      then None else Some s)"

definition release_v2_viewer ::
  "session_registry \<Rightarrow> endpoint_id \<Rightarrow> u64 \<Rightarrow> v2_viewer_session \<Rightarrow> session_registry" where
  "release_v2_viewer reg remote session_id viewer =
     (let st = sr_v2 reg;
          candidate = \<lparr>cand_presence_id = vv_presence_id viewer, cand_session_id = session_id\<rparr>;
          fa = fst (begin_invalidation (vs_focus st) candidate Disconnected);
          st1 = (viewer_remove remote st)\<lparr>vs_focus := retire_candidate fa candidate\<rparr>;
          st2 = (if vs_viewers st1 = [] then st1\<lparr>vs_media := None\<rparr> else st1)
      in reg\<lparr>sr_pending_moq := AList.delete (remote, session_id) (sr_pending_moq reg),
             sr_v2 := fst (advance_and_publish st2)\<rparr>)"

definition release :: "session_registry \<Rightarrow> endpoint_id \<Rightarrow> u64 \<Rightarrow> session_registry" where
  "release reg remote session_id =
     (case legacy_session reg (occupied_by remote session_id) of
        Some s \<Rightarrow>
          reg\<lparr>sr_pending_moq := AList.delete (remote, session_id) (sr_pending_moq reg),
              sr_active := legacy_settle (s\<lparr>as_media_active := False, as_encoder_control := None\<rparr>)\<rparr>
      | None \<Rightarrow>
          (let st = (sr_v2 reg)\<lparr>vs_live_control_leases := vs_live_control_leases (sr_v2 reg) - 1\<rparr>;
               reg' = reg\<lparr>sr_v2 := st\<rparr>
           in case viewer_with_session st remote session_id of
                None \<Rightarrow> reg'
              | Some viewer \<Rightarrow> release_v2_viewer reg' remote session_id viewer))"

text \<open>A failure of the publication leaves the MoQ expectation in place.\<close>

definition disconnect_v2_viewer ::
  "session_registry \<Rightarrow> endpoint_id \<Rightarrow> u64 \<Rightarrow> session_registry \<times> bool host" where
  "disconnect_v2_viewer reg remote session_id =
     (let st = sr_v2 reg in
      case viewer_with_session st remote session_id of
        None \<Rightarrow> (reg, Inr False)
      | Some viewer \<Rightarrow>
      if (case fa_state (vs_focus st) of
            Held slot holder holder_session_id g \<Rightarrow> holder_session_id = session_id
          | Vacant slot \<Rightarrow> False
          | Neutralizing s h i g t \<Rightarrow> False)
      then (reg, Inl (Host ''focused viewer must be neutralized before adaptive detachment''))
      else (let st1 = (viewer_remove remote st)\<lparr>vs_focus := retire_candidate (vs_focus st)
                  \<lparr>cand_presence_id = vv_presence_id viewer, cand_session_id = session_id\<rparr>\<rparr>;
                st2 = (if vs_viewers st1 = [] then st1\<lparr>vs_media := None\<rparr> else st1)
            in bind_op (with_v2 reg (advance_and_publish st2)) (\<lambda>reg' _.
                 (reg'\<lparr>sr_pending_moq := AList.delete (remote, session_id) (sr_pending_moq reg')\<rparr>,
                  Inr True))))"

definition release_input :: "session_registry \<Rightarrow> endpoint_id \<Rightarrow> u64 \<Rightarrow> instant \<Rightarrow> session_registry" where
  "release_input reg remote session_id now =
     (case legacy_session reg (occupied_by remote session_id) of
        Some s \<Rightarrow> reg\<lparr>sr_active := legacy_settle (s\<lparr>as_input_claimed := False\<rparr>)\<rparr>
      | None \<Rightarrow>
          (let st = viewer_update remote
                      (\<lambda>v. if as_session_id (vv_session v) = session_id
                           then v\<lparr>vv_session := (vv_session v)\<lparr>as_input_claimed := False\<rparr>\<rparr> else v)
                      (sr_v2 reg)
           in case fa_state (vs_focus st) of
                Neutralizing slot former_holder former_session_id former_generation transition_id \<Rightarrow>
                  if former_session_id = session_id
                  then (let fa = fst (complete_transition (vs_focus st) transition_id False now)
                        in reg\<lparr>sr_v2 := fst (advance_and_publish (st\<lparr>vs_focus := fa\<rparr>))\<rparr>)
                  else reg\<lparr>sr_v2 := st\<rparr>
              | Vacant slot \<Rightarrow> reg\<lparr>sr_v2 := st\<rparr>
              | Held s h i g \<Rightarrow> reg\<lparr>sr_v2 := st\<rparr>))"

definition release_audio :: "session_registry \<Rightarrow> endpoint_id \<Rightarrow> u64 \<Rightarrow> session_registry" where
  "release_audio reg remote session_id =
     (case legacy_session reg (occupied_by remote session_id) of
        Some s \<Rightarrow> reg\<lparr>sr_active := legacy_settle (s\<lparr>as_audio_claimed := False\<rparr>)\<rparr>
      | None \<Rightarrow> reg)"

definition release_feedback :: "session_registry \<Rightarrow> endpoint_id \<Rightarrow> u64 \<Rightarrow> session_registry" where
  "release_feedback reg remote session_id =
     (case legacy_session reg (occupied_by remote session_id) of
        Some s \<Rightarrow> reg\<lparr>sr_active := legacy_settle (s\<lparr>as_feedback_claimed := False\<rparr>)\<rparr>
      | None \<Rightarrow>
          reg\<lparr>sr_v2 := viewer_update remote
                (\<lambda>v. if as_session_id (vv_session v) = session_id
                     then v\<lparr>vv_session := (vv_session v)\<lparr>as_feedback_claimed := False\<rparr>\<rparr> else v)
                (sr_v2 reg)\<rparr>)"

end
