(* ===== verification/Session_Invariants.thy ===== *)
theory Session_Invariants
  imports Session_Operations
begin

text \<open>
  What the session registry keeps true: the roster is well formed (distinct peers, presence
  identities and sessions, never more viewers than configured), the focus arbiter only names
  viewers of the roster, so that every snapshot the registry builds is one the wire protocol
  accepts; a legacy session and v2 viewers never coexist.
\<close>

section \<open>The part of a viewer that matters to others\<close>

record viewer_core =
  vc_presence :: viewer_presence_id
  vc_session :: u64
  vc_remote :: endpoint_id
  vc_active :: bool
  vc_mode :: session_mode
  vc_media :: media_generation_descriptor_v2
  vc_capable :: bool

definition core :: "v2_viewer_session \<Rightarrow> viewer_core" where
  "core v =
     \<lparr>vc_presence = vv_presence_id v, vc_session = as_session_id (vv_session v),
      vc_remote = as_remote (vv_session v), vc_active = as_media_active (vv_session v),
      vc_mode = as_mode (vv_session v),
      vc_media = \<lparr>mg_generation_id = as_media_generation_id (vv_session v),
                  mg_broadcast_name = as_media_broadcast_name (vv_session v)\<rparr>,
      vc_capable = input_capable_grants (as_grants (vv_session v))\<rparr>"

definition roster :: "v2_session_state \<Rightarrow> (endpoint_id \<times> viewer_core) list" where
  "roster st = map (\<lambda>(p, v). (p, core v)) (vs_viewers st)"

definition members :: "(endpoint_id \<times> viewer_core) list \<Rightarrow> (viewer_presence_id \<times> u64) set" where
  "members r = (\<lambda>(p, c). (vc_presence c, vc_session c)) ` set r"

definition capable_members :: "(endpoint_id \<times> viewer_core) list \<Rightarrow> (viewer_presence_id \<times> u64) set" where
  "capable_members r = (\<lambda>(p, c). (vc_presence c, vc_session c)) ` {e \<in> set r. vc_capable (snd e)}"

definition entry_ok :: "u64 \<Rightarrow> endpoint_id \<times> viewer_core \<Rightarrow> bool" where
  "entry_ok next e \<longleftrightarrow>
     vc_remote (snd e) = fst e \<and> vc_active (snd e) \<and> vc_mode (snd e) = V2Single \<and>
     vc_session (snd e) \<noteq> 0 \<and> vc_session (snd e) \<le> next \<and>
     presence_validate (vc_presence (snd e)) = Inr () \<and>
     media_generation_validate (vc_media (snd e)) = Inr ()"

definition roster_wf :: "u64 \<Rightarrow> nat \<Rightarrow> (endpoint_id \<times> viewer_core) list \<Rightarrow> bool" where
  "roster_wf next maximum r \<longleftrightarrow>
     distinct (map fst r) \<and> distinct (map (vc_presence \<circ> snd) r) \<and> distinct (map (vc_session \<circ> snd) r) \<and>
     (\<forall>e \<in> set r. entry_ok next e) \<and> length r \<le> maximum"

text \<open>The arbiter only names the given members; a requester must be able to inject input.\<close>

definition focus_ok ::
  "(viewer_presence_id \<times> u64) set \<Rightarrow> (viewer_presence_id \<times> u64) set \<Rightarrow> focus_arbiter \<Rightarrow> bool" where
  "focus_ok P C fa \<longleftrightarrow>
     (\<forall>slot h s g. fa_state fa = Held slot h s g \<longrightarrow> (h, s) \<in> P) \<and>
     (\<forall>p. fa_proposal fa = Some p \<longrightarrow> (fp_requester p, fp_requester_session_id p) \<in> C)"

definition v2_wf :: "u64 \<Rightarrow> nat \<Rightarrow> v2_session_state \<Rightarrow> bool" where
  "v2_wf next maximum st \<longleftrightarrow>
     roster_wf next maximum (roster st) \<and> (vs_viewers st \<noteq> [] \<longrightarrow> vs_revision st \<noteq> 0) \<and>
     focus_wf (vs_focus st) \<and>
     focus_ok (members (roster st)) (capable_members (roster st)) (vs_focus st) \<and>
     (\<forall>m. vs_media st = Some m \<longrightarrow> media_generation_validate m = Inr ())"

section \<open>The arbiter and the roster\<close>

lemma focus_ok_fields [simp]:
  "focus_ok P C (fa\<lparr>fa_transition_reason := a1\<rparr>) = focus_ok P C fa"
  "focus_ok P C (fa\<lparr>fa_command_times := a2\<rparr>) = focus_ok P C fa"
  "focus_ok P C (fa\<lparr>fa_next_proposal_id := a3\<rparr>) = focus_ok P C fa"
  "focus_ok P C (fa\<lparr>fa_activation := a4\<rparr>) = focus_ok P C fa"
  "focus_ok P C (fa\<lparr>fa_successor := a5\<rparr>) = focus_ok P C fa"
  by (simp_all add: focus_ok_def)

lemma focus_ok_clear: "focus_ok P C fa \<Longrightarrow> focus_ok P C (clear_proposal fa)"
  by (simp add: focus_ok_def)

lemma focus_ok_mono: "focus_ok P C fa \<Longrightarrow> P \<subseteq> P' \<Longrightarrow> C \<subseteq> C' \<Longrightarrow> focus_ok P' C' fa"
  by (auto simp: focus_ok_def)

lemma begin_neutralization_ok:
  "begin_neutralization fa reason successor = (fa', r) \<Longrightarrow> focus_ok P C fa \<Longrightarrow> focus_ok P C fa'"
  by (auto simp: begin_neutralization_def focus_ok_def split: focus_state_v2.splits sum.splits)

lemma grant_ok:
  "grant fa slot c now = (fa', r) \<Longrightarrow> focus_ok P C fa \<Longrightarrow>
   (cand_presence_id c, cand_session_id c) \<in> P \<Longrightarrow> focus_ok P C fa'"
  by (auto simp: grant_def focus_ok_def split: sum.splits)

lemma expire_proposal_ok: "expire_proposal fa now = (fa', b) \<Longrightarrow> focus_ok P C fa \<Longrightarrow> focus_ok P C fa'"
  by (auto simp: expire_proposal_def focus_ok_clear split: option.splits if_splits)

lemma focus_request_ok:
  assumes r: "focus_request fa c now sys_now = (fa', r)" and ok: "focus_ok P C fa"
    and c: "(cand_presence_id c, cand_session_id c) \<in> P" "(cand_presence_id c, cand_session_id c) \<in> C"
  shows "focus_ok P C fa'"
proof -
  define fb where "fb = fst (expire_proposal fa now)"
  have okb: "focus_ok P C fb"
    using expire_proposal_ok [OF _ ok, of now] by (metis fb_def prod.collapse)
  show ?thesis
  proof (cases "fa_state fb")
    case (Vacant slot)
    obtain fg rg where g: "grant fb slot c now = (fg, rg)" by fastforce
    have "focus_ok P C fg"
      by (rule grant_ok [OF g okb c(1)])
    with r show ?thesis
      by (cases rg) (auto simp: focus_request_def fb_def [symmetric] Vacant g)
  next
    case (Held slot holder sid gen)
    with r okb c show ?thesis
      by (auto simp: focus_request_def fb_def [symmetric] Let_def focus_ok_def split: if_splits sum.splits)
  next
    case (Neutralizing slot h s g t)
    with r okb show ?thesis
      by (auto simp: focus_request_def fb_def [symmetric])
  qed
qed

lemma focus_approve_ok: "focus_approve fa c g p = (fa', r) \<Longrightarrow> focus_ok P C fa \<Longrightarrow> focus_ok P C fa'"
  by (auto simp: focus_approve_def split: sum.splits elim!: begin_neutralization_ok)

lemma focus_deny_ok: "focus_deny fa c g p = (fa', r) \<Longrightarrow> focus_ok P C fa \<Longrightarrow> focus_ok P C fa'"
  by (auto simp: focus_deny_def focus_ok_clear split: sum.splits)

lemma focus_release_ok: "focus_release fa c g = (fa', r) \<Longrightarrow> focus_ok P C fa \<Longrightarrow> focus_ok P C fa'"
  by (auto simp: focus_release_def split: sum.splits elim!: begin_neutralization_ok)

lemma focus_preempt_ok: "focus_preempt fa c g = (fa', r) \<Longrightarrow> focus_ok P C fa \<Longrightarrow> focus_ok P C fa'"
  by (auto simp: focus_preempt_def split: focus_state_v2.splits if_splits elim!: begin_neutralization_ok)

lemma begin_invalidation_ok:
  "begin_invalidation fa c reason = (fa', r) \<Longrightarrow> focus_ok P C fa \<Longrightarrow> focus_ok P C fa'"
  by (auto simp: begin_invalidation_def Let_def focus_ok_clear split: if_splits elim!: begin_neutralization_ok)

text \<open>Invalidating a member whose transition id is not exhausted makes it removable.\<close>

lemma begin_invalidation_succeeds:
  assumes "fa_next_transition_id fa \<noteq> - 1"
  shows "\<exists>fa' m. begin_invalidation fa c reason = (fa', Inr m)"
  using assms next_nonzero_ok [of "fa_next_transition_id fa" "''focus transition id''"]
  by (auto simp: begin_invalidation_def Let_def candidate_holds_def begin_neutralization_def
      split: focus_state_v2.splits)

lemma begin_invalidation_removes:
  assumes "begin_invalidation fa c reason = (fa', Inr m)" "focus_ok P C fa"
  shows "focus_ok (P - {(cand_presence_id c, cand_session_id c)}) (C - {(cand_presence_id c, cand_session_id c)}) fa'"
  using assms
  by (auto simp: begin_invalidation_def Let_def candidate_holds_def begin_neutralization_def focus_ok_def
      proposal_involves_def split: focus_state_v2.splits if_splits option.splits sum.splits)

lemma mark_activated_ok: "focus_ok P C fa \<Longrightarrow> focus_ok P C (mark_activated fa c g)"
  by (auto simp: mark_activated_def split: option.splits)

lemma retire_candidate_ok [simp]: "focus_ok P C (retire_candidate fa c) = focus_ok P C fa"
  by (simp add: retire_candidate_def)

lemma check_rate_limit_ok: "check_rate_limit fa c now = (fa', r) \<Longrightarrow> focus_ok P C fa' = focus_ok P C fa"
  by (auto simp: check_rate_limit_def Let_def split: if_splits)

lemma begin_activation_expiry_ok:
  "begin_activation_expiry fa now = (fa', r) \<Longrightarrow> focus_ok P C fa \<Longrightarrow> focus_ok P C fa'"
  by (auto simp: begin_activation_expiry_def split: option.splits if_splits sum.splits
      elim!: begin_neutralization_ok)

lemma complete_transition_ok:
  assumes r: "complete_transition fa tid valid now = (fa', r)" and ok: "focus_ok P C fa"
    and valid: "\<And>c. valid \<Longrightarrow> transition_successor fa tid = Some c \<Longrightarrow> (cand_presence_id c, cand_session_id c) \<in> P"
  shows "focus_ok P C fa'"
proof (cases "fa_state fa")
  case (Neutralizing slot h s g current)
  show ?thesis
  proof (cases "current = tid \<and> valid \<and> fa_successor fa \<noteq> None")
    case True
    then obtain c where c: "fa_successor fa = Some c" by auto
    with True have P: "(cand_presence_id c, cand_session_id c) \<in> P"
      by (intro valid) (simp_all add: transition_successor_def Neutralizing)
    obtain fg rg where gr: "grant (clear_proposal (fa\<lparr>fa_successor := None\<rparr>)) slot c now = (fg, rg)" by fastforce
    have "focus_ok P C fg"
      by (rule grant_ok [OF gr _ P]) (use ok in \<open>simp add: focus_ok_clear\<close>)
    with r True c gr show ?thesis
      by (cases rg) (auto simp: complete_transition_def Neutralizing)
  next
    case False
    with r ok Neutralizing show ?thesis
      by (auto simp: complete_transition_def Let_def focus_ok_def split: if_splits option.splits)
  qed
qed (use r ok in \<open>simp_all add: complete_transition_def\<close>)


section \<open>Roster lemmas\<close>

lemma map_of_roster: "map_of (roster st) k = map_option core (map_of (vs_viewers st) k)"
  unfolding roster_def by (induction "vs_viewers st" arbitrary: st) (auto simp: map_of_map)

lemma fst_roster [simp]: "map fst (roster st) = map fst (vs_viewers st)"
  by (simp add: roster_def comp_def case_prod_unfold)

lemma length_roster [simp]: "length (roster st) = length (vs_viewers st)"
  by (simp add: roster_def)

lemma roster_Nil [simp]: "roster st = [] \<longleftrightarrow> vs_viewers st = []"
  by (simp add: roster_def)

lemma roster_fields [simp]:
  "roster (st\<lparr>vs_revision := a1\<rparr>) = roster st"
  "roster (st\<lparr>vs_focus := a2\<rparr>) = roster st"
  "roster (st\<lparr>vs_media := a3\<rparr>) = roster st"
  "roster (st\<lparr>vs_live_control_leases := a4\<rparr>) = roster st"
  by (simp_all add: roster_def)

lemma map_core_entry:
  "(\<And>v. map_of xs k = Some v \<Longrightarrow> core (f v) = core v) \<Longrightarrow>
   map (\<lambda>(p, v). (p, core v)) (AList.map_entry k f xs) = map (\<lambda>(p, v). (p, core v)) xs"
  by (induction xs) auto

lemma roster_update:
  "(\<And>v. map_of (vs_viewers st) k = Some v \<Longrightarrow> core (f v) = core v) \<Longrightarrow> roster (viewer_update k f st) = roster st"
  by (simp add: roster_def viewer_update_def map_core_entry)

lemma viewer_update_sel [simp]:
  "vs_revision (viewer_update k f st) = vs_revision st" "vs_focus (viewer_update k f st) = vs_focus st"
  "vs_media (viewer_update k f st) = vs_media st"
  "vs_live_control_leases (viewer_update k f st) = vs_live_control_leases st"
  "vs_viewers (viewer_update k f st) = AList.map_entry k f (vs_viewers st)"
  by (simp_all add: viewer_update_def)

lemma viewer_remove_sel [simp]:
  "vs_revision (viewer_remove k st) = vs_revision st" "vs_focus (viewer_remove k st) = vs_focus st"
  "vs_media (viewer_remove k st) = vs_media st"
  "vs_live_control_leases (viewer_remove k st) = vs_live_control_leases st"
  "vs_viewers (viewer_remove k st) = AList.delete k (vs_viewers st)"
  by (simp_all add: viewer_remove_def)

lemma map_entry_Nil [simp]: "AList.map_entry k f xs = [] \<longleftrightarrow> xs = []"
  by (cases xs) auto

lemma roster_remove: "roster (viewer_remove k st) = AList.delete k (roster st)"
  unfolding roster_def viewer_remove_def by (simp add: AList.delete_eq filter_map comp_def case_prod_unfold)

lemma core_sel [simp]:
  "vc_presence (core v) = vv_presence_id v" "vc_session (core v) = as_session_id (vv_session v)"
  "vc_remote (core v) = as_remote (vv_session v)" "vc_active (core v) = as_media_active (vv_session v)"
  "vc_mode (core v) = as_mode (vv_session v)"
  "vc_capable (core v) = input_capable_grants (as_grants (vv_session v))"
  "vc_media (core v) = \<lparr>mg_generation_id = as_media_generation_id (vv_session v),
                       mg_broadcast_name = as_media_broadcast_name (vv_session v)\<rparr>"
  by (simp_all add: core_def)

lemma viewer_in_members:
  assumes "map_of (vs_viewers st) k = Some v"
  shows "(vv_presence_id v, as_session_id (vv_session v)) \<in> members (roster st)"
    "input_capable_grants (as_grants (vv_session v)) \<Longrightarrow>
     (vv_presence_id v, as_session_id (vv_session v)) \<in> capable_members (roster st)"
proof -
  have m: "(k, core v) \<in> set (roster st)"
    using assms by (auto intro: map_of_SomeD simp: map_of_roster)
  show "(vv_presence_id v, as_session_id (vv_session v)) \<in> members (roster st)"
    unfolding members_def by (rule image_eqI [OF _ m]) simp
  show "input_capable_grants (as_grants (vv_session v)) \<Longrightarrow>
     (vv_presence_id v, as_session_id (vv_session v)) \<in> capable_members (roster st)"
    unfolding capable_members_def by (rule image_eqI [of _ _ "(k, core v)"]) (use m in simp_all)
qed

lemma capable_subset: "capable_members r \<subseteq> members r"
  by (auto simp: capable_members_def members_def)

text \<open>Only one entry carries a presence identity.\<close>

lemma members_delete:
  assumes "distinct (map (vc_presence \<circ> snd) r)" "(k, c) \<in> set r" "distinct (map fst r)"
  shows "members (AList.delete k r) = members r - {(vc_presence c, vc_session c)}"
    "capable_members (AList.delete k r) = capable_members r - {(vc_presence c, vc_session c)}"
proof -
  have u: "e = (k, c)" if "e \<in> set r" "vc_presence (snd e) = vc_presence c" for e
    using assms(1,2) that by (auto simp: distinct_map inj_on_def)
  have k: "e = (k, c)" if "e \<in> set r" "fst e = k" for e
    using assms(2,3) that by (auto simp: distinct_map inj_on_def)
  have d: "set (AList.delete k r) = set r - {(k, c)}"
    using k by (auto simp: AList.delete_eq)
  show "members (AList.delete k r) = members r - {(vc_presence c, vc_session c)}"
    unfolding members_def d using u by fastforce
  show "capable_members (AList.delete k r) = capable_members r - {(vc_presence c, vc_session c)}"
    unfolding capable_members_def d using u by fastforce
qed

lemma roster_wf_delete: "roster_wf next maximum r \<Longrightarrow> roster_wf next maximum (AList.delete k r)"
  by (auto simp: roster_wf_def AList.delete_eq distinct_map_filter intro: le_trans [OF length_filter_le])

lemma roster_wf_next: "roster_wf next maximum r \<Longrightarrow> next \<le> next' \<Longrightarrow> roster_wf next' maximum r"
  by (fastforce simp: roster_wf_def entry_ok_def)

section \<open>Snapshots\<close>

lemma snapshot_viewers_set:
  "set (ss_viewers (v2_snapshot_of st remote self)) = (viewer_presence_for remote \<circ> snd) ` set (vs_viewers st)"
  by (simp add: v2_snapshot_of_def)

lemma viewer_presence_core:
  "viewer_presence_for remote v =
     \<lparr>vp_presence_id = vc_presence (core v), vp_session_id = vc_session (core v),
      vp_input_capable = vc_capable (core v), vp_you = (vc_remote (core v) = remote)\<rparr>"
  by (simp add: viewer_presence_for_def)

lemma roster_entry: "(p, v) \<in> set (vs_viewers st) \<Longrightarrow> (p, core v) \<in> set (roster st)"
  by (force simp: roster_def)

lemma snapshot_roster_list:
  "map (viewer_presence_for remote \<circ> snd) (vs_viewers st) =
   map (\<lambda>(p, c). \<lparr>vp_presence_id = vc_presence c, vp_session_id = vc_session c,
                  vp_input_capable = vc_capable c, vp_you = (vc_remote c = remote)\<rparr>) (roster st)"
  by (simp add: roster_def viewer_presence_core comp_def case_prod_unfold)

text \<open>A snapshot reads the roster, the revision, the media and the visible part of the focus only.\<close>

definition focus_view ::
  "focus_arbiter \<Rightarrow> focus_state_v2 \<times> focus_proposal_v2 option \<times> focus_transition_reason_v2 \<times> viewer_presence_id option" where
  "focus_view fa = (fa_state fa, fa_proposal fa, fa_transition_reason fa, fa_configured_owner fa)"

lemma v2_snapshot_of_cong:
  assumes "roster st = roster st'" "vs_revision st = vs_revision st'"
    "focus_view (vs_focus st) = focus_view (vs_focus st')"
    "vs_media st = vs_media st'" "core self = core self'"
  shows "v2_snapshot_of st remote self = v2_snapshot_of st' remote self'"
proof -
  have "vv_presence_id self = vv_presence_id self'"
    "\<lparr>mg_generation_id = as_media_generation_id (vv_session self),
      mg_broadcast_name = as_media_broadcast_name (vv_session self)\<rparr> =
     \<lparr>mg_generation_id = as_media_generation_id (vv_session self'),
      mg_broadcast_name = as_media_broadcast_name (vv_session self')\<rparr>"
    using assms(5) core_sel(1) core_sel(7) by metis+
  then show ?thesis
    using assms(1-4) by (simp add: v2_snapshot_of_def snapshot_roster_list focus_view_def is_configured_owner_def
        split: option.splits)
qed

lemma filter_you_one:
  assumes "distinct (map fst r)" "\<forall>e \<in> set r. vc_remote (snd e) = fst e" "k \<in> fst ` set r"
  shows "length (filter (\<lambda>e. vc_remote (snd e) = k) r) = 1"
  using assms
proof (induction r)
  case Nil
  then show ?case by simp
next
  case (Cons e r)
  show ?case
  proof (cases "fst e = k")
    case True
    with Cons.prems have "filter (\<lambda>e. vc_remote (snd e) = k) r = []"
      by (force simp: filter_empty_conv)
    with True Cons.prems show ?thesis by simp
  next
    case False
    with Cons show ?thesis by auto
  qed
qed

lemma length_filter_sort: "length (filter P (sort_key f xs)) = length (filter P xs)"
  by (metis filter_sort length_sort)

lemma distinct_map_sort: "distinct (map f (sort_key g xs)) = distinct (map f xs)"
  by (metis distinct_map distinct_sort set_sort)

text \<open>The snapshot of every viewer of a well-formed roster passes the validation of the protocol.\<close>

lemma v2_snapshot_valid:
  assumes wf: "v2_wf next maximum st" and max: "maximum \<le> MAX_VIEWERS"
    and self: "map_of (vs_viewers st) remote = Some self"
  shows "snapshot_wf (v2_snapshot_of st remote self)"
proof -
  let ?s = "v2_snapshot_of st remote self"
  let ?c = "\<lambda>c. \<lparr>vp_presence_id = vc_presence c, vp_session_id = vc_session c,
                  vp_input_capable = vc_capable c, vp_you = (vc_remote c = remote)\<rparr>"
  have rwf: "roster_wf next maximum (roster st)" and fok: "focus_ok (members (roster st)) (capable_members (roster st)) (vs_focus st)"
    and fwf: "focus_wf (vs_focus st)"
    using wf by (simp_all add: v2_wf_def)
  have ent: "(remote, core self) \<in> set (roster st)"
    using self by (intro map_of_SomeD) (simp add: map_of_roster)
  then have selfok: "entry_ok next (remote, core self)"
    using rwf by (auto simp: roster_wf_def)
  have vs: "set (ss_viewers ?s) = (\<lambda>(p, c). ?c c) ` set (roster st)"
    by (simp add: v2_snapshot_of_def snapshot_roster_list)
  have fs: "focus_state_validate (fa_state (vs_focus st)) = Inr ()"
    using fwf by (cases "fa_state (vs_focus st)") (auto simp: focus_wf_def focus_state_validate_def)
  have uniq: "vc_presence c = vc_presence (core self)" if "(p, c) \<in> set (roster st)" "vc_remote c = remote" for p c
  proof -
    have "p = remote"
      using that rwf by (auto simp: roster_wf_def entry_ok_def)
    then have "c = core self"
      using that(1) ent rwf unfolding roster_wf_def by (metis eq_key_imp_eq_value)
    then show ?thesis by simp
  qed
  have "\<forall>v \<in> set (ss_viewers ?s). viewer_presence_validate v = Inr () \<and> (vp_you v \<longrightarrow> vp_presence_id v = vv_presence_id self)"
    using rwf uniq unfolding vs by (auto simp: roster_wf_def entry_ok_def viewer_presence_validate_ok)
  moreover have "distinct (map vp_presence_id (ss_viewers ?s))"
  proof -
    have "map vp_presence_id (map (viewer_presence_for remote \<circ> snd) (vs_viewers st)) =
        map (vc_presence \<circ> snd) (roster st)"
      by (simp add: roster_def viewer_presence_for_def comp_def case_prod_unfold)
    then show ?thesis
      using rwf unfolding v2_snapshot_of_def roster_wf_def by (simp only: session_snapshot_v2.select_convs distinct_map_sort)
  qed
  moreover have "length (filter vp_you (ss_viewers ?s)) = 1"
  proof -
    have "length (filter vp_you (ss_viewers ?s)) =
        length (filter (\<lambda>e. vc_remote (snd e) = remote) (roster st))"
      unfolding v2_snapshot_of_def
      by (simp add: length_filter_sort roster_def filter_map comp_def case_prod_unfold viewer_presence_for_def)
    also have "\<dots> = 1"
    proof (rule filter_you_one)
      show "remote \<in> fst ` set (roster st)"
        using ent by (metis fst_conv image_eqI)
    qed (use rwf in \<open>simp_all add: roster_wf_def entry_ok_def\<close>)
    finally show ?thesis .
  qed
  moreover have "length (ss_viewers ?s) \<le> MAX_SESSION_ROSTER_VIEWERS"
    using rwf max by (simp add: v2_snapshot_of_def roster_wf_def MAX_SESSION_ROSTER_VIEWERS_def MAX_VIEWERS_def)
  moreover have "snapshot_focus_validate ?s = Inr ()"
  proof (cases "fa_state (vs_focus st)")
    case (Held slot h s g)
    then have "(h, s) \<in> members (roster st)"
      using fok by (simp add: focus_ok_def)
    then have "\<exists>v \<in> set (ss_viewers ?s). vp_presence_id v = h \<and> vp_session_id v = s"
      unfolding vs members_def by force
    with fs Held show ?thesis
      by (simp add: snapshot_focus_validate_def v2_snapshot_of_def list_ex_iff)
  qed (use fs in \<open>simp_all add: snapshot_focus_validate_def v2_snapshot_of_def\<close>)
  moreover have "snapshot_proposal_validate ?s = Inr ()"
  proof (cases "fa_proposal (vs_focus st)")
    case (Some p)
    then obtain slot h s g where held: "fa_state (vs_focus st) = Held slot h s g"
      using fwf by (cases "fa_state (vs_focus st)") (auto simp: focus_wf_def)
    have "(fp_requester p, fp_requester_session_id p) \<in> capable_members (roster st)"
      using fok Some by (simp add: focus_ok_def)
    then have "\<exists>v \<in> set (ss_viewers ?s). vp_presence_id v = fp_requester p
        \<and> vp_session_id v = fp_requester_session_id p \<and> vp_input_capable v"
      unfolding vs capable_members_def by force
    with fwf Some held show ?thesis
      by (simp add: snapshot_proposal_validate_def v2_snapshot_of_def focus_wf_def list_ex_iff)
  qed (simp add: snapshot_proposal_validate_def v2_snapshot_of_def)
  moreover have "media_generation_validate (ss_media ?s) = Inr ()"
    using wf selfok by (auto simp: v2_wf_def v2_snapshot_of_def entry_ok_def split: option.splits)
  moreover have "ss_viewers ?s \<noteq> []"
    using \<open>length (filter vp_you (ss_viewers ?s)) = 1\<close> by auto
  moreover have "vs_viewers st \<noteq> []"
    using self by auto
  then have "ss_revision ?s \<noteq> 0" "presence_validate (ss_self_presence_id ?s) = Inr ()"
    "ss_self_presence_id ?s = vv_presence_id self"
    using wf selfok by (simp_all add: v2_wf_def v2_snapshot_of_def entry_ok_def)
  ultimately show ?thesis
    by (simp add: snapshot_wf_def)
qed


text \<open>Every channel holds the snapshot of the current state.\<close>

definition snapshots_current :: "v2_session_state \<Rightarrow> bool" where
  "snapshots_current st \<longleftrightarrow> (\<forall>(p, v) \<in> set (vs_viewers st). vv_snapshots v = Some (v2_snapshot_of st p v))"

definition v2_base :: "u64 \<Rightarrow> nat \<Rightarrow> v2_session_state \<Rightarrow> bool" where
  "v2_base next maximum st \<longleftrightarrow>
     roster_wf next maximum (roster st) \<and> focus_wf (vs_focus st) \<and>
     focus_ok (members (roster st)) (capable_members (roster st)) (vs_focus st) \<and>
     (\<forall>m. vs_media st = Some m \<longrightarrow> media_generation_validate m = Inr ())"

definition v2_inv :: "u64 \<Rightarrow> nat \<Rightarrow> v2_session_state \<Rightarrow> bool" where
  "v2_inv next maximum st \<longleftrightarrow> v2_wf next maximum st \<and> snapshots_current st"

lemma v2_wf_base: "v2_wf next maximum st \<longleftrightarrow> v2_base next maximum st \<and> (vs_viewers st \<noteq> [] \<longrightarrow> vs_revision st \<noteq> 0)"
  by (auto simp: v2_wf_def v2_base_def)

lemma v2_base_cong:
  "roster st = roster st' \<Longrightarrow> vs_focus st = vs_focus st' \<Longrightarrow> vs_media st = vs_media st' \<Longrightarrow>
   v2_base next maximum st = v2_base next maximum st'"
  by (simp add: v2_base_def)

lemma v2_base_next: "v2_base next maximum st \<Longrightarrow> next \<le> next' \<Longrightarrow> v2_base next' maximum st"
  by (auto simp: v2_base_def intro: roster_wf_next)

lemma publish_loop_ok:
  "(\<And>p v. (p, v) \<in> set vs \<Longrightarrow> v2_snapshot_for st p = Inr (snap p)) \<Longrightarrow>
   publish_loop st vs = (map (\<lambda>(p, v). (p, v\<lparr>vv_snapshots := Some (snap p)\<rparr>)) vs, Inr ())"
proof (induction vs)
  case Nil
  then show ?case by simp
next
  case (Cons e vs)
  have "v2_snapshot_for st (fst e) = Inr (snap (fst e))"
    by (rule Cons.prems [of _ "snd e"]) simp
  moreover have "publish_loop st vs = (map (\<lambda>(p, v). (p, v\<lparr>vv_snapshots := Some (snap p)\<rparr>)) vs, Inr ())"
    using Cons.prems by (intro Cons.IH) auto
  ultimately show ?case
    by (cases e) simp
qed

lemma core_snapshots [simp]: "core (v\<lparr>vv_snapshots := s\<rparr>) = core v"
  by (simp add: core_def)

lemma core_neutralizing [simp]: "core (v\<lparr>vv_authorization_neutralizing := s\<rparr>) = core v"
  by (simp add: core_def)

lemma core_rates [simp]: "core (v\<lparr>vv_rates := s\<rparr>) = core v"
  by (simp add: core_def)

lemma core_input_claimed [simp]: "core (v\<lparr>vv_session := (vv_session v)\<lparr>as_input_claimed := b\<rparr>\<rparr>) = core v"
  by (simp add: core_def)

lemma core_feedback_claimed [simp]: "core (v\<lparr>vv_session := (vv_session v)\<lparr>as_feedback_claimed := b\<rparr>\<rparr>) = core v"
  by (simp add: core_def)

lemma distinct_viewers: "roster_wf next maximum (roster st) \<Longrightarrow> distinct (map fst (vs_viewers st))"
  by (simp add: roster_wf_def)

lemma viewer_lookup:
  "roster_wf next maximum (roster st) \<Longrightarrow> (p, v) \<in> set (vs_viewers st) \<Longrightarrow> map_of (vs_viewers st) p = Some v"
  by (simp add: distinct_viewers)

text \<open>
  On a well-formed state the publication succeeds for every viewer, changes nothing but the
  channels and makes all of them current.
\<close>

lemma publish_ok:
  assumes wf: "v2_wf next maximum st" and max: "maximum \<le> MAX_VIEWERS"
  shows "publish_v2_snapshots st =
     (st\<lparr>vs_viewers := map (\<lambda>(p, v). (p, v\<lparr>vv_snapshots := Some (v2_snapshot_of st p v)\<rparr>)) (vs_viewers st)\<rparr>, Inr ())"
proof -
  have lookup: "map_of (vs_viewers st) p = Some v" if "(p, v) \<in> set (vs_viewers st)" for p v
    using wf that by (auto simp: v2_wf_def intro: viewer_lookup)
  let ?snap = "\<lambda>p. v2_snapshot_of st p (the (map_of (vs_viewers st) p))"
  have "v2_snapshot_for st p = Inr (?snap p)" if "(p, v) \<in> set (vs_viewers st)" for p v
    using v2_snapshot_valid [OF wf max lookup [OF that]] lookup [OF that]
    by (simp add: v2_snapshot_for_def flip: snapshot_validate_ok [where u = "()"])
  then have "publish_loop st (vs_viewers st) =
      (map (\<lambda>(p, v). (p, v\<lparr>vv_snapshots := Some (?snap p)\<rparr>)) (vs_viewers st), Inr ())"
    by (rule publish_loop_ok)
  moreover have "map (\<lambda>(p, v). (p, v\<lparr>vv_snapshots := Some (?snap p)\<rparr>)) (vs_viewers st) =
      map (\<lambda>(p, v). (p, v\<lparr>vv_snapshots := Some (v2_snapshot_of st p v)\<rparr>)) (vs_viewers st)"
    using lookup by (intro map_cong) auto
  ultimately show ?thesis
    by (simp add: publish_v2_snapshots_def)
qed

lemma roster_published [simp]:
  "roster (st\<lparr>vs_viewers := map (\<lambda>(p, v). (p, v\<lparr>vv_snapshots := f p v\<rparr>)) (vs_viewers st)\<rparr>) = roster st"
  by (simp add: roster_def comp_def case_prod_unfold)

lemma publish_inv:
  assumes wf: "v2_wf next maximum st" and max: "maximum \<le> MAX_VIEWERS"
    and r: "publish_v2_snapshots st = (st', r)"
  shows "r = Inr ()" "v2_inv next maximum st'" "roster st' = roster st" "vs_focus st' = vs_focus st"
    "vs_media st' = vs_media st" "vs_revision st' = vs_revision st"
    "vs_live_control_leases st' = vs_live_control_leases st"
    "map fst (vs_viewers st') = map fst (vs_viewers st)"
proof -
  let ?st = "st\<lparr>vs_viewers := map (\<lambda>(p, v). (p, v\<lparr>vv_snapshots := Some (v2_snapshot_of st p v)\<rparr>)) (vs_viewers st)\<rparr>"
  have st': "st' = ?st" and res: "r = Inr ()"
    using r publish_ok [OF wf max] by simp_all
  show "r = Inr ()" by (rule res)
  show "roster st' = roster st" "vs_focus st' = vs_focus st" "vs_media st' = vs_media st"
    "vs_revision st' = vs_revision st" "vs_live_control_leases st' = vs_live_control_leases st"
    unfolding st' by simp_all
  show "map fst (vs_viewers st') = map fst (vs_viewers st)"
    unfolding st' by (simp add: comp_def case_prod_unfold)
  have "v2_wf next maximum ?st"
    using wf by (simp add: v2_wf_def)
  moreover have "snapshots_current ?st"
    by (auto simp: snapshots_current_def intro!: v2_snapshot_of_cong)
  ultimately show "v2_inv next maximum st'"
    by (simp add: st' v2_inv_def)
qed

lemma advance_publish_inv:
  assumes base: "v2_base next maximum st" and max: "maximum \<le> MAX_VIEWERS" and rev: "vs_revision st \<noteq> - 1"
    and r: "advance_and_publish st = (st', r)"
  shows "r = Inr ()" "v2_inv next maximum st'" "roster st' = roster st" "vs_focus st' = vs_focus st"
    "vs_media st' = vs_media st" "vs_revision st' = vs_revision st + 1"
    "vs_live_control_leases st' = vs_live_control_leases st"
    "map fst (vs_viewers st') = map fst (vs_viewers st)"
proof -
  let ?st = "st\<lparr>vs_revision := vs_revision st + 1\<rparr>"
  have adv: "advance_v2_revision st = (?st, Inr ())"
    using rev checked_add_1_Some [of "vs_revision st" "vs_revision st + 1"] by (simp add: advance_v2_revision_def)
  have "vs_revision st + 1 \<noteq> 0"
    using rev by (metis add_eq_0_iff2)
  then have wf: "v2_wf next maximum ?st"
    using base by (simp add: v2_wf_base v2_base_def)
  have "publish_v2_snapshots ?st = (st', r)"
    using r adv by (simp add: advance_and_publish_def)
  from publish_inv [OF wf max this]
  show "r = Inr ()" "v2_inv next maximum st'" "roster st' = roster st" "vs_focus st' = vs_focus st"
    "vs_media st' = vs_media st" "vs_revision st' = vs_revision st + 1"
    "vs_live_control_leases st' = vs_live_control_leases st"
    "map fst (vs_viewers st') = map fst (vs_viewers st)"
    by simp_all
qed

text \<open>Steps that change no visible part keep the channels current.\<close>

lemma snapshots_current_update:
  assumes "snapshots_current st"
    and "\<And>v. map_of (vs_viewers st) k = Some v \<Longrightarrow> core (f v) = core v"
    and "\<And>v. vv_snapshots (f v) = vv_snapshots v"
    and dist: "distinct (map fst (vs_viewers st))"
  shows "snapshots_current (viewer_update k f st)"
proof -
  have r: "roster (viewer_update k f st) = roster st"
    using assms(2) by (rule roster_update)
  have "vv_snapshots v' = Some (v2_snapshot_of (viewer_update k f st) p v')"
    if "(p, v') \<in> set (AList.map_entry k f (vs_viewers st))" for p v'
  proof -
    have "distinct (map fst (AList.map_entry k f (vs_viewers st)))"
      using dist by (simp add: distinct_map_entry)
    with that have "map_of (AList.map_entry k f (vs_viewers st)) p = Some v'" by simp
    then obtain v where v: "map_of (vs_viewers st) p = Some v" "v' = (if p = k then f v else v)"
      by (auto simp: map_of_map_entry split: if_splits option.splits)
    have "core v' = core v" "vv_snapshots v' = vv_snapshots v"
      using v assms(2,3) by auto
    moreover have "vv_snapshots v = Some (v2_snapshot_of st p v)"
      using assms(1) map_of_SomeD [OF v(1)] by (auto simp: snapshots_current_def)
    ultimately show ?thesis
      using v2_snapshot_of_cong [of "viewer_update k f st" st v' v p] r by simp
  qed
  then show ?thesis
    by (auto simp: snapshots_current_def)
qed

lemma snapshots_current_focus:
  "snapshots_current st \<Longrightarrow> focus_view fa = focus_view (vs_focus st) \<Longrightarrow> snapshots_current (st\<lparr>vs_focus := fa\<rparr>)"
  using v2_snapshot_of_cong [of "st\<lparr>vs_focus := fa\<rparr>" st]
  by (auto simp: snapshots_current_def)

lemma snapshots_current_leases:
  "snapshots_current (st\<lparr>vs_live_control_leases := n\<rparr>) = snapshots_current st"
  by (auto simp: snapshots_current_def v2_snapshot_of_def)

lemma v2_inv_update:
  assumes "v2_inv next maximum st"
    and "\<And>v. map_of (vs_viewers st) k = Some v \<Longrightarrow> core (f v) = core v"
    and "\<And>v. vv_snapshots (f v) = vv_snapshots v"
  shows "v2_inv next maximum (viewer_update k f st)"
  using assms roster_update [of st k f] snapshots_current_update [of st k f]
  by (auto simp: v2_inv_def v2_wf_def dest: distinct_viewers)

end
