(* ===== verification/Session_Preservation.thy ===== *)
theory Session_Preservation
  imports Session_Invariants
begin

text \<open>
  Every operation of the session registry keeps the roster invariant, and keeps the published
  snapshots current except in the situations that \<open>quiet\<close> names. The counters are taken not to be
  exhausted (\<open>not_exhausted\<close>): each is a \<open>u64\<close> that an operation raises by at most one.
\<close>

section \<open>Keeping the invariant\<close>

definition not_exhausted :: "session_registry \<Rightarrow> bool" where
  "not_exhausted reg \<longleftrightarrow>
     sr_next_session_id reg \<noteq> - 1 \<and> vs_revision (sr_v2 reg) \<noteq> - 1 \<and>
     fa_next_transition_id (vs_focus (sr_v2 reg)) \<noteq> - 1 \<and>
     vs_live_control_leases (sr_v2 reg) + 1 < 2 ^ 64"

definition registry_wf :: "session_registry \<Rightarrow> bool" where
  "registry_wf reg \<longleftrightarrow>
     sr_max_viewers reg \<le> MAX_VIEWERS \<and> v2_wf (sr_next_session_id reg) (sr_max_viewers reg) (sr_v2 reg)"

text \<open>
  \<open>keeps n m st st' q\<close>: the new state is well formed, and if the channels were current and \<open>q\<close>
  holds, they still are.
\<close>

definition keeps :: "u64 \<Rightarrow> nat \<Rightarrow> v2_session_state \<Rightarrow> v2_session_state \<Rightarrow> bool \<Rightarrow> bool" where
  "keeps next maximum st st' q \<longleftrightarrow>
     v2_wf next maximum st' \<and> (snapshots_current st \<and> q \<longrightarrow> snapshots_current st')"

lemma keeps_refl: "v2_wf next maximum st \<Longrightarrow> keeps next maximum st st q"
  by (simp add: keeps_def)

lemma keeps_inv: "v2_inv next maximum st' \<Longrightarrow> keeps next maximum st st' q"
  by (simp add: keeps_def v2_inv_def)

lemma keeps_trans: "keeps next maximum st st1 q \<Longrightarrow> keeps next maximum st1 st2 q \<Longrightarrow> keeps next maximum st st2 q"
  by (auto simp: keeps_def)

lemma keeps_update:
  assumes "v2_wf next maximum st"
    and "\<And>v. map_of (vs_viewers st) k = Some v \<Longrightarrow> core (f v) = core v"
    and "\<And>v. vv_snapshots (f v) = vv_snapshots v"
  shows "keeps next maximum st (viewer_update k f st) q"
  using assms roster_update [of st k f] snapshots_current_update [of st k f]
  by (auto simp: keeps_def v2_wf_def dest: distinct_viewers)

lemma keeps_focus:
  assumes "v2_wf next maximum st" "focus_wf fa"
    "focus_ok (members (roster st)) (capable_members (roster st)) fa"
    "q \<Longrightarrow> focus_view fa = focus_view (vs_focus st)"
  shows "keeps next maximum st (st\<lparr>vs_focus := fa\<rparr>) q"
  using assms snapshots_current_focus [of st fa] by (auto simp: keeps_def v2_wf_def)

lemma base_focus:
  assumes "v2_wf next maximum st" "focus_wf fa"
    "focus_ok (members (roster st)) (capable_members (roster st)) fa"
  shows "v2_base next maximum (st\<lparr>vs_focus := fa\<rparr>)"
  using assms by (auto simp: v2_base_def v2_wf_def)

lemma keeps_publish_if:
  assumes "publish_if changed st1 = (st', r)" "v2_base next maximum st1" "maximum \<le> MAX_VIEWERS"
    "vs_revision st1 \<noteq> - 1" "\<not> changed \<Longrightarrow> keeps next maximum st st1 q"
  shows "keeps next maximum st st' q" "r = Inr ()" "roster st' = roster st1"
    "vs_live_control_leases st' = vs_live_control_leases st1"
proof -
  have "keeps next maximum st st' q \<and> r = Inr () \<and> roster st' = roster st1 \<and>
      vs_live_control_leases st' = vs_live_control_leases st1"
  proof (cases changed)
    case True
    then have "advance_and_publish st1 = (st', r)"
      using assms(1) by (simp add: publish_if_def)
    from advance_publish_inv [OF assms(2,3,4) this] show ?thesis
      by (simp add: keeps_inv)
  qed (use assms in \<open>simp add: publish_if_def\<close>)
  then show "keeps next maximum st st' q" "r = Inr ()" "roster st' = roster st1"
    "vs_live_control_leases st' = vs_live_control_leases st1" by simp_all
qed

lemma viewer_with_session_Some:
  "viewer_with_session st remote sid = Some v \<longleftrightarrow>
     map_of (vs_viewers st) remote = Some v \<and> as_session_id (vv_session v) = sid"
  by (auto simp: viewer_with_session_def split: option.splits)

lemma active_viewer_Some:
  "active_viewer st remote sid = Some v \<longleftrightarrow>
     map_of (vs_viewers st) remote = Some v \<and> as_media_active (vv_session v) \<and> as_session_id (vv_session v) = sid"
  by (auto simp: active_viewer_def split: option.splits)

lemma viewer_entry_ok:
  assumes "v2_wf next maximum st" "map_of (vs_viewers st) remote = Some v"
  shows "entry_ok next (remote, core v)"
  using assms map_of_SomeD [of "roster st" remote "core v"]
  by (auto simp: v2_wf_def roster_wf_def map_of_roster)

lemma viewer_cand_ok:
  assumes "v2_wf next maximum st" "map_of (vs_viewers st) remote = Some v"
  shows "cand_ok \<lparr>cand_presence_id = vv_presence_id v, cand_session_id = as_session_id (vv_session v)\<rparr>"
  using viewer_entry_ok [OF assms] by (simp add: entry_ok_def cand_ok_def)

section \<open>The arbiter's visible part\<close>

lemma expire_proposal_view:
  "expire_proposal fa now = (fa', False) \<Longrightarrow> fa' = fa"
  by (auto simp: expire_proposal_def split: option.splits if_splits)

lemma check_rate_limit_view:
  "check_rate_limit fa c now = (fa', r) \<Longrightarrow> focus_view fa' = focus_view fa \<and>
   fa_next_transition_id fa' = fa_next_transition_id fa \<and> fa_proposal_deadline fa' = fa_proposal_deadline fa"
  by (auto simp: check_rate_limit_def Let_def focus_view_def split: if_splits)

lemma grant_Inl: "grant fa slot c now = (fa', Inl e) \<Longrightarrow> fa' = fa"
  by (auto simp: grant_def split: sum.splits)

lemma begin_neutralization_result:
  "begin_neutralization fa reason successor = (fa', r) \<Longrightarrow>
   (case r of Inl e \<Rightarrow> fa' = fa | Inr m \<Rightarrow> fm_changed m)"
  by (auto simp: begin_neutralization_def split: focus_state_v2.splits sum.splits)

lemma focus_request_result:
  assumes r: "focus_request fa c now sys_now = (fa', r)"
  shows "case r of Inl e \<Rightarrow> \<not> snd (expire_proposal fa now) \<longrightarrow> focus_view fa' = focus_view fa
    | Inr m \<Rightarrow> fm_changed m"
proof -
  define fb where "fb = fst (expire_proposal fa now)"
  have same: "fb = fa" if "\<not> snd (expire_proposal fa now)"
    using that expire_proposal_view [of fa now fb] by (simp add: fb_def prod_eq_iff)
  show ?thesis
  proof (cases "fa_state fb")
    case (Vacant slot)
    obtain fg rg where g: "grant fb slot c now = (fg, rg)" by fastforce
    then show ?thesis
      using r same grant_Inl [of fb slot c now fg]
      by (cases rg) (auto simp: focus_request_def fb_def [symmetric] Vacant)
  next
    case (Held slot holder sid gen)
    with r same show ?thesis
      by (auto simp: focus_request_def fb_def [symmetric] Let_def focus_view_def split: if_splits sum.splits)
  next
    case (Neutralizing slot h s g t)
    with r same show ?thesis
      by (auto simp: focus_request_def fb_def [symmetric])
  qed
qed

lemma focus_approve_result:
  "focus_approve fa c g p = (fa', r) \<Longrightarrow> (case r of Inl e \<Rightarrow> fa' = fa | Inr m \<Rightarrow> fm_changed m)"
  by (auto simp: focus_approve_def split: sum.splits dest: begin_neutralization_result)

lemma focus_deny_result:
  "focus_deny fa c g p = (fa', r) \<Longrightarrow> (case r of Inl e \<Rightarrow> fa' = fa | Inr m \<Rightarrow> fm_changed m)"
  by (auto simp: focus_deny_def split: sum.splits)

lemma focus_release_result:
  "focus_release fa c g = (fa', r) \<Longrightarrow> (case r of Inl e \<Rightarrow> fa' = fa | Inr m \<Rightarrow> fm_changed m)"
  by (auto simp: focus_release_def split: sum.splits dest: begin_neutralization_result)

lemma focus_preempt_result:
  "focus_preempt fa c g = (fa', r) \<Longrightarrow> (case r of Inl e \<Rightarrow> fa' = fa | Inr m \<Rightarrow> fm_changed m)"
  by (auto simp: focus_preempt_def split: focus_state_v2.splits if_splits dest: begin_neutralization_result)

lemma begin_invalidation_result:
  assumes "begin_invalidation fa c reason = (fa', Inr m)" "\<not> fm_changed m"
  shows "fa' = fa" "fm_neutralization m = None"
  using assms begin_neutralization_result [of fa reason None fa' "Inr m"]
  by (auto simp: begin_invalidation_def Let_def candidate_holds_def begin_neutralization_def
      split: if_splits focus_state_v2.splits sum.splits)

lemma complete_transition_view:
  assumes "complete_transition fa tid valid now = (fa', r)" "focus_wf fa" "r \<noteq> Inr True"
  shows "focus_view fa' = focus_view fa"
proof (cases "fa_state fa")
  case (Neutralizing slot h s g current)
  with assms(2) have "fa_proposal fa = None"
    by (simp add: focus_wf_def)
  with assms Neutralizing show ?thesis
    by (cases "grant (clear_proposal (fa\<lparr>fa_successor := None\<rparr>)) slot (the (fa_successor fa)) now"; cases r)
      (auto simp: complete_transition_def Let_def focus_view_def bind_op_def split: if_splits option.splits
        sum.splits dest: grant_Inl)
qed (use assms in \<open>simp_all add: complete_transition_def\<close>)

text \<open>A command that is accepted changes the focus; one that is refused does not show.\<close>

lemma focus_dispatch_ok:
  assumes d: "focus_dispatch fa viewer c command now sys_now = (fa', r)"
    and wf: "focus_wf fa" and ok: "focus_ok P C fa" and c: "cand_ok c"
    and P: "(cand_presence_id c, cand_session_id c) \<in> P"
    and C: "input_capable_grants (as_grants (vv_session viewer)) \<Longrightarrow> (cand_presence_id c, cand_session_id c) \<in> C"
  shows "focus_wf fa' \<and> focus_ok P C fa' \<and>
    (case r of Inl e \<Rightarrow> \<not> snd (expire_proposal fa now) \<longrightarrow> focus_view fa' = focus_view fa | Inr m \<Rightarrow> fm_changed m)"
proof (cases "fc_action command")
  case Request
  show ?thesis
  proof (cases "input_eligible viewer")
    case (Inl e)
    with d Request wf ok show ?thesis by (auto simp: focus_dispatch_def)
  next
    case (Inr u)
    then have "(cand_presence_id c, cand_session_id c) \<in> C"
      using C by (auto simp: input_eligible_def)
    moreover have "focus_request fa c now sys_now = (fa', r)"
      using d Request Inr by (simp add: focus_dispatch_def)
    ultimately show ?thesis
      using focus_request_wf focus_request_ok focus_request_result wf ok c P by blast
  qed
next
  case Approve
  then have "focus_approve fa c (the (fc_expected_focus_generation command)) (the (fc_expected_proposal_id command)) = (fa', r)"
    using d by (simp add: focus_dispatch_def)
  then show ?thesis
    using focus_approve_wf focus_approve_ok focus_approve_result wf ok by (fastforce split: sum.splits)
next
  case Deny
  then have "focus_deny fa c (the (fc_expected_focus_generation command)) (the (fc_expected_proposal_id command)) = (fa', r)"
    using d by (simp add: focus_dispatch_def)
  then show ?thesis
    using focus_deny_wf focus_deny_ok focus_deny_result wf ok by (fastforce split: sum.splits)
next
  case Release
  then have "focus_release fa c (the (fc_expected_focus_generation command)) = (fa', r)"
    using d by (simp add: focus_dispatch_def)
  then show ?thesis
    using focus_release_wf focus_release_ok focus_release_result wf ok by (fastforce split: sum.splits)
next
  case Preempt
  show ?thesis
  proof (cases "input_eligible viewer")
    case (Inl e)
    with d Preempt wf ok show ?thesis by (auto simp: focus_dispatch_def)
  next
    case (Inr u)
    then have "focus_preempt fa c (the (fc_expected_focus_generation command)) = (fa', r)"
      using d Preempt by (simp add: focus_dispatch_def)
    then show ?thesis
      using focus_preempt_wf focus_preempt_ok focus_preempt_result wf ok c by (fastforce split: sum.splits)
  qed
qed


section \<open>Focus operations\<close>

definition reg_keeps :: "session_registry \<Rightarrow> session_registry \<Rightarrow> bool \<Rightarrow> bool" where
  "reg_keeps reg reg' q \<longleftrightarrow>
     sr_max_viewers reg' = sr_max_viewers reg \<and>
     keeps (sr_next_session_id reg') (sr_max_viewers reg') (sr_v2 reg) (sr_v2 reg') q"

lemma reg_keeps_wf: "reg_keeps reg reg' q \<Longrightarrow> registry_wf reg \<Longrightarrow> registry_wf reg'"
  by (metis reg_keeps_def registry_wf_def keeps_def)

lemma reg_keeps_current: "reg_keeps reg reg' q \<Longrightarrow> snapshots_current (sr_v2 reg) \<Longrightarrow> q \<Longrightarrow> snapshots_current (sr_v2 reg')"
  by (simp add: reg_keeps_def keeps_def)

lemma reg_keeps_refl: "registry_wf reg \<Longrightarrow> reg_keeps reg reg q"
  by (simp add: reg_keeps_def registry_wf_def keeps_refl)

lemma reg_keeps_v2:
  "registry_wf reg \<Longrightarrow> sr_v2 reg' = st \<Longrightarrow> sr_max_viewers reg' = sr_max_viewers reg \<Longrightarrow>
   sr_next_session_id reg' = sr_next_session_id reg \<Longrightarrow>
   keeps (sr_next_session_id reg) (sr_max_viewers reg) (sr_v2 reg) st q \<Longrightarrow> reg_keeps reg reg' q"
  by (simp add: reg_keeps_def)

lemma with_v2_eq: "with_v2 reg m = (reg', r) \<longleftrightarrow> reg' = reg\<lparr>sr_v2 := fst m\<rparr> \<and> r = snd m"
  by (auto simp: with_v2_def split: prod.splits)

lemma registry_wf_v2:
  assumes "registry_wf reg"
  shows "v2_wf (sr_next_session_id reg) (sr_max_viewers reg) (sr_v2 reg)" "sr_max_viewers reg \<le> MAX_VIEWERS"
    "focus_wf (vs_focus (sr_v2 reg))"
    "focus_ok (members (roster (sr_v2 reg))) (capable_members (roster (sr_v2 reg))) (vs_focus (sr_v2 reg))"
  using assms by (simp_all add: registry_wf_def v2_wf_def)

lemma expire_flag_rate: 
  "check_rate_limit fa c now' = (fb, r) \<Longrightarrow> snd (expire_proposal fb now) = snd (expire_proposal fa now)"
  using check_rate_limit_view [of fa c now' fb r] by (simp add: expire_proposal_def split: option.splits)

lemma apply_focus_command_keeps:
  assumes r: "apply_focus_command reg remote sid command rate_now now sys_now = (reg', r)"
    and wf: "registry_wf reg" and fresh: "not_exhausted reg"
  shows "reg_keeps reg reg' (is_ok r \<or> \<not> snd (expire_proposal (vs_focus (sr_v2 reg)) now))"
    (is "reg_keeps reg reg' ?q")
proof -
  let ?st = "sr_v2 reg"
  let ?n = "sr_next_session_id reg" and ?m = "sr_max_viewers reg"
  note w = registry_wf_v2 [OF wf]
  show ?thesis
  proof (cases "focus_command_validate command = Inr () \<and> (\<exists>v. active_viewer ?st remote sid = Some v) \<and>
      fc_expected_revision command = vs_revision ?st")
    case False
    then have "reg' = reg"
      using r by (auto simp: apply_focus_command_def Let_def split: sum.splits option.splits)
    then show ?thesis using wf by (simp add: reg_keeps_refl)
  next
    case True
    then obtain v where v: "active_viewer ?st remote sid = Some v" by auto
    let ?c = "\<lparr>cand_presence_id = vv_presence_id v, cand_session_id = sid\<rparr>"
    have vm: "map_of (vs_viewers ?st) remote = Some v" "as_session_id (vv_session v) = sid"
      using v by (simp_all add: active_viewer_Some)
    have c: "cand_ok ?c"
      using viewer_cand_ok [OF w(1) vm(1)] vm(2) by simp
    obtain fa rr where rate: "check_rate_limit (vs_focus ?st) ?c rate_now = (fa, rr)" by fastforce
    have fa: "focus_wf fa" "focus_ok (members (roster ?st)) (capable_members (roster ?st)) fa"
      "focus_view fa = focus_view (vs_focus ?st)" "snd (expire_proposal fa now) = snd (expire_proposal (vs_focus ?st) now)"
      using check_rate_limit_wf [OF rate] check_rate_limit_ok [OF rate] check_rate_limit_view [OF rate]
        expire_flag_rate [OF rate] w by simp_all
    show ?thesis
    proof (cases rr)
      case (Inl e)
      then have "reg' = reg\<lparr>sr_v2 := ?st\<lparr>vs_focus := fa\<rparr>\<rparr>"
        using r True v rate by (simp add: apply_focus_command_def with_v2_eq)
      then show ?thesis
        using keeps_focus [OF w(1) fa(1,2), of ?q] fa(3) wf by (auto intro!: reg_keeps_v2)
    next
      case (Inr u)
      obtain fb rd where d: "focus_dispatch fa v ?c command now sys_now = (fb, rd)" by fastforce
      have fb: "focus_wf fb" "focus_ok (members (roster ?st)) (capable_members (roster ?st)) fb"
        and res: "case rd of Inl e \<Rightarrow> \<not> snd (expire_proposal fa now) \<longrightarrow> focus_view fb = focus_view fa | Inr m \<Rightarrow> fm_changed m"
        using focus_dispatch_ok [OF d fa(1,2) c] viewer_in_members [OF vm(1)] vm(2) by auto
      show ?thesis
      proof (cases rd)
        case (Inl e)
        then have "reg' = reg\<lparr>sr_v2 := ?st\<lparr>vs_focus := fb\<rparr>\<rparr>" "\<not> is_ok r"
          using r True v rate Inr d by (auto simp: apply_focus_command_def with_v2_eq)
        then show ?thesis
          using keeps_focus [OF w(1) fb, of ?q] res Inl fa(3,4) wf by (auto intro!: reg_keeps_v2)
      next
        case (Inr mut)
        let ?st1 = "?st\<lparr>vs_focus := fb\<rparr>"
        have ch: "fm_changed mut" using res Inr by simp
        obtain st2 rp where p: "publish_if (fm_changed mut) ?st1 = (st2, rp)" by fastforce
        have base: "v2_base ?n ?m ?st1"
          by (rule base_focus [OF w(1) fb])
        have k: "keeps ?n ?m ?st st2 ?q" and rp: "rp = Inr ()"
          using keeps_publish_if [OF p base w(2)] fresh ch by (auto simp: not_exhausted_def)
        have "reg' = reg\<lparr>sr_v2 := st2\<rparr>"
          using r True v rate \<open>rr = Inr u\<close> d Inr p rp by (simp add: apply_focus_command_def with_v2_eq)
        then show ?thesis
          using k wf by (auto intro!: reg_keeps_v2)
      qed
    qed
  qed
qed

text \<open>The remaining focus operations publish exactly when they change something.\<close>

lemma focus_publish_keeps:
  assumes wf: "registry_wf reg" and fresh: "not_exhausted reg"
    and fa: "focus_wf fa" "focus_ok (members (roster (sr_v2 reg))) (capable_members (roster (sr_v2 reg))) fa"
    and same: "\<not> changed \<Longrightarrow> focus_view fa = focus_view (vs_focus (sr_v2 reg))"
    and reg': "reg' = reg\<lparr>sr_v2 := fst (publish_if changed ((sr_v2 reg)\<lparr>vs_focus := fa\<rparr>))\<rparr>"
  shows "reg_keeps reg reg' True"
proof -
  note w = registry_wf_v2 [OF wf]
  let ?st1 = "(sr_v2 reg)\<lparr>vs_focus := fa\<rparr>"
  obtain st2 rp where p: "publish_if changed ?st1 = (st2, rp)" by fastforce
  have "keeps (sr_next_session_id reg) (sr_max_viewers reg) (sr_v2 reg) st2 True"
    by (rule keeps_publish_if(1) [OF p base_focus [OF w(1) fa] w(2)])
      (use fresh same keeps_focus [OF w(1) fa] in \<open>auto simp: not_exhausted_def\<close>)
  then show ?thesis
    using wf reg' p by (auto intro!: reg_keeps_v2)
qed

lemma publish_if_Inr:
  assumes "registry_wf reg" "not_exhausted reg" "focus_wf fa"
    "focus_ok (members (roster (sr_v2 reg))) (capable_members (roster (sr_v2 reg))) fa"
  shows "snd (publish_if changed ((sr_v2 reg)\<lparr>vs_focus := fa\<rparr>)) = Inr ()"
proof (cases changed)
  case True
  note w = registry_wf_v2 [OF assms(1)]
  obtain st2 rp where p: "publish_if changed ((sr_v2 reg)\<lparr>vs_focus := fa\<rparr>) = (st2, rp)" by fastforce
  from keeps_publish_if(2) [OF p base_focus [OF w(1) assms(3,4)] w(2)] assms(2) True p
  show ?thesis by (simp add: not_exhausted_def)
qed (simp add: publish_if_def)

lemma bind_op_fst: "snd m = Inr u \<Longrightarrow> fst (bind_op m (\<lambda>s x. (s, f s x))) = fst m"
  by (cases m) (simp add: bind_op_def)

lemma invalidate_v2_focus_keeps:
  assumes r: "invalidate_v2_focus reg remote sid reason = (reg', r)"
    and wf: "registry_wf reg" and fresh: "not_exhausted reg"
  shows "reg_keeps reg reg' True"
proof (cases "viewer_with_session (sr_v2 reg) remote sid")
  case None
  then show ?thesis
    using r wf by (simp add: invalidate_v2_focus_def reg_keeps_refl)
next
  case (Some v)
  note w = registry_wf_v2 [OF wf]
  let ?c = "\<lparr>cand_presence_id = vv_presence_id v, cand_session_id = sid\<rparr>"
  obtain fa m where inv: "begin_invalidation (vs_focus (sr_v2 reg)) ?c reason = (fa, Inr m)"
    using begin_invalidation_succeeds fresh unfolding not_exhausted_def by blast
  have fa: "focus_wf fa" "focus_ok (members (roster (sr_v2 reg))) (capable_members (roster (sr_v2 reg))) fa"
    using begin_invalidation_wf [OF inv w(3)] begin_invalidation_ok [OF inv w(4)] .
  show ?thesis
  proof (rule focus_publish_keeps [OF wf fresh fa])
    show "\<not> fm_changed m \<Longrightarrow> focus_view fa = focus_view (vs_focus (sr_v2 reg))"
      using begin_invalidation_result [OF inv] by simp
    show "reg' = reg\<lparr>sr_v2 := fst (publish_if (fm_changed m) ((sr_v2 reg)\<lparr>vs_focus := fa\<rparr>))\<rparr>"
      using r Some inv publish_if_Inr [OF wf fresh fa, of "fm_changed m"]
      by (simp add: invalidate_v2_focus_def with_v2_eq bind_op_fst)
  qed
qed

lemma successor_valid_member:
  "successor_valid st c \<Longrightarrow> (cand_presence_id c, cand_session_id c) \<in> members (roster st)"
  by (force simp: successor_valid_def list_ex_iff members_def roster_def)

lemma complete_transition_keeps:
  assumes t: "complete_transition (vs_focus (sr_v2 reg)) tid valid now = (fa, r0)"
    and valid: "\<And>c. valid \<Longrightarrow> transition_successor (vs_focus (sr_v2 reg)) tid = Some c \<Longrightarrow>
        (cand_presence_id c, cand_session_id c) \<in> members (roster (sr_v2 reg))"
    and wf: "registry_wf reg" and fresh: "not_exhausted reg"
    and reg': "reg' = reg\<lparr>sr_v2 := fst (publish_if (r0 = Inr True) ((sr_v2 reg)\<lparr>vs_focus := fa\<rparr>))\<rparr>"
  shows "reg_keeps reg reg' True"
proof -
  note w = registry_wf_v2 [OF wf]
  show ?thesis
  proof (rule focus_publish_keeps [OF wf fresh])
    show "focus_wf fa"
      by (rule complete_transition_wf [OF t w(3)])
    show "focus_ok (members (roster (sr_v2 reg))) (capable_members (roster (sr_v2 reg))) fa"
      by (rule complete_transition_ok [OF t w(4)]) (rule valid)
    show "r0 \<noteq> Inr True \<Longrightarrow> focus_view fa = focus_view (vs_focus (sr_v2 reg))"
      by (rule complete_transition_view [OF t w(3)])
  qed (rule reg')
qed

lemma publish_if_False [simp]: "publish_if False st = (st, Inr ())"
  by (simp add: publish_if_def)

lemma complete_v2_focus_transition_keeps:
  assumes r: "complete_v2_focus_transition reg tid now = (reg', r)"
    and wf: "registry_wf reg" and fresh: "not_exhausted reg"
  shows "reg_keeps reg reg' True"
proof -
  let ?valid = "case transition_successor (vs_focus (sr_v2 reg)) tid of None \<Rightarrow> False | Some c \<Rightarrow> successor_valid (sr_v2 reg) c"
  obtain fa r0 where t: "complete_transition (vs_focus (sr_v2 reg)) tid ?valid now = (fa, r0)" by fastforce
  show ?thesis
  proof (rule complete_transition_keeps [OF t _ wf fresh])
    show "reg' = reg\<lparr>sr_v2 := fst (publish_if (r0 = Inr True) ((sr_v2 reg)\<lparr>vs_focus := fa\<rparr>))\<rparr>"
      using r t by (auto simp: complete_v2_focus_transition_def Let_def with_v2_eq split: sum.splits)
  qed (auto intro: successor_valid_member)
qed

lemma expire_v2_focus_keeps:
  assumes r: "expire_v2_focus reg now = (reg', r)"
    and wf: "registry_wf reg" and fresh: "not_exhausted reg"
  shows "reg_keeps reg reg' True"
proof -
  note w = registry_wf_v2 [OF wf]
  let ?fa = "vs_focus (sr_v2 reg)"
  obtain fa b where e: "expire_proposal ?fa now = (fa, b)" by fastforce
  have fa: "focus_wf fa" "focus_ok (members (roster (sr_v2 reg))) (capable_members (roster (sr_v2 reg))) fa"
    using expire_proposal_wf [OF e w(3)] expire_proposal_ok [OF e w(4)] .
  have nt: "fa_next_transition_id fa \<noteq> - 1"
    using expire_proposal_state(3) [of ?fa now] e fresh by (simp add: not_exhausted_def)
  obtain fb ra where x: "begin_activation_expiry fa now = (fb, ra)" by fastforce
  have fb: "focus_wf fb" "focus_ok (members (roster (sr_v2 reg))) (capable_members (roster (sr_v2 reg))) fb"
    using begin_activation_expiry_wf [OF x fa(1)] begin_activation_expiry_ok [OF x fa(2)] .
  obtain m where m: "ra = Inr m" and same: "\<not> fm_changed m \<Longrightarrow> fb = fa"
    using x fa(1) nt next_nonzero_ok [of "fa_next_transition_id fa" "''focus transition id''"]
    by (cases "fa_state fa")
      (auto simp: begin_activation_expiry_def focus_wf_def focus_mutation_default_def ensure_holder_def
        holds_focus_def begin_neutralization_def split: option.splits if_splits sum.splits)
  show ?thesis
  proof (rule focus_publish_keeps [OF wf fresh fb])
    show "\<not> (b \<or> fm_changed m) \<Longrightarrow> focus_view fb = focus_view (vs_focus (sr_v2 reg))"
      using same e expire_proposal_view [of ?fa now fa] by auto
    show "reg' = reg\<lparr>sr_v2 := fst (publish_if (b \<or> fm_changed m) ((sr_v2 reg)\<lparr>vs_focus := fb\<rparr>))\<rparr>"
      using r e x m publish_if_Inr [OF wf fresh fb, of "b \<or> fm_changed m"]
      by (simp add: expire_v2_focus_def Let_def with_v2_eq bind_op_fst)
  qed
qed


section \<open>Admission\<close>

lemma rate_limits_fields [simp]:
  "sr_v2 (fst (check_admission_rate reg remote now)) = sr_v2 reg"
  "sr_active (fst (check_admission_rate reg remote now)) = sr_active reg"
  "sr_max_viewers (fst (check_admission_rate reg remote now)) = sr_max_viewers reg"
  "sr_next_session_id (fst (check_admission_rate reg remote now)) = sr_next_session_id reg"
  "sr_authorization_committed_revision (fst (check_admission_rate reg remote now)) =
     sr_authorization_committed_revision reg"
  by (auto simp: check_admission_rate_def Let_def split: prod.splits)

lemma plus_one_le: "(n :: u64) \<noteq> - 1 \<Longrightarrow> n \<le> n + 1 \<and> n + 1 \<noteq> 0 \<and> n < n + 1"
  using checked_add_1_Some [of n "n + 1"] checked_add_1_less [of n "n + 1"] by (auto simp: add_eq_0_iff2)

lemma media_rebuild [simp]:
  "\<lparr>mg_generation_id = mg_generation_id m, mg_broadcast_name = mg_broadcast_name m\<rparr> = m"
  by (cases m) simp

lemma generation_descriptor_valid:
  "media_generation_moq_broadcast_name g = Inr name \<Longrightarrow>
   media_generation_validate \<lparr>mg_generation_id = g, mg_broadcast_name = name\<rparr> = Inr ()"
  using generation_name_ok [of g name] by (simp add: media_generation_validate_def MAX_BROADCAST_NAME_LEN_def)

lemma claim_v2_replace_ok:
  assumes r: "claim_v2_replace st remote = (st', rr)" and base: "v2_base next maximum st"
    and fresh: "fa_next_transition_id (vs_focus st) \<noteq> - 1"
  shows "\<exists>transition. rr = Inr transition" "v2_base next maximum st'" "vs_media st' = vs_media st"
    "vs_revision st' = vs_revision st" "vs_live_control_leases st' = vs_live_control_leases st"
    "vs_viewers st' = AList.delete remote (vs_viewers st)" "roster st' = AList.delete remote (roster st)"
    "map_of (vs_viewers st) remote = None \<Longrightarrow> vs_focus st' = vs_focus st"
proof -
  have all: "(\<exists>transition. rr = Inr transition) \<and> v2_base next maximum st' \<and> vs_media st' = vs_media st \<and>
    vs_revision st' = vs_revision st \<and> vs_live_control_leases st' = vs_live_control_leases st \<and>
    vs_viewers st' = AList.delete remote (vs_viewers st)"
  proof (cases "map_of (vs_viewers st) remote")
    case None
    then have "AList.delete remote (vs_viewers st) = vs_viewers st"
      by (metis length_delete_absent map_of_eq_None_iff)
    with None r base show ?thesis by (auto simp: claim_v2_replace_def)
  next
    case (Some v)
    obtain fa m where inv: "begin_invalidation (vs_focus st) (viewer_candidate v) Replaced = (fa, Inr m)"
      using begin_invalidation_succeeds [OF fresh] by blast
    have fok: "focus_ok (members (roster st)) (capable_members (roster st)) (vs_focus st)"
      and fwf: "focus_wf (vs_focus st)" and rwf: "roster_wf next maximum (roster st)"
      using base by (simp_all add: v2_base_def)
    have ent: "(remote, core v) \<in> set (roster st)"
      using Some by (intro map_of_SomeD) (simp add: map_of_roster)
    have del: "members (AList.delete remote (roster st)) = members (roster st) - {(vv_presence_id v, as_session_id (vv_session v))}"
      "capable_members (AList.delete remote (roster st)) = capable_members (roster st) - {(vv_presence_id v, as_session_id (vv_session v))}"
      using members_delete [OF _ ent] rwf by (simp_all add: roster_wf_def)
    have st': "st' = (viewer_remove remote st)\<lparr>vs_focus := retire_candidate fa (viewer_candidate v)\<rparr>"
      and rr: "rr = Inr (fm_neutralization m)"
      using r Some inv by (simp_all add: claim_v2_replace_def Let_def)
    have "focus_ok (members (AList.delete remote (roster st))) (capable_members (AList.delete remote (roster st))) fa"
      using begin_invalidation_removes [OF inv fok] del by (simp add: viewer_candidate_def)
    then have "v2_base next maximum st'"
      using base begin_invalidation_wf [OF inv fwf] roster_wf_delete [OF rwf]
      by (simp add: st' v2_base_def roster_remove)
    with st' rr show ?thesis by simp
  qed
  then show "\<exists>transition. rr = Inr transition" "v2_base next maximum st'" "vs_media st' = vs_media st"
    "vs_revision st' = vs_revision st" "vs_live_control_leases st' = vs_live_control_leases st"
    "vs_viewers st' = AList.delete remote (vs_viewers st)" by auto
  then show "roster st' = AList.delete remote (roster st)"
    using roster_remove [of remote st] by (simp add: roster_def)
  show "map_of (vs_viewers st) remote = None \<Longrightarrow> vs_focus st' = vs_focus st"
    using r by (simp add: claim_v2_replace_def)
qed

lemma keys_roster: "fst ` set (roster st) = fst ` set (vs_viewers st)"
  by (metis fst_roster set_map)

lemma roster_wf_insert:
  assumes wf: "roster_wf next maximum r" and new: "remote \<notin> fst ` set r" and len: "length r < maximum"
    and entry: "entry_ok next' (remote, c)" and nx: "next < vc_session c" "next \<le> next'"
    and pid: "vc_presence c \<notin> (vc_presence \<circ> snd) ` set r"
  shows "roster_wf next' maximum (r @ [(remote, c)])"
proof -
  have "vc_session c \<notin> (vc_session \<circ> snd) ` set r"
    using wf nx(1) by (auto simp: roster_wf_def entry_ok_def)
  then show ?thesis
    using assms by (fastforce simp: roster_wf_def entry_ok_def)
qed

lemma AList_update_new: "k \<notin> fst ` set xs \<Longrightarrow> AList.update k v xs = xs @ [(k, v)]"
  by (induction xs) auto

lemma not_in_delete [simp]: "k \<notin> fst ` set (AList.delete k xs)"
  by (auto simp: AList.delete_eq)

lemma claim_v2_insert_ok:
  assumes r: "claim_v2_insert st remote pid s = (st', rr)" and base: "v2_base next maximum st"
    and max: "maximum \<le> MAX_VIEWERS" and new: "remote \<notin> fst ` set (vs_viewers st)"
    and len: "length (vs_viewers st) < maximum" and rev: "vs_revision st \<noteq> - 1"
    and leases: "vs_live_control_leases st + 1 < 2 ^ 64"
    and s: "as_remote s = remote" "as_media_active s" "as_mode s = V2Single" "as_session_id s \<le> next'" "next < as_session_id s"
      "as_session_id s \<noteq> 0"
      "media_generation_validate \<lparr>mg_generation_id = as_media_generation_id s, mg_broadcast_name = as_media_broadcast_name s\<rparr> = Inr ()"
    and pid: "presence_validate pid = Inr ()" "\<And>p v. (p, v) \<in> set (vs_viewers st) \<Longrightarrow> vv_presence_id v \<noteq> pid"
  shows "v2_inv next' maximum st'" "\<exists>snapshot. rr = Inr snapshot"
    "vs_live_control_leases st' = vs_live_control_leases st + 1"
    "\<exists>c. roster st' = roster st @ [(remote, c)] \<and> vc_session c = as_session_id s \<and>
       vc_presence c = pid \<and> vc_capable c = input_capable_grants (as_grants s)"
    "vs_focus st' = vs_focus st" "vs_revision st' = vs_revision st + 1" "vs_media st' = vs_media st"
proof -
  define v where "v = \<lparr>vv_session = s, vv_presence_id = pid, vv_authorization_neutralizing = False,
      vv_snapshots = None, vv_rates = viewer_rate_limits_default\<rparr>"
  let ?st1 = "st\<lparr>vs_viewers := AList.update remote v (vs_viewers st),
                 vs_live_control_leases := vs_live_control_leases st + 1\<rparr>"
  obtain st2 ra where adv: "advance_and_publish ?st1 = (st2, ra)" by fastforce
  have ro: "roster ?st1 = roster st @ [(remote, core v)]"
    using new by (simp add: roster_def AList_update_new)
  have "entry_ok next' (remote, core v)"
    using s pid(1) by (simp add: entry_ok_def v_def)
  moreover have "vc_presence (core v) \<notin> (vc_presence \<circ> snd) ` set (roster st)"
    using pid(2) by (force simp: roster_def v_def)
  moreover have "next \<le> next'"
    using s(4,5) by simp
  ultimately have rwf: "roster_wf next' maximum (roster ?st1)"
    unfolding ro using base len s(5) keys_roster [of st] new
    by (intro roster_wf_insert) (simp_all add: v2_base_def v_def)
  have "members (roster st) \<subseteq> members (roster ?st1)" "capable_members (roster st) \<subseteq> capable_members (roster ?st1)"
    unfolding ro by (auto simp: members_def capable_members_def)
  with base rwf have base1: "v2_base next' maximum ?st1"
    by (auto simp: v2_base_def intro: focus_ok_mono)
  note a = advance_publish_inv [OF base1 max _ adv]
  have ra: "ra = Inr ()" and inv: "v2_inv next' maximum st2" and rst: "roster st2 = roster ?st1"
    and le: "vs_live_control_leases st2 = vs_live_control_leases st + 1"
    and rest: "vs_focus st2 = vs_focus st" "vs_revision st2 = vs_revision st + 1" "vs_media st2 = vs_media st"
    using a rev by simp_all
  have res: "st' = st2" "rr = v2_snapshot_for st2 remote"
    using r adv leases ra by (auto simp: claim_v2_insert_def Let_def v_def)
  show "v2_inv next' maximum st'" using inv res by simp
  show "vs_live_control_leases st' = vs_live_control_leases st + 1" using le res by simp
  show "\<exists>c. roster st' = roster st @ [(remote, c)] \<and> vc_session c = as_session_id s \<and>
       vc_presence c = pid \<and> vc_capable c = input_capable_grants (as_grants s)"
    using rst ro res by (intro exI [of _ "core v"]) (simp add: v_def)
  show "vs_focus st' = vs_focus st" "vs_revision st' = vs_revision st + 1" "vs_media st' = vs_media st"
    using rest res by simp_all
  have "remote \<in> fst ` set (roster st2)"
    unfolding rst ro by simp
  then have "map_of (roster st2) remote \<noteq> None"
    by (simp add: map_of_eq_None_iff)
  then obtain w where "map_of (vs_viewers st2) remote = Some w"
    by (auto simp: map_of_roster)
  then show "\<exists>snapshot. rr = Inr snapshot"
    using v2_snapshot_valid [of next' maximum st2 remote w] inv max
    by (simp add: res v2_snapshot_for_def v2_inv_def flip: snapshot_validate_ok [where u = "()"])
qed


text \<open>The conditions of an admission, in the order in which they are checked.\<close>

definition admissible :: "session_registry \<Rightarrow> endpoint_id \<Rightarrow> authorized_viewer \<Rightarrow> instant \<Rightarrow> bool" where
  "admissible reg remote av now \<longleftrightarrow>
     grants_validate (av_grants av) = Inr () \<and> grants_contains (av_grants av) GRANT_VIEW \<and>
     av_authorization_revision av \<noteq> 0 \<and> av_committed_revision av \<noteq> 0 \<and>
     snd (check_admission_rate reg remote now) = Inr () \<and>
     sr_authorization_committed_revision reg \<le> av_committed_revision av \<and>
     sr_active reg = None \<and>
     (map_of (vs_viewers (sr_v2 reg)) remote = None \<longrightarrow> length (vs_viewers (sr_v2 reg)) < sr_max_viewers reg) \<and>
     (\<exists>pid. presence_new (av_handle av) = Inr pid \<and>
        list_all (\<lambda>(peer, viewer). peer = remote \<or> vv_presence_id viewer \<noteq> pid) (vs_viewers (sr_v2 reg)))"

text \<open>
  An admission either fails before it touches the roster, or replaces at most the peer's own entry
  and adds one viewer and one lease, whose session id is new.
\<close>

lemma claim_v2_authorized_cases:
  assumes r: "claim_v2_authorized reg remote nonce av now clock = (reg', r)"
    and wf: "registry_wf reg" and fresh: "not_exhausted reg"
  shows "reg_keeps reg reg' True \<and> sr_active reg' = sr_active reg \<and> sr_next_session_id reg \<le> sr_next_session_id reg' \<and>
    sr_admission_rates reg' \<in> {sr_admission_rates reg, sr_admission_rates (fst (check_admission_rate reg remote now))} \<and>
    (case r of
       Inl e \<Rightarrow> sr_v2 reg' = sr_v2 reg \<and> \<not> admissible reg remote av now
     | Inr lease \<Rightarrow> admissible reg remote av now \<and> sr_next_session_id reg' = sr_next_session_id reg + 1 \<and>
         sr_authorization_committed_revision reg' = av_committed_revision av \<and> sr_active reg = None \<and> vl_remote lease = remote \<and> vl_session_id lease = sr_next_session_id reg + 1 \<and>
         vs_revision (sr_v2 reg') = vs_revision (sr_v2 reg) + 1 \<and> vs_media (sr_v2 reg') = vs_media (sr_v2 reg) \<and>
         (map_of (vs_viewers (sr_v2 reg)) remote = None \<longrightarrow> vs_focus (sr_v2 reg') = vs_focus (sr_v2 reg)) \<and>
         sr_next_session_id reg < vl_session_id lease \<and> vl_session_id lease \<le> sr_next_session_id reg' \<and>
         vs_live_control_leases (sr_v2 reg') = vs_live_control_leases (sr_v2 reg) + 1 \<and>
         (\<exists>c. roster (sr_v2 reg') = AList.delete remote (roster (sr_v2 reg)) @ [(remote, c)] \<and>
              vc_session c = vl_session_id lease \<and> presence_new (av_handle av) = Inr (vc_presence c) \<and>
              vc_capable c = input_capable_grants (av_grants av)))"
    (is "?P reg' r")
proof -
  note w = registry_wf_v2 [OF wf]
  let ?n = "sr_next_session_id reg" and ?m = "sr_max_viewers reg" and ?st = "sr_v2 reg"
  have base: "v2_base ?n ?m ?st" using w(1) by (simp add: v2_wf_base)
  have n1: "?n \<le> ?n + 1" "?n + 1 \<noteq> 0" "?n < ?n + 1"
    using plus_one_le [of ?n] fresh by (auto simp: not_exhausted_def)
  obtain reg1 ra where rate: "check_admission_rate reg remote now = (reg1, ra)" by fastforce
  have f: "sr_v2 reg1 = ?st" "sr_active reg1 = sr_active reg" "sr_max_viewers reg1 = ?m" "sr_next_session_id reg1 = ?n"
    using rate_limits_fields [of reg remote now] rate by simp_all
  have f2: "sr_admission_rates reg1 = sr_admission_rates (fst (check_admission_rate reg remote now))"
    "sr_authorization_committed_revision reg1 = sr_authorization_committed_revision reg"
    using rate_limits_fields(5) [of reg remote now] rate by simp_all
  have fail: "?P reg'' (Inl e)" if "\<not> admissible reg remote av now"
    "sr_admission_rates reg'' \<in> {sr_admission_rates reg, sr_admission_rates reg1}" "sr_v2 reg'' = ?st" "sr_active reg'' = sr_active reg" "sr_max_viewers reg'' = ?m"
    "sr_next_session_id reg'' = ?n \<or> sr_next_session_id reg'' = ?n + 1" for reg'' e
    using that base n1 w(1) unfolding f2(1)
    by (auto simp: reg_keeps_def keeps_def v2_wf_base dest: v2_base_next)
  show ?thesis
  proof (cases "admissible reg remote av now")
    case False
    have "\<exists>e. r = Inl e \<and> sr_v2 reg' = ?st \<and> sr_active reg' = sr_active reg \<and> sr_max_viewers reg' = ?m \<and>
      sr_admission_rates reg' \<in> {sr_admission_rates reg, sr_admission_rates reg1} \<and>
      (sr_next_session_id reg' = ?n \<or> sr_next_session_id reg' = ?n + 1)"
      using r rate f f2 False
      by (cases ra) (auto simp: claim_v2_authorized_def admissible_def Let_def with_v2_eq not_le max_def
          split: sum.splits if_splits)
    then obtain e where "r = Inl e" and "sr_v2 reg' = ?st" "sr_active reg' = sr_active reg"
      "sr_max_viewers reg' = ?m" "sr_admission_rates reg' \<in> {sr_admission_rates reg, sr_admission_rates reg1}"
      "sr_next_session_id reg' = ?n \<or> sr_next_session_id reg' = ?n + 1" by blast
    with fail [OF False, of reg' e] show ?thesis by simp
  next
    case True
    then obtain pid where ra: "ra = Inr ()" and act: "sr_active reg = None"
      and cap: "map_of (vs_viewers ?st) remote = None \<longrightarrow> length (vs_viewers ?st) < ?m"
      and pid: "presence_new (av_handle av) = Inr pid"
      and uniq: "list_all (\<lambda>(peer, viewer). peer = remote \<or> vv_presence_id viewer \<noteq> pid) (vs_viewers ?st)"
      using rate by (auto simp: admissible_def)
    obtain st1 rt where rep: "claim_v2_replace ?st remote = (st1, rt)" by fastforce
    note c = claim_v2_replace_ok [OF rep base]
    obtain transition where rt: "rt = Inr transition" and base1: "v2_base ?n ?m st1"
      and st1: "vs_media st1 = vs_media ?st" "vs_revision st1 = vs_revision ?st"
        "vs_live_control_leases st1 = vs_live_control_leases ?st"
        "vs_viewers st1 = AList.delete remote (vs_viewers ?st)" "roster st1 = AList.delete remote (roster ?st)"
      and foc: "map_of (vs_viewers ?st) remote = None \<Longrightarrow> vs_focus st1 = vs_focus ?st"
      using c fresh by (auto simp: not_exhausted_def)
    obtain media where media: "claim_v2_media st1 (?n + 1) = Inr media"
      using n1(2) by (auto simp: claim_v2_media_def media_generation_moq_broadcast_name_def)
    have media_ok: "media_generation_validate \<lparr>mg_generation_id = mg_generation_id media, mg_broadcast_name = mg_broadcast_name media\<rparr> = Inr ()"
      using media base1 generation_descriptor_valid
      by (auto simp: claim_v2_media_def v2_base_def res_simps split: option.splits)
    let ?s = "v2_session_new remote (?n + 1) nonce clock media av"
    obtain st2 ri where ins: "claim_v2_insert st1 remote pid ?s = (st2, ri)" by fastforce
    have len: "length (vs_viewers st1) < ?m"
    proof (cases "map_of (vs_viewers ?st) remote")
      case None
      then show ?thesis
        using cap unfolding st1(4) by (metis length_delete_absent map_of_eq_None_iff)
    next
      case (Some v)
      then have "Suc (length (vs_viewers st1)) = length (vs_viewers ?st)"
        unfolding st1(4) using w(1)
        by (intro length_delete_present) (auto simp: v2_wf_def dest: distinct_viewers map_of_in_keys)
      then show ?thesis
        using w(1) by (simp add: v2_wf_def roster_wf_def)
    qed
    have pidok: "presence_validate pid = Inr ()"
      using presence_new_valid [OF pid] by simp
    have absent: "remote \<notin> fst ` set (vs_viewers st1)"
      unfolding st1(4) by simp
    have others: "\<And>p v. (p, v) \<in> set (vs_viewers st1) \<Longrightarrow> vv_presence_id v \<noteq> pid"
      using uniq unfolding st1(4) by (auto simp: AList.delete_eq list_all_iff)
    have i: "v2_inv (?n + 1) ?m st2 \<and> (\<exists>snapshot. ri = Inr snapshot) \<and>
        vs_live_control_leases st2 = vs_live_control_leases st1 + 1 \<and>
        (\<exists>c. roster st2 = roster st1 @ [(remote, c)] \<and> vc_session c = as_session_id ?s \<and>
           vc_presence c = pid \<and> vc_capable c = input_capable_grants (as_grants ?s)) \<and>
        vs_focus st2 = vs_focus st1 \<and> vs_revision st2 = vs_revision st1 + 1 \<and> vs_media st2 = vs_media st1"
      using claim_v2_insert_ok [OF ins base1 w(2) absent len, of "?n + 1"] st1(1-3) fresh n1 media_ok pidok others
      by (simp add: v2_session_new_def not_exhausted_def)
    then obtain snapshot where ri: "ri = Inr snapshot" by auto
    have reg': "sr_v2 reg' = st2" "sr_active reg' = sr_active reg" "sr_max_viewers reg' = ?m"
      "sr_next_session_id reg' = ?n + 1"
      and lease: "\<exists>lease. r = Inr lease \<and> vl_remote lease = remote \<and> vl_session_id lease = ?n + 1"
      and rates: "sr_admission_rates reg' = sr_admission_rates reg1"
        "sr_authorization_committed_revision reg' = av_committed_revision av"
      using r True rate ra f f2 act pid uniq rep rt media ins ri cap
      by (auto simp: claim_v2_authorized_def admissible_def Let_def with_v2_eq max_def split: sum.splits if_splits)
    show ?thesis
      using reg' lease rates f2 True i st1 n1 act pid foc
      by (auto simp: reg_keeps_def keeps_inv v2_session_new_def)
  qed
qed


section \<open>Changes of one viewer\<close>

text \<open>A change \<open>g\<close> of one core that keeps the identity of the viewer.\<close>

definition keeps_identity :: "(viewer_core \<Rightarrow> viewer_core) \<Rightarrow> bool" where
  "keeps_identity g \<longleftrightarrow> (\<forall>c. vc_presence (g c) = vc_presence c \<and> vc_session (g c) = vc_session c \<and>
     vc_remote (g c) = vc_remote c \<and> vc_active (g c) = vc_active c \<and> vc_mode (g c) = vc_mode c)"

lemma map_core_entry_aux:
  "(\<And>v. map_of xs k = Some v \<Longrightarrow> core (f v) = g (core v)) \<Longrightarrow>
   map (\<lambda>(p, v). (p, core v)) (AList.map_entry k f xs) = AList.map_entry k g (map (\<lambda>(p, v). (p, core v)) xs)"
  by (induction xs) auto

lemma roster_map_entry:
  "(\<And>v. map_of (vs_viewers st) k = Some v \<Longrightarrow> core (f v) = g (core v)) \<Longrightarrow>
   roster (viewer_update k f st) = AList.map_entry k g (roster st)"
  by (simp add: roster_def viewer_update_def map_core_entry_aux)

lemma keeps_identity_simps:
  "keeps_identity g \<Longrightarrow> vc_presence (g c) = vc_presence c" "keeps_identity g \<Longrightarrow> vc_session (g c) = vc_session c"
  "keeps_identity g \<Longrightarrow> vc_remote (g c) = vc_remote c" "keeps_identity g \<Longrightarrow> vc_active (g c) = vc_active c"
  "keeps_identity g \<Longrightarrow> vc_mode (g c) = vc_mode c"
  by (simp_all add: keeps_identity_def)

lemma map_entry_map:
  "distinct (map fst r) \<Longrightarrow> AList.map_entry k g r = map (\<lambda>(p, c). (p, if p = k then g c else c)) r"
proof (induction r)
  case (Cons e r)
  then have "fst e \<notin> fst ` set r" by simp
  then have "map (\<lambda>(p, c). (p, if p = fst e then g c else c)) r = r"
    by (intro map_idI) (auto simp: image_iff split: prod.splits)
  with Cons show ?case by (cases e) auto
qed simp

lemma map_entry_set:
  assumes "distinct (map fst r)"
  shows "e' \<in> set (AList.map_entry k g r) \<longleftrightarrow> (\<exists>p c. (p, c) \<in> set r \<and> e' = (p, if p = k then g c else c))"
  unfolding map_entry_map [OF assms] set_map image_iff Bex_def split_paired_Ex prod.case ..

lemma roster_wf_map_entry:
  assumes wf: "roster_wf next maximum r" and g: "keeps_identity g"
    and media: "\<And>c. media_generation_validate (vc_media c) = Inr () \<Longrightarrow> media_generation_validate (vc_media (g c)) = Inr ()"
  shows "roster_wf next maximum (AList.map_entry k g r)"
proof -
  have d: "distinct (map fst r)" using wf by (simp add: roster_wf_def)
  have "map fst (AList.map_entry k g r) = map fst r"
    "map (vc_presence \<circ> snd) (AList.map_entry k g r) = map (vc_presence \<circ> snd) r"
    "map (vc_session \<circ> snd) (AList.map_entry k g r) = map (vc_session \<circ> snd) r"
    unfolding map_entry_map [OF d] by (auto simp: keeps_identity_simps [OF g])
  moreover have "entry_ok next e" if "e \<in> set (AList.map_entry k g r)" for e
  proof -
    from that obtain p c where "(p, c) \<in> set r" "e = (p, if p = k then g c else c)"
      unfolding map_entry_set [OF d] by auto
    then show ?thesis
      using wf media [of c] by (auto simp: roster_wf_def entry_ok_def keeps_identity_simps [OF g])
  qed
  moreover have "length (AList.map_entry k g r) = length r"
    unfolding map_entry_map [OF d] by simp
  ultimately show ?thesis
    using wf unfolding roster_wf_def by (simp only: Ball_def) blast
qed

lemma members_iff: "(i, s) \<in> members r \<longleftrightarrow> (\<exists>p c. (p, c) \<in> set r \<and> vc_presence c = i \<and> vc_session c = s)"
  unfolding members_def by force

lemma capable_members_iff:
  "(i, s) \<in> capable_members r \<longleftrightarrow> (\<exists>p c. (p, c) \<in> set r \<and> vc_capable c \<and> vc_presence c = i \<and> vc_session c = s)"
  unfolding capable_members_def by force

lemma members_map_entry:
  assumes d: "distinct (map fst r)" and g: "keeps_identity g"
  shows "members (AList.map_entry k g r) = members r"
proof -
  have "members (AList.map_entry k g r) = (\<lambda>(p, c). (vc_presence c, vc_session c)) ` set r"
    unfolding members_def map_entry_map [OF d] set_map image_image
    by (intro image_cong) (auto simp: keeps_identity_simps [OF g])
  then show ?thesis by (simp add: members_def)
qed

lemma capable_map_entry:
  assumes d: "distinct (map fst r)" and g: "keeps_identity g"
    and c: "(i, s) \<in> capable_members r"
    and k: "\<And>c. (k, c) \<in> set r \<Longrightarrow> vc_capable c \<Longrightarrow> vc_presence c = i \<Longrightarrow> vc_session c = s \<Longrightarrow> vc_capable (g c)"
  shows "(i, s) \<in> capable_members (AList.map_entry k g r)"
proof -
  from c obtain p c' where e: "(p, c') \<in> set r" "vc_capable c'" "vc_presence c' = i" "vc_session c' = s"
    unfolding capable_members_iff by auto
  let ?c = "if p = k then g c' else c'"
  have "(p, ?c) \<in> set (AList.map_entry k g r)"
    unfolding map_entry_set [OF d] using e by blast
  moreover have "vc_capable ?c \<and> vc_presence ?c = i \<and> vc_session ?c = s"
    using e k by (auto simp: keeps_identity_simps [OF g])
  ultimately show ?thesis
    unfolding capable_members_iff by blast
qed


section \<open>Generation binding and authorization changes\<close>

lemma bind_v2_generation_keeps:
  assumes r: "bind_v2_generation reg remote sid gen clock ec = (reg', r)"
    and wf: "registry_wf reg"
  shows "reg_keeps reg reg' (is_ok r \<or> vs_media (sr_v2 reg) \<noteq> None \<or> gen = 0)"
    (is "reg_keeps reg reg' ?q")
proof -
  note w = registry_wf_v2 [OF wf]
  let ?st = "sr_v2 reg" and ?n = "sr_next_session_id reg" and ?m = "sr_max_viewers reg"
  show ?thesis
  proof (cases "media_generation_moq_broadcast_name gen")
    case (Inl e)
    then show ?thesis using r wf by (simp add: bind_v2_generation_def reg_keeps_refl)
  next
    case (Inr name)
    let ?d = "\<lparr>mg_generation_id = gen, mg_broadcast_name = name\<rparr>"
    have d: "media_generation_validate ?d = Inr ()" "gen \<noteq> 0"
      using Inr generation_descriptor_valid generation_name_ok(1) by auto
    define st where "st = (case vs_media ?st of Some c \<Rightarrow> ?st | None \<Rightarrow> ?st\<lparr>vs_media := Some ?d\<rparr>)"
    have st: "roster st = roster ?st" "vs_focus st = vs_focus ?st" "vs_revision st = vs_revision ?st"
      "vs_viewers st = vs_viewers ?st" and same: "vs_media ?st \<noteq> None \<Longrightarrow> st = ?st"
      by (auto simp: st_def split: option.splits)
    have wst: "v2_wf ?n ?m st"
      using w(1) d(1) st by (auto simp: v2_wf_def st_def split: option.splits)
    show ?thesis
    proof (cases "vs_media ?st = None \<or> vs_media ?st = Some ?d")
      case False
      then have "reg' = reg"
        using r Inr by (auto simp: bind_v2_generation_def Let_def split: option.splits)
      then show ?thesis using wf by (simp add: reg_keeps_refl)
    next
      case True
      then have eq: "with_v2 reg
            (case active_viewer st remote sid of
               None \<Rightarrow> (st, Inl (Host ''generation binding does not match the active v2 viewer''))
             | Some viewer \<Rightarrow>
                 bind_op
                   (publish_v2_snapshots
                     (viewer_update remote (\<lambda>v. v\<lparr>vv_session := (vv_session v)
                        \<lparr>as_session_clock := clock, as_media_generation_id := gen,
                         as_media_broadcast_name := name, as_encoder_control := ec\<rparr>\<rparr>) st))
                   (\<lambda>st' _. (st', v2_snapshot_for st' remote))) = (reg', r)"
        using r Inr d(2) by (auto simp: bind_v2_generation_def Let_def st_def split: option.splits)
      show ?thesis
      proof (cases "active_viewer st remote sid")
        case None
        then have reg': "reg' = reg\<lparr>sr_v2 := st\<rparr>" and fail: "\<not> is_ok r"
          using eq by (auto simp: with_v2_eq)
        have "keeps ?n ?m ?st st ?q"
          using wst same d(2) fail by (auto simp: keeps_def)
        then show ?thesis using reg' wf by (auto intro!: reg_keeps_v2)
      next
        case (Some v)
        let ?f = "\<lambda>v. v\<lparr>vv_session := (vv_session v)
                        \<lparr>as_session_clock := clock, as_media_generation_id := gen,
                         as_media_broadcast_name := name, as_encoder_control := ec\<rparr>\<rparr>"
        let ?g = "\<lambda>c. c\<lparr>vc_media := ?d\<rparr>"
        have g: "keeps_identity ?g" by (simp add: keeps_identity_def)
        have ro: "roster (viewer_update remote ?f st) = AList.map_entry remote ?g (roster st)"
          by (rule roster_map_entry) (simp add: core_def)
        have dist: "distinct (map fst (roster st))"
          using wst by (simp add: v2_wf_def roster_wf_def)
        have "roster_wf ?n ?m (AList.map_entry remote ?g (roster st))"
          by (rule roster_wf_map_entry [OF _ g]) (use wst d(1) in \<open>auto simp: v2_wf_def\<close>)
        moreover have "members (AList.map_entry remote ?g (roster st)) = members (roster st)"
          by (rule members_map_entry [OF dist g])
        moreover have "capable_members (roster st) \<subseteq> capable_members (AList.map_entry remote ?g (roster st))"
          by (auto intro: capable_map_entry [OF dist g])
        ultimately have wst1: "v2_wf ?n ?m (viewer_update remote ?f st)"
          using wst by (auto simp: v2_wf_def ro intro: focus_ok_mono)
        obtain st2 rp where p: "publish_v2_snapshots (viewer_update remote ?f st) = (st2, rp)" by fastforce
        note pub = publish_inv [OF wst1 w(2) p]
        have "reg' = reg\<lparr>sr_v2 := st2\<rparr>"
          using eq Some p pub(1) by (simp add: with_v2_eq)
        then show ?thesis
          using pub(2) wf by (auto intro!: reg_keeps_v2 keeps_inv)
      qed
    qed
  qed
qed

text \<open>
  The mutation comes from the store that also granted the session its permissions, so that
  \<open>previous_grants\<close> is what the session holds.
\<close>

definition mutation_consistent :: "session_registry \<Rightarrow> authorization_mutation \<Rightarrow> bool" where
  "mutation_consistent reg mutation \<longleftrightarrow>
     (case authorization_target (sr_v2 reg) mutation of
        None \<Rightarrow> True
      | Some v \<Rightarrow> am_previous_grants mutation = as_grants (vv_session v))"

lemma input_kept:
  "\<not> input_reduced m \<Longrightarrow> am_current_grants m = Some g \<Longrightarrow> input_capable_grants (am_previous_grants m) \<Longrightarrow>
   input_capable_grants g"
  by (auto simp: input_reduced_def input_capable_grants_def)

lemma authorization_roster_base:
  assumes wf: "registry_wf reg" and st: "st = sr_v2 reg" and fresh: "not_exhausted reg"
    and target: "authorization_target st m = Some v"
    and prev: "am_previous_grants m = as_grants (vv_session v)"
    and inv: "(if am_current_grants m = None \<or> input_reduced m
               then begin_invalidation (vs_focus st) (viewer_candidate v) Revoked
               else (vs_focus st, Inr focus_mutation_default)) = (fa, Inr fm)"
  shows "v2_base (sr_next_session_id reg) (sr_max_viewers reg) (authorization_roster (st\<lparr>vs_focus := fa\<rparr>) m v fm)"
proof -
  note w = registry_wf_v2 [OF wf, folded st]
  let ?n = "sr_next_session_id reg" and ?m = "sr_max_viewers reg"
  let ?P = "members (roster st)" and ?C = "capable_members (roster st)"
  let ?c = "(vv_presence_id v, as_session_id (vv_session v))"
  have vm: "map_of (vs_viewers st) (am_peer m) = Some v"
    using target by (auto simp: authorization_target_def split: option.splits if_splits)
  have ent: "(am_peer m, core v) \<in> set (roster st)"
    using vm by (intro map_of_SomeD) (simp add: map_of_roster)
  have rwf: "roster_wf ?n ?m (roster st)" and dist: "distinct (map fst (roster st))"
    and dp: "distinct (map (vc_presence \<circ> snd) (roster st))"
    using w(1) by (simp_all add: v2_wf_def roster_wf_def)
  have fwf: "focus_wf fa" and fok: "focus_ok ?P ?C fa"
    using inv w(3,4) by (auto split: if_splits intro: begin_invalidation_wf begin_invalidation_ok)
  have removed: "focus_ok (?P - {?c}) (?C - {?c}) fa" if "am_current_grants m = None \<or> input_reduced m"
    using inv that begin_invalidation_removes [of "vs_focus st" "viewer_candidate v" Revoked fa fm ?P ?C] w(4)
    by (simp add: viewer_candidate_def)
  show ?thesis
  proof (cases "am_current_grants m")
    case None
    then show ?thesis
      using fwf removed roster_wf_delete [OF rwf] members_delete [OF dp ent dist] w(1)
      by (simp add: authorization_roster_def v2_base_def roster_remove v2_wf_def)
  next
    case (Some grants)
    let ?st = "authorization_roster (st\<lparr>vs_focus := fa\<rparr>) m v fm"
    let ?g = "\<lambda>c. c\<lparr>vc_capable := input_capable_grants grants\<rparr>"
    have g: "keeps_identity ?g" by (simp add: keeps_identity_def)
    have ro: "roster ?st = AList.map_entry (am_peer m) ?g (roster st)"
      unfolding authorization_roster_def Some option.case
      by (subst roster_map_entry [where g = ?g]) (simp_all add: core_def)
    have mem: "members (roster ?st) = ?P"
      unfolding ro by (rule members_map_entry [OF dist g])
    have rwf': "roster_wf ?n ?m (roster ?st)"
      unfolding ro by (rule roster_wf_map_entry [OF rwf g]) simp
    have uniq: "c = core v" if "(am_peer m, c) \<in> set (roster st)" for c
      using that ent dist by (metis eq_key_imp_eq_value)
    have fok': "focus_ok ?P (capable_members (roster ?st)) fa"
    proof (cases "input_reduced m")
      case True
      have "?C - {?c} \<subseteq> capable_members (roster ?st)"
      proof (rule subrelI)
        fix i s
        assume a: "(i, s) \<in> ?C - {?c}"
        then have C: "(i, s) \<in> ?C" by simp
        show "(i, s) \<in> capable_members (roster ?st)"
          unfolding ro by (rule capable_map_entry [OF dist g C]) (use a in \<open>auto dest!: uniq\<close>)
      qed
      with removed True show ?thesis by (meson Diff_subset focus_ok_mono)
    next
      case False
      have "?C \<subseteq> capable_members (roster ?st)"
        unfolding ro using input_kept [OF False Some] prev by (auto intro!: capable_map_entry [OF dist g] dest!: uniq)
      with fok show ?thesis by (meson focus_ok_mono subset_refl)
    qed
    have "vs_focus ?st = fa" "vs_media ?st = vs_media st"
      by (simp_all add: authorization_roster_def Some)
    with rwf' fwf fok' mem w(1) show ?thesis
      by (simp add: v2_base_def v2_wf_def)
  qed
qed

lemma apply_authorization_mutation_keeps:
  assumes r: "apply_authorization_mutation reg m = (reg', r)"
    and wf: "registry_wf reg" and fresh: "not_exhausted reg" and prev: "mutation_consistent reg m"
  shows "reg_keeps reg reg' True"
proof -
  note w = registry_wf_v2 [OF wf]
  let ?st = "sr_v2 reg"
  show ?thesis
  proof (cases "sr_v2 reg' = ?st \<and> sr_max_viewers reg' = sr_max_viewers reg \<and> sr_next_session_id reg' = sr_next_session_id reg")
    case True
    then show ?thesis
      using wf w(1) by (simp add: reg_keeps_def keeps_refl)
  next
    case False
    then obtain v where target: "authorization_target ?st m = Some v"
      and newer: "as_authorization_revision (vv_session v) < am_authorization_revision m"
      using r by (auto simp: apply_authorization_mutation_def Let_def split: if_splits option.splits)
    have "\<exists>fa fm. (if am_current_grants m = None \<or> input_reduced m
            then begin_invalidation (vs_focus ?st) (viewer_candidate v) Revoked
            else (vs_focus ?st, Inr focus_mutation_default)) = (fa, Inr fm)"
      using begin_invalidation_succeeds [of "vs_focus ?st" "viewer_candidate v" Revoked] fresh
      by (auto simp: not_exhausted_def)
    then obtain fa fm where inv: "(if am_current_grants m = None \<or> input_reduced m
            then begin_invalidation (vs_focus ?st) (viewer_candidate v) Revoked
            else (vs_focus ?st, Inr focus_mutation_default)) = (fa, Inr fm)" by blast
    have base: "v2_base (sr_next_session_id reg) (sr_max_viewers reg) (authorization_roster (?st\<lparr>vs_focus := fa\<rparr>) m v fm)"
      by (rule authorization_roster_base [OF wf HOL.refl fresh target _ inv])
        (use prev target in \<open>simp add: mutation_consistent_def\<close>)
    obtain st2 rp where p: "advance_and_publish (authorization_roster (?st\<lparr>vs_focus := fa\<rparr>) m v fm) = (st2, rp)" by fastforce
    have rev: "vs_revision (authorization_roster (?st\<lparr>vs_focus := fa\<rparr>) m v fm) = vs_revision ?st"
      by (simp add: authorization_roster_def split: option.splits)
    note pub = advance_publish_inv [OF base w(2) _ p]
    have "sr_v2 reg' = st2" "sr_max_viewers reg' = sr_max_viewers reg" "sr_next_session_id reg' = sr_next_session_id reg"
      using r False target newer inv p
      by (auto simp: apply_authorization_mutation_def Let_def with_v2_eq bind_op_def split: if_splits sum.splits)
    then show ?thesis
      using pub(2) rev fresh wf by (auto intro!: reg_keeps_v2 keeps_inv simp: not_exhausted_def)
  qed
qed

end
