(* ===== verification/Session_Runs.thy ===== *)
theory Session_Runs
  imports Session_Preservation
begin

text \<open>
  The remaining operations of the session registry, and its runs: sequences of operations in which
  every lease is released at most once (\<open>Drop\<close>) and the callers keep to what they know. Along every
  run the roster invariant holds, every v2 viewer is backed by a lease that is still out, and a
  legacy session excludes v2 viewers.
\<close>

section \<open>Operations that leave the v2 state alone\<close>

lemma reg_keeps_same_v2:
  "registry_wf reg \<Longrightarrow> sr_v2 reg' = sr_v2 reg \<Longrightarrow> sr_max_viewers reg' = sr_max_viewers reg \<Longrightarrow>
   sr_next_session_id reg \<le> sr_next_session_id reg' \<Longrightarrow> reg_keeps reg reg' q"
  by (auto simp: reg_keeps_def keeps_def registry_wf_def v2_wf_base dest: v2_base_next)

lemma reg_keeps_legacy [simp]: "registry_wf reg \<Longrightarrow> reg_keeps reg (reg\<lparr>sr_active := a\<rparr>) q"
  by (simp add: reg_keeps_same_v2)

lemma claim_fields:
  assumes "claim reg remote nonce grants clock = (reg', r)"
  shows "sr_v2 reg' = sr_v2 reg" "sr_max_viewers reg' = sr_max_viewers reg"
    "sr_next_session_id reg \<noteq> - 1 \<Longrightarrow> sr_next_session_id reg \<le> sr_next_session_id reg'"
    "is_ok r \<Longrightarrow> vs_live_control_leases (sr_v2 reg) = 0"
    "\<not> is_ok r \<Longrightarrow> sr_active reg' = sr_active reg"
  using assms plus_one_le [of "sr_next_session_id reg"]
  by (auto simp: claim_def Let_def split: if_splits sum.splits)

lemma claim_input_fields:
  assumes "claim_input reg remote nonce = (reg', r)"
  shows "sr_v2 reg' = sr_v2 reg" "sr_max_viewers reg' = sr_max_viewers reg"
    "sr_next_session_id reg' = sr_next_session_id reg" "sr_active reg = None \<Longrightarrow> sr_active reg' = None"
  using assms by (auto simp: claim_input_def legacy_session_def split: if_splits option.splits)

lemma claim_audio_fields:
  assumes "claim_audio reg remote nonce = (reg', r)"
  shows "sr_v2 reg' = sr_v2 reg" "sr_max_viewers reg' = sr_max_viewers reg"
    "sr_next_session_id reg' = sr_next_session_id reg" "sr_active reg = None \<Longrightarrow> sr_active reg' = None"
  using assms by (auto simp: claim_audio_def legacy_session_def split: if_splits option.splits)

lemma install_encoder_control_fields:
  assumes "install_encoder_control reg remote sid ec = (reg', r)"
  shows "sr_v2 reg' = sr_v2 reg" "sr_max_viewers reg' = sr_max_viewers reg"
    "sr_next_session_id reg' = sr_next_session_id reg" "sr_active reg = None \<Longrightarrow> sr_active reg' = None"
  using assms by (auto simp: install_encoder_control_def legacy_session_def split: if_splits option.splits)

lemma expect_moq_fields:
  assumes "expect_moq reg remote sid name b = (reg', r)"
  shows "sr_v2 reg' = sr_v2 reg" "sr_max_viewers reg' = sr_max_viewers reg"
    "sr_next_session_id reg' = sr_next_session_id reg" "sr_active reg' = sr_active reg"
  using assms by (auto simp: expect_moq_def legacy_session_def split: if_splits option.splits)

lemma expect_moq_v2_fields:
  assumes "expect_moq_v2 reg remote sid name b cap host = (reg', r)"
  shows "sr_v2 reg' = sr_v2 reg" "sr_max_viewers reg' = sr_max_viewers reg"
    "sr_next_session_id reg' = sr_next_session_id reg" "sr_active reg' = sr_active reg"
  using assms by (auto simp: expect_moq_v2_def Let_def split: if_splits option.splits)

lemma release_audio_fields:
  "sr_v2 (release_audio reg remote sid) = sr_v2 reg"
  "sr_max_viewers (release_audio reg remote sid) = sr_max_viewers reg"
  "sr_next_session_id (release_audio reg remote sid) = sr_next_session_id reg"
  "sr_active reg = None \<Longrightarrow> sr_active (release_audio reg remote sid) = None"
  by (auto simp: release_audio_def legacy_session_def split: option.splits)

section \<open>Operations on one viewer's own fields\<close>

lemma mark_activated_view [simp]: "focus_view (mark_activated fa c g) = focus_view fa"
  by (auto simp: mark_activated_def focus_view_def split: option.splits)

lemma claim_input_v2_keeps:
  assumes r: "claim_input_v2 reg remote nonce sid slot gen = (reg', r)" and wf: "registry_wf reg"
  shows "reg_keeps reg reg' True"
proof -
  note w = registry_wf_v2 [OF wf]
  let ?st = "sr_v2 reg" and ?n = "sr_next_session_id reg" and ?m = "sr_max_viewers reg"
  have act: "keeps ?n ?m ?st (?st\<lparr>vs_focus := mark_activated (vs_focus ?st) c g\<rparr>) True" for c g
    by (rule keeps_focus [OF w(1)]) (use w mark_activated_wf mark_activated_ok in auto)
  have upd: "keeps ?n ?m ?st (viewer_update remote (\<lambda>v. v\<lparr>vv_session := (vv_session v)\<lparr>as_input_claimed := True\<rparr>\<rparr>)
      (?st\<lparr>vs_focus := mark_activated (vs_focus ?st) c g\<rparr>)) True" for c g
    by (rule keeps_trans [OF act keeps_update]) (use act in \<open>auto simp: keeps_def\<close>)
  from r act upd wf show ?thesis
    by (auto simp: claim_input_v2_def Let_def intro!: reg_keeps_v2 reg_keeps_refl
        split: option.splits if_splits)
qed

lemma reg_keeps_update:
  assumes wf: "registry_wf reg"
    and f: "\<And>v. core (f v) = core v" "\<And>v. vv_snapshots (f v) = vv_snapshots v"
    and reg': "reg' = reg\<lparr>sr_v2 := viewer_update remote f (sr_v2 reg)\<rparr>"
  shows "reg_keeps reg reg' q"
  using wf reg' registry_wf_v2 [OF wf] f by (auto intro!: reg_keeps_v2 keeps_update)

lemma reg_keeps_trans:
  "reg_keeps reg reg1 q \<Longrightarrow> reg_keeps reg1 reg2 q \<Longrightarrow> sr_next_session_id reg2 = sr_next_session_id reg1 \<Longrightarrow>
   reg_keeps reg reg2 q"
  by (auto simp: reg_keeps_def intro: keeps_trans)

lemma claim_feedback_keeps:
  assumes r: "claim_feedback reg remote nonce now = (reg', r)" and wf: "registry_wf reg"
  shows "reg_keeps reg reg' True"
proof -
  note w = registry_wf_v2 [OF wf]
  let ?st = "sr_v2 reg" and ?n = "sr_next_session_id reg" and ?m = "sr_max_viewers reg"
  let ?f = "\<lambda>rw v. v\<lparr>vv_rates := (vv_rates v)\<lparr>vr_feedback_claims := rw\<rparr>\<rparr>"
  let ?g = "\<lambda>v. v\<lparr>vv_session := (vv_session v)\<lparr>as_feedback_claimed := True\<rparr>\<rparr>"
  have one: "keeps ?n ?m ?st (viewer_update remote (?f rw) ?st) True" for rw
    by (rule keeps_update [OF w(1)]) simp_all
  have two: "keeps ?n ?m ?st (viewer_update remote ?g (viewer_update remote (?f rw) ?st)) True" for rw
    by (rule keeps_trans [OF one keeps_update]) (use one in \<open>auto simp: keeps_def\<close>)
  have "reg_keeps reg (reg\<lparr>sr_v2 := viewer_update remote (?f rw) (sr_v2 reg)\<rparr>) True"
    "reg_keeps reg (reg\<lparr>sr_v2 := viewer_update remote ?g (viewer_update remote (?f rw) (sr_v2 reg))\<rparr>) True" for rw
    using one two wf by (auto intro!: reg_keeps_v2)
  with r wf show ?thesis
    by (auto simp: claim_feedback_def claim_feedback_v2_def Let_def with_v2_eq reg_keeps_refl
        split: option.splits if_splits prod.splits sum.splits)
qed

lemma claim_feedback_active: "claim_feedback reg remote nonce now = (reg', r) \<Longrightarrow> sr_active reg = None \<Longrightarrow> sr_active reg' = None"
  by (auto simp: claim_feedback_def claim_feedback_v2_def Let_def with_v2_eq legacy_session_def
      split: option.splits if_splits prod.splits sum.splits)

lemma claim_moq_session_fields:
  assumes "claim_moq_session c reg remote now_unix s = (reg', r)"
  shows "sr_v2 reg' = sr_v2 reg \<and> sr_max_viewers reg' = sr_max_viewers reg \<and>
    sr_next_session_id reg' = sr_next_session_id reg \<and> sr_active reg' = sr_active reg"
  using assms by (auto simp: claim_moq_session_def split: option.splits sum.splits)

lemma claim_moq_at_keeps:
  assumes r: "claim_moq_at c reg remote now_unix now = (reg', r)" and wf: "registry_wf reg"
  shows "reg_keeps reg reg' True"
proof -
  let ?f = "\<lambda>rw v. v\<lparr>vv_rates := (vv_rates v)\<lparr>vr_attachments := rw\<rparr>\<rparr>"
  have upd: "reg_keeps reg (reg\<lparr>sr_v2 := viewer_update remote (?f rw) (sr_v2 reg)\<rparr>) True" for rw
    by (rule reg_keeps_update [OF wf, of "?f rw"]) simp_all
  have "(\<exists>rw. sr_v2 reg' = viewer_update remote (?f rw) (sr_v2 reg)) \<or> sr_v2 reg' = sr_v2 reg"
    and "sr_max_viewers reg' = sr_max_viewers reg" "sr_next_session_id reg' = sr_next_session_id reg"
    using r by (auto simp: claim_moq_at_def Let_def dest!: claim_moq_session_fields
        split: option.splits if_splits prod.splits sum.splits)
  then show ?thesis
    using upd wf by (auto simp: reg_keeps_def keeps_def registry_wf_def)
qed

lemma claim_moq_at_active: "claim_moq_at c reg remote now_unix now = (reg', r) \<Longrightarrow> sr_active reg' = sr_active reg"
  by (auto simp: claim_moq_at_def Let_def dest!: claim_moq_session_fields
      split: option.splits if_splits prod.splits sum.splits)

lemma admit_v2_keyframe_request_keeps:
  assumes r: "admit_v2_keyframe_request reg remote sid now = (reg', r)" and wf: "registry_wf reg"
  shows "reg_keeps reg reg' True" "sr_active reg' = sr_active reg"
proof -
  have "reg_keeps reg (reg\<lparr>sr_v2 := viewer_update remote
      (\<lambda>v. v\<lparr>vv_rates := (vv_rates v)\<lparr>vr_keyframes := rw\<rparr>\<rparr>) (sr_v2 reg)\<rparr>) True" for rw
    by (rule reg_keeps_update [OF wf _ _ HOL.refl]) simp_all
  with r wf show "reg_keeps reg reg' True" "sr_active reg' = sr_active reg"
    by (auto simp: admit_v2_keyframe_request_def reg_keeps_refl split: option.splits prod.splits)
qed

lemma complete_authorization_neutralization_keeps:
  assumes r: "complete_authorization_neutralization reg remote arev tid now = (reg', r)"
    and wf: "registry_wf reg" and fresh: "not_exhausted reg"
  shows "reg_keeps reg reg' True"
proof -
  let ?f = "\<lambda>v. if as_authorization_revision (vv_session v) = arev then v\<lparr>vv_authorization_neutralizing := False\<rparr> else v"
  define reg1 where "reg1 = reg\<lparr>sr_v2 := viewer_update remote ?f (sr_v2 reg)\<rparr>"
  have k1: "reg_keeps reg reg1 True"
    by (rule reg_keeps_update [OF wf, of ?f]) (auto simp: reg1_def)
  have wf1: "registry_wf reg1" by (rule reg_keeps_wf [OF k1 wf])
  have fresh1: "not_exhausted reg1" using fresh by (simp add: not_exhausted_def reg1_def)
  have "reg_keeps reg1 reg' True"
  proof (cases tid)
    case None
    then show ?thesis
      using r wf1 by (simp add: complete_authorization_neutralization_def with_v2_eq reg1_def reg_keeps_refl)
  next
    case (Some t)
    obtain fa r0 where ct: "complete_transition (vs_focus (sr_v2 reg1)) t False now = (fa, r0)" by fastforce
    show ?thesis
    proof (rule complete_transition_keeps [OF ct _ wf1 fresh1])
      show "reg' = reg1\<lparr>sr_v2 := fst (publish_if (r0 = Inr True) ((sr_v2 reg1)\<lparr>vs_focus := fa\<rparr>))\<rparr>"
        using r ct Some
        by (auto simp: complete_authorization_neutralization_def Let_def with_v2_eq reg1_def split: sum.splits)
    qed simp
  qed
  moreover have "sr_next_session_id reg' = sr_next_session_id reg1"
    using r by (auto simp: complete_authorization_neutralization_def Let_def with_v2_eq reg1_def)
  ultimately show ?thesis using k1 by (blast intro: reg_keeps_trans)
qed

section \<open>Releases\<close>

lemma release_feedback_keeps:
  assumes wf: "registry_wf reg"
  shows "reg_keeps reg (release_feedback reg remote sid) True"
    "sr_active reg = None \<Longrightarrow> sr_active (release_feedback reg remote sid) = None"
proof -
  have "reg_keeps reg (reg\<lparr>sr_v2 := viewer_update remote
      (\<lambda>v. if as_session_id (vv_session v) = sid
           then v\<lparr>vv_session := (vv_session v)\<lparr>as_feedback_claimed := False\<rparr>\<rparr> else v) (sr_v2 reg)\<rparr>) True"
    by (rule reg_keeps_update [OF wf _ _ HOL.refl]) simp_all
  with wf show "reg_keeps reg (release_feedback reg remote sid) True"
    "sr_active reg = None \<Longrightarrow> sr_active (release_feedback reg remote sid) = None"
    by (auto simp: release_feedback_def legacy_session_def split: option.splits)
qed

lemma release_input_keeps:
  assumes wf: "registry_wf reg" and fresh: "not_exhausted reg"
  shows "reg_keeps reg (release_input reg remote sid now) True"
proof (cases "legacy_session reg (occupied_by remote sid)")
  case (Some s)
  then show ?thesis using wf by (simp add: release_input_def reg_keeps_same_v2)
next
  case None
  let ?f = "\<lambda>v. if as_session_id (vv_session v) = sid
                 then v\<lparr>vv_session := (vv_session v)\<lparr>as_input_claimed := False\<rparr>\<rparr> else v"
  define reg1 where "reg1 = reg\<lparr>sr_v2 := viewer_update remote ?f (sr_v2 reg)\<rparr>"
  have k1: "reg_keeps reg reg1 True"
    by (rule reg_keeps_update [OF wf, of ?f]) (auto simp: reg1_def)
  have wf1: "registry_wf reg1" by (rule reg_keeps_wf [OF k1 wf])
  have fresh1: "not_exhausted reg1" using fresh by (simp add: not_exhausted_def reg1_def)
  note w1 = registry_wf_v2 [OF wf1]
  let ?reg' = "release_input reg remote sid now"
  show ?thesis
  proof (cases "\<exists>slot h g t. fa_state (vs_focus (sr_v2 reg1)) = Neutralizing slot h sid g t")
    case False
    then have "?reg' = reg1"
      using None by (auto simp: release_input_def Let_def reg1_def split: focus_state_v2.splits)
    with k1 show ?thesis by simp
  next
    case True
    then obtain slot h g t where neu: "fa_state (vs_focus (sr_v2 reg1)) = Neutralizing slot h sid g t" by blast
    obtain fa r0 where ct: "complete_transition (vs_focus (sr_v2 reg1)) t False now = (fa, r0)" by fastforce
    have fa: "focus_wf fa" "focus_ok (members (roster (sr_v2 reg1))) (capable_members (roster (sr_v2 reg1))) fa"
      using complete_transition_wf [OF ct w1(3)] complete_transition_ok [OF ct w1(4)] by auto
    have "reg_keeps reg1 ?reg' True"
    proof (rule focus_publish_keeps [OF wf1 fresh1 fa, of True])
      show "?reg' = reg1\<lparr>sr_v2 := fst (publish_if True ((sr_v2 reg1)\<lparr>vs_focus := fa\<rparr>))\<rparr>"
        using None neu ct by (simp add: release_input_def Let_def reg1_def publish_if_def)
    qed simp
    moreover have "sr_next_session_id ?reg' = sr_next_session_id reg1"
      using None by (simp add: release_input_def Let_def reg1_def split: focus_state_v2.splits)
    ultimately show ?thesis using k1 by (blast intro: reg_keeps_trans)
  qed
qed

lemma release_input_active: "sr_active reg = None \<Longrightarrow> sr_active (release_input reg remote sid now) = None"
  by (simp add: release_input_def legacy_session_def Let_def split: focus_state_v2.splits)

text \<open>Removing a viewer the arbiter no longer names.\<close>

lemma remove_viewer_base:
  assumes base: "roster_wf next maximum (roster st)" "\<forall>m. vs_media st = Some m \<longrightarrow> media_generation_validate m = Inr ()"
    and v: "map_of (vs_viewers st) remote = Some v" and fa: "focus_wf fa"
    and ok: "focus_ok (members (roster st) - {(vv_presence_id v, as_session_id (vv_session v))})
               (capable_members (roster st) - {(vv_presence_id v, as_session_id (vv_session v))}) fa"
  shows "v2_base next maximum ((viewer_remove remote st)\<lparr>vs_focus := retire_candidate fa c\<rparr>)"
    "v2_base next maximum ((viewer_remove remote st)\<lparr>vs_focus := retire_candidate fa c, vs_media := None\<rparr>)"
proof -
  have ent: "(remote, core v) \<in> set (roster st)"
    using v by (intro map_of_SomeD) (simp add: map_of_roster)
  have d: "distinct (map (vc_presence \<circ> snd) (roster st))" "distinct (map fst (roster st))"
    using base(1) by (simp_all add: roster_wf_def)
  show "v2_base next maximum ((viewer_remove remote st)\<lparr>vs_focus := retire_candidate fa c\<rparr>)"
    "v2_base next maximum ((viewer_remove remote st)\<lparr>vs_focus := retire_candidate fa c, vs_media := None\<rparr>)"
    using base fa ok roster_wf_delete [OF base(1)] members_delete [OF d(1) ent d(2)]
    by (simp_all add: v2_base_def roster_remove)
qed

lemma release_v2_viewer_keeps:
  assumes wf: "registry_wf reg" and fresh: "not_exhausted reg"
    and v: "map_of (vs_viewers (sr_v2 reg)) remote = Some v" "as_session_id (vv_session v) = sid"
  shows "reg_keeps reg (release_v2_viewer reg remote sid v) True"
    "roster (sr_v2 (release_v2_viewer reg remote sid v)) = AList.delete remote (roster (sr_v2 reg))"
    "vs_live_control_leases (sr_v2 (release_v2_viewer reg remote sid v)) = vs_live_control_leases (sr_v2 reg)"
proof -
  note w = registry_wf_v2 [OF wf]
  let ?st = "sr_v2 reg" and ?n = "sr_next_session_id reg" and ?m = "sr_max_viewers reg"
  let ?c = "\<lparr>cand_presence_id = vv_presence_id v, cand_session_id = sid\<rparr>"
  obtain fa m where inv: "begin_invalidation (vs_focus ?st) ?c Disconnected = (fa, Inr m)"
    using begin_invalidation_succeeds fresh unfolding not_exhausted_def by blast
  define st1 where "st1 = (viewer_remove remote ?st)\<lparr>vs_focus := retire_candidate fa ?c\<rparr>"
  define st2 where "st2 = (if vs_viewers st1 = [] then st1\<lparr>vs_media := None\<rparr> else st1)"
  have "focus_ok (members (roster ?st) - {(vv_presence_id v, as_session_id (vv_session v))})
      (capable_members (roster ?st) - {(vv_presence_id v, as_session_id (vv_session v))}) fa"
    using begin_invalidation_removes [OF inv w(4)] v(2) by simp
  then have base: "v2_base ?n ?m st2"
    using remove_viewer_base [OF _ _ v(1) begin_invalidation_wf [OF inv w(3)], of ?n ?m ?c] w(1)
    by (simp add: st2_def st1_def v2_wf_def)
  obtain st3 rp where p: "advance_and_publish st2 = (st3, rp)" by fastforce
  have f: "vs_revision st2 = vs_revision ?st" "roster st2 = AList.delete remote (roster ?st)"
    "vs_live_control_leases st2 = vs_live_control_leases ?st"
    by (simp_all add: st2_def st1_def roster_remove)
  note pub = advance_publish_inv [OF base w(2) _ p]
  have reg': "release_v2_viewer reg remote sid v =
      reg\<lparr>sr_pending_moq := AList.delete (remote, sid) (sr_pending_moq reg), sr_v2 := st3\<rparr>"
    by (simp only: release_v2_viewer_def Let_def inv fst_conv st1_def [symmetric] st2_def [symmetric] p)
  have rev: "vs_revision st2 \<noteq> - 1" using f fresh by (simp add: not_exhausted_def)
  show "reg_keeps reg (release_v2_viewer reg remote sid v) True"
    unfolding reg' using pub(2) [OF rev] wf by (auto intro!: reg_keeps_v2 keeps_inv)
  show "roster (sr_v2 (release_v2_viewer reg remote sid v)) = AList.delete remote (roster (sr_v2 reg))"
    "vs_live_control_leases (sr_v2 (release_v2_viewer reg remote sid v)) = vs_live_control_leases (sr_v2 reg)"
    unfolding reg' using pub(3,7) [OF rev] f by simp_all
qed

text \<open>
  A release of a v2 lease takes one lease from the count, and the viewer away if it still belongs
  to the lease.
\<close>

lemma release_keeps:
  assumes wf: "registry_wf reg" and fresh: "not_exhausted reg"
  shows "reg_keeps reg (release reg remote sid) True"
    "legacy_session reg (occupied_by remote sid) = None \<Longrightarrow>
     vs_live_control_leases (sr_v2 (release reg remote sid)) = vs_live_control_leases (sr_v2 reg) - 1 \<and>
     sr_active (release reg remote sid) = sr_active reg \<and>
     set (roster (sr_v2 (release reg remote sid))) =
       {e \<in> set (roster (sr_v2 reg)). \<not> (fst e = remote \<and> vc_session (snd e) = sid)}"
    "legacy_session reg (occupied_by remote sid) \<noteq> None \<Longrightarrow> sr_v2 (release reg remote sid) = sr_v2 reg"
proof -
  have "reg_keeps reg (release reg remote sid) True \<and>
    (legacy_session reg (occupied_by remote sid) = None \<longrightarrow>
     vs_live_control_leases (sr_v2 (release reg remote sid)) = vs_live_control_leases (sr_v2 reg) - 1 \<and>
     sr_active (release reg remote sid) = sr_active reg \<and>
     set (roster (sr_v2 (release reg remote sid))) =
       {e \<in> set (roster (sr_v2 reg)). \<not> (fst e = remote \<and> vc_session (snd e) = sid)}) \<and>
    (legacy_session reg (occupied_by remote sid) \<noteq> None \<longrightarrow> sr_v2 (release reg remote sid) = sr_v2 reg)"
  proof (cases "legacy_session reg (occupied_by remote sid)")
    case (Some s)
    then show ?thesis using wf by (simp add: release_def reg_keeps_same_v2)
  next
    case None
    let ?st = "sr_v2 reg"
    define reg1 where "reg1 = reg\<lparr>sr_v2 := ?st\<lparr>vs_live_control_leases := vs_live_control_leases ?st - 1\<rparr>\<rparr>"
    have wf1: "registry_wf reg1"
      using wf by (simp add: registry_wf_def reg1_def v2_wf_def)
    have fresh1: "not_exhausted reg1"
      using fresh by (auto simp: not_exhausted_def reg1_def)
    have k1: "reg_keeps reg reg1 True"
      using wf1 by (simp add: reg_keeps_def keeps_def registry_wf_def reg1_def snapshots_current_leases)
    have f1: "roster (sr_v2 reg1) = roster ?st" "sr_active reg1 = sr_active reg"
      "vs_live_control_leases (sr_v2 reg1) = vs_live_control_leases ?st - 1" "vs_viewers (sr_v2 reg1) = vs_viewers ?st"
      by (simp_all add: reg1_def)
    have dist: "distinct (map fst (roster ?st))"
      using wf by (simp add: registry_wf_def v2_wf_def roster_wf_def)
    show ?thesis
    proof (cases "viewer_with_session (sr_v2 reg1) remote sid")
      case no: None
      then have reg': "release reg remote sid = reg1"
        using None by (simp add: release_def Let_def reg1_def)
      have "\<not> (fst e = remote \<and> vc_session (snd e) = sid)" if "e \<in> set (roster ?st)" for e
      proof
        assume e: "fst e = remote \<and> vc_session (snd e) = sid"
        with that dist have "map_of (roster ?st) remote = Some (snd e)"
          by (cases e) auto
        then obtain v where "map_of (vs_viewers ?st) remote = Some v" "core v = snd e"
          by (auto simp: map_of_roster)
        with no e f1(4) show False
          using core_sel(2) [of v] by (auto simp: viewer_with_session_def)
      qed
      with reg' k1 f1 None show ?thesis by auto
    next
      case (Some v)
      then have v: "map_of (vs_viewers (sr_v2 reg1)) remote = Some v" "as_session_id (vv_session v) = sid"
        by (simp_all add: viewer_with_session_Some)
      have reg': "release reg remote sid = release_v2_viewer reg1 remote sid v"
        using None Some by (simp add: release_def Let_def reg1_def)
      note k2 = release_v2_viewer_keeps [OF wf1 fresh1 v]
      have n: "sr_next_session_id (release_v2_viewer reg1 remote sid v) = sr_next_session_id reg1"
        "sr_active (release_v2_viewer reg1 remote sid v) = sr_active reg1"
        by (simp_all add: release_v2_viewer_def Let_def)
      have ent: "(remote, core v) \<in> set (roster ?st)"
        using v(1) f1 by (intro map_of_SomeD) (simp add: map_of_roster)
      have "fst e \<noteq> remote \<longleftrightarrow> \<not> (fst e = remote \<and> vc_session (snd e) = sid)" if "e \<in> set (roster ?st)" for e
      proof -
        have "snd e = core v" if "fst e = remote"
          using that \<open>e \<in> set (roster ?st)\<close> ent dist by (metis eq_key_imp_eq_value prod.collapse)
        then show ?thesis using v(2) by auto
      qed
      then have "{e \<in> set (roster ?st). fst e \<noteq> remote} = {e \<in> set (roster ?st). \<not> (fst e = remote \<and> vc_session (snd e) = sid)}"
        by blast
      moreover have "set (AList.delete remote (roster ?st)) = {e \<in> set (roster ?st). fst e \<noteq> remote}"
        by (auto simp: AList.delete_eq)
      ultimately have "set (AList.delete remote (roster ?st)) = {e \<in> set (roster ?st). \<not> (fst e = remote \<and> vc_session (snd e) = sid)}"
        by simp
      with reg' k1 k2 n f1 None show ?thesis
        by (auto intro: reg_keeps_trans)
    qed
  qed
  then show "reg_keeps reg (release reg remote sid) True"
    "legacy_session reg (occupied_by remote sid) = None \<Longrightarrow>
     vs_live_control_leases (sr_v2 (release reg remote sid)) = vs_live_control_leases (sr_v2 reg) - 1 \<and>
     sr_active (release reg remote sid) = sr_active reg \<and>
     set (roster (sr_v2 (release reg remote sid))) =
       {e \<in> set (roster (sr_v2 reg)). \<not> (fst e = remote \<and> vc_session (snd e) = sid)}"
    "legacy_session reg (occupied_by remote sid) \<noteq> None \<Longrightarrow> sr_v2 (release reg remote sid) = sr_v2 reg"
    by blast+
qed


definition requester_of_proposal :: "session_registry \<Rightarrow> endpoint_id \<Rightarrow> u64 \<Rightarrow> bool" where
  "requester_of_proposal reg remote session_id =
     (case (viewer_with_session (sr_v2 reg) remote session_id, fa_proposal (vs_focus (sr_v2 reg))) of
        (Some v, Some p) \<Rightarrow> fp_requester p = vv_presence_id v \<and> fp_requester_session_id p = session_id
      | _ \<Rightarrow> False)"

lemma disconnect_v2_viewer_keeps:
  assumes r: "disconnect_v2_viewer reg remote sid = (reg', r)"
    and wf: "registry_wf reg" and fresh: "not_exhausted reg"
    and req: "\<not> requester_of_proposal reg remote sid"
  shows "reg_keeps reg reg' True"
proof (cases "sr_v2 reg' = sr_v2 reg \<and> sr_max_viewers reg' = sr_max_viewers reg \<and> sr_next_session_id reg' = sr_next_session_id reg")
  case True
  then show ?thesis using wf by (simp add: reg_keeps_same_v2)
next
  case False
  note w = registry_wf_v2 [OF wf]
  let ?st = "sr_v2 reg" and ?n = "sr_next_session_id reg" and ?m = "sr_max_viewers reg"
  from r False obtain v where v: "map_of (vs_viewers ?st) remote = Some v" "as_session_id (vv_session v) = sid"
    and free: "\<not> (case fa_state (vs_focus ?st) of Held slot h s g \<Rightarrow> s = sid | _ \<Rightarrow> False)"
    by (auto simp: disconnect_v2_viewer_def Let_def viewer_with_session_Some split: option.splits if_splits
        focus_state_v2.splits)
  let ?c = "\<lparr>cand_presence_id = vv_presence_id v, cand_session_id = sid\<rparr>"
  define st1 where "st1 = (viewer_remove remote ?st)\<lparr>vs_focus := retire_candidate (vs_focus ?st) ?c\<rparr>"
  define st2 where "st2 = (if vs_viewers st1 = [] then st1\<lparr>vs_media := None\<rparr> else st1)"
  have "viewer_with_session ?st remote sid = Some v"
    using v by (simp add: viewer_with_session_Some)
  then have "focus_ok (members (roster ?st) - {(vv_presence_id v, as_session_id (vv_session v))})
      (capable_members (roster ?st) - {(vv_presence_id v, as_session_id (vv_session v))}) (vs_focus ?st)"
    using w(4) free req v(2)
    by (auto simp: focus_ok_def requester_of_proposal_def split: focus_state_v2.splits option.splits)
  then have base: "v2_base ?n ?m st2"
    using remove_viewer_base [OF _ _ v(1) w(3), of ?n ?m ?c] w(1)
    by (simp add: st2_def st1_def v2_wf_def)
  obtain st3 rp where p: "advance_and_publish st2 = (st3, rp)" by fastforce
  have rev: "vs_revision st2 \<noteq> - 1"
    using fresh by (simp add: st2_def st1_def not_exhausted_def)
  note pub = advance_publish_inv [OF base w(2) rev p]
  have "with_v2 reg (advance_and_publish st2) = (reg\<lparr>sr_v2 := st3\<rparr>, Inr ())"
    using p pub(1) by (simp add: with_v2_def)
  then have "sr_v2 reg' = st3" "sr_max_viewers reg' = ?m" "sr_next_session_id reg' = ?n"
    using r free \<open>viewer_with_session ?st remote sid = Some v\<close>
    by (auto simp: disconnect_v2_viewer_def Let_def st1_def [symmetric] st2_def [symmetric] simp del: focus_state_v2.case
        split: if_splits)
  then show ?thesis
    using pub(2) wf by (auto intro!: reg_keeps_v2 keeps_inv)
qed

section \<open>Who is in the roster\<close>

definition sessions :: "v2_session_state \<Rightarrow> (endpoint_id \<times> u64) set" where
  "sessions st = (\<lambda>(p, v). (p, as_session_id (vv_session v))) ` set (vs_viewers st)"

lemma sessions_roster: "sessions st = (\<lambda>(p, c). (p, vc_session c)) ` set (roster st)"
  by (simp add: sessions_def roster_def image_image case_prod_unfold)

lemma sessions_fields [simp]:
  "sessions (st\<lparr>vs_revision := a1\<rparr>) = sessions st" "sessions (st\<lparr>vs_focus := a2\<rparr>) = sessions st"
  "sessions (st\<lparr>vs_media := a3\<rparr>) = sessions st" "sessions (st\<lparr>vs_live_control_leases := a4\<rparr>) = sessions st"
  by (simp_all add: sessions_def)

lemma sessions_update:
  "(\<And>v. as_session_id (vv_session (f v)) = as_session_id (vv_session v)) \<Longrightarrow>
   sessions (viewer_update k f st) = sessions st"
proof -
  assume f: "\<And>v. as_session_id (vv_session (f v)) = as_session_id (vv_session v)"
  have "(\<lambda>(p, v). (p, as_session_id (vv_session v))) ` set (AList.map_entry k f xs) =
      (\<lambda>(p, v). (p, as_session_id (vv_session v))) ` set xs" for xs
    by (induction xs) (auto simp: f)
  then show ?thesis by (simp add: sessions_def)
qed

lemma sessions_remove: "sessions (viewer_remove k st) \<subseteq> sessions st"
  by (auto simp: sessions_def AList.delete_eq)

lemma publish_loop_sessions:
  "(\<lambda>(p, v). (p, as_session_id (vv_session v))) ` set (fst (publish_loop st vs)) =
   (\<lambda>(p, v). (p, as_session_id (vv_session v))) ` set vs"
proof (induction vs)
  case (Cons e vs)
  then show ?case
    by (cases e; cases "publish_loop st vs") (auto split: sum.splits)
qed simp

lemma publish_sessions [simp]:
  "sessions (fst (publish_v2_snapshots st)) = sessions st"
  "vs_live_control_leases (fst (publish_v2_snapshots st)) = vs_live_control_leases st"
  using publish_loop_sessions [of st "vs_viewers st"]
  by (cases "publish_loop st (vs_viewers st)"; simp add: publish_v2_snapshots_def sessions_def)+

lemma advance_publish_sessions [simp]:
  "sessions (fst (advance_and_publish st)) = sessions st"
  "vs_live_control_leases (fst (advance_and_publish st)) = vs_live_control_leases st"
  by (auto simp: advance_and_publish_def advance_v2_revision_def split: option.splits)

lemma publish_if_sessions [simp]:
  "sessions (fst (publish_if b st)) = sessions st"
  "vs_live_control_leases (fst (publish_if b st)) = vs_live_control_leases st"
  by (auto simp: publish_if_def)

text \<open>An operation that admits nobody: no new member, no lease more or less, no legacy session.\<close>

definition calm :: "session_registry \<Rightarrow> session_registry \<Rightarrow> bool" where
  "calm reg reg' \<longleftrightarrow>
     sessions (sr_v2 reg') \<subseteq> sessions (sr_v2 reg) \<and>
     vs_live_control_leases (sr_v2 reg') = vs_live_control_leases (sr_v2 reg) \<and>
     (sr_active reg = None \<longrightarrow> sr_active reg' = None) \<and> sr_next_session_id reg' = sr_next_session_id reg"

lemma bind_op_fst_const:
  "(\<And>s x. fst (f s x) = s) \<Longrightarrow> fst (bind_op m f) = fst m"
  by (auto simp: bind_op_def split: prod.splits sum.splits)

lemma calm_v2:
  "sr_active reg' = sr_active reg \<Longrightarrow> sr_next_session_id reg' = sr_next_session_id reg \<Longrightarrow>
   sessions (sr_v2 reg') \<subseteq> sessions (sr_v2 reg) \<Longrightarrow>
   vs_live_control_leases (sr_v2 reg') = vs_live_control_leases (sr_v2 reg) \<Longrightarrow> calm reg reg'"
  by (simp add: calm_def)

lemma calm_same: "sr_v2 reg' = sr_v2 reg \<Longrightarrow> sr_next_session_id reg' = sr_next_session_id reg \<Longrightarrow>
    (sr_active reg = None \<Longrightarrow> sr_active reg' = None) \<Longrightarrow> calm reg reg'"
  by (auto simp: calm_def)

lemma with_v2_sel [simp]:
  "sr_v2 (fst (with_v2 reg m)) = fst m" "sr_active (fst (with_v2 reg m)) = sr_active reg"
  "sr_next_session_id (fst (with_v2 reg m)) = sr_next_session_id reg"
  "sr_max_viewers (fst (with_v2 reg m)) = sr_max_viewers reg"
  by (simp_all add: with_v2_def split: prod.splits)

lemmas calm_simps = Let_def bind_op_fst_const sessions_update

lemma apply_focus_command_calm: "calm reg (fst (apply_focus_command reg remote sid command t1 t2 t3))"
  by (rule calm_v2) (simp_all add: apply_focus_command_def calm_simps split: sum.splits option.splits prod.splits)

lemma invalidate_v2_focus_calm: "calm reg (fst (invalidate_v2_focus reg remote sid reason))"
  by (rule calm_v2) (simp_all add: invalidate_v2_focus_def calm_simps split: sum.splits option.splits prod.splits)

lemma complete_v2_focus_transition_calm: "calm reg (fst (complete_v2_focus_transition reg tid now))"
  by (rule calm_v2) (simp_all add: complete_v2_focus_transition_def calm_simps split: sum.splits prod.splits)

lemma expire_v2_focus_calm: "calm reg (fst (expire_v2_focus reg now))"
  by (rule calm_v2) (simp_all add: expire_v2_focus_def calm_simps split: sum.splits prod.splits)


lemma calm_prod: "(\<And>reg' r. m = (reg', r) \<Longrightarrow> calm reg reg') \<Longrightarrow> calm reg (fst m)"
  by (cases m) simp

lemma apply_authorization_mutation_calm: "calm reg (fst (apply_authorization_mutation reg m))"
proof -
  have sub: "sessions (authorization_roster st m v fm) \<subseteq> sessions st" for st v fm
    using sessions_remove [of "am_peer m" st]
    by (auto simp: authorization_roster_def sessions_update split: option.splits)
  moreover have "vs_live_control_leases (authorization_roster st m v fm) = vs_live_control_leases st" for st v fm
    by (simp add: authorization_roster_def split: option.splits)
  ultimately show ?thesis
    by (intro calm_v2) (auto simp: apply_authorization_mutation_def calm_simps
        split: sum.splits option.splits prod.splits dest!: subsetD [OF sub])
qed

lemma complete_authorization_neutralization_calm:
  "calm reg (fst (complete_authorization_neutralization reg remote arev tid now))"
  by (rule calm_v2) (simp_all add: complete_authorization_neutralization_def calm_simps split: sum.splits option.splits prod.splits)

lemma claim_input_v2_calm: "calm reg (fst (claim_input_v2 reg remote nonce sid slot gen))"
  by (rule calm_v2) (simp_all add: claim_input_v2_def calm_simps split: option.splits)

lemma bind_v2_generation_calm: "calm reg (fst (bind_v2_generation reg remote sid gen clock ec))"
  by (rule calm_v2) (simp_all add: bind_v2_generation_def calm_simps split: sum.splits option.splits)

lemma claim_feedback_calm: "calm reg (fst (claim_feedback reg remote nonce now))"
proof (rule calm_prod)
  fix reg' r
  assume r: "claim_feedback reg remote nonce now = (reg', r)"
  have "sessions (sr_v2 reg') \<subseteq> sessions (sr_v2 reg)" "vs_live_control_leases (sr_v2 reg') = vs_live_control_leases (sr_v2 reg)"
    "sr_next_session_id reg' = sr_next_session_id reg"
    using r by (auto simp: claim_feedback_def claim_feedback_v2_def with_v2_eq calm_simps
        split: sum.splits option.splits prod.splits if_splits)
  with claim_feedback_active [OF r] show "calm reg reg'" by (simp add: calm_def)
qed

lemma claim_moq_at_calm: "calm reg (fst (claim_moq_at c reg remote now_unix now))"
proof (rule calm_prod)
  fix reg' r
  assume r: "claim_moq_at c reg remote now_unix now = (reg', r)"
  have "sessions (sr_v2 reg') \<subseteq> sessions (sr_v2 reg) \<and> vs_live_control_leases (sr_v2 reg') = vs_live_control_leases (sr_v2 reg) \<and>
      sr_next_session_id reg' = sr_next_session_id reg"
    using r by (auto simp: claim_moq_at_def calm_simps dest!: claim_moq_session_fields
        split: sum.splits option.splits prod.splits if_splits)
  with claim_moq_at_active [OF r] show "calm reg reg'" by (simp add: calm_def)
qed

lemma admit_v2_keyframe_request_calm: "calm reg (fst (admit_v2_keyframe_request reg remote sid now))"
  by (rule calm_v2) (simp_all add: admit_v2_keyframe_request_def calm_simps split: option.splits prod.splits)

lemma bind_op_reg:
  assumes "\<And>s x. sr_v2 (fst (f s x)) = sr_v2 s \<and> sr_active (fst (f s x)) = sr_active s \<and>
      sr_next_session_id (fst (f s x)) = sr_next_session_id s"
  shows "sr_v2 (fst (bind_op m f)) = sr_v2 (fst m) \<and> sr_active (fst (bind_op m f)) = sr_active (fst m) \<and>
      sr_next_session_id (fst (bind_op m f)) = sr_next_session_id (fst m)"
  using assms by (auto simp: bind_op_def split: prod.splits sum.splits)

lemma disconnect_v2_viewer_calm: "calm reg (fst (disconnect_v2_viewer reg remote sid))"
proof -
  have "sessions ((viewer_remove remote st)\<lparr>vs_focus := fa\<rparr>) \<subseteq> sessions st"
    "sessions ((viewer_remove remote st)\<lparr>vs_focus := fa, vs_media := None\<rparr>) \<subseteq> sessions st" for st fa
    using sessions_remove [of remote st] by auto
  then show ?thesis
    by (intro calm_v2) (simp_all add: disconnect_v2_viewer_def calm_simps bind_op_reg split: option.splits)
qed

lemma release_feedback_calm: "calm reg (release_feedback reg remote sid)"
  by (auto simp: calm_def release_feedback_def legacy_session_def calm_simps split: option.splits)

lemma release_input_calm: "calm reg (release_input reg remote sid now)"
  by (auto simp: calm_def release_input_def legacy_session_def calm_simps split: option.splits focus_state_v2.splits)


section \<open>Runs\<close>

datatype registry_op =
    R_Claim endpoint_id bytes invitation_grants instant
  | R_Claim_V2 endpoint_id bytes authorized_viewer instant instant
  | R_Bind endpoint_id u64 u64 instant "encoder_handle option"
  | R_Claim_Input endpoint_id bytes
  | R_Focus endpoint_id u64 focus_command_v2 instant instant int
  | R_Invalidate endpoint_id u64 focus_transition_reason_v2
  | R_Complete u64 instant
  | R_Expire instant
  | R_Authorization authorization_mutation
  | R_Complete_Authorization endpoint_id u64 "u64 option" instant
  | R_Claim_Input_V2 endpoint_id bytes u64 controller_slot u64
  | R_Install_Encoder endpoint_id u64 "encoder_handle option"
  | R_Claim_Feedback endpoint_id bytes instant
  | R_Claim_Audio endpoint_id bytes
  | R_Expect_Moq endpoint_id u64 string broadcast_handle
  | R_Expect_Moq_V2 endpoint_id u64 string broadcast_handle signed_subscription_capability bytes
  | R_Claim_Moq crypto endpoint_id u64 instant
  | R_Keyframe endpoint_id u64 instant
  | R_Release endpoint_id u64
  | R_Disconnect endpoint_id u64
  | R_Release_Input endpoint_id u64 instant
  | R_Release_Audio endpoint_id u64
  | R_Release_Feedback endpoint_id u64

fun registry_apply :: "registry_op \<Rightarrow> session_registry \<Rightarrow> session_registry" where
  "registry_apply (R_Claim remote nonce grants clock) reg = fst (claim reg remote nonce grants clock)"
| "registry_apply (R_Claim_V2 remote nonce av now clock) reg = fst (claim_v2_authorized reg remote nonce av now clock)"
| "registry_apply (R_Bind remote sid gen clock ec) reg = fst (bind_v2_generation reg remote sid gen clock ec)"
| "registry_apply (R_Claim_Input remote nonce) reg = fst (claim_input reg remote nonce)"
| "registry_apply (R_Focus remote sid command t1 t2 t3) reg = fst (apply_focus_command reg remote sid command t1 t2 t3)"
| "registry_apply (R_Invalidate remote sid reason) reg = fst (invalidate_v2_focus reg remote sid reason)"
| "registry_apply (R_Complete tid now) reg = fst (complete_v2_focus_transition reg tid now)"
| "registry_apply (R_Expire now) reg = fst (expire_v2_focus reg now)"
| "registry_apply (R_Authorization m) reg = fst (apply_authorization_mutation reg m)"
| "registry_apply (R_Complete_Authorization remote arev tid now) reg =
     fst (complete_authorization_neutralization reg remote arev tid now)"
| "registry_apply (R_Claim_Input_V2 remote nonce sid slot gen) reg = fst (claim_input_v2 reg remote nonce sid slot gen)"
| "registry_apply (R_Install_Encoder remote sid ec) reg = fst (install_encoder_control reg remote sid ec)"
| "registry_apply (R_Claim_Feedback remote nonce now) reg = fst (claim_feedback reg remote nonce now)"
| "registry_apply (R_Claim_Audio remote nonce) reg = fst (claim_audio reg remote nonce)"
| "registry_apply (R_Expect_Moq remote sid name b) reg = fst (expect_moq reg remote sid name b)"
| "registry_apply (R_Expect_Moq_V2 remote sid name b cap host) reg = fst (expect_moq_v2 reg remote sid name b cap host)"
| "registry_apply (R_Claim_Moq c remote now_unix now) reg = fst (claim_moq_at c reg remote now_unix now)"
| "registry_apply (R_Keyframe remote sid now) reg = fst (admit_v2_keyframe_request reg remote sid now)"
| "registry_apply (R_Release remote sid) reg = release reg remote sid"
| "registry_apply (R_Disconnect remote sid) reg = fst (disconnect_v2_viewer reg remote sid)"
| "registry_apply (R_Release_Input remote sid now) reg = release_input reg remote sid now"
| "registry_apply (R_Release_Audio remote sid) reg = release_audio reg remote sid"
| "registry_apply (R_Release_Feedback remote sid) reg = release_feedback reg remote sid"

text \<open>The v2 leases that are out: an admission adds its lease, a release takes it back.\<close>

fun leases_after :: "registry_op \<Rightarrow> session_registry \<Rightarrow> (endpoint_id \<times> u64) list \<Rightarrow> (endpoint_id \<times> u64) list" where
  "leases_after (R_Claim_V2 remote nonce av now clock) reg ls =
     (case snd (claim_v2_authorized reg remote nonce av now clock) of
        Inl _ \<Rightarrow> ls | Inr lease \<Rightarrow> (vl_remote lease, vl_session_id lease) # ls)"
| "leases_after (R_Release remote sid) reg ls = remove1 (remote, sid) ls"
| "leases_after _ reg ls = ls"

text \<open>
  What the callers guarantee: a lease is released once and by its owner, a mutation is consistent
  with the permissions it replaces, a pending requester is not detached.
\<close>

fun registry_op_ok :: "registry_op \<Rightarrow> session_registry \<Rightarrow> (endpoint_id \<times> u64) list \<Rightarrow> bool" where
  "registry_op_ok (R_Release remote sid) reg ls \<longleftrightarrow>
     (remote, sid) \<in> set ls \<or> legacy_session reg (occupied_by remote sid) \<noteq> None"
| "registry_op_ok (R_Authorization m) reg ls \<longleftrightarrow> mutation_consistent reg m"
| "registry_op_ok (R_Disconnect remote sid) reg ls \<longleftrightarrow> \<not> requester_of_proposal reg remote sid"
| "registry_op_ok _ reg ls \<longleftrightarrow> True"

inductive registry_run :: "session_registry \<Rightarrow> (endpoint_id \<times> u64) list \<Rightarrow> bool" where
  registry_start: "session_registry_new max_viewers owner = Some reg \<Longrightarrow> registry_run reg []"
| registry_step: "registry_run reg ls \<Longrightarrow> not_exhausted reg \<Longrightarrow> registry_op_ok op reg ls \<Longrightarrow>
    registry_run (registry_apply op reg) (leases_after op reg ls)"

text \<open>The operations after which a channel may lag behind.\<close>

fun quiet :: "registry_op \<Rightarrow> session_registry \<Rightarrow> bool" where
  "quiet (R_Bind remote sid gen clock ec) reg \<longleftrightarrow>
     is_ok (snd (bind_v2_generation reg remote sid gen clock ec)) \<or> vs_media (sr_v2 reg) \<noteq> None \<or> gen = 0"
| "quiet (R_Focus remote sid command t1 t2 t3) reg \<longleftrightarrow>
     is_ok (snd (apply_focus_command reg remote sid command t1 t2 t3))
     \<or> \<not> snd (expire_proposal (vs_focus (sr_v2 reg)) t2)"
| "quiet _ reg \<longleftrightarrow> True"

lemma keeps_prod:
  "(\<And>reg' r. m = (reg', r) \<Longrightarrow> reg_keeps reg reg' (q r)) \<Longrightarrow> reg_keeps reg (fst m) (q (snd m))"
  by (cases m) simp

lemma keeps_prodT: "(\<And>reg' r. m = (reg', r) \<Longrightarrow> reg_keeps reg reg' True) \<Longrightarrow> reg_keeps reg (fst m) True"
  by (cases m) simp

lemma registry_apply_keeps:
  assumes wf: "registry_wf reg" and fresh: "not_exhausted reg" and ok: "registry_op_ok op reg ls"
  shows "reg_keeps reg (registry_apply op reg) (quiet op reg)"
proof (cases op)
  case (R_Claim remote nonce grants clock)
  then show ?thesis
    by (simp only: registry_apply.simps quiet.simps)
      (rule keeps_prodT, rule reg_keeps_same_v2 [OF wf],
        use fresh in \<open>simp_all add: claim_fields not_exhausted_def\<close>)
next
  case (R_Claim_V2 remote nonce av now clock)
  then show ?thesis
    by (simp only: registry_apply.simps quiet.simps)
      (rule keeps_prodT, drule claim_v2_authorized_cases [OF _ wf fresh], blast)
next
  case (R_Bind remote sid gen clock ec)
  then show ?thesis
    by (simp only: registry_apply.simps quiet.simps)
      (rule keeps_prod [where q = "\<lambda>r. is_ok r \<or> vs_media (sr_v2 reg) \<noteq> None \<or> gen = 0"],
        erule bind_v2_generation_keeps [OF _ wf])
next
  case (R_Focus remote sid command t1 t2 t3)
  then show ?thesis
    by (simp only: registry_apply.simps quiet.simps)
      (rule keeps_prod [where q = "\<lambda>r. is_ok r \<or> \<not> snd (expire_proposal (vs_focus (sr_v2 reg)) t2)"],
        erule apply_focus_command_keeps [OF _ wf fresh])
next
  case (R_Claim_Input remote nonce)
  then show ?thesis
    by (simp only: registry_apply.simps quiet.simps)
      (rule keeps_prodT, rule reg_keeps_same_v2 [OF wf], simp_all add: claim_input_fields)
next
  case (R_Claim_Audio remote nonce)
  then show ?thesis
    by (simp only: registry_apply.simps quiet.simps)
      (rule keeps_prodT, rule reg_keeps_same_v2 [OF wf], simp_all add: claim_audio_fields)
next
  case (R_Install_Encoder remote sid ec)
  then show ?thesis
    by (simp only: registry_apply.simps quiet.simps)
      (rule keeps_prodT, rule reg_keeps_same_v2 [OF wf], simp_all add: install_encoder_control_fields)
next
  case (R_Expect_Moq remote sid name b)
  then show ?thesis
    by (simp only: registry_apply.simps quiet.simps)
      (rule keeps_prodT, rule reg_keeps_same_v2 [OF wf], simp_all add: expect_moq_fields)
next
  case (R_Expect_Moq_V2 remote sid name b cap host)
  then show ?thesis
    by (simp only: registry_apply.simps quiet.simps)
      (rule keeps_prodT, rule reg_keeps_same_v2 [OF wf], simp_all add: expect_moq_v2_fields)
next
  case (R_Release_Audio remote sid)
  then show ?thesis using release_audio_fields wf by (simp add: reg_keeps_same_v2)
next
  case (R_Invalidate remote sid reason)
  then show ?thesis
    by (simp only: registry_apply.simps quiet.simps) (rule keeps_prodT, erule invalidate_v2_focus_keeps [OF _ wf fresh])
next
  case (R_Complete tid now)
  then show ?thesis
    by (simp only: registry_apply.simps quiet.simps) (rule keeps_prodT, erule complete_v2_focus_transition_keeps [OF _ wf fresh])
next
  case (R_Expire now)
  then show ?thesis
    by (simp only: registry_apply.simps quiet.simps) (rule keeps_prodT, erule expire_v2_focus_keeps [OF _ wf fresh])
next
  case (R_Authorization m)
  then show ?thesis
    by (simp only: registry_apply.simps quiet.simps) (rule keeps_prodT, erule apply_authorization_mutation_keeps [OF _ wf fresh], use ok in simp)
next
  case (R_Complete_Authorization remote arev tid now)
  then show ?thesis
    by (simp only: registry_apply.simps quiet.simps) (rule keeps_prodT, erule complete_authorization_neutralization_keeps [OF _ wf fresh])
next
  case (R_Claim_Input_V2 remote nonce sid slot gen)
  then show ?thesis
    by (simp only: registry_apply.simps quiet.simps) (rule keeps_prodT, erule claim_input_v2_keeps [OF _ wf])
next
  case (R_Claim_Feedback remote nonce now)
  then show ?thesis
    by (simp only: registry_apply.simps quiet.simps) (rule keeps_prodT, erule claim_feedback_keeps [OF _ wf])
next
  case (R_Claim_Moq c remote now_unix now)
  then show ?thesis
    by (simp only: registry_apply.simps quiet.simps) (rule keeps_prodT, erule claim_moq_at_keeps [OF _ wf])
next
  case (R_Keyframe remote sid now)
  then show ?thesis
    by (simp only: registry_apply.simps quiet.simps) (rule keeps_prodT, erule admit_v2_keyframe_request_keeps(1) [OF _ wf])
next
  case (R_Disconnect remote sid)
  then show ?thesis
    by (simp only: registry_apply.simps quiet.simps) (rule keeps_prodT, erule disconnect_v2_viewer_keeps [OF _ wf fresh], use ok in simp)
qed (use release_keeps(1) [OF wf fresh] release_input_keeps [OF wf fresh] release_feedback_keeps(1) [OF wf] in simp_all)


text \<open>Everything but the two admissions and the release admits nobody.\<close>

fun admission_op :: "registry_op \<Rightarrow> bool" where
  "admission_op (R_Claim remote nonce grants clock) = True"
| "admission_op (R_Claim_V2 remote nonce av now clock) = True"
| "admission_op (R_Release remote sid) = True"
| "admission_op _ = False"

lemma claim_input_calm: "calm reg (fst (claim_input reg remote nonce))"
  by (rule calm_prod, rule calm_same) (simp_all add: claim_input_fields)

lemma claim_audio_calm: "calm reg (fst (claim_audio reg remote nonce))"
  by (rule calm_prod, rule calm_same) (simp_all add: claim_audio_fields)

lemma install_encoder_control_calm: "calm reg (fst (install_encoder_control reg remote sid ec))"
  by (rule calm_prod, rule calm_same) (simp_all add: install_encoder_control_fields)

lemma expect_moq_calm: "calm reg (fst (expect_moq reg remote sid name b))"
  by (rule calm_prod, rule calm_same) (simp_all add: expect_moq_fields)

lemma expect_moq_v2_calm: "calm reg (fst (expect_moq_v2 reg remote sid name b cap host))"
  by (rule calm_prod, rule calm_same) (simp_all add: expect_moq_v2_fields)

lemma release_audio_calm: "calm reg (release_audio reg remote sid)"
  by (rule calm_same) (simp_all add: release_audio_fields)

lemmas op_calm = apply_focus_command_calm invalidate_v2_focus_calm complete_v2_focus_transition_calm
  expire_v2_focus_calm apply_authorization_mutation_calm complete_authorization_neutralization_calm
  claim_input_v2_calm bind_v2_generation_calm claim_feedback_calm claim_moq_at_calm
  admit_v2_keyframe_request_calm disconnect_v2_viewer_calm release_feedback_calm release_input_calm
  claim_input_calm claim_audio_calm install_encoder_control_calm expect_moq_calm expect_moq_v2_calm
  release_audio_calm

lemma registry_apply_calm: "\<not> admission_op op \<Longrightarrow> calm reg (registry_apply op reg)"
  by (cases op) (simp_all add: op_calm)

lemma leases_after_other: "\<not> admission_op op \<Longrightarrow> leases_after op reg ls = ls"
  by (cases op) simp_all

section \<open>The invariant of the runs\<close>

definition lease_inv :: "session_registry \<Rightarrow> (endpoint_id \<times> u64) list \<Rightarrow> bool" where
  "lease_inv reg ls \<longleftrightarrow>
     length ls = vs_live_control_leases (sr_v2 reg) \<and> distinct ls \<and>
     (\<forall>(r, s) \<in> set ls. s \<le> sr_next_session_id reg) \<and>
     sessions (sr_v2 reg) \<subseteq> set ls \<and> (sr_active reg = None \<or> ls = [])"

lemma lease_inv_calm: "lease_inv reg ls \<Longrightarrow> calm reg reg' \<Longrightarrow> lease_inv reg' ls"
  by (auto simp: lease_inv_def calm_def)

lemma focus_ok_new: "focus_ok P C (focus_arbiter_new owner)"
  by (simp add: focus_ok_def focus_arbiter_new_def)

lemma registry_new_wf:
  assumes "session_registry_new m owner = Some reg"
  shows "registry_wf reg" "lease_inv reg []" "snapshots_current (sr_v2 reg)"
  using assms
  by (auto simp: session_registry_new_def registry_wf_def v2_wf_def roster_wf_def roster_def focus_wf_new
      v2_session_state_new_def lease_inv_def sessions_def snapshots_current_def focus_ok_new
      split: if_splits sum.splits)

lemma lease_inv_claim:
  assumes inv: "lease_inv reg ls" and fresh: "not_exhausted reg"
  shows "lease_inv (fst (claim reg remote nonce grants clock)) ls"
proof (cases "claim reg remote nonce grants clock")
  case (Pair reg' r)
  have n: "sr_next_session_id reg \<le> sr_next_session_id reg'"
    using claim_fields(3) [OF Pair] fresh by (simp add: not_exhausted_def)
  have "sr_active reg' = None \<or> ls = []"
    using inv claim_fields(4,5) [OF Pair] by (cases "is_ok r") (auto simp: lease_inv_def)
  with Pair inv claim_fields(1) [OF Pair] n show ?thesis
    by (fastforce simp: lease_inv_def)
qed

lemma lease_inv_claim_v2:
  assumes inv: "lease_inv reg ls" and wf: "registry_wf reg" and fresh: "not_exhausted reg"
  shows "lease_inv (fst (claim_v2_authorized reg remote nonce av now clock))
    (leases_after (R_Claim_V2 remote nonce av now clock) reg ls)"
proof (cases "claim_v2_authorized reg remote nonce av now clock")
  case (Pair reg' r)
  note c = claim_v2_authorized_cases [OF Pair wf fresh]
  show ?thesis
  proof (cases r)
    case (Inl e)
    with c Pair inv show ?thesis by (fastforce simp: lease_inv_def)
  next
    case (Inr lease)
    with c obtain vc where active: "sr_active reg' = None" "sr_active reg = None"
      and l: "vl_remote lease = remote" "sr_next_session_id reg < vl_session_id lease"
        "vl_session_id lease \<le> sr_next_session_id reg'"
      and count: "vs_live_control_leases (sr_v2 reg') = vs_live_control_leases (sr_v2 reg) + 1"
      and ro: "roster (sr_v2 reg') = AList.delete remote (roster (sr_v2 reg)) @ [(remote, vc)]" "vc_session vc = vl_session_id lease"
      by auto
    have "sessions (sr_v2 reg') \<subseteq> insert (remote, vl_session_id lease) (sessions (sr_v2 reg))"
      unfolding sessions_roster ro(1) using ro(2) by (auto simp: AList.delete_eq)
    moreover have "(remote, vl_session_id lease) \<notin> set ls"
      using inv l(2) by (force simp: lease_inv_def)
    moreover have "\<forall>(r, s) \<in> set ls. s \<le> sr_next_session_id reg'"
      using inv l by (fastforce simp: lease_inv_def)
    ultimately show ?thesis
      using inv Pair Inr l active count by (auto simp: lease_inv_def)
  qed
qed

lemma lease_inv_release:
  assumes inv: "lease_inv reg ls" and wf: "registry_wf reg" and fresh: "not_exhausted reg"
    and ok: "(remote, sid) \<in> set ls \<or> legacy_session reg (occupied_by remote sid) \<noteq> None"
  shows "lease_inv (release reg remote sid) (remove1 (remote, sid) ls)"
proof (cases "legacy_session reg (occupied_by remote sid)")
  case None
  then have mem: "(remote, sid) \<in> set ls" using ok by simp
  note k = release_keeps(2) [OF wf fresh None]
  have n: "sr_next_session_id (release reg remote sid) = sr_next_session_id reg"
    using None by (auto simp: release_def Let_def release_v2_viewer_def split: option.splits)
  have "sessions (sr_v2 (release reg remote sid)) \<subseteq> sessions (sr_v2 reg) - {(remote, sid)}"
    unfolding sessions_roster using k by auto
  moreover have "set (remove1 (remote, sid) ls) = set ls - {(remote, sid)}"
    using inv by (simp add: lease_inv_def)
  moreover have "length (remove1 (remote, sid) ls) = length ls - 1"
    using mem by (simp add: length_remove1)
  ultimately show ?thesis
    using inv k n mem by (auto simp: lease_inv_def)
next
  case (Some s)
  then have "sr_active reg \<noteq> None" by (auto simp: legacy_session_def split: option.splits)
  then have "ls = []" using inv by (auto simp: lease_inv_def)
  with inv release_keeps(3) [OF wf fresh] Some show ?thesis by (simp add: lease_inv_def)
qed

lemma registry_run_inv: "registry_run reg ls \<Longrightarrow> registry_wf reg \<and> lease_inv reg ls"
proof (induction rule: registry_run.induct)
  case (registry_start m owner reg)
  then show ?case by (simp add: registry_new_wf)
next
  case (registry_step reg ls op)
  then have wf: "registry_wf reg" and inv: "lease_inv reg ls" and fresh: "not_exhausted reg"
    and ok: "registry_op_ok op reg ls" by auto
  have "registry_wf (registry_apply op reg)"
    by (rule reg_keeps_wf [OF registry_apply_keeps [OF wf fresh ok] wf])
  moreover have "lease_inv (registry_apply op reg) (leases_after op reg ls)"
  proof (cases "admission_op op")
    case False
    then show ?thesis
      using lease_inv_calm [OF inv registry_apply_calm [OF False]] by (simp add: leases_after_other)
  next
    case True
    then show ?thesis
      using lease_inv_claim [OF inv fresh] lease_inv_claim_v2 [OF inv wf fresh] lease_inv_release [OF inv wf fresh] ok
      by (cases op) auto
  qed
  ultimately show ?case ..
qed

end
