(* ===== verification/Session_Demo.thy ===== *)
theory Session_Demo
  imports Session_Runs Focus_Properties
begin

text \<open>
  The functional behaviour of an accepted focus command and of an admission, and a concrete run of
  the session registry that the examples of \<open>Session_Properties\<close> use: two viewers connect, the
  first is granted the focus, the second asks for it.
\<close>

section \<open>Functional behaviour of the operations the runs use most\<close>

text \<open>Publishing changes nothing but the channels; the rest of the viewers is \<open>plain\<close>.\<close>

definition plain :: "v2_session_state \<Rightarrow> (endpoint_id \<times> v2_viewer_session) list" where
  "plain st = map (\<lambda>(p, v). (p, v\<lparr>vv_snapshots := None\<rparr>)) (vs_viewers st)"

lemma publish_loop_plain:
  "map (\<lambda>(p, v). (p, v\<lparr>vv_snapshots := None\<rparr>)) (fst (publish_loop st vs)) =
   map (\<lambda>(p, v). (p, v\<lparr>vv_snapshots := None\<rparr>)) vs"
proof (induction vs)
  case (Cons e vs)
  then show ?case
    by (cases e; cases "publish_loop st vs") (auto split: sum.splits)
qed simp

lemma advance_publish_plain: "plain (fst (advance_and_publish st)) = plain st"
proof -
  have "plain (fst (publish_v2_snapshots st)) = plain st" for st
    using publish_loop_plain [of st "vs_viewers st"]
    by (cases "publish_loop st (vs_viewers st)") (simp add: publish_v2_snapshots_def plain_def)
  from this [of "st\<lparr>vs_revision := r\<rparr>" for r] show ?thesis
    by (auto simp: advance_and_publish_def advance_v2_revision_def plain_def split: option.splits)
qed

text \<open>
  The registry's focus command is the arbiter's operation on the focus, followed by one new
  revision and a publication.
\<close>

lemma focus_command_applied:
  assumes wf: "registry_wf reg" and fresh: "not_exhausted reg"
    and cmd: "focus_command_validate command = Inr ()"
    and v: "active_viewer (sr_v2 reg) remote sid = Some v"
    and rev: "fc_expected_revision command = vs_revision (sr_v2 reg)"
    and rate: "check_rate_limit (vs_focus (sr_v2 reg)) \<lparr>cand_presence_id = vv_presence_id v, cand_session_id = sid\<rparr> t1 = (fa, Inr ())"
    and d: "focus_dispatch fa v \<lparr>cand_presence_id = vv_presence_id v, cand_session_id = sid\<rparr> command t2 t3 = (fb, Inr m)"
  shows "\<exists>reg' effect. apply_focus_command reg remote sid command t1 t2 t3 = (reg', Inr effect) \<and>
     fe_neutralization effect = fm_neutralization m \<and> vs_focus (sr_v2 reg') = fb \<and>
     roster (sr_v2 reg') = roster (sr_v2 reg) \<and> vs_revision (sr_v2 reg') = vs_revision (sr_v2 reg) + 1 \<and>
     vs_live_control_leases (sr_v2 reg') = vs_live_control_leases (sr_v2 reg) \<and>
     ss_focus (fe_snapshot effect) = fa_state fb \<and> plain (sr_v2 reg') = plain (sr_v2 reg) \<and>
     vs_media (sr_v2 reg') = vs_media (sr_v2 reg) \<and> sr_active reg' = sr_active reg \<and>
     sr_next_session_id reg' = sr_next_session_id reg"
proof -
  note w = registry_wf_v2 [OF wf]
  let ?st = "sr_v2 reg" and ?n = "sr_next_session_id reg" and ?m = "sr_max_viewers reg"
  let ?c = "\<lparr>cand_presence_id = vv_presence_id v, cand_session_id = sid\<rparr>"
  have vm: "map_of (vs_viewers ?st) remote = Some v" "as_session_id (vv_session v) = sid"
    using v by (simp_all add: active_viewer_Some)
  have c: "cand_ok ?c"
    using viewer_cand_ok [OF w(1) vm(1)] vm(2) by simp
  have fa: "focus_wf fa" "focus_ok (members (roster ?st)) (capable_members (roster ?st)) fa"
    using check_rate_limit_wf [OF rate] check_rate_limit_ok [OF rate] w by simp_all
  have fb: "focus_wf fb" "focus_ok (members (roster ?st)) (capable_members (roster ?st)) fb" "fm_changed m"
    using focus_dispatch_ok [OF d fa c] viewer_in_members [OF vm(1)] vm(2) by auto
  obtain st2 rp where p: "advance_and_publish (?st\<lparr>vs_focus := fb\<rparr>) = (st2, rp)" by fastforce
  note pub = advance_publish_inv [OF base_focus [OF w(1) fb(1,2)] w(2) _ p]
  have pub': "rp = Inr ()" "v2_inv ?n ?m st2" "roster st2 = roster ?st" "vs_focus st2 = fb"
    "vs_revision st2 = vs_revision ?st + 1" "vs_live_control_leases st2 = vs_live_control_leases ?st"
    "vs_media st2 = vs_media ?st"
    using pub fresh by (simp_all add: not_exhausted_def)
  have pl: "plain st2 = plain ?st"
    using advance_publish_plain [of "?st\<lparr>vs_focus := fb\<rparr>"] p by (simp add: plain_def)
  have "map_of (roster st2) remote \<noteq> None"
    unfolding pub'(3) using vm(1) by (simp add: map_of_roster)
  then obtain v2 where v2: "map_of (vs_viewers st2) remote = Some v2"
    by (auto simp: map_of_roster)
  have snap: "v2_snapshot_for st2 remote = Inr (v2_snapshot_of st2 remote v2)"
    using v2_snapshot_valid [of ?n ?m st2 remote v2] pub'(2) w(2) v2
    by (simp add: v2_snapshot_for_def v2_inv_def flip: snapshot_validate_ok [where u = "()"])
  have "apply_focus_command reg remote sid command t1 t2 t3 =
      (reg\<lparr>sr_v2 := st2\<rparr>, Inr \<lparr>fe_snapshot = v2_snapshot_of st2 remote v2, fe_neutralization = fm_neutralization m\<rparr>)"
    using cmd v rev rate d fb(3) p pub'(1) snap
    by (simp add: apply_focus_command_def with_v2_def publish_if_def)
  then show ?thesis
    using pub' pl by (simp add: v2_snapshot_of_def)
qed

lemma viewer_of_roster:
  assumes "registry_wf reg" "(p, c) \<in> set (roster (sr_v2 reg))"
  shows "\<exists>v. map_of (vs_viewers (sr_v2 reg)) p = Some v \<and> core v = c \<and>
     active_viewer (sr_v2 reg) p (vc_session c) = Some v"
proof -
  have d: "distinct (map fst (roster (sr_v2 reg)))" and e: "entry_ok (sr_next_session_id reg) (p, c)"
    using assms by (auto simp: registry_wf_def v2_wf_def roster_wf_def)
  have "map_of (roster (sr_v2 reg)) p = Some c"
    using d assms(2) by (rule map_of_is_SomeI)
  then obtain v where "map_of (vs_viewers (sr_v2 reg)) p = Some v" "core v = c"
    by (auto simp: map_of_roster)
  moreover from this e have "as_media_active (vv_session v)" "as_session_id (vv_session v) = vc_session c"
    by (auto simp: entry_ok_def)
  ultimately show ?thesis
    by (auto simp: active_viewer_Some)
qed

lemma claim_v2_plain:
  assumes "claim_v2_authorized reg remote nonce av now clock = (reg', Inr lease)"
    "map_of (vs_viewers (sr_v2 reg)) remote = None"
  shows "\<exists>v. plain (sr_v2 reg') = plain (sr_v2 reg) @ [(remote, v)] \<and> \<not> vv_authorization_neutralizing v \<and>
     as_authorization_revision (vv_session v) = av_authorization_revision av \<and>
     as_viewer_handle (vv_session v) = Some (av_handle av) \<and> as_grants (vv_session v) = av_grants av \<and>
     vv_rates v = viewer_rate_limits_default"
proof -
  have new: "remote \<notin> fst ` set (vs_viewers (sr_v2 reg))"
    using assms(2) by (simp add: map_of_eq_None_iff)
  have ins: "claim_v2_insert st remote pid s = (st', Inr snap) \<Longrightarrow> vs_viewers st = vs_viewers (sr_v2 reg) \<Longrightarrow>
     \<exists>v. plain st' = plain (sr_v2 reg) @ [(remote, v)] \<and> \<not> vv_authorization_neutralizing v \<and> vv_session v = s \<and>
       vv_rates v = viewer_rate_limits_default"
    for st pid s st' snap
    using new advance_publish_plain [of "st\<lparr>vs_viewers := AList.update remote \<lparr>vv_session = s, vv_presence_id = pid,
        vv_authorization_neutralizing = False, vv_snapshots = None, vv_rates = viewer_rate_limits_default\<rparr> (vs_viewers st),
        vs_live_control_leases := vs_live_control_leases st + 1\<rparr>"]
    by (cases "advance_and_publish (st\<lparr>vs_viewers := AList.update remote \<lparr>vv_session = s, vv_presence_id = pid,
        vv_authorization_neutralizing = False, vv_snapshots = None, vv_rates = viewer_rate_limits_default\<rparr> (vs_viewers st),
        vs_live_control_leases := vs_live_control_leases st + 1\<rparr>)")
      (auto simp: claim_v2_insert_def Let_def bind_op_def plain_def AList_update_new split: if_splits sum.splits)
  obtain reg1 ra where rate: "check_admission_rate reg remote now = (reg1, ra)" by fastforce
  have same: "sr_v2 reg1 = sr_v2 reg"
    using rate_limits_fields(1) [of reg remote now] rate by simp
  from assms(1) rate same assms(2) obtain st media pid sid st' snap where
    i: "claim_v2_insert st remote pid (v2_session_new remote sid nonce clock media av) = (st', Inr snap)"
      "vs_viewers st = vs_viewers (sr_v2 reg)" "sr_v2 reg' = st'"
    by (cases ra) (auto simp: claim_v2_authorized_def Let_def with_v2_eq claim_v2_replace_def bind_op_def
        split: sum.splits if_splits prod.splits)
  from ins [OF i(1,2)] i(3) show ?thesis
    by (auto simp: v2_session_new_def)
qed

section \<open>A concrete run\<close>

text \<open>
  Two viewers with all permissions connect to a host for three, the first is granted the focus, the
  second asks for it.
\<close>

definition demo_viewer :: "string \<Rightarrow> authorized_viewer" where
  "demo_viewer handle = \<lparr>av_handle = handle, av_grants = GRANT_ALL, av_authorization_revision = 1,
     av_committed_revision = 1\<rparr>"

definition demo_new :: session_registry where
  "demo_new = \<lparr>sr_active = None, sr_pending_moq = [], sr_max_viewers = 3, sr_next_session_id = 0,
     sr_authorization_committed_revision = 1, sr_admission_rates = [], sr_v2 = v2_session_state_new None\<rparr>"

definition demo_request :: "u64 \<Rightarrow> focus_command_v2" where
  "demo_request revision = \<lparr>fc_request_id = 1, fc_action = Request, fc_slot = SLOT_ZERO,
     fc_expected_revision = revision, fc_expected_focus_generation = None, fc_expected_proposal_id = None\<rparr>"

definition demo_claim_one :: registry_op where
  "demo_claim_one = R_Claim_V2 [1] [7] (demo_viewer ''viewer-1'') 0 0"

definition demo_claim_two :: registry_op where
  "demo_claim_two = R_Claim_V2 [2] [8] (demo_viewer ''viewer-2'') 0 0"

definition demo_one :: session_registry where "demo_one = registry_apply demo_claim_one demo_new"
definition demo_two :: session_registry where "demo_two = registry_apply demo_claim_two demo_one"

definition demo_owner :: session_registry where
  "demo_owner = registry_apply (R_Focus [1] 1 (demo_request 2) 0 0 0) demo_two"

definition demo_asked :: session_registry where
  "demo_asked = registry_apply (R_Focus [2] 2 (demo_request 3) 0 1 0) demo_owner"

lemma demo_new_start: "session_registry_new 3 None = Some demo_new"
  by (simp add: session_registry_new_def demo_new_def MAX_VIEWERS_def)

lemma demo_new_v2 [simp]: "sr_v2 demo_new = v2_session_state_new None"
  by (simp add: demo_new_def)

lemma demo_grants: "grants_validate GRANT_ALL = Inr ()" "grants_contains GRANT_ALL GRANT_VIEW"
  "input_capable_grants GRANT_ALL"
  by (simp_all add: grants_validate_def grants_new_def GRANT_ALL_def GRANT_VIEW_def grants_contains_def
      input_capable_grants_def GRANT_POINTER_KEYBOARD_def)

lemma demo_presence:
  "presence_new ''viewer-1'' = Inr (ViewerPresenceId ''viewer-1'')"
  "presence_new ''viewer-2'' = Inr (ViewerPresenceId ''viewer-2'')"
  by (simp_all add: presence_new_def MAX_PRESENCE_ID_LEN_def is_ascii_alphanumeric_def)

lemma demo_rates:
  "sr_admission_rates reg = [] \<Longrightarrow> check_admission_rate reg p 0 =
     (reg\<lparr>sr_admission_rates := [(p, \<lparr>rw_events = [0], rw_last_seen = Some 0\<rparr>)]\<rparr>, Inr ())"
  "sr_admission_rates reg = [(p, \<lparr>rw_events = [0], rw_last_seen = Some 0\<rparr>)] \<Longrightarrow> q \<noteq> p \<Longrightarrow>
     snd (check_admission_rate reg q 0) = Inr ()"
  by (simp_all add: check_admission_rate_def rate_window_check_def rate_window_default_def rate_window_expired_def
      MAX_ADMISSIONS_PER_WINDOW_def MAX_TRACKED_ADMISSION_PEERS_def MAX_VIEWERS_def ADMISSION_RATE_WINDOW_def
      from_secs_def)

definition demo_core :: "endpoint_id \<Rightarrow> u64 \<Rightarrow> string \<Rightarrow> viewer_core \<Rightarrow> bool" where
  "demo_core p sid handle c \<longleftrightarrow>
     vc_session c = sid \<and> vc_presence c = ViewerPresenceId handle \<and> vc_capable c"

definition demo_plain :: "endpoint_id \<Rightarrow> v2_viewer_session \<Rightarrow> bool" where
  "demo_plain p v \<longleftrightarrow> \<not> vv_authorization_neutralizing v \<and> as_authorization_revision (vv_session v) = 1 \<and>
     as_viewer_handle (vv_session v) = Some (if p = [1] then ''viewer-1'' else ''viewer-2'') \<and>
     as_grants (vv_session v) = GRANT_ALL \<and> vv_rates v = viewer_rate_limits_default"

lemma demo_new_fresh: "not_exhausted demo_new"
  by (simp add: not_exhausted_def demo_new_def v2_session_state_new_def focus_arbiter_new_def)

lemma demo_one_facts:
  "registry_run demo_one [([1], 1)] \<and> not_exhausted demo_one \<and> sr_active demo_one = None \<and>
   sr_max_viewers demo_one = 3 \<and> sr_next_session_id demo_one = 1 \<and>
   sr_authorization_committed_revision demo_one = 1 \<and> vs_revision (sr_v2 demo_one) = 1 \<and>
   vs_focus (sr_v2 demo_one) = focus_arbiter_new None \<and> vs_live_control_leases (sr_v2 demo_one) = 1 \<and>
   sr_admission_rates demo_one \<in> {[], [([1], \<lparr>rw_events = [0], rw_last_seen = Some 0\<rparr>)]} \<and>
   vs_media (sr_v2 demo_one) = None \<and> (\<forall>(p, v) \<in> set (plain (sr_v2 demo_one)). demo_plain p v) \<and>
   (\<exists>c. roster (sr_v2 demo_one) = [([1], c)] \<and> demo_core [1] 1 ''viewer-1'' c)"
proof -
  have run: "registry_run demo_new []"
    by (rule registry_start [OF demo_new_start])
  have wf: "registry_wf demo_new"
    using registry_run_inv [OF run] by simp
  obtain reg' r where c: "claim_v2_authorized demo_new [1] [7] (demo_viewer ''viewer-1'') 0 0 = (reg', r)" by fastforce
  have adm: "admissible demo_new [1] (demo_viewer ''viewer-1'') 0"
    using demo_rates(1) [of demo_new "[1]"]
    by (simp add: admissible_def demo_viewer_def demo_grants demo_presence v2_session_state_new_def)
      (simp add: demo_new_def)
  note cases = claim_v2_authorized_cases [OF c wf demo_new_fresh]
  obtain lease where r: "r = Inr lease"
    using cases adm by (cases r) auto
  have one: "reg' = demo_one" "leases_after demo_claim_one demo_new [] = [([1], 1)]"
    using c r cases by (simp_all add: demo_one_def demo_claim_one_def demo_new_def)
  have "registry_run demo_one [([1], 1)]"
    using registry_step [OF run demo_new_fresh, of demo_claim_one] one
    by (simp add: demo_one_def) (simp add: demo_claim_one_def)
  moreover have "\<forall>(p, v) \<in> set (plain (sr_v2 demo_one)). demo_plain p v"
    using claim_v2_plain [OF c [unfolded r]] one(1)
    by (auto simp: demo_plain_def demo_viewer_def v2_session_state_new_def plain_def)
  ultimately show ?thesis
    using cases r one demo_rates(1) [of demo_new "[1]"]
    by (auto simp: reg_keeps_def demo_new_def v2_session_state_new_def demo_viewer_def demo_presence demo_grants demo_core_def
        roster_def not_exhausted_def focus_arbiter_new_def)
qed

lemma demo_two_facts:
  "registry_run demo_two [([2], 2), ([1], 1)] \<and> not_exhausted demo_two \<and> sr_active demo_two = None \<and>
   sr_max_viewers demo_two = 3 \<and> sr_next_session_id demo_two = 2 \<and> vs_revision (sr_v2 demo_two) = 2 \<and>
   vs_focus (sr_v2 demo_two) = focus_arbiter_new None \<and> vs_live_control_leases (sr_v2 demo_two) = 2 \<and>
   vs_media (sr_v2 demo_two) = None \<and> (\<forall>(p, v) \<in> set (plain (sr_v2 demo_two)). demo_plain p v) \<and>
   (\<exists>c1 c2. roster (sr_v2 demo_two) = [([1], c1), ([2], c2)] \<and> demo_core [1] 1 ''viewer-1'' c1 \<and>
      demo_core [2] 2 ''viewer-2'' c2)"
proof -
  note one = demo_one_facts
  have run: "registry_run demo_one [([1], 1)]" and fresh: "not_exhausted demo_one"
    using one by simp_all
  have wf: "registry_wf demo_one"
    using registry_run_inv [OF run] by simp
  obtain c1 where ro: "roster (sr_v2 demo_one) = [([1], c1)]" "demo_core [1] 1 ''viewer-1'' c1"
    using one by auto
  then obtain v1 where v1: "vs_viewers (sr_v2 demo_one) = [([1], v1)]" "core v1 = c1"
    by (auto simp: roster_def)
  have p1: "vv_presence_id v1 = ViewerPresenceId ''viewer-1''"
    using ro(2) v1(2) by (auto simp: demo_core_def)
  obtain reg' r where c: "claim_v2_authorized demo_one [2] [8] (demo_viewer ''viewer-2'') 0 0 = (reg', r)" by fastforce
  have rate: "snd (check_admission_rate demo_one [2] 0) = Inr ()"
    using one demo_rates(1) [of demo_one "[2]"] demo_rates(2) [of demo_one "[1]" "[2]"] by auto
  have adm: "admissible demo_one [2] (demo_viewer ''viewer-2'') 0"
    using one v1(1) rate
    by (simp add: admissible_def demo_viewer_def demo_grants demo_presence p1)
  note cases = claim_v2_authorized_cases [OF c wf fresh]
  obtain lease where r: "r = Inr lease"
    using cases adm by (cases r) auto
  have two: "reg' = demo_two" "leases_after demo_claim_two demo_one [([1], 1)] = [([2], 2), ([1], 1)]"
    using c r cases one by (simp_all add: demo_two_def demo_claim_two_def)
  have "registry_run demo_two [([2], 2), ([1], 1)]"
    using registry_step [OF run fresh, of demo_claim_two] two
    by (simp add: demo_two_def) (simp add: demo_claim_two_def)
  moreover have "\<forall>(p, v) \<in> set (plain (sr_v2 demo_two)). demo_plain p v"
    using claim_v2_plain [OF c [unfolded r]] two(1) v1(1) one
    by (auto simp: demo_plain_def demo_viewer_def)
  ultimately show ?thesis using cases r two one ro v1
    by (auto simp: reg_keeps_def demo_viewer_def demo_presence demo_grants demo_core_def
        not_exhausted_def focus_arbiter_new_def AList.delete_eq)
qed


definition demo_owner_focus :: focus_arbiter where
  "demo_owner_focus =
     fst (focus_request (fst (check_rate_limit (focus_arbiter_new None)
       \<lparr>cand_presence_id = ViewerPresenceId ''viewer-1'', cand_session_id = 1\<rparr> 0))
       \<lparr>cand_presence_id = ViewerPresenceId ''viewer-1'', cand_session_id = 1\<rparr> 0 0)"

definition demo_asked_focus :: focus_arbiter where
  "demo_asked_focus =
     fst (focus_request (fst (check_rate_limit demo_owner_focus
       \<lparr>cand_presence_id = ViewerPresenceId ''viewer-2'', cand_session_id = 2\<rparr> 0))
       \<lparr>cand_presence_id = ViewerPresenceId ''viewer-2'', cand_session_id = 2\<rparr> 1 0)"

lemma demo_owner_focus_eq: "demo_owner_focus =
  (focus_arbiter_new None)\<lparr>fa_command_times := [((ViewerPresenceId ''viewer-1'', 1), [0])],
    fa_state := Held SLOT_ZERO (ViewerPresenceId ''viewer-1'') 1 1, fa_transition_reason := Requested,
    fa_activation := Some \<lparr>ad_presence_id = ViewerPresenceId ''viewer-1'', ad_session_id = 1,
      ad_focus_generation = 1, ad_deadline = FOCUS_ACTIVATION_TTL\<rparr>, fa_next_focus_generation := 1\<rparr>"
  by (simp add: demo_owner_focus_def check_rate_limit_def focus_request_def expire_proposal_def
      focus_arbiter_new_def grant_def MAX_FOCUS_COMMANDS_PER_WINDOW_def)

lemma demo_asked_focus_eq: "demo_asked_focus =
  demo_owner_focus\<lparr>fa_command_times := [((ViewerPresenceId ''viewer-1'', 1), [0]), ((ViewerPresenceId ''viewer-2'', 2), [0])],
    fa_proposal := Some \<lparr>fp_proposal_id = 1, fp_slot = SLOT_ZERO,
       fp_requester = ViewerPresenceId ''viewer-2'', fp_requester_session_id = 2,
       fp_holder = ViewerPresenceId ''viewer-1'', fp_holder_session_id = 1, fp_expires_at_unix_ms = 15000\<rparr>,
    fa_proposal_deadline := Some (1 + FOCUS_PROPOSAL_TTL), fa_next_proposal_id := 1,
    fa_transition_reason := HandoffRequested\<rparr>"
  by (simp add: demo_asked_focus_def demo_owner_focus_eq check_rate_limit_def focus_request_def expire_proposal_def
      focus_arbiter_new_def MAX_FOCUS_COMMANDS_PER_WINDOW_def)

lemma demo_request_valid: "r \<noteq> 0 \<Longrightarrow> focus_command_validate (demo_request r) = Inr ()"
  by (simp add: focus_command_validate_def demo_request_def nonzero_option_def)

text \<open>A request of an eligible viewer in a state of the run.\<close>

lemma demo_focus_step:
  assumes run: "registry_run reg ls" and fresh: "not_exhausted reg"
    and c: "(p, c) \<in> set (roster (sr_v2 reg))" "demo_core p sid handle c"
    and idle: "\<forall>(p, v) \<in> set (plain (sr_v2 reg)). demo_plain p v"
    and rev: "vs_revision (sr_v2 reg) = r" "r \<noteq> 0"
    and cand: "cand = \<lparr>cand_presence_id = ViewerPresenceId handle, cand_session_id = sid\<rparr>"
    and rate: "check_rate_limit (vs_focus (sr_v2 reg)) cand 0 = (fa, Inr ())"
    and req: "focus_request fa cand t 0 = (fb, Inr m)"
  shows "\<exists>reg' effect. apply_focus_command reg p sid (demo_request r) 0 t 0 = (reg', Inr effect) \<and>
     registry_run reg' ls \<and> plain (sr_v2 reg') = plain (sr_v2 reg) \<and> vs_media (sr_v2 reg') = vs_media (sr_v2 reg) \<and>
     sr_active reg' = sr_active reg \<and> sr_next_session_id reg' = sr_next_session_id reg \<and>
     vs_focus (sr_v2 reg') = fb \<and> roster (sr_v2 reg') = roster (sr_v2 reg) \<and>
     vs_revision (sr_v2 reg') = r + 1 \<and> vs_live_control_leases (sr_v2 reg') = vs_live_control_leases (sr_v2 reg)"
proof -
  have wf: "registry_wf reg" using registry_run_inv [OF run] by simp
  obtain v where v: "map_of (vs_viewers (sr_v2 reg)) p = Some v" "core v = c"
    "active_viewer (sr_v2 reg) p (vc_session c) = Some v"
    using viewer_of_roster [OF wf c(1)] by auto
  have pid: "vv_presence_id v = ViewerPresenceId handle" "input_capable_grants (as_grants (vv_session v))"
    using v(2) c(2) by (auto simp: demo_core_def)
  have "(p, v\<lparr>vv_snapshots := None\<rparr>) \<in> set (plain (sr_v2 reg))"
    using map_of_SomeD [OF v(1)] by (force simp: plain_def)
  then have quiet_v: "\<not> vv_authorization_neutralizing v"
    using idle by (auto simp: demo_plain_def)
  have d: "focus_dispatch fa v cand (demo_request r) t 0 = (fb, Inr m)"
    using req pid(2) quiet_v by (simp add: focus_dispatch_def demo_request_def input_eligible_def)
  have av: "active_viewer (sr_v2 reg) p sid = Some v"
    using v(3) c(2) by (simp add: demo_core_def)
  have cr: "\<lparr>cand_presence_id = vv_presence_id v, cand_session_id = sid\<rparr> = cand"
    by (simp add: cand pid(1))
  obtain reg' effect where a: "apply_focus_command reg p sid (demo_request r) 0 t 0 = (reg', Inr effect)"
    "vs_focus (sr_v2 reg') = fb" "roster (sr_v2 reg') = roster (sr_v2 reg)" "vs_revision (sr_v2 reg') = r + 1"
    "vs_live_control_leases (sr_v2 reg') = vs_live_control_leases (sr_v2 reg)"
    "plain (sr_v2 reg') = plain (sr_v2 reg)" "vs_media (sr_v2 reg') = vs_media (sr_v2 reg)"
    "sr_active reg' = sr_active reg" "sr_next_session_id reg' = sr_next_session_id reg"
    using focus_command_applied [OF wf fresh demo_request_valid [OF rev(2)] av _ rate [folded cr] d [folded cr]] rev
    by (auto simp: demo_request_def)
  have "registry_run reg' ls"
    using registry_step [OF run fresh, of "R_Focus p sid (demo_request r) 0 t 0"] a(1) by simp
  with a show ?thesis by blast
qed


lemma demo_owner_facts:
  "registry_run demo_owner [([2], 2), ([1], 1)] \<and> not_exhausted demo_owner \<and> sr_active demo_owner = None \<and>
   vs_revision (sr_v2 demo_owner) = 3 \<and> vs_focus (sr_v2 demo_owner) = demo_owner_focus \<and>
   vs_live_control_leases (sr_v2 demo_owner) = 2 \<and> vs_media (sr_v2 demo_owner) = None \<and>
   sr_next_session_id demo_owner = 2 \<and>
   (\<forall>(p, v) \<in> set (plain (sr_v2 demo_owner)). demo_plain p v) \<and>
   (\<exists>c1 c2. roster (sr_v2 demo_owner) = [([1], c1), ([2], c2)] \<and> demo_core [1] 1 ''viewer-1'' c1 \<and>
      demo_core [2] 2 ''viewer-2'' c2)"
proof -
  note two = demo_two_facts
  let ?cand = "\<lparr>cand_presence_id = ViewerPresenceId ''viewer-1'', cand_session_id = 1\<rparr>"
  obtain c1 c2 where ro: "roster (sr_v2 demo_two) = [([1], c1), ([2], c2)]" "demo_core [1] 1 ''viewer-1'' c1"
    "demo_core [2] 2 ''viewer-2'' c2" using two by blast
  obtain fa where rate: "check_rate_limit (vs_focus (sr_v2 demo_two)) ?cand 0 = (fa, Inr ())"
    using two by (simp add: check_rate_limit_def focus_arbiter_new_def MAX_FOCUS_COMMANDS_PER_WINDOW_def)
  obtain m where req: "focus_request fa ?cand 0 0 = (demo_owner_focus, Inr m)"
    using two rate
    by (auto simp: demo_owner_focus_def check_rate_limit_def focus_request_def expire_proposal_def
        focus_arbiter_new_def grant_def MAX_FOCUS_COMMANDS_PER_WINDOW_def)
  have "\<exists>reg' effect. apply_focus_command demo_two [1] 1 (demo_request 2) 0 0 0 = (reg', Inr effect) \<and>
     registry_run reg' [([2], 2), ([1], 1)] \<and> plain (sr_v2 reg') = plain (sr_v2 demo_two) \<and> vs_media (sr_v2 reg') = vs_media (sr_v2 demo_two) \<and>
     sr_active reg' = sr_active demo_two \<and> sr_next_session_id reg' = sr_next_session_id demo_two \<and>
     vs_focus (sr_v2 reg') = demo_owner_focus \<and> roster (sr_v2 reg') = roster (sr_v2 demo_two) \<and>
     vs_revision (sr_v2 reg') = 2 + 1 \<and> vs_live_control_leases (sr_v2 reg') = vs_live_control_leases (sr_v2 demo_two)"
    by (rule demo_focus_step [OF _ _ _ ro(2) _ _ _ HOL.refl rate req]) (use two ro in simp_all)
  then show ?thesis
    using two ro by (auto simp: demo_owner_def not_exhausted_def demo_owner_focus_eq focus_arbiter_new_def)
qed

lemma demo_asked_facts:
  "registry_run demo_asked [([2], 2), ([1], 1)] \<and> not_exhausted demo_asked \<and> sr_active demo_asked = None \<and>
   vs_revision (sr_v2 demo_asked) = 4 \<and> vs_focus (sr_v2 demo_asked) = demo_asked_focus \<and>
   vs_live_control_leases (sr_v2 demo_asked) = 2 \<and> vs_media (sr_v2 demo_asked) = None \<and>
   sr_next_session_id demo_asked = 2 \<and>
   (\<forall>(p, v) \<in> set (plain (sr_v2 demo_asked)). demo_plain p v) \<and>
   (\<exists>c1 c2. roster (sr_v2 demo_asked) = [([1], c1), ([2], c2)] \<and> demo_core [1] 1 ''viewer-1'' c1 \<and>
      demo_core [2] 2 ''viewer-2'' c2)"
proof -
  note owner = demo_owner_facts
  let ?cand = "\<lparr>cand_presence_id = ViewerPresenceId ''viewer-2'', cand_session_id = 2\<rparr>"
  obtain c1 c2 where ro: "roster (sr_v2 demo_owner) = [([1], c1), ([2], c2)]" "demo_core [1] 1 ''viewer-1'' c1"
    "demo_core [2] 2 ''viewer-2'' c2" using owner by blast
  obtain fa where rate: "check_rate_limit (vs_focus (sr_v2 demo_owner)) ?cand 0 = (fa, Inr ())"
    using owner by (simp add: check_rate_limit_def demo_owner_focus_eq focus_arbiter_new_def MAX_FOCUS_COMMANDS_PER_WINDOW_def)
  obtain m where req: "focus_request fa ?cand 1 0 = (demo_asked_focus, Inr m)"
    using owner rate
    by (auto simp: demo_asked_focus_def demo_owner_focus_eq check_rate_limit_def focus_request_def expire_proposal_def
        focus_arbiter_new_def MAX_FOCUS_COMMANDS_PER_WINDOW_def)
  have "\<exists>reg' effect. apply_focus_command demo_owner [2] 2 (demo_request 3) 0 1 0 = (reg', Inr effect) \<and>
     registry_run reg' [([2], 2), ([1], 1)] \<and> plain (sr_v2 reg') = plain (sr_v2 demo_owner) \<and> vs_media (sr_v2 reg') = vs_media (sr_v2 demo_owner) \<and>
     sr_active reg' = sr_active demo_owner \<and> sr_next_session_id reg' = sr_next_session_id demo_owner \<and>
     vs_focus (sr_v2 reg') = demo_asked_focus \<and> roster (sr_v2 reg') = roster (sr_v2 demo_owner) \<and>
     vs_revision (sr_v2 reg') = 3 + 1 \<and> vs_live_control_leases (sr_v2 reg') = vs_live_control_leases (sr_v2 demo_owner)"
    by (rule demo_focus_step [OF _ _ _ ro(3) _ _ _ HOL.refl rate req]) (use owner ro in simp_all)
  then show ?thesis
    using owner ro by (auto simp: demo_asked_def not_exhausted_def demo_asked_focus_eq demo_owner_focus_eq focus_arbiter_new_def)
qed

end
