(* ===== verification/Session_Access.thy ===== *)
theory Session_Access
  imports Session_Demo
begin

text \<open>
  Access to a host over the session registry: who is admitted, what a revocation takes away, what
  an attachment has to show, how long a legacy session keeps its slot; and three situations in
  which the registry does not do what it means to do.
\<close>

section \<open>Admission\<close>

lemma admission_table_step:
  assumes "length (sr_admission_rates reg) \<le> MAX_TRACKED_ADMISSION_PEERS"
  shows "length (sr_admission_rates (fst (check_admission_rate reg remote now))) \<le> MAX_TRACKED_ADMISSION_PEERS"
proof -
  define rates where "rates = filter (\<lambda>(peer, rate). \<not> rate_window_expired rate now ADMISSION_RATE_WINDOW) (sr_admission_rates reg)"
  have "length rates \<le> MAX_TRACKED_ADMISSION_PEERS"
    unfolding rates_def using assms length_filter_le le_trans by blast
  then show ?thesis
    by (auto simp: check_admission_rate_def rates_def [symmetric] Let_def length_update map_of_eq_None_iff
        split: prod.splits)
qed

text \<open>
  The table of admission rates never grows beyond its bound, however many peers knock: after
  any sequence of admission checks of any peers it holds at most 32 of them.
\<close>

theorem admission_table_bounded:
  assumes "length (sr_admission_rates reg) \<le> MAX_TRACKED_ADMISSION_PEERS"
  shows "length (sr_admission_rates (fold (\<lambda>(peer, now) r. fst (check_admission_rate r peer now)) knocks reg)) \<le> 32"
  using assms
proof (induction knocks arbitrary: reg)
  case Nil
  then show ?case by (simp add: MAX_TRACKED_ADMISSION_PEERS_def MAX_VIEWERS_def)
next
  case (Cons k knocks)
  then show ?case
    using Cons.IH [OF admission_table_step [OF Cons.prems]] by (cases k) simp
qed

theorem admission_table_bounded_witness:
  "length (sr_admission_rates (fold (\<lambda>(peer, now) r. fst (check_admission_rate r peer now))
     (map (\<lambda>i. ([of_nat i], i)) [0..<100]) demo_new)) \<le> 32"
  by (rule admission_table_bounded) (simp add: demo_new_def)

text \<open>
  A v2 viewer is admitted exactly when it may be: valid permissions that include viewing,
  non-zero revisions that are not behind the committed one, a peer within its admission rate, no
  legacy session, a free place (or its own), and an identity no other peer uses. Then exactly one
  viewer and one lease are added with a session id never used before, the roster revision advances
  by one, and nobody else's entry changes; a refused peer changes neither roster nor focus.
\<close>

theorem admission_exactly_when_admissible:
  assumes "registry_run reg ls" "not_exhausted reg"
    and "claim_v2_authorized reg remote nonce av now clock = (reg', r)"
  shows "(is_ok r \<longleftrightarrow> admissible reg remote av now) \<and>
    (case r of
       Inl e \<Rightarrow> sr_v2 reg' = sr_v2 reg
     | Inr lease \<Rightarrow>
         sr_next_session_id reg < vl_session_id lease \<and>
         vs_live_control_leases (sr_v2 reg') = vs_live_control_leases (sr_v2 reg) + 1 \<and>
         vs_revision (sr_v2 reg') = vs_revision (sr_v2 reg) + 1 \<and>
         (\<exists>c. roster (sr_v2 reg') = AList.delete remote (roster (sr_v2 reg)) @ [(remote, c)] \<and>
              vc_session c = vl_session_id lease \<and> presence_new (av_handle av) = Inr (vc_presence c)))"
proof -
  have wf: "registry_wf reg"
    using registry_run_inv [OF assms(1)] by simp
  from claim_v2_authorized_cases [OF assms(3) wf assms(2)] show ?thesis
    by (cases r) auto
qed

theorem admission_exactly_when_admissible_witness:
  "admissible demo_one [2] (demo_viewer ''viewer-2'') 0 \<and>
   is_ok (snd (claim_v2_authorized demo_one [2] [8] (demo_viewer ''viewer-2'') 0 0))"
proof -
  obtain reg' r where c: "claim_v2_authorized demo_one [2] [8] (demo_viewer ''viewer-2'') 0 0 = (reg', r)" by fastforce
  have run: "registry_run demo_one [([1], 1)]" "not_exhausted demo_one"
    using demo_one_facts by simp_all
  note p = admission_exactly_when_admissible [OF run c]
  have "is_ok r"
  proof (rule ccontr)
    assume "\<not> is_ok r"
    with p have "sr_v2 reg' = sr_v2 demo_one" by (cases r) auto
    moreover have "reg' = demo_two" using c by (simp add: demo_two_def demo_claim_two_def)
    moreover have "vs_revision (sr_v2 demo_one) = 1" "vs_revision (sr_v2 demo_two) = 2"
      using demo_one_facts demo_two_facts by simp_all
    ultimately show False by simp
  qed
  with p c show ?thesis by simp
qed

section \<open>Revocation\<close>

lemma is_v2_focus_owner_iff:
  "is_v2_focus_owner reg p s slot g \<longleftrightarrow>
     (\<exists>v. active_viewer (sr_v2 reg) p s = Some v \<and> fa_state (vs_focus (sr_v2 reg)) = Held slot (vv_presence_id v) s g)"
proof (cases "active_viewer (sr_v2 reg) p s")
  case (Some v)
  then have "as_session_id (vv_session v) = s"
    by (simp add: active_viewer_Some)
  then show ?thesis
    by (cases "fa_state (vs_focus (sr_v2 reg))") (auto simp: is_v2_focus_owner_def owns_focus_def Some)
qed (simp add: is_v2_focus_owner_def)

lemma begin_invalidation_not_held:
  assumes "begin_invalidation fa c reason = (fa', Inr m)"
  shows "fa_state fa' \<noteq> Held slot (cand_presence_id c) (cand_session_id c) g"
  using assms
  by (auto simp: begin_invalidation_def Let_def candidate_holds_def begin_neutralization_def
      split: focus_state_v2.splits if_splits sum.splits)

lemma advance_publish_sel [simp]:
  "vs_focus (fst (advance_and_publish st)) = vs_focus st" "vs_media (fst (advance_and_publish st)) = vs_media st"
  "map fst (vs_viewers (fst (advance_and_publish st))) = map fst (vs_viewers st)"
proof -
  have loop: "map fst (fst (publish_loop st vs)) = map fst vs" for st vs
  proof (induction vs)
    case (Cons e vs)
    then show ?case
      by (cases e; cases "publish_loop st vs") (auto split: sum.splits)
  qed simp
  have p: "vs_focus (fst (publish_v2_snapshots st)) = vs_focus st \<and> vs_media (fst (publish_v2_snapshots st)) = vs_media st \<and>
      map fst (vs_viewers (fst (publish_v2_snapshots st))) = map fst (vs_viewers st)" for st
    using loop [of st "vs_viewers st"] by (cases "publish_loop st (vs_viewers st)") (simp add: publish_v2_snapshots_def)
  show "vs_focus (fst (advance_and_publish st)) = vs_focus st" "vs_media (fst (advance_and_publish st)) = vs_media st"
    "map fst (vs_viewers (fst (advance_and_publish st))) = map fst (vs_viewers st)"
    by (auto simp: advance_and_publish_def advance_v2_revision_def p split: option.splits)
qed

lemma map_of_delete_self [simp]: "map_of (AList.delete k xs) k = None"
  by (simp add: AList.delete_conv')

lemma map_of_None_keys: "map fst xs = map fst ys \<Longrightarrow> map_of xs k = None \<longleftrightarrow> map_of ys k = None"
  by (metis map_of_eq_None_iff set_map)

lemma mutation_presence_kept:
  assumes "authorization_target (sr_v2 reg) m = Some v" "am_current_grants m = Some grants"
    and "st' = fst (advance_and_publish (authorization_roster ((sr_v2 reg)\<lparr>vs_focus := fa\<rparr>) m v fm))"
    and "map_of (vs_viewers st') (am_peer m) = Some w"
  shows "vv_presence_id w = vv_presence_id v"
proof -
  let ?st = "authorization_roster ((sr_v2 reg)\<lparr>vs_focus := fa\<rparr>) m v fm"
  have "plain st' = plain ?st"
    unfolding assms(3) by (rule advance_publish_plain)
  then have "map_of (plain st') (am_peer m) = map_of (plain ?st) (am_peer m)" by simp
  moreover have "map_of (plain st) k = map_option (\<lambda>v. v\<lparr>vv_snapshots := None\<rparr>) (map_of (vs_viewers st) k)" for st k
    by (simp add: plain_def map_of_map)
  moreover have "map_of (vs_viewers (sr_v2 reg)) (am_peer m) = Some v"
    using assms(1) by (auto simp: authorization_target_def split: option.splits if_splits)
  ultimately show ?thesis
    using assms(2,4) by (auto simp: authorization_roster_def map_of_map_entry dest!: arg_cong [where f = vv_presence_id])
qed



lemma apply_authorization_succeeds:
  assumes wf: "registry_wf reg" and fresh: "not_exhausted reg" and prev: "mutation_consistent reg m"
    and target: "authorization_target (sr_v2 reg) m = Some v"
    and newer: "as_authorization_revision (vv_session v) < am_authorization_revision m"
    and rev: "am_committed_revision m \<noteq> 0"
  shows "\<exists>reg' effect. apply_authorization_mutation reg m = (reg', Inr effect)"
proof -
  note w = registry_wf_v2 [OF wf]
  let ?st = "sr_v2 reg"
  have "\<exists>fa fm. (if am_current_grants m = None \<or> input_reduced m
            then begin_invalidation (vs_focus ?st) (viewer_candidate v) Revoked
            else (vs_focus ?st, Inr focus_mutation_default)) = (fa, Inr fm)"
    using begin_invalidation_succeeds [of "vs_focus ?st" "viewer_candidate v" Revoked] fresh
    by (auto simp: not_exhausted_def)
  then obtain fa fm where inv: "(if am_current_grants m = None \<or> input_reduced m
            then begin_invalidation (vs_focus ?st) (viewer_candidate v) Revoked
            else (vs_focus ?st, Inr focus_mutation_default)) = (fa, Inr fm)" by blast
  have base: "v2_base (sr_next_session_id reg) (sr_max_viewers reg) (authorization_roster (?st\<lparr>vs_focus := fa\<rparr>) m v fm)"
    by (rule authorization_roster_base [OF wf HOL.refl fresh target _ inv])
      (use prev target in \<open>simp add: mutation_consistent_def\<close>)
  obtain st2 rp where p: "advance_and_publish (authorization_roster (?st\<lparr>vs_focus := fa\<rparr>) m v fm) = (st2, rp)" by fastforce
  have "vs_revision (authorization_roster (?st\<lparr>vs_focus := fa\<rparr>) m v fm) = vs_revision ?st"
    by (simp add: authorization_roster_def split: option.splits)
  then have "rp = Inr ()"
    using advance_publish_inv(1) [OF base w(2) _ p] fresh by (simp add: not_exhausted_def)
  moreover have "am_authorization_revision m \<noteq> 0"
    using newer by auto
  ultimately show ?thesis
    using target newer inv p rev
    by (cases "am_current_grants m = None"; cases "input_reduced m")
      (auto simp: apply_authorization_mutation_def Let_def with_v2_def)
qed

definition demo_revocation :: "endpoint_id \<Rightarrow> string \<Rightarrow> authorization_mutation" where
  "demo_revocation peer handle = \<lparr>am_handle = handle, am_peer = peer, am_previous_grants = GRANT_ALL,
     am_current_grants = None, am_authorization_revision = 2, am_committed_revision = 1\<rparr>"

lemma plain_viewer:
  "map_of (vs_viewers st) p = Some v \<Longrightarrow> (p, v\<lparr>vv_snapshots := None\<rparr>) \<in> set (plain st)"
  by (force simp: plain_def dest: map_of_SomeD)

text \<open>Revoking a viewer of a state of the run whose viewers are as they connected.\<close>

lemma demo_revoked:
  assumes run: "registry_run reg ls" and fresh: "not_exhausted reg"
    and pl: "\<forall>(p, v) \<in> set (plain (sr_v2 reg)). demo_plain p v"
    and v: "map_of (vs_viewers (sr_v2 reg)) p = Some v"
    and h: "handle = (if p = [1] then ''viewer-1'' else ''viewer-2'')"
  shows "authorization_target (sr_v2 reg) (demo_revocation p handle) = Some v"
    "\<exists>reg' effect. apply_authorization_mutation reg (demo_revocation p handle) = (reg', Inr effect)"
proof -
  have wf: "registry_wf reg" using registry_run_inv [OF run] by simp
  have d: "demo_plain p (v\<lparr>vv_snapshots := None\<rparr>)"
    using pl plain_viewer [OF v] by auto
  show t: "authorization_target (sr_v2 reg) (demo_revocation p handle) = Some v"
    using v d h by (simp add: authorization_target_def demo_revocation_def demo_plain_def)
  show "\<exists>reg' effect. apply_authorization_mutation reg (demo_revocation p handle) = (reg', Inr effect)"
    by (rule apply_authorization_succeeds [OF wf fresh _ t])
      (use d t in \<open>simp_all add: mutation_consistent_def demo_revocation_def demo_plain_def\<close>)
qed


section \<open>MoQ attachments\<close>

lemma verify_binding_Inr:
  "verify_binding c cap host gen subscriber tracks arev now_unix = Inr () \<Longrightarrow>
   subscription_verify c cap = Inr () \<and> sc_host_node_id (sub_claims cap) = host \<and>
   sc_media_generation_id (sub_claims cap) = gen \<and> sc_subscriber_endpoint_id (sub_claims cap) = subscriber \<and>
   sc_authorization_revision (sub_claims cap) = arev \<and>
   sc_issued_at_unix (sub_claims cap) \<le> now_unix \<and> now_unix \<le> sc_expires_at_unix (sub_claims cap)"
  by (auto simp: verify_binding_def Let_def bind_res_eq_Inr split: if_splits)

lemma viewer_mode:
  assumes "registry_run reg ls" "map_of (vs_viewers (sr_v2 reg)) p = Some v"
  shows "as_mode (vv_session v) = V2Single"
  using viewer_entry_ok [OF registry_wf_v2(1), of reg p v] registry_run_inv [OF assms(1)] assms(2)
  by (simp add: entry_ok_def)

text \<open>
  C8: A v2 viewer's media can only be attached with a capability for it: when a connection claims
  its pending attachment and no legacy session is in the way, the attachment carries a capability
  that verifies against the recorded host, is bound to this very endpoint, to the generation and
  the authorization revision of the viewer's session, has not expired, and is used up by the claim.
\<close>

theorem moq_claim_needs_bound_capability:
  assumes "registry_run reg ls" "sr_active reg = None"
    and claim: "claim_moq_at c reg remote now_unix now = (reg', Inr attachment)"
  shows "\<exists>v pending cap host. map_of (vs_viewers (sr_v2 reg)) remote = Some v \<and>
     map_of (sr_pending_moq reg) (remote, as_session_id (vv_session v)) = Some pending \<and>
     pm_subscription_capability pending = Some cap \<and> pm_expected_host pending = Some host \<and>
     subscription_verify c cap = Inr () \<and>
     sc_host_node_id (sub_claims cap) = host \<and> sc_subscriber_endpoint_id (sub_claims cap) = remote \<and>
     sc_media_generation_id (sub_claims cap) = as_media_generation_id (vv_session v) \<and>
     sc_authorization_revision (sub_claims cap) = as_authorization_revision (vv_session v) \<and>
     sc_issued_at_unix (sub_claims cap) \<le> now_unix \<and> now_unix \<le> sc_expires_at_unix (sub_claims cap) \<and>
     map_of (sr_pending_moq reg') (remote, as_session_id (vv_session v)) = None"
proof -
  from claim assms(2) obtain v reg1 where v: "map_of (vs_viewers (sr_v2 reg)) remote = Some v"
    and s: "claim_moq_session c reg1 remote now_unix (vv_session v) = (reg', Inr attachment)"
    and same: "sr_pending_moq reg1 = sr_pending_moq reg"
    by (auto simp: claim_moq_at_def Let_def legacy_session_def split: option.splits prod.splits sum.splits if_splits)
  have mode: "as_mode (vv_session v) = V2Single"
    by (rule viewer_mode [OF assms(1) v])
  from s mode obtain pending cap host where
    "map_of (sr_pending_moq reg1) (remote, as_session_id (vv_session v)) = Some pending"
    "pm_subscription_capability pending = Some cap" "pm_expected_host pending = Some host"
    and b: "verify_binding c cap host (as_media_generation_id (vv_session v)) remote (sc_tracks (sub_claims cap))
      (as_authorization_revision (vv_session v)) now_unix = Inr ()"
    and "reg' = reg1\<lparr>sr_pending_moq := AList.delete (remote, as_session_id (vv_session v)) (sr_pending_moq reg1)\<rparr>"
    by (auto simp: claim_moq_session_def moq_attachment_check_def split: option.splits sum.splits)
  with verify_binding_Inr [OF b] v same show ?thesis by auto
qed

text \<open>An example signature scheme that accepts everything; the property does not depend on it.\<close>

definition demo_crypto :: crypto where
  "demo_crypto = \<lparr>valid_public_key = (\<lambda>_. True), public_key_of = id, sign_with = (\<lambda>k m. m),
     verify_strict = (\<lambda>k m s. True), base64url_encode = (\<lambda>_. []), base64url_decode = (\<lambda>_. None)\<rparr>"

definition demo_capability :: "u64 \<Rightarrow> signed_subscription_capability" where
  "demo_capability gen = \<lparr>sub_claims = \<lparr>sc_host_node_id = [9], sc_media_generation_id = gen,
      sc_subscriber_endpoint_id = [1], sc_tracks = TRACK_ALL, sc_authorization_revision = 1,
      sc_issued_at_unix = 100, sc_expires_at_unix = 200, sc_nonce = replicate 32 1, sc_relay_hops = 1\<rparr>, sub_signature = []\<rparr>"

lemma demo_binding:
  "gen \<noteq> 0 \<Longrightarrow> verify_binding demo_crypto (demo_capability gen) [9] gen [1] TRACK_ALL 1 150 = Inr ()"
  by (simp add: verify_binding_def subscription_verify_def subscription_claims_validate_def demo_capability_def
      demo_crypto_def tracks_new_def TRACK_ALL_def tracks_contains_def MAX_SUBSCRIPTION_TTL_SECS_def Let_def)

lemma claim_v2_pending: "sr_pending_moq (fst (claim_v2_authorized reg remote nonce av now clock)) = sr_pending_moq reg"
proof -
  obtain reg1 ra where rate: "check_admission_rate reg remote now = (reg1, ra)" by fastforce
  then have "sr_pending_moq reg1 = sr_pending_moq reg"
    by (auto simp: check_admission_rate_def Let_def split: if_splits prod.splits)
  with rate show ?thesis
    by (cases ra) (auto simp: claim_v2_authorized_def Let_def with_v2_def split: sum.splits prod.splits)
qed

lemma focus_command_pending: "sr_pending_moq (fst (apply_focus_command reg remote sid command t1 t2 t3)) = sr_pending_moq reg"
  by (auto simp: apply_focus_command_def Let_def with_v2_def split: sum.splits prod.splits option.splits)

theorem moq_claim_needs_bound_capability_witness:
  "\<exists>reg ls reg' attachment. registry_run reg ls \<and> claim_moq_at demo_crypto reg [1] 150 0 = (reg', Inr attachment) \<and>
     (\<exists>v. map_of (vs_viewers (sr_v2 reg)) [1] = Some v \<and>
        map_of (sr_pending_moq reg') ([1], as_session_id (vv_session v)) = None)"
proof -
  note a = demo_asked_facts
  have run: "registry_run demo_asked [([2], 2), ([1], 1)]" and fresh: "not_exhausted demo_asked"
    and active: "sr_active demo_asked = None" using a by simp_all
  have wf: "registry_wf demo_asked" using registry_run_inv [OF run] by simp
  obtain c1 where c1: "([1], c1) \<in> set (roster (sr_v2 demo_asked))" "vc_session c1 = 1"
    using a by (auto simp: demo_core_def)
  then obtain v where v: "map_of (vs_viewers (sr_v2 demo_asked)) [1] = Some v" "as_session_id (vv_session v) = 1"
    "active_viewer (sr_v2 demo_asked) [1] 1 = Some v" "core v = c1"
    using viewer_of_roster [OF wf, of "[1]" c1] by auto
  have d: "demo_plain [1] (v\<lparr>vv_snapshots := None\<rparr>)"
    using a plain_viewer [OF v(1)] by blast
  let ?gen = "as_media_generation_id (vv_session v)"
  have gen: "?gen \<noteq> 0" and mode: "as_mode (vv_session v) = V2Single" and act: "as_media_active (vv_session v)"
    using viewer_entry_ok [OF registry_wf_v2(1) [OF wf] v(1)]
    by (auto simp: entry_ok_def media_generation_validate_def)
  define reg where "reg = fst (expect_moq_v2 demo_asked [1] 1 ''b'' 0 (demo_capability ?gen) [9])"
  have pend: "sr_pending_moq demo_asked = []"
    by (simp add: demo_asked_def demo_owner_def demo_two_def demo_one_def demo_claim_one_def demo_claim_two_def
        claim_v2_pending focus_command_pending) (simp add: demo_new_def)
  have exp: "sr_pending_moq reg = [(([1], 1), \<lparr>pm_remote = [1], pm_session_id = 1, pm_broadcast_name = ''b'',
      pm_broadcast = 0, pm_subscription_capability = Some (demo_capability ?gen), pm_expected_host = Some [9]\<rparr>)]"
    "sr_v2 reg = sr_v2 demo_asked" "sr_active reg = None"
    using v(3) d pend active
    by (auto simp: reg_def expect_moq_v2_def Let_def demo_capability_def demo_plain_def tracks_contains_def
        TRACK_ALL_def TRACK_VIDEO_H264_def)
  have run': "registry_run reg [([2], 2), ([1], 1)]"
    using registry_step [OF run fresh, of "R_Expect_Moq_V2 [1] 1 ''b'' 0 (demo_capability ?gen) [9]"] by (simp add: reg_def)
  obtain reg' attachment where c: "claim_moq_at demo_crypto reg [1] 150 0 = (reg', Inr attachment)"
    using v(1,2) exp d act mode demo_binding [OF gen]
    by (auto simp: claim_moq_at_def legacy_session_def Let_def demo_plain_def viewer_rate_limits_default_def
        rate_window_check_def rate_window_default_def MAX_ATTACHMENTS_PER_WINDOW_def claim_moq_session_def
        moq_attachment_check_def demo_capability_def)
  from moq_claim_needs_bound_capability [OF run' exp(3) c] run' c show ?thesis
    by blast
qed

end
