(* ===== verification/Session_Properties.thy ===== *)
theory Session_Properties
  imports Session_Demo Focus_Properties
begin

text \<open>
  The guarantees of the session registry, over its runs: the roster stays within its bounds, every
  viewer can always be shown a snapshot the protocol accepts, a legacy session and v2 viewers
  exclude each other, one viewer at most may inject input, a revocation takes focus and media
  away, and a MoQ attachment needs a capability bound to the endpoint and generation.
\<close>

section \<open>The registry drives the arbiter\<close>

lemma focus_steps_one: "op_ok op \<Longrightarrow> focus_steps fa (focus_apply op fa)"
  by (rule focus_steps.step [OF focus_steps.refl])

lemma focus_steps_trans: "focus_steps fa fb \<Longrightarrow> focus_steps fb fc \<Longrightarrow> focus_steps fa fc"
  by (rotate_tac 1, induction rule: focus_steps.induct) (auto intro: focus_steps.intros)

lemma focus_steps_op:
  "check_rate_limit fa c now = (fb, r1) \<Longrightarrow> focus_steps fa fb"
  "expire_proposal fa now = (fb, b) \<Longrightarrow> focus_steps fa fb"
  "cand_ok c \<Longrightarrow> focus_request fa c now sys_now = (fb, r2) \<Longrightarrow> focus_steps fa fb"
  "focus_approve fa c g p = (fb, r2) \<Longrightarrow> focus_steps fa fb"
  "focus_deny fa c g p = (fb, r2) \<Longrightarrow> focus_steps fa fb"
  "focus_release fa c g = (fb, r2) \<Longrightarrow> focus_steps fa fb"
  "cand_ok c \<Longrightarrow> focus_preempt fa c g = (fb, r2) \<Longrightarrow> focus_steps fa fb"
  "begin_invalidation fa c reason = (fb, r2) \<Longrightarrow> focus_steps fa fb"
  "begin_activation_expiry fa now = (fb, r2) \<Longrightarrow> focus_steps fa fb"
  "complete_transition fa tid valid now = (fb, r3) \<Longrightarrow> focus_steps fa fb"
  "focus_steps fa (retire_candidate fa c)"
  "focus_steps fa (mark_activated fa c g)"
  using focus_steps_one [of "Op_Rate c now" fa] focus_steps_one [of "Op_Expire now" fa]
    focus_steps_one [of "Op_Request c now sys_now" fa] focus_steps_one [of "Op_Approve c g p" fa]
    focus_steps_one [of "Op_Deny c g p" fa] focus_steps_one [of "Op_Release c g" fa]
    focus_steps_one [of "Op_Preempt c g" fa] focus_steps_one [of "Op_Invalidate c reason" fa]
    focus_steps_one [of "Op_Activation_Expiry now" fa] focus_steps_one [of "Op_Complete tid valid now" fa]
    focus_steps_one [of "Op_Retire c" fa] focus_steps_one [of "Op_Activated c g" fa]
  by simp_all

lemma publish_focus [simp]:
  "vs_focus (fst (publish_v2_snapshots st)) = vs_focus st"
  "vs_focus (fst (advance_and_publish st)) = vs_focus st"
  "vs_focus (fst (publish_if b st)) = vs_focus st"
  by (auto simp: publish_if_def advance_and_publish_def advance_v2_revision_def publish_v2_snapshots_def
      split: option.splits prod.splits)

lemma focus_dispatch_steps:
  "focus_dispatch fa viewer c command now sys_now = (fb, r) \<Longrightarrow> cand_ok c \<Longrightarrow> focus_steps fa fb"
  by (auto simp: focus_dispatch_def intro: focus_steps_op focus_steps.refl
      split: focus_command_action_v2.splits sum.splits)

abbreviation focus_of :: "session_registry \<Rightarrow> focus_arbiter" where
  "focus_of reg \<equiv> vs_focus (sr_v2 reg)"

lemma apply_focus_command_steps:
  assumes wf: "registry_wf reg"
  shows "focus_steps (focus_of reg) (focus_of (fst (apply_focus_command reg remote sid command t1 t2 t3)))"
proof (cases "active_viewer (sr_v2 reg) remote sid")
  case None
  then show ?thesis
    by (auto simp: apply_focus_command_def Let_def intro: focus_steps.refl split: sum.splits)
next
  case (Some v)
  let ?c = "\<lparr>cand_presence_id = vv_presence_id v, cand_session_id = sid\<rparr>"
  have c: "cand_ok ?c"
    using viewer_cand_ok [OF registry_wf_v2(1) [OF wf], of remote v] Some by (auto simp: active_viewer_Some)
  obtain fa ra where rate: "check_rate_limit (focus_of reg) ?c t1 = (fa, ra)" by fastforce
  obtain fb rb where d: "focus_dispatch fa v ?c command t2 t3 = (fb, rb)" by fastforce
  have "focus_steps (focus_of reg) fa" "focus_steps (focus_of reg) fb"
    using focus_steps_op(1) [OF rate] focus_dispatch_steps [OF d c] by (auto intro: focus_steps_trans)
  then show ?thesis
    using Some rate d
    by (auto simp: apply_focus_command_def Let_def bind_op_fst_const intro: focus_steps.refl split: sum.splits)
qed

lemma invalidate_v2_focus_steps: "focus_steps (focus_of reg) (focus_of (fst (invalidate_v2_focus reg remote sid reason)))"
  by (auto simp: invalidate_v2_focus_def Let_def bind_op_fst_const intro: focus_steps_op focus_steps.refl
      split: option.splits prod.splits sum.splits)

lemma complete_v2_focus_transition_steps: "focus_steps (focus_of reg) (focus_of (fst (complete_v2_focus_transition reg tid now)))"
  by (auto simp: complete_v2_focus_transition_def Let_def intro: focus_steps_op split: prod.splits sum.splits)

lemma expire_v2_focus_steps: "focus_steps (focus_of reg) (focus_of (fst (expire_v2_focus reg now)))"
  by (auto simp: expire_v2_focus_def Let_def bind_op_fst_const split: prod.splits sum.splits
      intro: focus_steps_trans [OF focus_steps_op(2) focus_steps_op(9)])

lemma authorization_roster_focus:
  "focus_steps (vs_focus st) (vs_focus (authorization_roster st m v fm))"
  by (auto simp: authorization_roster_def intro: focus_steps_op focus_steps.refl split: option.splits)

lemma apply_authorization_mutation_steps: "focus_steps (focus_of reg) (focus_of (fst (apply_authorization_mutation reg m)))"
proof (cases "authorization_target (sr_v2 reg) m")
  case None
  then show ?thesis
    by (auto simp: apply_authorization_mutation_def Let_def intro: focus_steps.refl)
next
  case (Some v)
  obtain fa ra where inv: "(if am_current_grants m = None \<or> input_reduced m
            then begin_invalidation (focus_of reg) (viewer_candidate v) Revoked
            else (focus_of reg, Inr focus_mutation_default)) = (fa, ra)" by fastforce
  then have fa: "focus_steps (focus_of reg) fa"
    by (auto intro: focus_steps_op focus_steps.refl split: if_splits)
  then have "vs_focus st = fa \<Longrightarrow> focus_steps (focus_of reg) (vs_focus (authorization_roster st m v fm))" for st fm
    using focus_steps_trans authorization_roster_focus by blast
  then show ?thesis
    using Some inv fa by (auto simp: apply_authorization_mutation_def Let_def bind_op_fst_const
        intro: focus_steps.refl split: sum.splits)
qed

lemma complete_authorization_neutralization_steps:
  "focus_steps (focus_of reg) (focus_of (fst (complete_authorization_neutralization reg remote arev tid now)))"
  by (auto simp: complete_authorization_neutralization_def Let_def intro: focus_steps_op focus_steps.refl
      split: option.splits prod.splits sum.splits)

lemma claim_input_v2_steps: "focus_steps (focus_of reg) (focus_of (fst (claim_input_v2 reg remote nonce sid slot gen)))"
  by (auto simp: claim_input_v2_def Let_def intro: focus_steps_op focus_steps.refl split: option.splits)


lemma bind_v2_generation_steps: "focus_of (fst (bind_v2_generation reg remote sid gen clock ec)) = focus_of reg"
  by (simp add: bind_v2_generation_def Let_def bind_op_fst_const split: sum.splits option.splits)

lemma claim_moq_at_focus: "focus_of (fst (claim_moq_at c reg remote now_unix now)) = focus_of reg"
proof (cases "claim_moq_at c reg remote now_unix now")
  case (Pair reg' r)
  then show ?thesis
    by (auto simp: claim_moq_at_def Let_def dest!: claim_moq_session_fields
        split: option.splits prod.splits sum.splits)
qed

lemma claim_feedback_focus: "focus_of (fst (claim_feedback reg remote nonce now)) = focus_of reg"
  by (auto simp: claim_feedback_def claim_feedback_v2_def Let_def split: option.splits prod.splits sum.splits)

lemma claim_v2_authorized_steps:
  "focus_steps (focus_of reg) (focus_of (fst (claim_v2_authorized reg remote nonce av now clock)))"
proof -
  obtain reg1 ra where rate: "check_admission_rate reg remote now = (reg1, ra)" by fastforce
  have same: "sr_v2 reg1 = sr_v2 reg"
    using rate_limits_fields(1) [of reg remote now] rate by simp
  have rep: "focus_steps (vs_focus st) (vs_focus (fst (claim_v2_replace st remote)))" for st
    by (auto simp: claim_v2_replace_def Let_def split: option.splits prod.splits sum.splits
        intro: focus_steps.refl focus_steps_op(8) focus_steps_trans [OF focus_steps_op(8) focus_steps_op(11)])
  have ins: "vs_focus (fst (claim_v2_insert st remote pid s)) = vs_focus st" for st pid s
    by (simp add: claim_v2_insert_def Let_def bind_op_fst_const)
  have seq: "vs_focus (fst (bind_op m f)) = vs_focus (fst m)"
    if "\<And>st x. vs_focus (fst (f st x)) = vs_focus st" for m :: "v2_session_state \<times> 'x host" and f :: "_ \<Rightarrow> _ \<Rightarrow> _ \<times> 'y host"
    using that by (auto simp: bind_op_def split: prod.splits sum.splits)
  show ?thesis
    using rep [of "sr_v2 reg"] rate same
    by (cases ra) (auto simp: claim_v2_authorized_def Let_def seq ins bind_op_fst_const intro: focus_steps.refl
        split: sum.splits)
qed

lemma release_steps: "focus_steps (focus_of reg) (focus_of (release reg remote sid))"
proof -
  have "focus_steps (focus_of r) (focus_of (release_v2_viewer r remote sid v))" for r v
    by (cases "begin_invalidation (focus_of r) \<lparr>cand_presence_id = vv_presence_id v, cand_session_id = sid\<rparr> Disconnected")
      (auto simp: release_v2_viewer_def Let_def
        intro: focus_steps_trans [OF focus_steps_op(8) focus_steps_op(11)])
  from this [of "reg\<lparr>sr_v2 := (sr_v2 reg)\<lparr>vs_live_control_leases := vs_live_control_leases (sr_v2 reg) - 1\<rparr>\<rparr>"] show ?thesis
    by (auto simp: release_def Let_def intro: focus_steps.refl split: option.splits)
qed

lemma disconnect_v2_viewer_steps: "focus_steps (focus_of reg) (focus_of (fst (disconnect_v2_viewer reg remote sid)))"
proof -
  have seq: "focus_of (fst (bind_op m f)) = focus_of (fst m)"
    if "\<And>st x. focus_of (fst (f st x)) = focus_of st" for m :: "session_registry \<times> unit host" and f :: "_ \<Rightarrow> _ \<Rightarrow> _ \<times> bool host"
    using that by (auto simp: bind_op_def split: prod.splits sum.splits)
  show ?thesis
    by (auto simp: disconnect_v2_viewer_def Let_def seq intro: focus_steps.refl focus_steps_op(11) split: option.splits)
qed

lemma release_input_steps: "focus_steps (focus_of reg) (focus_of (release_input reg remote sid now))"
proof -
  have "focus_steps fa (fst (complete_transition fa tid False now))" for fa tid
    by (cases "complete_transition fa tid False now") (auto intro: focus_steps_op(10))
  then show ?thesis
    by (auto simp: release_input_def Let_def intro: focus_steps.refl split: option.splits focus_state_v2.splits)
qed

lemma focus_of_same [simp]:
  "focus_of (fst (claim reg remote nonce grants clock)) = focus_of reg"
  "focus_of (fst (claim_input reg remote nonce)) = focus_of reg"
  "focus_of (fst (claim_audio reg remote nonce)) = focus_of reg"
  "focus_of (fst (install_encoder_control reg remote sid ec)) = focus_of reg"
  "focus_of (fst (expect_moq reg remote sid name b)) = focus_of reg"
  "focus_of (fst (expect_moq_v2 reg remote sid name b cap host)) = focus_of reg"
  "focus_of (fst (admit_v2_keyframe_request reg remote sid now)) = focus_of reg"
  "focus_of (release_audio reg remote sid) = focus_of reg"
  "focus_of (release_feedback reg remote sid) = focus_of reg"
  by (auto simp: claim_def claim_input_def claim_audio_def install_encoder_control_def expect_moq_def
      expect_moq_v2_def admit_v2_keyframe_request_def release_audio_def release_feedback_def Let_def
      split: option.splits prod.splits sum.splits)

lemma registry_apply_focus_steps:
  assumes wf: "registry_wf reg"
  shows "focus_steps (focus_of reg) (focus_of (registry_apply op reg))"
  by (cases op) (simp_all only: registry_apply.simps focus_of_same bind_v2_generation_steps claim_moq_at_focus
      claim_feedback_focus focus_steps.refl apply_focus_command_steps [OF wf] invalidate_v2_focus_steps
      complete_v2_focus_transition_steps expire_v2_focus_steps apply_authorization_mutation_steps
      complete_authorization_neutralization_steps claim_input_v2_steps claim_v2_authorized_steps
      release_steps disconnect_v2_viewer_steps release_input_steps)


lemma demo_runs:
  "registry_run demo_owner [([2], 2), ([1], 1)]" "registry_run demo_asked [([2], 2), ([1], 1)]"
  "not_exhausted demo_asked" "focus_of demo_owner = demo_owner_focus" "focus_of demo_asked = demo_asked_focus"
  "vs_revision (sr_v2 demo_asked) = 4" "vs_live_control_leases (sr_v2 demo_asked) = 2" "sr_active demo_asked = None"
  using demo_owner_facts demo_asked_facts by simp_all



section \<open>The roster\<close>


lemma demo_asked_viewers:
  "\<exists>v1 v2. map_of (vs_viewers (sr_v2 demo_asked)) [1] = Some v1 \<and> map_of (vs_viewers (sr_v2 demo_asked)) [2] = Some v2 \<and>
     vv_presence_id v1 = ViewerPresenceId ''viewer-1'' \<and> vv_presence_id v2 = ViewerPresenceId ''viewer-2'' \<and>
     as_session_id (vv_session v1) = 1 \<and> as_session_id (vv_session v2) = 2 \<and>
     active_viewer (sr_v2 demo_asked) [1] 1 = Some v1 \<and> active_viewer (sr_v2 demo_asked) [2] 2 = Some v2"
proof -
  note a = demo_asked_facts
  have wf: "registry_wf demo_asked" using registry_run_inv a by blast
  obtain c1 c2 where ro: "roster (sr_v2 demo_asked) = [([1], c1), ([2], c2)]" "demo_core [1] 1 ''viewer-1'' c1"
    "demo_core [2] 2 ''viewer-2'' c2" using a by blast
  from viewer_of_roster [OF wf, of "[1]" c1] viewer_of_roster [OF wf, of "[2]" c2] ro show ?thesis
    by (auto simp: demo_core_def)
qed


text \<open>
  Published snapshots stay current: an operation of a run that starts with every viewer's
  channel holding the snapshot of the current state ends so too, unless it is a generation binding
  that fails while no generation is recorded, or a focus command that is refused after a pending
  proposal has run out.
\<close>

theorem published_snapshots_stay_current:
  assumes "registry_run reg ls" "not_exhausted reg" "registry_op_ok op reg ls"
    and "snapshots_current (sr_v2 reg)" "quiet op reg"
  shows "snapshots_current (sr_v2 (registry_apply op reg))"
proof -
  have wf: "registry_wf reg"
    using registry_run_inv [OF assms(1)] by simp
  show ?thesis
    by (rule reg_keeps_current [OF registry_apply_keeps [OF wf assms(2,3)] assms(4,5)])
qed

theorem published_snapshots_stay_current_witness:
  "snapshots_current (sr_v2 (registry_apply demo_claim_one demo_new)) \<and> vs_viewers (sr_v2 (registry_apply demo_claim_one demo_new)) \<noteq> []"
proof
  show "snapshots_current (sr_v2 (registry_apply demo_claim_one demo_new))"
    by (rule published_snapshots_stay_current [OF registry_start [OF demo_new_start] demo_new_fresh])
      (simp_all add: demo_claim_one_def snapshots_current_def v2_session_state_new_def)
  show "vs_viewers (sr_v2 (registry_apply demo_claim_one demo_new)) \<noteq> []"
    unfolding demo_one_def [symmetric]
    using demo_one_facts roster_Nil [of "sr_v2 demo_one"] by (metis list.distinct(1))
qed

text \<open>
  C9: The legacy session and the v2 viewers exclude each other: while a legacy session occupies
  the registry no v2 viewer is connected and no v2 lease is out.
\<close>

theorem legacy_and_v2_exclude_each_other:
  assumes "registry_run reg ls" "sr_active reg \<noteq> None"
  shows "vs_viewers (sr_v2 reg) = [] \<and> vs_live_control_leases (sr_v2 reg) = 0 \<and> ls = []"
proof -
  have "lease_inv reg ls"
    using registry_run_inv [OF assms(1)] by simp
  with assms(2) show ?thesis
    by (auto simp: lease_inv_def sessions_def)
qed

definition demo_legacy :: session_registry where
  "demo_legacy = registry_apply (R_Claim [1] [7] GRANT_ALL 0) demo_new"

lemma demo_legacy_facts:
  "registry_run demo_legacy []" "sr_active demo_legacy \<noteq> None" "sr_next_session_id demo_legacy = 1"
proof -
  show "registry_run demo_legacy []"
    using registry_step [OF registry_start [OF demo_new_start] demo_new_fresh, of "R_Claim [1] [7] GRANT_ALL 0"]
    by (simp add: demo_legacy_def)
  show "sr_active demo_legacy \<noteq> None" "sr_next_session_id demo_legacy = 1"
    by (simp_all add: demo_legacy_def demo_new_def claim_def v2_session_state_new_def media_moq_broadcast_name_def Let_def)
qed

theorem legacy_and_v2_exclude_each_other_witness:
  "vs_viewers (sr_v2 demo_legacy) = [] \<and> vs_live_control_leases (sr_v2 demo_legacy) = 0"
  using legacy_and_v2_exclude_each_other [OF demo_legacy_facts(1,2)] by simp



text \<open>
  At most one connection may inject input: two connections that both pass the ownership test
  of the input path are the same peer in the same session, for slot 0 and the same focus
  generation.
\<close>

theorem input_owner_unique:
  assumes "registry_run reg ls"
    and "is_v2_focus_owner reg p s slot g" "is_v2_focus_owner reg p' s' slot' g'"
  shows "p = p' \<and> s = s' \<and> g = g' \<and> slot = SLOT_ZERO \<and> slot' = SLOT_ZERO"
proof -
  have wf: "registry_wf reg"
    using registry_run_inv [OF assms(1)] by simp
  from assms(2) obtain v h gen where v: "map_of (vs_viewers (sr_v2 reg)) p = Some v"
    "fa_state (focus_of reg) = Held slot (vv_presence_id v) s g"
    by (auto simp: is_v2_focus_owner_def owns_focus_def active_viewer_def split: option.splits focus_state_v2.splits if_splits)
  from assms(3) obtain v' where v': "map_of (vs_viewers (sr_v2 reg)) p' = Some v'"
    "fa_state (focus_of reg) = Held slot' (vv_presence_id v') s' g'"
    by (auto simp: is_v2_focus_owner_def owns_focus_def active_viewer_def split: option.splits focus_state_v2.splits if_splits)
  have same: "s = s'" "g = g'" "slot = slot'" "vv_presence_id v = vv_presence_id v'"
    using v(2) v'(2) by simp_all
  have slot: "slot = SLOT_ZERO"
    using registry_wf_v2(3) [OF wf] v(2) by (simp add: focus_wf_def)
  have "distinct (map (vc_presence \<circ> snd) (roster (sr_v2 reg)))"
    using wf by (simp add: registry_wf_def v2_wf_def roster_wf_def)
  moreover have "(p, core v) \<in> set (roster (sr_v2 reg))" "(p', core v') \<in> set (roster (sr_v2 reg))"
    by (rule roster_entry [OF map_of_SomeD [OF v(1)]], rule roster_entry [OF map_of_SomeD [OF v'(1)]])
  moreover have "(vc_presence \<circ> snd) (p, core v) = (vc_presence \<circ> snd) (p', core v')"
    using same by simp
  ultimately have "(p, core v) = (p', core v')"
    unfolding distinct_map inj_on_def by blast
  then show ?thesis using same slot by simp
qed

theorem input_owner_unique_witness:
  "is_v2_focus_owner demo_asked [1] 1 SLOT_ZERO 1 \<and> \<not> is_v2_focus_owner demo_asked [2] 2 SLOT_ZERO 1"
proof
  show o1: "is_v2_focus_owner demo_asked [1] 1 SLOT_ZERO 1"
    using demo_asked_viewers demo_asked_facts
    by (auto simp: is_v2_focus_owner_def owns_focus_def demo_asked_focus_eq demo_owner_focus_eq)
  show "\<not> is_v2_focus_owner demo_asked [2] 2 SLOT_ZERO 1"
    using input_owner_unique [OF demo_runs(2) o1, of "[2]" 2 SLOT_ZERO 1] by auto
qed

end
