(* ===== verification/Session_Gaps.thy ===== *)
theory Session_Gaps
  imports Session_Access Session_Properties
begin

text \<open>
  How a legacy session gives up its slot, and situations in which the registry does not do what it
  means to do: a revocation that forgets to clear the recorded media generation, and a detached
  viewer whose pending request for the focus outlives it.
\<close>

section \<open>The legacy slot drains before it is free\<close>

text \<open>
  A legacy session keeps the host occupied until it has drained: after its media lease is
  released the slot is free exactly when neither input, audio nor feedback is still attached, and
  while one of them is, neither a legacy client nor a v2 viewer is let in.
\<close>

theorem legacy_slot_drains_first:
  assumes "sr_active reg = Some s" "as_remote s = remote" "as_session_id s = sid"
  shows "(sr_active (release reg remote sid) = None \<longleftrightarrow>
       \<not> as_input_claimed s \<and> \<not> as_audio_claimed s \<and> \<not> as_feedback_claimed s) \<and>
     (as_input_claimed s \<or> as_audio_claimed s \<or> as_feedback_claimed s \<longrightarrow>
       \<not> is_ok (snd (claim (release reg remote sid) peer nonce grants clock)) \<and>
       \<not> is_ok (snd (claim_v2_authorized (release reg remote sid) peer nonce av now clock)))"
proof -
  have occ: "legacy_session reg (occupied_by remote sid) = Some s"
    using assms by (simp add: legacy_session_def occupied_by_def)
  have r: "sr_active (release reg remote sid) =
      (if \<not> as_input_claimed s \<and> \<not> as_audio_claimed s \<and> \<not> as_feedback_claimed s
       then None else Some (s\<lparr>as_media_active := False, as_encoder_control := None\<rparr>))"
    by (simp add: release_def occ legacy_settle_def)
  have blocked: "\<not> is_ok (snd (claim_v2_authorized reg1 peer nonce av now clock))" if "sr_active reg1 \<noteq> None" for reg1
  proof -
    obtain reg2 ra where c: "check_admission_rate reg1 peer now = (reg2, ra)" by fastforce
    then have "sr_active reg2 = sr_active reg1"
      by (auto simp: check_admission_rate_def Let_def split: if_splits prod.splits)
    with that c show ?thesis
      by (cases ra) (auto simp: claim_v2_authorized_def Let_def split: sum.splits)
  qed
  show ?thesis
    using r blocked [of "release reg remote sid"] by (auto simp: claim_def split: if_splits)
qed

theorem legacy_slot_drains_first_witness:
  "\<exists>reg s. sr_active reg = Some s \<and> as_input_claimed s \<and> sr_active (release reg [1] 1) \<noteq> None \<and>
     sr_active (release_input (release reg [1] 1) [1] 1 0) = None"
proof -
  define reg where "reg = fst (claim_input demo_legacy [1] [7])"
  obtain s where s: "sr_active reg = Some s" "as_remote s = [1]" "as_session_id s = 1" "as_input_claimed s"
    "\<not> as_audio_claimed s" "\<not> as_feedback_claimed s"
    by (auto simp: reg_def demo_legacy_def demo_new_def claim_def v2_session_state_new_def media_moq_broadcast_name_def
        Let_def claim_input_def legacy_session_def)
  from legacy_slot_drains_first [OF s(1-3)] s(4) have held: "sr_active (release reg [1] 1) \<noteq> None" by blast
  have "legacy_session reg (occupied_by [1] 1) = Some s"
    using s by (simp add: legacy_session_def occupied_by_def)
  with s have "sr_active (release_input (release reg [1] 1) [1] 1 0) = None"
    by (simp add: release_def legacy_settle_def release_input_def legacy_session_def occupied_by_def)
  with s held show ?thesis by blast
qed

section \<open>A revocation leaves the generation recorded\<close>

lemma bind_op_media:
  assumes "vs_media (fst m) = x" "\<And>st a. vs_media st = x \<Longrightarrow> vs_media (fst (k st a)) = x"
  shows "vs_media (fst (bind_op m k)) = x"
  using assms by (cases m; cases "snd m") auto

lemma claim_v2_keeps_media:
  "vs_media (sr_v2 (fst (claim_v2_authorized reg remote nonce av now clock))) = vs_media (sr_v2 reg)"
proof -
  obtain reg1 ra where rate: "check_admission_rate reg remote now = (reg1, ra)" by fastforce
  then have same: "sr_v2 reg1 = sr_v2 reg"
    by (auto simp: check_admission_rate_def Let_def split: if_splits prod.splits)
  have replace: "vs_media (fst (claim_v2_replace st remote)) = vs_media st" for st
    by (auto simp: claim_v2_replace_def Let_def viewer_remove_def split: option.splits prod.splits sum.splits)
  have insert: "vs_media (fst (claim_v2_insert st remote pid s)) = vs_media st" for st pid s
    by (auto simp: claim_v2_insert_def Let_def intro!: bind_op_media)
  show ?thesis
    using rate same replace insert
    by (cases ra) (auto simp: claim_v2_authorized_def Let_def with_v2_sel intro!: bind_op_media split: sum.splits)
qed

text \<open>
  C11: Revoking the only viewer leaves its media generation recorded, while the ordinary release of
  the same viewer clears it; the next viewer that is admitted then cannot bind to the new generation
  that is started for it: the binding is refused as a different active generation.
\<close>

theorem revocation_leaves_generation_recorded:
  assumes "apply_authorization_mutation reg m = (reg', Inr effect)"
    and "authorization_target (sr_v2 reg) m = Some v" "am_current_grants m = None"
    and "map fst (vs_viewers (sr_v2 reg)) = [am_peer m]" "vs_media (sr_v2 reg) = Some d"
    and "sr_active reg = None" "generation \<noteq> mg_generation_id d"
  shows "vs_viewers (sr_v2 reg') = [] \<and> vs_media (sr_v2 reg') = Some d \<and>
     vs_media (sr_v2 (release reg (am_peer m) (as_session_id (vv_session v)))) = None \<and>
     \<not> is_ok (snd (bind_v2_generation (fst (claim_v2_authorized reg' remote nonce av now clock))
                     remote sid generation clock ec))"
proof -
  from assms(4) obtain w where w: "vs_viewers (sr_v2 reg) = [(am_peer m, w)]"
    by auto
  with assms(2) have v: "v = w" "map_of (vs_viewers (sr_v2 reg)) (am_peer m) = Some v"
    by (auto simp: authorization_target_def split: if_splits)
  obtain fa ra where inv: "begin_invalidation (vs_focus (sr_v2 reg)) (viewer_candidate v) Revoked = (fa, ra)" by fastforce
  obtain fm where fm: "ra = Inr fm"
    using assms(1-3) inv by (cases ra) (auto simp: apply_authorization_mutation_def Let_def split: if_splits)
  let ?st = "authorization_roster ((sr_v2 reg)\<lparr>vs_focus := fa\<rparr>) m v fm"
  have reg': "sr_v2 reg' = fst (advance_and_publish ?st)"
    using assms(1-3) inv fm
    by (auto simp: apply_authorization_mutation_def Let_def with_v2_def bind_op_def
        split: if_splits prod.splits sum.splits)
  have st: "vs_viewers ?st = []" "vs_media ?st = Some d"
    using assms(3,5) w by (simp_all add: authorization_roster_def viewer_remove_def)
  have empty: "vs_viewers (sr_v2 reg') = []"
    using advance_publish_sel(3) [of ?st] st(1) by (metis list.map(1) map_is_Nil_conv reg')
  have media: "vs_media (sr_v2 reg') = Some d"
    using st(2) by (simp add: reg')
  have "vs_media (sr_v2 (release reg (am_peer m) (as_session_id (vv_session v)))) = None"
    using w v assms(6)
    by (simp add: release_def legacy_session_def viewer_with_session_def release_v2_viewer_def Let_def viewer_remove_def)
  moreover have "\<not> is_ok (snd (bind_v2_generation reg1 remote sid generation clock ec))"
    if "vs_media (sr_v2 reg1) = Some d" for reg1
    using that assms(7) by (auto simp: bind_v2_generation_def Let_def split: sum.splits)
  ultimately show ?thesis
    using empty media by (simp add: claim_v2_keeps_media)
qed

lemma publish_plain: "plain (fst (publish_v2_snapshots st)) = plain st"
  using publish_loop_plain [of st "vs_viewers st"]
  by (cases "publish_loop st (vs_viewers st)") (simp add: publish_v2_snapshots_def plain_def)

lemma publish_sel:
  "vs_media (fst (publish_v2_snapshots st)) = vs_media st" "vs_focus (fst (publish_v2_snapshots st)) = vs_focus st"
  "vs_revision (fst (publish_v2_snapshots st)) = vs_revision st"
  "vs_live_control_leases (fst (publish_v2_snapshots st)) = vs_live_control_leases st"
  by (simp_all add: publish_v2_snapshots_def split: prod.splits)

text \<open>The first viewer of the example, bound to generation 1.\<close>

definition demo_bound :: session_registry where
  "demo_bound = registry_apply (R_Bind [1] 1 1 0 None) demo_one"

lemma demo_bound_facts:
  "\<exists>d v. vs_media (sr_v2 demo_bound) = Some d \<and> mg_generation_id d = 1 \<and>
     map fst (vs_viewers (sr_v2 demo_bound)) = [[1]] \<and> map_of (vs_viewers (sr_v2 demo_bound)) [1] = Some v \<and>
     sr_active demo_bound = None \<and> registry_run demo_bound [([1], 1)] \<and> not_exhausted demo_bound \<and>
     (\<forall>(p, v) \<in> set (plain (sr_v2 demo_bound)). demo_plain p v)"
proof -
  note one = demo_one_facts
  have wf: "registry_wf demo_one" using registry_run_inv [of demo_one] one by blast
  obtain c where c: "roster (sr_v2 demo_one) = [([1], c)]" "vc_session c = 1"
    using one by (auto simp: demo_core_def)
  obtain v where v: "map_of (vs_viewers (sr_v2 demo_one)) [1] = Some v" "active_viewer (sr_v2 demo_one) [1] 1 = Some v"
    using viewer_of_roster [OF wf, of "[1]" c] c by auto
  obtain name where name: "media_generation_moq_broadcast_name 1 = Inr name"
    by (simp add: media_generation_moq_broadcast_name_def)
  let ?d = "\<lparr>mg_generation_id = 1, mg_broadcast_name = name\<rparr>"
  let ?f = "\<lambda>v. v\<lparr>vv_session := (vv_session v)\<lparr>as_session_clock := 0, as_media_generation_id := 1,
      as_media_broadcast_name := name, as_encoder_control := None\<rparr>\<rparr>"
  let ?X = "viewer_update [1] ?f ((sr_v2 demo_one)\<lparr>vs_media := Some ?d\<rparr>)"
  have av: "active_viewer ((sr_v2 demo_one)\<lparr>vs_media := Some ?d\<rparr>) [1] 1 = Some v"
    using v(2) by (simp add: active_viewer_def viewer_with_session_def)
  have none: "vs_media (sr_v2 demo_one) = None" using one by simp
  have b: "demo_bound = fst (bind_v2_generation demo_one [1] 1 1 0 None)"
    by (simp add: demo_bound_def)
  have st: "sr_v2 demo_bound = fst (publish_v2_snapshots ?X)" "sr_active demo_bound = sr_active demo_one"
    "sr_next_session_id demo_bound = sr_next_session_id demo_one"
    using av none name
    by (simp_all add: b bind_v2_generation_def Let_def with_v2_def bind_op_def split: prod.splits sum.splits)
  have vs: "vs_viewers (sr_v2 demo_one) = [([1], v)]"
  proof -
    from c(1) obtain w where "vs_viewers (sr_v2 demo_one) = [([1], w)]"
      by (auto simp: roster_def)
    with v(1) show ?thesis by simp
  qed
  have X: "plain (sr_v2 demo_bound) = [([1], (?f v)\<lparr>vv_snapshots := None\<rparr>)]"
    unfolding st(1) publish_plain by (simp add: plain_def viewer_update_def vs)
  have keys: "map fst (plain st) = map fst (vs_viewers st)" for st
    by (auto simp: plain_def)
  have fst1: "map fst (vs_viewers (sr_v2 demo_bound)) = [[1]]"
    using X keys [of "sr_v2 demo_bound"] by simp
  then obtain w where w: "vs_viewers (sr_v2 demo_bound) = [([1], w)]" by auto
  have "demo_plain [1] (v\<lparr>vv_snapshots := None\<rparr>)"
    using one plain_viewer [OF v(1)] by blast
  then have pl: "\<forall>(p, v) \<in> set (plain (sr_v2 demo_bound)). demo_plain p v"
    unfolding X by (simp add: demo_plain_def)
  have "registry_run demo_bound [([1], 1)]"
    using registry_step [of demo_one _ "R_Bind [1] 1 1 0 None"] one by (simp add: demo_bound_def)
  moreover have "not_exhausted demo_bound"
    using one st by (simp add: not_exhausted_def publish_sel viewer_update_def focus_arbiter_new_def)
  moreover have "vs_media (sr_v2 demo_bound) = Some ?d"
    by (simp add: st publish_sel viewer_update_def)
  ultimately show ?thesis
    using pl fst1 w st one by auto
qed

theorem revocation_leaves_generation_recorded_witness:
  "\<exists>reg' effect. apply_authorization_mutation demo_bound (demo_revocation [1] ''viewer-1'') = (reg', Inr effect) \<and>
     vs_viewers (sr_v2 reg') = [] \<and>
     \<not> is_ok (snd (bind_v2_generation (fst (claim_v2_authorized reg' [2] [8] (demo_viewer ''viewer-2'') 0 0)) [2] 2 2 0 None))"
proof -
  obtain d v where b: "vs_media (sr_v2 demo_bound) = Some d" "mg_generation_id d = 1"
    "map fst (vs_viewers (sr_v2 demo_bound)) = [[1]]" "map_of (vs_viewers (sr_v2 demo_bound)) [1] = Some v"
    "sr_active demo_bound = None" "registry_run demo_bound [([1], 1)]" "not_exhausted demo_bound"
    "\<forall>(p, v) \<in> set (plain (sr_v2 demo_bound)). demo_plain p v"
    by (rule exE [OF demo_bound_facts], erule exE, elim conjE, rule that)
  note r = demo_revoked [OF b(6,7,8,4), of "''viewer-1''"]
  then obtain reg' effect where a: "apply_authorization_mutation demo_bound (demo_revocation [1] ''viewer-1'') = (reg', Inr effect)"
    by auto
  from revocation_leaves_generation_recorded [OF a r(1) _ _ b(1,5), of 2] b(2,3) show ?thesis
    using a by (auto simp: demo_revocation_def)
qed

section \<open>A detached requester\<close>

lemma publish_loop_fails:
  assumes "vs \<noteq> []" "\<forall>q \<in> fst ` set vs. \<not> is_ok (v2_snapshot_for st q)"
  shows "\<exists>e. publish_loop st vs = (vs, Inl e)"
proof (cases vs)
  case (Cons e vs')
  then obtain q v where e: "e = (q, v)" by fastforce
  then obtain err where "v2_snapshot_for st q = Inl err"
    using assms(2) Cons by (cases "v2_snapshot_for st q") auto
  with Cons e show ?thesis by simp
qed (use assms(1) in simp)

lemma orphan_proposal_invalid:
  assumes "fa_proposal (vs_focus st) = Some p" "fp_requester p \<notin> vv_presence_id ` snd ` set (vs_viewers st)"
  shows "\<not> is_ok (v2_snapshot_for st q)"
proof -
  have "snapshot_proposal_validate (v2_snapshot_of st q v) \<noteq> Inr ()" for v
    using assms by (auto simp: snapshot_proposal_validate_def v2_snapshot_of_def bind_res_eq_Inr viewer_presence_for_def
        list_ex_iff image_iff split: focus_state_v2.splits)
  then have "snapshot_validate (v2_snapshot_of st q v) \<noteq> Inr ()" for v
    by (auto simp: snapshot_validate_ok snapshot_wf_def)
  then show ?thesis
    by (cases "map_of (vs_viewers st) q") (auto simp: v2_snapshot_for_def bind_res_eq_Inr is_ok_iff)
qed

lemma removed_presence_absent:
  assumes wf: "registry_wf reg" and v: "map_of (vs_viewers (sr_v2 reg)) remote = Some v"
  shows "vv_presence_id v \<notin> vv_presence_id ` snd ` set (vs_viewers (viewer_remove remote (sr_v2 reg)))"
proof
  let ?st = "sr_v2 reg"
  have d: "distinct (map (vc_presence \<circ> snd) (roster ?st))"
    using wf by (auto simp: registry_wf_def v2_wf_def roster_wf_def)
  assume "vv_presence_id v \<in> vv_presence_id ` snd ` set (vs_viewers (viewer_remove remote ?st))"
  then obtain q w where w: "(q, w) \<in> set (vs_viewers ?st)" "q \<noteq> remote" "vv_presence_id w = vv_presence_id v"
    by (auto simp: viewer_remove_def AList.delete_eq)
  have "(q, core w) \<in> set (roster ?st)" "(remote, core v) \<in> set (roster ?st)"
    using w(1) map_of_SomeD [OF v] by (force simp: roster_def)+
  moreover have "(vc_presence \<circ> snd) (q, core w) = (vc_presence \<circ> snd) (remote, core v)"
    using w(3) by (simp add: core_def)
  ultimately have "(q, core w) = (remote, core v)"
    using d unfolding distinct_map inj_on_def by blast
  then show False using w(2) by simp
qed

lemma others_remain:
  assumes "registry_wf reg" "2 \<le> length (vs_viewers (sr_v2 reg))"
  shows "vs_viewers (viewer_remove remote (sr_v2 reg)) \<noteq> []"
proof
  let ?keys = "map fst (vs_viewers (sr_v2 reg))"
  have "distinct ?keys"
    using assms(1) by (simp add: registry_wf_def v2_wf_def roster_wf_def fst_roster)
  then have "card (set ?keys) = length (vs_viewers (sr_v2 reg))"
    by (metis distinct_card length_map)
  moreover assume "vs_viewers (viewer_remove remote (sr_v2 reg)) = []"
  then have "set ?keys \<subseteq> {remote}"
    by (auto simp: viewer_remove_def AList.delete_eq filter_empty_conv)
  then have "card (set ?keys) \<le> 1"
    using card_mono [of "{remote}"] by (metis finite.emptyI finite_insert is_singletonI is_singleton_altdef)
  ultimately show False using assms(2) by simp
qed

lemma publication_fails:
  assumes "vs_viewers st \<noteq> []"
    and bad: "\<And>st' q. vs_viewers st' = vs_viewers st \<Longrightarrow> vs_focus st' = vs_focus st \<Longrightarrow> \<not> is_ok (v2_snapshot_for st' q)"
  shows "\<exists>st' e. advance_and_publish st = (st', Inl e) \<and> vs_viewers st' = vs_viewers st \<and> vs_focus st' = vs_focus st"
proof (cases "checked_add (vs_revision st) 1")
  case None
  then show ?thesis by (simp add: advance_and_publish_def advance_v2_revision_def)
next
  case (Some n)
  let ?s = "st\<lparr>vs_revision := n\<rparr>"
  obtain e where "publish_loop ?s (vs_viewers ?s) = (vs_viewers ?s, Inl e)"
    using publish_loop_fails [of "vs_viewers ?s" ?s] assms(1) bad [of ?s] by auto
  then show ?thesis
    using Some by (simp add: advance_and_publish_def advance_v2_revision_def publish_v2_snapshots_def)
qed

text \<open>
  C12: Detaching the viewer whose request for the focus is pending fails halfway: the viewer is gone,
  the detachment is reported as an error, its media attachment is still expected, and no remaining
  viewer can be given a snapshot.
\<close>

theorem detached_requester_blocks_snapshots:
  assumes "registry_run reg ls" "requester_of_proposal reg remote sid"
    and "\<forall>slot h g. fa_state (focus_of reg) \<noteq> Held slot h sid g" "2 \<le> length (vs_viewers (sr_v2 reg))"
    and "disconnect_v2_viewer reg remote sid = (reg', r)"
  shows "\<not> is_ok r \<and> map_of (vs_viewers (sr_v2 reg')) remote = None \<and>
     sr_pending_moq reg' = sr_pending_moq reg \<and> vs_viewers (sr_v2 reg') \<noteq> [] \<and>
     (\<forall>q. \<not> is_ok (v2_snapshot_for (sr_v2 reg') q))"
proof -
  let ?st = "sr_v2 reg"
  have wf: "registry_wf reg" using registry_run_inv [OF assms(1)] by simp
  obtain v p where v: "viewer_with_session ?st remote sid = Some v" "map_of (vs_viewers ?st) remote = Some v"
    and p: "fa_proposal (vs_focus ?st) = Some p" "fp_requester p = vv_presence_id v"
    using assms(2) by (auto simp: requester_of_proposal_def viewer_with_session_Some split: option.splits)
  let ?c = "\<lparr>cand_presence_id = vv_presence_id v, cand_session_id = sid\<rparr>"
  let ?st1 = "(viewer_remove remote ?st)\<lparr>vs_focus := retire_candidate (vs_focus ?st) ?c\<rparr>"
  have absent: "vv_presence_id v \<notin> vv_presence_id ` snd ` set (vs_viewers ?st1)"
    using removed_presence_absent [OF wf v(2)] by simp
  have ne: "vs_viewers ?st1 \<noteq> []"
    using others_remain [OF wf assms(4)] by simp
  have bad: "\<not> is_ok (v2_snapshot_for st q)" if "vs_viewers st = vs_viewers ?st1" "vs_focus st = vs_focus ?st1" for st q
    using that absent p by (intro orphan_proposal_invalid [of st p]) (auto simp: retire_candidate_def)
  obtain st2 where pub: "\<exists>e. advance_and_publish ?st1 = (st2, Inl e)" "vs_viewers st2 = vs_viewers ?st1"
    "vs_focus st2 = vs_focus ?st1"
    using publication_fails [OF ne bad] by auto
  have "\<not> (case fa_state (vs_focus ?st) of Held slot h s g \<Rightarrow> s = sid | Vacant slot \<Rightarrow> False
     | Neutralizing s h i g t \<Rightarrow> False)"
    using assms(3) by (auto split: focus_state_v2.splits)
  then have "reg' = reg\<lparr>sr_v2 := st2\<rparr> \<and> \<not> is_ok r"
    using assms(5) v(1) pub(1) ne by (auto simp: disconnect_v2_viewer_def Let_def with_v2_def)
  moreover have "map_of (vs_viewers ?st1) remote = None"
    by (simp add: viewer_remove_def)
  ultimately show ?thesis
    using pub(2,3) bad [of st2] ne by simp
qed

theorem detached_requester_blocks_snapshots_witness:
  "\<exists>reg' r. disconnect_v2_viewer demo_asked [2] 2 = (reg', r) \<and> \<not> is_ok r \<and> map_of (vs_viewers (sr_v2 reg')) [2] = None \<and>
     \<not> is_ok (v2_snapshot_for (sr_v2 reg') [1])"
proof -
  obtain v2 where v2: "map_of (vs_viewers (sr_v2 demo_asked)) [2] = Some v2" "as_session_id (vv_session v2) = 2"
    "vv_presence_id v2 = ViewerPresenceId ''viewer-2''"
    using demo_asked_viewers by blast
  have f: "focus_of demo_asked = demo_asked_focus" and run: "registry_run demo_asked [([2], 2), ([1], 1)]"
    using demo_asked_facts by simp_all
  have req: "requester_of_proposal demo_asked [2] 2"
    using v2 f by (simp add: requester_of_proposal_def viewer_with_session_def demo_asked_focus_eq)
  obtain c1 c2 where "roster (sr_v2 demo_asked) = [([1], c1), ([2], c2)]"
    using demo_asked_facts by blast
  from arg_cong [OF this, of length] have two: "2 \<le> length (vs_viewers (sr_v2 demo_asked))"
    by (simp add: roster_def)
  obtain reg' r where "disconnect_v2_viewer demo_asked [2] 2 = (reg', r)" by fastforce
  with detached_requester_blocks_snapshots [OF run req _ two this] f show ?thesis
    by (simp add: demo_asked_focus_eq demo_owner_focus_eq)
qed

end
