(* ===== verification/Wire_Codec.thy ===== *)
theory Wire_Codec
  imports Protocol_Base
begin

text \<open>
  What the fixed-width binary records of the protocol share. The locale \<open>fixed_codec\<close> is the
  contract of a record: its encoding has a fixed width, decoding inverts it, and a decoder accepts
  no second spelling of a value. From it follow that encodings are injective, that accepted bytes
  determine the value and conversely, and that a stream of records is read back as it was written.
  \<open>payload_codec\<close> adds a payload whose length the record declares.
\<close>

section \<open>Cutting a buffer into its fields\<close>

fun slices :: "nat \<Rightarrow> nat list \<Rightarrow> 'a list \<Rightarrow> 'a list" where
  "slices i [] w = drop i w"
| "slices i (j # js) w = slice i j w @ slices j js w"

lemma slice_step: "i \<le> j \<Longrightarrow> slice i j w @ drop j w = drop i w"
  by (metis append_take_drop_id drop_drop le_add_diff_inverse2 slice_def)

lemma slices_whole: "sorted (i # js) \<Longrightarrow> slices i js w = drop i w"
  by (induction js arbitrary: i) (auto simp: slice_step)

lemma slice_single: "i < length w \<Longrightarrow> j = i + 1 \<Longrightarrow> slice i j w = [w ! i]"
  by (simp add: slice_def take_Suc_conv_app_nth hd_drop_conv_nth take_Suc)

definition zeroed :: "bytes \<Rightarrow> bool" where
  "zeroed bs \<longleftrightarrow> \<not> list_ex (\<lambda>b. b \<noteq> 0) bs"

lemma zeroed_replicate [simp]: "zeroed (replicate n 0)"
  by (simp add: zeroed_def list_ex_iff)

lemma zeroed_eq: "zeroed bs \<Longrightarrow> bs = replicate (length bs) 0"
  by (simp add: zeroed_def list_ex_iff replicate_eqI)

lemma zeroed_slice: "zeroed (slice i j w) \<Longrightarrow> j \<le> length w \<Longrightarrow> slice i j w = replicate (j - i) 0"
  using zeroed_eq [of "slice i j w"] by simp

lemma zeroed_append [simp]: "zeroed (xs @ ys) \<longleftrightarrow> zeroed xs \<and> zeroed ys"
  by (auto simp: zeroed_def)

text \<open>A chain of checks succeeds when every check does.\<close>

lemma check_chain:
  "(if c then Inl e else r) = Inr x \<longleftrightarrow> \<not> c \<and> r = Inr x"
  "(case m of None \<Rightarrow> Inl e' | Some y \<Rightarrow> g y) = Inr x \<longleftrightarrow> (\<exists>y. m = Some y \<and> g y = Inr x)"
  by (auto split: option.splits)

section \<open>Readers of records\<close>

text \<open>
  A reader returns \<open>None\<close> at a clean end of the stream; a stream that ends inside a record is an
  I/O error.
\<close>

definition read_record :: "(bytes \<Rightarrow> 'a proto) \<Rightarrow> nat \<Rightarrow> bytes \<Rightarrow> ('a option \<times> bytes) proto" where
  "read_record decode width reader =
     (case reader of
        [] \<Rightarrow> Inr (None, [])
      | b # rest \<Rightarrow>
          if length rest < width - 1 then Inl (Io ''unexpected end of file'')
          else bind_res (decode (b # take (width - 1) rest)) (\<lambda>x. Inr (Some x, drop (width - 1) rest)))"

fun read_records :: "(bytes \<Rightarrow> 'a proto) \<Rightarrow> nat \<Rightarrow> nat \<Rightarrow> bytes \<Rightarrow> ('a option list \<times> bytes) proto" where
  "read_records decode width 0 reader = Inr ([], reader)"
| "read_records decode width (Suc n) reader =
     bind_res (read_record decode width reader) (\<lambda>(x, rest).
     bind_res (read_records decode width n rest) (\<lambda>(xs, rest'). Inr (x # xs, rest')))"

text \<open>A writer appends the encoding of a record to its stream; records are written one after the other.\<close>

definition write_record :: "('a \<Rightarrow> bytes proto) \<Rightarrow> bytes \<Rightarrow> 'a \<Rightarrow> bytes proto" where
  "write_record encode writer x = bind_res (encode x) (\<lambda>w. Inr (writer @ w))"

lemma write_record_empty [simp]: "write_record encode [] x = encode x"
  by (cases "encode x") (simp_all add: write_record_def)

fun write_records :: "('a \<Rightarrow> bytes proto) \<Rightarrow> 'a list \<Rightarrow> bytes proto" where
  "write_records encode [] = Inr []"
| "write_records encode (x # xs) =
     bind_res (write_record encode [] x) (\<lambda>w. bind_res (write_records encode xs) (\<lambda>ws. Inr (w @ ws)))"

section \<open>The contract\<close>

locale fixed_codec =
  fixes encode :: "'a \<Rightarrow> bytes proto" and decode :: "bytes \<Rightarrow> 'a proto" and width :: nat
  assumes width_pos: "0 < width"
    and encode_width: "encode x = Inr w \<Longrightarrow> length w = width"
    and decode_encode: "encode x = Inr w \<Longrightarrow> decode w = Inr x"
    and encode_decode: "length w = width \<Longrightarrow> decode w = Inr x \<Longrightarrow> encode x = Inr w"
begin

lemma encode_inj: "encode x = Inr w \<Longrightarrow> encode y = Inr w \<Longrightarrow> x = y"
  by (metis decode_encode sum.inject(2))

lemma decode_inj: "length w = width \<Longrightarrow> length v = width \<Longrightarrow> decode w = Inr x \<Longrightarrow> decode v = Inr x \<Longrightarrow> w = v"
  by (metis encode_decode sum.inject(2))

lemma decode_iff: "length w = width \<Longrightarrow> decode w = Inr x \<longleftrightarrow> encode x = Inr w"
  using decode_encode encode_decode by blast

lemma read_encoded: "encode x = Inr w \<Longrightarrow> read_record decode width (w @ rest) = Inr (Some x, rest)"
  using encode_width [of x w] decode_encode [of x w] width_pos
  by (cases w) (auto simp: read_record_def)

lemma read_written:
  "write_records encode xs = Inr out \<Longrightarrow>
   read_records decode width (length xs) (out @ rest) = Inr (map Some xs, rest)"
  by (induction xs arbitrary: out) (auto simp: res_simps read_encoded)

lemma read_written_eof:
  "write_records encode xs = Inr out \<Longrightarrow>
   read_records decode width (Suc (length xs)) out = Inr (map Some xs @ [None], [])"
proof (induction xs arbitrary: out)
  case Nil
  then show ?case by (simp add: read_record_def)
next
  case (Cons x xs)
  then show ?case
    by (auto simp: res_simps read_encoded simp del: read_records.simps(2))
      (simp add: read_encoded read_records.simps(2) [where n = "Suc (length xs)"])
qed

lemma read_record_valid:
  assumes "read_record decode width reader = Inr (Some x, rest)"
  shows "\<exists>w. reader = w @ rest \<and> encode x = Inr w"
proof -
  from assms obtain b r where r: "reader = b # r" "\<not> length r < width - 1"
    "decode (b # take (width - 1) r) = Inr x" "rest = drop (width - 1) r"
    by (auto simp: read_record_def res_simps split: list.splits if_splits)
  moreover have "length (b # take (width - 1) r) = width"
    using r(2) width_pos by simp
  ultimately show ?thesis
    using encode_decode by (intro exI [of _ "b # take (width - 1) r"]) simp
qed

end

text \<open>A record in front of a payload whose length it declares.\<close>

locale payload_codec = fixed_codec +
  fixes payload_len :: "'a \<Rightarrow> nat"
begin

lemma split_object:
  "encode h = Inr w \<Longrightarrow> take width (w @ p) = w \<and> drop width (w @ p) = p \<and> length (w @ p) = width + length p"
  using encode_width by auto

lemma object_inj:
  "encode h = Inr w \<Longrightarrow> encode h' = Inr w' \<Longrightarrow> w @ p = w' @ p' \<Longrightarrow> h = h' \<and> p = p'"
  using encode_width [of h w] encode_width [of h' w'] encode_inj by auto

lemma object_decodes:
  "encode h = Inr w \<Longrightarrow> decode (take width (w @ p)) = Inr h"
  using split_object [of h w p] decode_encode by simp

end

end
