(* ===== verification/Media_Codec.thy ===== *)
theory Media_Codec
  imports Wire_Codec
begin

text \<open>
  The binary media records: the v1 access-unit header and object of \<open>media.rs\<close>, the v3 object
  header and keyframe request of \<open>media_v3.rs\<close> and the Opus packet of \<open>audio.rs\<close> (all under
  \<open>crates/sigil-protocol/src\<close>). A Rust array \<open>[u8; n]\<close> is a list of length \<open>n\<close>; \<open>i64\<close> is kept as
  its 64 bits.
\<close>

definition word_magic :: "string \<Rightarrow> bytes" where
  "word_magic s = map of_char s"

section \<open>Codecs and flags\<close>

datatype media_codec = H264
datatype audio_codec = Opus

definition media_codec_byte :: "media_codec \<Rightarrow> u8" where
  "media_codec_byte c = (case c of H264 \<Rightarrow> 1)"

definition media_codec_try_from :: "u8 \<Rightarrow> media_codec proto" where
  "media_codec_try_from b = (if b = 1 then Inr H264 else Inl (UnsupportedCodec b))"

definition audio_codec_byte :: "audio_codec \<Rightarrow> u8" where
  "audio_codec_byte c = (case c of Opus \<Rightarrow> 1)"

definition audio_codec_try_from :: "u8 \<Rightarrow> audio_codec proto" where
  "audio_codec_try_from b = (if b = 1 then Inr Opus else Inl (UnsupportedAudioCodec b))"

datatype frame_flags = FrameFlags (frame_bits: u8)

definition FLAG_KEYFRAME :: frame_flags where "FLAG_KEYFRAME = FrameFlags 1"
definition FLAG_CODEC_CONFIG :: frame_flags where "FLAG_CODEC_CONFIG = FrameFlags 2"
definition FLAG_DISCONTINUITY :: frame_flags where "FLAG_DISCONTINUITY = FrameFlags 4"
definition FRAME_FLAGS_KNOWN :: u8 where
  "FRAME_FLAGS_KNOWN = frame_bits FLAG_KEYFRAME OR frame_bits FLAG_CODEC_CONFIG OR frame_bits FLAG_DISCONTINUITY"

definition frame_flags_from_bits :: "u8 \<Rightarrow> frame_flags option" where
  "frame_flags_from_bits bits = (if bits AND NOT FRAME_FLAGS_KNOWN = 0 then Some (FrameFlags bits) else None)"

definition frame_flags_contains :: "frame_flags \<Rightarrow> frame_flags \<Rightarrow> bool" where
  "frame_flags_contains f flag \<longleftrightarrow> frame_bits f AND frame_bits flag = frame_bits flag"

datatype audio_flags = AudioFlags (audio_bits: u8)

definition AUDIO_DISCONTINUITY :: audio_flags where "AUDIO_DISCONTINUITY = AudioFlags 1"

definition audio_flags_from_bits :: "u8 \<Rightarrow> audio_flags option" where
  "audio_flags_from_bits bits =
     (if bits AND NOT (audio_bits AUDIO_DISCONTINUITY) = 0 then Some (AudioFlags bits) else None)"

lemma codec_bytes [simp]:
  "media_codec_try_from (media_codec_byte c) = Inr c" "audio_codec_try_from (audio_codec_byte a) = Inr a"
  "media_codec_try_from b = Inr c \<longleftrightarrow> b = media_codec_byte c"
  "audio_codec_try_from b = Inr a \<longleftrightarrow> b = audio_codec_byte a"
  by (cases c; cases a; auto simp: media_codec_try_from_def media_codec_byte_def audio_codec_try_from_def
      audio_codec_byte_def)+

lemma flags_from_bits [simp]:
  "frame_flags_from_bits b = Some f \<longleftrightarrow> b = frame_bits f \<and> b AND NOT FRAME_FLAGS_KNOWN = 0"
  "audio_flags_from_bits b = Some a \<longleftrightarrow> b = audio_bits a \<and> b AND NOT (audio_bits AUDIO_DISCONTINUITY) = 0"
  by (cases f; auto simp: frame_flags_from_bits_def) (cases a; auto simp: audio_flags_from_bits_def)

text \<open>The check both media headers make of the picture size.\<close>

definition dimensions_valid :: "u16 \<Rightarrow> u16 \<Rightarrow> bool" where
  "dimensions_valid width height \<longleftrightarrow>
     \<not> (width = 0 \<or> height = 0 \<or> MAX_VIDEO_DIMENSION < width \<or> MAX_VIDEO_DIMENSION < height
        \<or> MAX_VIDEO_PIXELS < (ucast width :: u32) * ucast height)"

section \<open>The v1 media header (media.rs)\<close>

definition MEDIA_MAGIC :: bytes where "MEDIA_MAGIC = word_magic ''SGV1''"
definition MEDIA_HEADER_LEN :: nat where "MEDIA_HEADER_LEN = 48"
definition MEDIA_HEADER_LEN_U8 :: u8 where "MEDIA_HEADER_LEN_U8 = 48"

record media_frame_header =
  mh_codec :: media_codec
  mh_flags :: frame_flags
  mh_width :: u16
  mh_height :: u16
  mh_payload_len :: u32
  mh_sequence :: u64
  mh_capture_timestamp_us :: u64
  mh_pts_us :: u64

definition media_header_validate :: "media_frame_header \<Rightarrow> unit proto" where
  "media_header_validate h =
     (if \<not> dimensions_valid (mh_width h) (mh_height h)
      then Inl (InvalidDimensions (mh_width h) (mh_height h))
      else if unat (mh_payload_len h) = 0 \<or> MAX_MEDIA_PAYLOAD_LEN < unat (mh_payload_len h)
      then Inl (InvalidMediaPayloadLength (unat (mh_payload_len h)) MAX_MEDIA_PAYLOAD_LEN)
      else if frame_flags_from_bits (frame_bits (mh_flags h)) = None
      then Inl (UnsupportedFlags (frame_bits (mh_flags h)))
      else Inr ())"

definition media_header_h264 ::
  "u16 \<Rightarrow> u16 \<Rightarrow> nat \<Rightarrow> u64 \<Rightarrow> u64 \<Rightarrow> u64 \<Rightarrow> frame_flags \<Rightarrow> media_frame_header proto" where
  "media_header_h264 width height payload_len sequence capture pts flags =
     (if \<not> payload_len < 2 ^ 32 then Inl (InvalidMediaPayloadLength payload_len MAX_MEDIA_PAYLOAD_LEN)
      else (let h = \<lparr>mh_codec = H264, mh_flags = flags, mh_width = width, mh_height = height,
                    mh_payload_len = of_nat payload_len, mh_sequence = sequence,
                    mh_capture_timestamp_us = capture, mh_pts_us = pts\<rparr>
            in bind_res (media_header_validate h) (\<lambda>_. Inr h)))"

definition media_header_encode :: "media_frame_header \<Rightarrow> bytes proto" where
  "media_header_encode h =
     bind_res (media_header_validate h) (\<lambda>_. Inr
       (MEDIA_MAGIC @ to_be_bytes PROTOCOL_VERSION @ [MEDIA_HEADER_LEN_U8] @ [media_codec_byte (mh_codec h)] @
        [frame_bits (mh_flags h)] @ replicate 3 0 @ to_be_bytes (mh_width h) @ to_be_bytes (mh_height h) @
        to_be_bytes (mh_payload_len h) @ replicate 4 0 @ to_be_bytes (mh_sequence h) @
        to_be_bytes (mh_capture_timestamp_us h) @ to_be_bytes (mh_pts_us h)))"

definition media_header_decode :: "bytes \<Rightarrow> media_frame_header proto" where
  "media_header_decode w =
     (if slice 0 4 w \<noteq> MEDIA_MAGIC then Inl (InvalidMediaMagic (slice 0 4 w))
      else if from_be_bytes (slice 4 6 w) \<noteq> PROTOCOL_VERSION
      then Inl (UnsupportedVersion PROTOCOL_VERSION (from_be_bytes (slice 4 6 w)))
      else if w ! 6 \<noteq> MEDIA_HEADER_LEN_U8 then Inl (InvalidHeaderLength MEDIA_HEADER_LEN_U8 (w ! 6))
      else if \<not> zeroed (slice 9 12 w @ slice 20 24 w)
      then invalid ''media header'' ''reserved fields must be zero''
      else case frame_flags_from_bits (w ! 8) of
        None \<Rightarrow> Inl (UnsupportedFlags (w ! 8))
      | Some flags \<Rightarrow>
      bind_res (media_codec_try_from (w ! 7)) (\<lambda>codec.
      let h = \<lparr>mh_codec = codec, mh_flags = flags, mh_width = from_be_bytes (slice 12 14 w),
              mh_height = from_be_bytes (slice 14 16 w), mh_payload_len = from_be_bytes (slice 16 20 w),
              mh_sequence = from_be_bytes (slice 24 32 w),
              mh_capture_timestamp_us = from_be_bytes (slice 32 40 w),
              mh_pts_us = from_be_bytes (slice 40 48 w)\<rparr>
      in bind_res (media_header_validate h) (\<lambda>_. Inr h)))"

lemma length_magic: "length (word_magic s) = length s"
  by (simp add: word_magic_def)

lemma media_layout:
  assumes "length w = 48"
  shows "w = slice 0 4 w @ slice 4 6 w @ [w ! 6] @ [w ! 7] @ [w ! 8] @ slice 9 12 w @ slice 12 14 w @
    slice 14 16 w @ slice 16 20 w @ slice 20 24 w @ slice 24 32 w @ slice 32 40 w @ slice 40 48 w"
  using slices_whole [of 0 "[4, 6, 7, 8, 9, 12, 14, 16, 20, 24, 32, 40, 48]" w] assms
  by (simp add: slice_single)

lemma media_header_bytes:
  assumes "media_header_encode h = Inr w"
  shows "length w = 48" "slice 0 4 w = MEDIA_MAGIC" "slice 4 6 w = to_be_bytes PROTOCOL_VERSION"
    "w ! 6 = MEDIA_HEADER_LEN_U8" "w ! 7 = media_codec_byte (mh_codec h)" "w ! 8 = frame_bits (mh_flags h)"
    "zeroed (slice 9 12 w)" "slice 12 14 w = to_be_bytes (mh_width h)" "slice 14 16 w = to_be_bytes (mh_height h)"
    "slice 16 20 w = to_be_bytes (mh_payload_len h)" "zeroed (slice 20 24 w)"
    "slice 24 32 w = to_be_bytes (mh_sequence h)" "slice 32 40 w = to_be_bytes (mh_capture_timestamp_us h)"
    "slice 40 48 w = to_be_bytes (mh_pts_us h)" "media_header_validate h = Inr ()"
  using assms
  by (auto simp: media_header_encode_def res_simps slice_def nth_append MEDIA_MAGIC_def length_magic)

lemma media_header_flags:
  "media_header_validate h = Inr u \<Longrightarrow> frame_flags_from_bits (frame_bits (mh_flags h)) = Some (mh_flags h)"
  by (auto simp: media_header_validate_def simp del: flags_from_bits simp: frame_flags_from_bits_def split: if_splits)

lemma media_header_decode_encode:
  assumes "media_header_encode h = Inr w"
  shows "media_header_decode w = Inr h"
proof -
  note b = media_header_bytes [OF assms]
  have r: "\<lparr>mh_codec = mh_codec h, mh_flags = mh_flags h, mh_width = mh_width h, mh_height = mh_height h,
      mh_payload_len = mh_payload_len h, mh_sequence = mh_sequence h,
      mh_capture_timestamp_us = mh_capture_timestamp_us h, mh_pts_us = mh_pts_us h\<rparr> = h"
    by simp
  show ?thesis
    unfolding media_header_decode_def b(2-6,8-10,12-14) from_to_be_bytes codec_bytes(1) Let_def
      media_header_flags [OF b(15)] option.case bind_res_simps r b(15) zeroed_append
    using b(7,11) by simp
qed

lemma media_header_encode_decode:
  assumes l: "length w = 48" and d: "media_header_decode w = Inr h"
  shows "media_header_encode h = Inr w"
proof -
  have f: "slice 0 4 w = MEDIA_MAGIC" "from_be_bytes (slice 4 6 w) = PROTOCOL_VERSION" "w ! 6 = MEDIA_HEADER_LEN_U8"
    "zeroed (slice 9 12 w)" "zeroed (slice 20 24 w)" "frame_bits (mh_flags h) = w ! 8"
    "media_codec_byte (mh_codec h) = w ! 7" "media_header_validate h = Inr ()"
    "mh_width h = from_be_bytes (slice 12 14 w)" "mh_height h = from_be_bytes (slice 14 16 w)"
    "mh_payload_len h = from_be_bytes (slice 16 20 w)" "mh_sequence h = from_be_bytes (slice 24 32 w)"
    "mh_capture_timestamp_us h = from_be_bytes (slice 32 40 w)" "mh_pts_us h = from_be_bytes (slice 40 48 w)"
    using d unfolding media_header_decode_def Let_def check_chain bind_res_eq_Inr by auto
  have v: "to_be_bytes PROTOCOL_VERSION = slice 4 6 w"
    using l to_from_be_bytes(1) [of "slice 4 6 w"] unfolding f(2) [symmetric] by simp
  have z: "replicate 3 0 = slice 9 12 w" "replicate 4 0 = slice 20 24 w"
    using zeroed_slice [OF f(4)] zeroed_slice [OF f(5)] l by simp_all
  have n: "to_be_bytes (mh_width h) = slice 12 14 w" "to_be_bytes (mh_height h) = slice 14 16 w"
    "to_be_bytes (mh_payload_len h) = slice 16 20 w" "to_be_bytes (mh_sequence h) = slice 24 32 w"
    "to_be_bytes (mh_capture_timestamp_us h) = slice 32 40 w" "to_be_bytes (mh_pts_us h) = slice 40 48 w"
    unfolding f(9-14) using l by (simp_all add: to_from_be_bytes)
  show ?thesis
    unfolding media_header_encode_def f(8) bind_res_simps v z n f(1,3) [symmetric] f(6,7)
    by (rule arg_cong [OF media_layout [OF l, symmetric]])
qed

interpretation media_header: fixed_codec media_header_encode media_header_decode MEDIA_HEADER_LEN
  unfolding MEDIA_HEADER_LEN_def
  by unfold_locales (simp, erule media_header_bytes(1), erule media_header_decode_encode, erule (1) media_header_encode_decode)

section \<open>Media frame objects (media.rs)\<close>

record media_frame =
  mf_header :: media_frame_header
  mf_payload :: bytes

definition media_frame_new :: "media_frame_header \<Rightarrow> bytes \<Rightarrow> media_frame proto" where
  "media_frame_new header payload =
     bind_res (media_header_validate header) (\<lambda>_.
     if length payload \<noteq> unat (mh_payload_len header)
     then invalid ''media frame'' ''payload does not match declared length''
     else Inr \<lparr>mf_header = header, mf_payload = payload\<rparr>)"

text \<open>The lengths are far from \<open>usize::MAX\<close>: the \<open>checked_add\<close>s of the code always succeed.\<close>

definition encode_media_frame_object :: "media_frame \<Rightarrow> bytes proto" where
  "encode_media_frame_object frame =
     bind_res (media_header_validate (mf_header frame)) (\<lambda>_.
     if length (mf_payload frame) \<noteq> unat (mh_payload_len (mf_header frame))
     then invalid ''media frame object'' ''payload does not match declared length''
     else bind_res (media_header_encode (mf_header frame)) (\<lambda>wire. Inr (wire @ mf_payload frame)))"

definition decode_media_frame_object :: "bytes \<Rightarrow> media_frame proto" where
  "decode_media_frame_object object =
     (if length object < MEDIA_HEADER_LEN
      then invalid ''media frame object'' ''object ended before the media header''
      else bind_res (media_header_decode (take MEDIA_HEADER_LEN object)) (\<lambda>header.
      if length object \<noteq> MEDIA_HEADER_LEN + unat (mh_payload_len header)
      then invalid ''media frame object'' ''object length does not match declared payload''
      else media_frame_new header (drop MEDIA_HEADER_LEN object)))"

interpretation media_object: payload_codec media_header_encode media_header_decode MEDIA_HEADER_LEN
  "unat \<circ> mh_payload_len" ..

lemma media_header_encode_valid: "media_header_encode h = Inr w \<Longrightarrow> media_header_validate h = Inr ()"
  by (simp add: media_header_encode_def res_simps)

lemma media_object_cases:
  "encode_media_frame_object f = Inr obj \<longleftrightarrow>
     (\<exists>w. media_header_encode (mf_header f) = Inr w \<and> obj = w @ mf_payload f \<and>
        length (mf_payload f) = unat (mh_payload_len (mf_header f)))"
  by (auto simp: encode_media_frame_object_def check_chain bind_res_eq_Inr media_header_encode_valid)

text \<open>
  Media frame objects have exactly one spelling: bytes decode to a frame if and only if they
  are the encoding of that frame. So what is sent is received unchanged, two frames never share an
  encoding, and no other bytes (trailing data, reserved bits, a wrong length) are accepted.
\<close>

theorem media_frame_object_canonical:
  "decode_media_frame_object obj = Inr f \<longleftrightarrow> encode_media_frame_object f = Inr obj"
proof
  assume e: "encode_media_frame_object f = Inr obj"
  then obtain w where w: "media_header_encode (mf_header f) = Inr w" "obj = w @ mf_payload f"
    and len: "length (mf_payload f) = unat (mh_payload_len (mf_header f))"
    by (auto simp: media_object_cases)
  note s = media_object.split_object [OF w(1), of "mf_payload f"]
  show "decode_media_frame_object obj = Inr f"
    using w s len media_header_encode_valid [OF w(1)] media_object.object_decodes [OF w(1), of "mf_payload f"]
    by (simp add: decode_media_frame_object_def media_frame_new_def)
next
  assume d: "decode_media_frame_object obj = Inr f"
  then have l: "\<not> length obj < MEDIA_HEADER_LEN" and h: "media_header_decode (take MEDIA_HEADER_LEN obj) = Inr (mf_header f)"
    and p: "mf_payload f = drop MEDIA_HEADER_LEN obj" "length (mf_payload f) = unat (mh_payload_len (mf_header f))"
    by (auto simp: decode_media_frame_object_def media_frame_new_def check_chain bind_res_eq_Inr)
  have "media_header_encode (mf_header f) = Inr (take MEDIA_HEADER_LEN obj)"
    by (rule media_header.encode_decode [OF _ h]) (use l in simp)
  with p show "encode_media_frame_object f = Inr obj"
    by (auto simp: media_object_cases)
qed

end
