(* ===== verification/Audio_Codec.thy ===== *)
theory Audio_Codec
  imports Media_Codec
begin

text \<open>
  The Opus packets of \<open>crates/sigil-protocol/src/audio.rs\<close>: one header and one payload per
  datagram.
\<close>

definition AUDIO_MAGIC :: bytes where "AUDIO_MAGIC = word_magic ''SGA1''"
definition AUDIO_HEADER_LEN :: nat where "AUDIO_HEADER_LEN = 48"
definition AUDIO_HEADER_LEN_U8 :: u8 where "AUDIO_HEADER_LEN_U8 = 48"

record audio_packet_header =
  ah_codec :: audio_codec
  ah_flags :: audio_flags
  ah_channels :: u8
  ah_sample_rate :: u32
  ah_frame_samples :: u16
  ah_payload_len :: u32
  ah_sequence :: u64
  ah_capture_timestamp_us :: u64
  ah_pts_us :: u64

definition audio_header_validate :: "audio_packet_header \<Rightarrow> unit proto" where
  "audio_header_validate h =
     (if ah_channels h \<noteq> OPUS_CHANNELS \<or> ah_sample_rate h \<noteq> OPUS_SAMPLE_RATE
         \<or> ah_frame_samples h \<noteq> OPUS_FRAME_SAMPLES
      then invalid ''audio header'' ''v1 requires 48 kHz stereo Opus with 960 samples per packet''
      else if unat (ah_payload_len h) = 0 \<or> MAX_AUDIO_PAYLOAD_LEN < unat (ah_payload_len h)
      then Inl (InvalidAudioPayloadLength (unat (ah_payload_len h)) MAX_AUDIO_PAYLOAD_LEN)
      else if audio_flags_from_bits (audio_bits (ah_flags h)) = None
      then Inl (UnsupportedFlags (audio_bits (ah_flags h)))
      else Inr ())"

definition audio_header_opus :: "nat \<Rightarrow> u64 \<Rightarrow> u64 \<Rightarrow> u64 \<Rightarrow> audio_flags \<Rightarrow> audio_packet_header proto" where
  "audio_header_opus payload_len sequence capture pts flags =
     (if \<not> payload_len < 2 ^ 32 then Inl (InvalidAudioPayloadLength payload_len MAX_AUDIO_PAYLOAD_LEN)
      else (let h = \<lparr>ah_codec = Opus, ah_flags = flags, ah_channels = OPUS_CHANNELS,
                    ah_sample_rate = OPUS_SAMPLE_RATE, ah_frame_samples = OPUS_FRAME_SAMPLES,
                    ah_payload_len = of_nat payload_len, ah_sequence = sequence,
                    ah_capture_timestamp_us = capture, ah_pts_us = pts\<rparr>
            in bind_res (audio_header_validate h) (\<lambda>_. Inr h)))"

definition audio_header_encode :: "audio_packet_header \<Rightarrow> bytes proto" where
  "audio_header_encode h =
     bind_res (audio_header_validate h) (\<lambda>_. Inr
       (AUDIO_MAGIC @ to_be_bytes PROTOCOL_VERSION @ [AUDIO_HEADER_LEN_U8] @ [audio_codec_byte (ah_codec h)] @
        [audio_bits (ah_flags h)] @ [ah_channels h] @ replicate 2 0 @ to_be_bytes (ah_sample_rate h) @
        to_be_bytes (ah_frame_samples h) @ replicate 2 0 @ to_be_bytes (ah_payload_len h) @
        to_be_bytes (ah_sequence h) @ to_be_bytes (ah_capture_timestamp_us h) @ to_be_bytes (ah_pts_us h)))"

definition audio_header_decode :: "bytes \<Rightarrow> audio_packet_header proto" where
  "audio_header_decode w =
     (if slice 0 4 w \<noteq> AUDIO_MAGIC then Inl (InvalidAudioMagic (slice 0 4 w))
      else if from_be_bytes (slice 4 6 w) \<noteq> PROTOCOL_VERSION
      then Inl (UnsupportedVersion PROTOCOL_VERSION (from_be_bytes (slice 4 6 w)))
      else if w ! 6 \<noteq> AUDIO_HEADER_LEN_U8 then Inl (InvalidHeaderLength AUDIO_HEADER_LEN_U8 (w ! 6))
      else if \<not> zeroed (slice 10 12 w @ slice 18 20 w)
      then invalid ''audio header'' ''reserved fields must be zero''
      else case audio_flags_from_bits (w ! 8) of
        None \<Rightarrow> Inl (UnsupportedFlags (w ! 8))
      | Some flags \<Rightarrow>
      bind_res (audio_codec_try_from (w ! 7)) (\<lambda>codec.
      let h = \<lparr>ah_codec = codec, ah_flags = flags, ah_channels = w ! 9,
              ah_sample_rate = from_be_bytes (slice 12 16 w), ah_frame_samples = from_be_bytes (slice 16 18 w),
              ah_payload_len = from_be_bytes (slice 20 24 w), ah_sequence = from_be_bytes (slice 24 32 w),
              ah_capture_timestamp_us = from_be_bytes (slice 32 40 w),
              ah_pts_us = from_be_bytes (slice 40 48 w)\<rparr>
      in bind_res (audio_header_validate h) (\<lambda>_. Inr h)))"

lemma audio_layout:
  assumes "length w = 48"
  shows "w = slice 0 4 w @ slice 4 6 w @ [w ! 6] @ [w ! 7] @ [w ! 8] @ [w ! 9] @ slice 10 12 w @ slice 12 16 w @
    slice 16 18 w @ slice 18 20 w @ slice 20 24 w @ slice 24 32 w @ slice 32 40 w @ slice 40 48 w"
  using slices_whole [of 0 "[4, 6, 7, 8, 9, 10, 12, 16, 18, 20, 24, 32, 40, 48]" w] assms
  by (simp add: slice_single)

lemma audio_header_bytes:
  assumes "audio_header_encode h = Inr w"
  shows "length w = 48" "slice 0 4 w = AUDIO_MAGIC" "slice 4 6 w = to_be_bytes PROTOCOL_VERSION"
    "w ! 6 = AUDIO_HEADER_LEN_U8" "w ! 7 = audio_codec_byte (ah_codec h)" "w ! 8 = audio_bits (ah_flags h)"
    "w ! 9 = ah_channels h" "zeroed (slice 10 12 w)" "slice 12 16 w = to_be_bytes (ah_sample_rate h)"
    "slice 16 18 w = to_be_bytes (ah_frame_samples h)" "zeroed (slice 18 20 w)"
    "slice 20 24 w = to_be_bytes (ah_payload_len h)" "slice 24 32 w = to_be_bytes (ah_sequence h)"
    "slice 32 40 w = to_be_bytes (ah_capture_timestamp_us h)" "slice 40 48 w = to_be_bytes (ah_pts_us h)"
    "audio_header_validate h = Inr ()"
  using assms
  by (auto simp: audio_header_encode_def res_simps slice_def nth_append AUDIO_MAGIC_def length_magic)

lemma audio_header_flags:
  "audio_header_validate h = Inr u \<Longrightarrow> audio_flags_from_bits (audio_bits (ah_flags h)) = Some (ah_flags h)"
  by (auto simp: audio_header_validate_def audio_flags_from_bits_def simp del: flags_from_bits split: if_splits)

lemma audio_header_decode_encode:
  assumes "audio_header_encode h = Inr w"
  shows "audio_header_decode w = Inr h"
proof -
  note b = audio_header_bytes [OF assms]
  have r: "\<lparr>ah_codec = ah_codec h, ah_flags = ah_flags h, ah_channels = ah_channels h,
      ah_sample_rate = ah_sample_rate h, ah_frame_samples = ah_frame_samples h, ah_payload_len = ah_payload_len h,
      ah_sequence = ah_sequence h, ah_capture_timestamp_us = ah_capture_timestamp_us h, ah_pts_us = ah_pts_us h\<rparr> = h"
    by simp
  show ?thesis
    unfolding audio_header_decode_def b(2-7,9,10,12-15) from_to_be_bytes codec_bytes(2) Let_def
      audio_header_flags [OF b(16)] option.case bind_res_simps r b(16) zeroed_append
    using b(8,11) by simp
qed

lemma audio_header_encode_decode:
  assumes l: "length w = 48" and d: "audio_header_decode w = Inr h"
  shows "audio_header_encode h = Inr w"
proof -
  have f: "slice 0 4 w = AUDIO_MAGIC" "from_be_bytes (slice 4 6 w) = PROTOCOL_VERSION" "w ! 6 = AUDIO_HEADER_LEN_U8"
    "zeroed (slice 10 12 w)" "zeroed (slice 18 20 w)" "audio_bits (ah_flags h) = w ! 8"
    "audio_codec_byte (ah_codec h) = w ! 7" "audio_header_validate h = Inr ()" "ah_channels h = w ! 9"
    "ah_sample_rate h = from_be_bytes (slice 12 16 w)" "ah_frame_samples h = from_be_bytes (slice 16 18 w)"
    "ah_payload_len h = from_be_bytes (slice 20 24 w)" "ah_sequence h = from_be_bytes (slice 24 32 w)"
    "ah_capture_timestamp_us h = from_be_bytes (slice 32 40 w)" "ah_pts_us h = from_be_bytes (slice 40 48 w)"
    using d unfolding audio_header_decode_def Let_def check_chain bind_res_eq_Inr by auto
  have v: "to_be_bytes PROTOCOL_VERSION = slice 4 6 w"
    using l to_from_be_bytes(1) [of "slice 4 6 w"] unfolding f(2) [symmetric] by simp
  have z: "replicate 2 0 = slice 10 12 w" "replicate 2 0 = slice 18 20 w"
    using zeroed_slice [OF f(4)] zeroed_slice [OF f(5)] l by simp_all
  have n: "to_be_bytes (ah_sample_rate h) = slice 12 16 w" "to_be_bytes (ah_frame_samples h) = slice 16 18 w"
    "to_be_bytes (ah_payload_len h) = slice 20 24 w" "to_be_bytes (ah_sequence h) = slice 24 32 w"
    "to_be_bytes (ah_capture_timestamp_us h) = slice 32 40 w" "to_be_bytes (ah_pts_us h) = slice 40 48 w"
    unfolding f(10-15) using l by (simp_all add: to_from_be_bytes)
  show ?thesis
    unfolding audio_header_encode_def f(8) bind_res_simps v n f(1,3) [symmetric] f(6,7,9)
    by (rule arg_cong [OF audio_layout [OF l, folded z, symmetric]])
qed

interpretation audio_header: fixed_codec audio_header_encode audio_header_decode AUDIO_HEADER_LEN
  unfolding AUDIO_HEADER_LEN_def
  by unfold_locales (simp, erule audio_header_bytes(1), erule audio_header_decode_encode, erule (1) audio_header_encode_decode)

section \<open>Packets\<close>

record audio_packet =
  ap_header :: audio_packet_header
  ap_payload :: bytes

definition audio_packet_new :: "audio_packet_header \<Rightarrow> bytes \<Rightarrow> audio_packet proto" where
  "audio_packet_new header payload =
     bind_res (audio_header_validate header) (\<lambda>_.
     if length payload \<noteq> unat (ah_payload_len header)
     then invalid ''audio packet'' ''payload does not match declared length''
     else Inr \<lparr>ap_header = header, ap_payload = payload\<rparr>)"

definition encode_datagram :: "audio_packet \<Rightarrow> bytes proto" where
  "encode_datagram packet =
     bind_res (audio_header_validate (ap_header packet)) (\<lambda>_.
     if length (ap_payload packet) \<noteq> unat (ah_payload_len (ap_header packet))
     then invalid ''audio packet'' ''payload does not match declared length''
     else bind_res (audio_header_encode (ap_header packet)) (\<lambda>wire. Inr (wire @ ap_payload packet)))"

definition decode_datagram :: "bytes \<Rightarrow> audio_packet proto" where
  "decode_datagram datagram =
     (if length datagram < AUDIO_HEADER_LEN
      then invalid ''audio packet'' ''datagram is shorter than the audio header''
      else bind_res (audio_header_decode (take AUDIO_HEADER_LEN datagram)) (\<lambda>header.
      if length datagram \<noteq> AUDIO_HEADER_LEN + unat (ah_payload_len header)
      then invalid ''audio packet'' ''datagram does not match declared payload length''
      else audio_packet_new header (drop AUDIO_HEADER_LEN datagram)))"

interpretation audio_object: payload_codec audio_header_encode audio_header_decode AUDIO_HEADER_LEN
  "unat \<circ> ah_payload_len" ..

lemma audio_header_encode_valid: "audio_header_encode h = Inr w \<Longrightarrow> audio_header_validate h = Inr ()"
  by (simp add: audio_header_encode_def res_simps)

lemma datagram_cases:
  "encode_datagram p = Inr d \<longleftrightarrow>
     (\<exists>w. audio_header_encode (ap_header p) = Inr w \<and> d = w @ ap_payload p \<and>
        length (ap_payload p) = unat (ah_payload_len (ap_header p)))"
  by (auto simp: encode_datagram_def check_chain bind_res_eq_Inr audio_header_encode_valid)

text \<open>
  C13: Audio datagrams have exactly one spelling, and the decoder accepts only 20 ms stereo Opus
  packets at 48 kHz with a payload of 1 to 512 bytes: a datagram decodes to a packet if and only if
  it is the encoding of that packet.
\<close>

theorem audio_datagram_canonical:
  "(decode_datagram d = Inr p \<longleftrightarrow> encode_datagram p = Inr d) \<and>
   (decode_datagram d = Inr p \<longrightarrow>
      ah_channels (ap_header p) = 2 \<and> ah_sample_rate (ap_header p) = 48000 \<and>
      ah_frame_samples (ap_header p) = 960 \<and> length d = 48 + length (ap_payload p) \<and>
      0 < length (ap_payload p) \<and> length (ap_payload p) \<le> 512)"
proof -
  have enc: "decode_datagram d = Inr p" if "encode_datagram p = Inr d"
  proof -
    from that obtain w where w: "audio_header_encode (ap_header p) = Inr w" "d = w @ ap_payload p"
      and len: "length (ap_payload p) = unat (ah_payload_len (ap_header p))"
      by (auto simp: datagram_cases)
    note s = audio_object.split_object [OF w(1), of "ap_payload p"]
    show ?thesis
      using w s len audio_header_encode_valid [OF w(1)] audio_object.object_decodes [OF w(1), of "ap_payload p"]
      by (simp add: decode_datagram_def audio_packet_new_def)
  qed
  have dec: "encode_datagram p = Inr d" if "decode_datagram d = Inr p"
  proof -
    from that have l: "\<not> length d < AUDIO_HEADER_LEN" and h: "audio_header_decode (take AUDIO_HEADER_LEN d) = Inr (ap_header p)"
      and p: "ap_payload p = drop AUDIO_HEADER_LEN d" "length (ap_payload p) = unat (ah_payload_len (ap_header p))"
      by (auto simp: decode_datagram_def audio_packet_new_def check_chain bind_res_eq_Inr)
    have "audio_header_encode (ap_header p) = Inr (take AUDIO_HEADER_LEN d)"
      by (rule audio_header.encode_decode [OF _ h]) (use l in simp)
    with p show ?thesis by (auto simp: datagram_cases)
  qed
  have "ah_channels (ap_header p) = 2 \<and> ah_sample_rate (ap_header p) = 48000 \<and>
      ah_frame_samples (ap_header p) = 960 \<and> length d = 48 + length (ap_payload p) \<and>
      0 < length (ap_payload p) \<and> length (ap_payload p) \<le> 512" if "encode_datagram p = Inr d"
  proof -
    from that obtain w where w: "audio_header_encode (ap_header p) = Inr w" "d = w @ ap_payload p"
      "length (ap_payload p) = unat (ah_payload_len (ap_header p))" by (auto simp: datagram_cases)
    with audio_header_encode_valid [OF w(1)] audio_header_bytes(1) [OF w(1)] show ?thesis
      by (simp add: audio_header_validate_def check_chain OPUS_CHANNELS_def OPUS_SAMPLE_RATE_def
          OPUS_FRAME_SAMPLES_def MAX_AUDIO_PAYLOAD_LEN_def)
  qed
  with enc dec show ?thesis by blast
qed

text \<open>A packet of the shortest payload.\<close>

definition demo_packet :: audio_packet where
  "demo_packet = \<lparr>ap_header = \<lparr>ah_codec = Opus, ah_flags = AUDIO_DISCONTINUITY, ah_channels = 2, ah_sample_rate = 48000,
     ah_frame_samples = 960, ah_payload_len = 1, ah_sequence = 42, ah_capture_timestamp_us = 123456,
     ah_pts_us = 120000\<rparr>, ap_payload = [248]\<rparr>"

theorem audio_datagram_canonical_witness:
  "\<exists>d. decode_datagram d = Inr demo_packet \<and> length d = 49 \<and> ah_channels (ap_header demo_packet) = 2"
proof -
  obtain d where "encode_datagram demo_packet = Inr d"
    by (simp add: encode_datagram_def demo_packet_def audio_header_encode_def audio_header_validate_def
        OPUS_CHANNELS_def OPUS_SAMPLE_RATE_def OPUS_FRAME_SAMPLES_def MAX_AUDIO_PAYLOAD_LEN_def
        AUDIO_DISCONTINUITY_def audio_flags_from_bits_def)
  then have d: "decode_datagram d = Inr demo_packet"
    using audio_datagram_canonical [of d demo_packet] by simp
  then have "length d = 48 + length (ap_payload demo_packet)"
    using audio_datagram_canonical [of d demo_packet] by simp
  with d show ?thesis
    by (auto simp: demo_packet_def)
qed

end
