(* ===== verification/Media_V3_Codec.thy ===== *)
theory Media_V3_Codec
  imports Media_Codec
begin

text \<open>
  The grouped media objects and the keyframe requests of \<open>crates/sigil-protocol/src/media_v3.rs\<close>.
  A reader is the list of bytes the peer sends before it closes the stream.
\<close>

definition MEDIA_OBJECT_V3_MAGIC :: bytes where "MEDIA_OBJECT_V3_MAGIC = word_magic ''SGO3''"
definition MEDIA_CONTROL_V3_MAGIC :: bytes where "MEDIA_CONTROL_V3_MAGIC = word_magic ''SGC3''"
definition MEDIA_V3_VERSION :: u16 where "MEDIA_V3_VERSION = 3"
definition MEDIA_OBJECT_V3_HEADER_LEN :: nat where "MEDIA_OBJECT_V3_HEADER_LEN = 64"
definition MEDIA_OBJECT_V3_HEADER_LEN_U16 :: u16 where "MEDIA_OBJECT_V3_HEADER_LEN_U16 = 64"
definition MEDIA_CONTROL_REQUEST_V3_LEN :: nat where "MEDIA_CONTROL_REQUEST_V3_LEN = 28"
definition MEDIA_CONTROL_REQUEST_V3_LEN_U16 :: u16 where "MEDIA_CONTROL_REQUEST_V3_LEN_U16 = 28"
definition MIN_MEDIA_OBJECT_DELIVERY_TIMEOUT_MS :: u32 where "MIN_MEDIA_OBJECT_DELIVERY_TIMEOUT_MS = 16"
definition MAX_MEDIA_OBJECT_DELIVERY_TIMEOUT_MS :: u32 where "MAX_MEDIA_OBJECT_DELIVERY_TIMEOUT_MS = 1000"
definition MAX_MEDIA_OBJECT_ID_V3 :: u32 where "MAX_MEDIA_OBJECT_ID_V3 = 255"
definition MAX_MEDIA_GROUP_BYTES_V3 :: nat where "MAX_MEDIA_GROUP_BYTES_V3 = 32 * 1024 * 1024"

section \<open>Object headers\<close>

record media_object_header =
  oh_codec :: media_codec
  oh_publisher_priority :: u8
  oh_flags :: frame_flags
  oh_width :: u16
  oh_height :: u16
  oh_payload_len :: u32
  oh_object_id :: u32
  oh_group_id :: u64
  oh_sequence :: u64
  oh_capture_timestamp_us :: u64
  oh_pts_us :: u64
  oh_delivery_timeout_ms :: u32

definition object_header_validate :: "media_object_header \<Rightarrow> unit proto" where
  "object_header_validate h =
     (if \<not> dimensions_valid (oh_width h) (oh_height h)
      then Inl (InvalidDimensions (oh_width h) (oh_height h))
      else if unat (oh_payload_len h) = 0 \<or> MAX_MEDIA_PAYLOAD_LEN < unat (oh_payload_len h)
      then Inl (InvalidMediaPayloadLength (unat (oh_payload_len h)) MAX_MEDIA_PAYLOAD_LEN)
      else if frame_flags_from_bits (frame_bits (oh_flags h)) = None
      then Inl (UnsupportedFlags (frame_bits (oh_flags h)))
      else if MAX_MEDIA_OBJECT_ID_V3 < oh_object_id h
      then invalid ''v3 media object header'' ''object id must be 0..=255''
      else if \<not> (MIN_MEDIA_OBJECT_DELIVERY_TIMEOUT_MS \<le> oh_delivery_timeout_ms h
                 \<and> oh_delivery_timeout_ms h \<le> MAX_MEDIA_OBJECT_DELIVERY_TIMEOUT_MS)
      then invalid ''v3 media object header'' ''delivery timeout must be 16..=1000 milliseconds''
      else (let keyframe = frame_flags_contains (oh_flags h) FLAG_KEYFRAME;
                codec_config = frame_flags_contains (oh_flags h) FLAG_CODEC_CONFIG
            in if oh_object_id h = 0 \<and> \<not> (keyframe \<and> codec_config)
               then invalid ''v3 media object header'' ''object zero must be a keyframe carrying codec configuration''
               else if oh_object_id h \<noteq> 0
                       \<and> (keyframe \<or> codec_config \<or> frame_flags_contains (oh_flags h) FLAG_DISCONTINUITY)
               then invalid ''v3 media object header'' ''nonzero objects must not carry recovery-boundary flags''
               else Inr ()))"

definition object_header_h264 ::
  "u16 \<Rightarrow> u16 \<Rightarrow> nat \<Rightarrow> u8 \<Rightarrow> frame_flags \<Rightarrow> u32 \<Rightarrow> u64 \<Rightarrow> u64 \<Rightarrow> u64 \<Rightarrow> u64 \<Rightarrow> u32 \<Rightarrow> media_object_header proto" where
  "object_header_h264 width height payload_len priority flags object_id group_id sequence capture pts timeout =
     (if \<not> payload_len < 2 ^ 32 then Inl (InvalidMediaPayloadLength payload_len MAX_MEDIA_PAYLOAD_LEN)
      else (let h = \<lparr>oh_codec = H264, oh_publisher_priority = priority, oh_flags = flags, oh_width = width,
                    oh_height = height, oh_payload_len = of_nat payload_len, oh_object_id = object_id,
                    oh_group_id = group_id, oh_sequence = sequence, oh_capture_timestamp_us = capture,
                    oh_pts_us = pts, oh_delivery_timeout_ms = timeout\<rparr>
            in bind_res (object_header_validate h) (\<lambda>_. Inr h)))"

definition object_header_encode :: "media_object_header \<Rightarrow> bytes proto" where
  "object_header_encode h =
     bind_res (object_header_validate h) (\<lambda>_. Inr
       (MEDIA_OBJECT_V3_MAGIC @ to_be_bytes MEDIA_V3_VERSION @ to_be_bytes MEDIA_OBJECT_V3_HEADER_LEN_U16 @
        [media_codec_byte (oh_codec h)] @ [oh_publisher_priority h] @ [frame_bits (oh_flags h)] @ [0] @
        to_be_bytes (oh_width h) @ to_be_bytes (oh_height h) @ to_be_bytes (oh_payload_len h) @
        to_be_bytes (oh_object_id h) @ to_be_bytes (oh_group_id h) @ to_be_bytes (oh_sequence h) @
        to_be_bytes (oh_capture_timestamp_us h) @ to_be_bytes (oh_pts_us h) @
        to_be_bytes (oh_delivery_timeout_ms h) @ replicate 4 0))"

definition object_header_decode :: "bytes \<Rightarrow> media_object_header proto" where
  "object_header_decode w =
     (if slice 0 4 w \<noteq> MEDIA_OBJECT_V3_MAGIC then Inl (InvalidMediaMagic (slice 0 4 w))
      else if from_be_bytes (slice 4 6 w) \<noteq> MEDIA_V3_VERSION
      then Inl (UnsupportedVersion MEDIA_V3_VERSION (from_be_bytes (slice 4 6 w)))
      else if from_be_bytes (slice 6 8 w) \<noteq> MEDIA_OBJECT_V3_HEADER_LEN_U16
      then invalid ''v3 media object header'' ''header length must be 64 bytes''
      else if w ! 11 \<noteq> 0 \<or> \<not> zeroed (slice 60 64 w)
      then invalid ''v3 media object header'' ''reserved fields must be zero''
      else case frame_flags_from_bits (w ! 10) of
        None \<Rightarrow> Inl (UnsupportedFlags (w ! 10))
      | Some flags \<Rightarrow>
      bind_res (media_codec_try_from (w ! 8)) (\<lambda>codec.
      let h = \<lparr>oh_codec = codec, oh_publisher_priority = w ! 9, oh_flags = flags,
              oh_width = from_be_bytes (slice 12 14 w), oh_height = from_be_bytes (slice 14 16 w),
              oh_payload_len = from_be_bytes (slice 16 20 w), oh_object_id = from_be_bytes (slice 20 24 w),
              oh_group_id = from_be_bytes (slice 24 32 w), oh_sequence = from_be_bytes (slice 32 40 w),
              oh_capture_timestamp_us = from_be_bytes (slice 40 48 w), oh_pts_us = from_be_bytes (slice 48 56 w),
              oh_delivery_timeout_ms = from_be_bytes (slice 56 60 w)\<rparr>
      in bind_res (object_header_validate h) (\<lambda>_. Inr h)))"

lemma object_layout:
  assumes "length w = 64"
  shows "w = slice 0 4 w @ slice 4 6 w @ slice 6 8 w @ [w ! 8] @ [w ! 9] @ [w ! 10] @ [w ! 11] @ slice 12 14 w @
    slice 14 16 w @ slice 16 20 w @ slice 20 24 w @ slice 24 32 w @ slice 32 40 w @ slice 40 48 w @
    slice 48 56 w @ slice 56 60 w @ slice 60 64 w"
  using slices_whole [of 0 "[4, 6, 8, 9, 10, 11, 12, 14, 16, 20, 24, 32, 40, 48, 56, 60, 64]" w] assms
  by (simp add: slice_single)

lemma object_header_bytes:
  assumes "object_header_encode h = Inr w"
  shows "length w = 64" "slice 0 4 w = MEDIA_OBJECT_V3_MAGIC" "slice 4 6 w = to_be_bytes MEDIA_V3_VERSION"
    "slice 6 8 w = to_be_bytes MEDIA_OBJECT_V3_HEADER_LEN_U16" "w ! 8 = media_codec_byte (oh_codec h)"
    "w ! 9 = oh_publisher_priority h" "w ! 10 = frame_bits (oh_flags h)" "w ! 11 = 0"
    "slice 12 14 w = to_be_bytes (oh_width h)" "slice 14 16 w = to_be_bytes (oh_height h)"
    "slice 16 20 w = to_be_bytes (oh_payload_len h)" "slice 20 24 w = to_be_bytes (oh_object_id h)"
    "slice 24 32 w = to_be_bytes (oh_group_id h)" "slice 32 40 w = to_be_bytes (oh_sequence h)"
    "slice 40 48 w = to_be_bytes (oh_capture_timestamp_us h)" "slice 48 56 w = to_be_bytes (oh_pts_us h)"
    "slice 56 60 w = to_be_bytes (oh_delivery_timeout_ms h)" "zeroed (slice 60 64 w)"
    "object_header_validate h = Inr ()"
  using assms
  by (auto simp: object_header_encode_def res_simps slice_def nth_append MEDIA_OBJECT_V3_MAGIC_def length_magic)

lemma object_header_flags:
  "object_header_validate h = Inr u \<Longrightarrow> frame_flags_from_bits (frame_bits (oh_flags h)) = Some (oh_flags h)"
  unfolding object_header_validate_def check_chain
  by (auto simp: frame_flags_from_bits_def simp del: flags_from_bits split: if_splits)

lemma object_header_decode_encode:
  assumes "object_header_encode h = Inr w"
  shows "object_header_decode w = Inr h"
proof -
  note b = object_header_bytes [OF assms]
  have r: "\<lparr>oh_codec = oh_codec h, oh_publisher_priority = oh_publisher_priority h, oh_flags = oh_flags h,
      oh_width = oh_width h, oh_height = oh_height h, oh_payload_len = oh_payload_len h, oh_object_id = oh_object_id h,
      oh_group_id = oh_group_id h, oh_sequence = oh_sequence h, oh_capture_timestamp_us = oh_capture_timestamp_us h,
      oh_pts_us = oh_pts_us h, oh_delivery_timeout_ms = oh_delivery_timeout_ms h\<rparr> = h"
    by simp
  show ?thesis
    unfolding object_header_decode_def b(2-17) from_to_be_bytes codec_bytes(1) Let_def
      object_header_flags [OF b(19)] option.case bind_res_simps r b(19)
    using b(18) by simp
qed

lemma object_header_encode_decode:
  assumes l: "length w = 64" and d: "object_header_decode w = Inr h"
  shows "object_header_encode h = Inr w"
proof -
  have f: "slice 0 4 w = MEDIA_OBJECT_V3_MAGIC" "from_be_bytes (slice 4 6 w) = MEDIA_V3_VERSION"
    "from_be_bytes (slice 6 8 w) = MEDIA_OBJECT_V3_HEADER_LEN_U16" "w ! 11 = 0" "zeroed (slice 60 64 w)"
    "media_codec_byte (oh_codec h) = w ! 8" "oh_publisher_priority h = w ! 9" "frame_bits (oh_flags h) = w ! 10"
    "object_header_validate h = Inr ()"
    "oh_width h = from_be_bytes (slice 12 14 w)" "oh_height h = from_be_bytes (slice 14 16 w)"
    "oh_payload_len h = from_be_bytes (slice 16 20 w)" "oh_object_id h = from_be_bytes (slice 20 24 w)"
    "oh_group_id h = from_be_bytes (slice 24 32 w)" "oh_sequence h = from_be_bytes (slice 32 40 w)"
    "oh_capture_timestamp_us h = from_be_bytes (slice 40 48 w)" "oh_pts_us h = from_be_bytes (slice 48 56 w)"
    "oh_delivery_timeout_ms h = from_be_bytes (slice 56 60 w)"
    using d unfolding object_header_decode_def Let_def check_chain bind_res_eq_Inr by auto
  have v: "to_be_bytes MEDIA_V3_VERSION = slice 4 6 w" "to_be_bytes MEDIA_OBJECT_V3_HEADER_LEN_U16 = slice 6 8 w"
    using l to_from_be_bytes(1) [of "slice 4 6 w"] to_from_be_bytes(1) [of "slice 6 8 w"]
    unfolding f(2,3) [symmetric] by simp_all
  have z: "replicate 4 0 = slice 60 64 w"
    using zeroed_slice [OF f(5)] l by simp
  have n: "to_be_bytes (oh_width h) = slice 12 14 w" "to_be_bytes (oh_height h) = slice 14 16 w"
    "to_be_bytes (oh_payload_len h) = slice 16 20 w" "to_be_bytes (oh_object_id h) = slice 20 24 w"
    "to_be_bytes (oh_group_id h) = slice 24 32 w" "to_be_bytes (oh_sequence h) = slice 32 40 w"
    "to_be_bytes (oh_capture_timestamp_us h) = slice 40 48 w" "to_be_bytes (oh_pts_us h) = slice 48 56 w"
    "to_be_bytes (oh_delivery_timeout_ms h) = slice 56 60 w"
    unfolding f(10-18) using l by (simp_all add: to_from_be_bytes)
  show ?thesis
    unfolding object_header_encode_def f(9) bind_res_simps v n z f(1) [symmetric] f(6-8)
    by (rule arg_cong [OF object_layout [OF l, unfolded f(4), symmetric]])
qed

interpretation object_header: fixed_codec object_header_encode object_header_decode MEDIA_OBJECT_V3_HEADER_LEN
  unfolding MEDIA_OBJECT_V3_HEADER_LEN_def
  by unfold_locales (simp, erule object_header_bytes(1), erule object_header_decode_encode, erule (1) object_header_encode_decode)

section \<open>Objects on a stream of their own\<close>

record media_object =
  mo_header :: media_object_header
  mo_payload :: bytes

definition media_object_new :: "media_object_header \<Rightarrow> bytes \<Rightarrow> media_object proto" where
  "media_object_new header payload =
     bind_res (object_header_validate header) (\<lambda>_.
     if length payload \<noteq> unat (oh_payload_len header)
     then invalid ''v3 media object'' ''payload does not match declared length''
     else Inr \<lparr>mo_header = header, mo_payload = payload\<rparr>)"

definition read_media_object :: "bytes \<Rightarrow> media_object proto" where
  "read_media_object reader =
     (if length reader < MEDIA_OBJECT_V3_HEADER_LEN then Inl (Io ''unexpected end of file'')
      else bind_res (object_header_decode (take MEDIA_OBJECT_V3_HEADER_LEN reader)) (\<lambda>header.
      let rest = drop MEDIA_OBJECT_V3_HEADER_LEN reader; n = unat (oh_payload_len header)
      in if length rest < n then Inl (Io ''unexpected end of file'')
         else if drop n rest \<noteq> [] then invalid ''v3 media object'' ''trailing bytes after the media object''
         else Inr \<lparr>mo_header = header, mo_payload = take n rest\<rparr>))"

definition write_media_object :: "media_object \<Rightarrow> bytes proto" where
  "write_media_object object =
     bind_res (object_header_validate (mo_header object)) (\<lambda>_.
     if length (mo_payload object) \<noteq> unat (oh_payload_len (mo_header object))
     then invalid ''v3 media object'' ''payload does not match declared length''
     else bind_res (object_header_encode (mo_header object)) (\<lambda>wire. Inr (wire @ mo_payload object)))"

interpretation v3_object: payload_codec object_header_encode object_header_decode MEDIA_OBJECT_V3_HEADER_LEN
  "unat \<circ> oh_payload_len" ..

lemma object_header_encode_valid: "object_header_encode h = Inr w \<Longrightarrow> object_header_validate h = Inr ()"
  by (simp add: object_header_encode_def res_simps)

lemma write_media_object_cases:
  "write_media_object ob = Inr out \<longleftrightarrow>
     (\<exists>w. object_header_encode (mo_header ob) = Inr w \<and> out = w @ mo_payload ob \<and>
        length (mo_payload ob) = unat (oh_payload_len (mo_header ob)))"
  by (auto simp: write_media_object_def check_chain bind_res_eq_Inr object_header_encode_valid)

text \<open>
  A v3 object stream is read to an object if and only if it is exactly what the writer writes
  for that object: nothing short, nothing trailing, no second spelling.
\<close>

theorem media_object_stream_canonical:
  "read_media_object stream = Inr ob \<longleftrightarrow> write_media_object ob = Inr stream"
proof
  assume "write_media_object ob = Inr stream"
  then obtain w where w: "object_header_encode (mo_header ob) = Inr w" "stream = w @ mo_payload ob"
    and len: "length (mo_payload ob) = unat (oh_payload_len (mo_header ob))"
    by (auto simp: write_media_object_cases)
  note s = v3_object.split_object [OF w(1), of "mo_payload ob"]
  show "read_media_object stream = Inr ob"
    using w s len v3_object.object_decodes [OF w(1), of "mo_payload ob"]
    by (simp add: read_media_object_def Let_def)
next
  assume d: "read_media_object stream = Inr ob"
  then have l: "\<not> length stream < MEDIA_OBJECT_V3_HEADER_LEN"
    and h: "object_header_decode (take MEDIA_OBJECT_V3_HEADER_LEN stream) = Inr (mo_header ob)"
    and p: "mo_payload ob = drop MEDIA_OBJECT_V3_HEADER_LEN stream" "length (mo_payload ob) = unat (oh_payload_len (mo_header ob))"
    by (auto simp: read_media_object_def check_chain bind_res_eq_Inr Let_def)
  have "object_header_encode (mo_header ob) = Inr (take MEDIA_OBJECT_V3_HEADER_LEN stream)"
    by (rule object_header.encode_decode [OF _ h]) (use l in simp)
  with p show "write_media_object ob = Inr stream"
    by (auto simp: write_media_object_cases)
qed

section \<open>Keyframe requests\<close>

datatype media_control_request_type = RequestKeyframe

datatype keyframe_request_reason = KR_Join | KR_TransportGap | KR_DeliveryTimeout | KR_DecoderReset | KR_FrontendBackpressure

definition control_type_byte :: "media_control_request_type \<Rightarrow> u8" where
  "control_type_byte t = (case t of RequestKeyframe \<Rightarrow> 1)"

definition control_type_try_from :: "u8 \<Rightarrow> media_control_request_type proto" where
  "control_type_try_from b =
     (if b = 1 then Inr RequestKeyframe else invalid ''v3 media control request'' ''unknown request type'')"

definition keyframe_reason_byte :: "keyframe_request_reason \<Rightarrow> u8" where
  "keyframe_reason_byte r =
     (case r of KR_Join \<Rightarrow> 1 | KR_TransportGap \<Rightarrow> 2 | KR_DeliveryTimeout \<Rightarrow> 3 | KR_DecoderReset \<Rightarrow> 4
      | KR_FrontendBackpressure \<Rightarrow> 5)"

definition keyframe_reason_try_from :: "u8 \<Rightarrow> keyframe_request_reason proto" where
  "keyframe_reason_try_from b =
     (if b = 1 then Inr KR_Join else if b = 2 then Inr KR_TransportGap
      else if b = 3 then Inr KR_DeliveryTimeout else if b = 4 then Inr KR_DecoderReset
      else if b = 5 then Inr KR_FrontendBackpressure
      else invalid ''v3 media control request'' ''unknown keyframe request reason'')"

lemma control_bytes [simp]:
  "control_type_try_from b = Inr t \<longleftrightarrow> b = control_type_byte t"
  "keyframe_reason_try_from b = Inr r \<longleftrightarrow> b = keyframe_reason_byte r"
  by (cases t; auto simp: control_type_try_from_def control_type_byte_def)
    (cases r; auto simp: keyframe_reason_try_from_def keyframe_reason_byte_def)

record media_control_request =
  cr_request_type :: media_control_request_type
  cr_reason :: keyframe_request_reason
  cr_request_id :: u64
  cr_last_sequence :: "u64 option"

definition request_keyframe :: "u64 \<Rightarrow> u64 option \<Rightarrow> keyframe_request_reason \<Rightarrow> media_control_request" where
  "request_keyframe request_id last_sequence reason =
     \<lparr>cr_request_type = RequestKeyframe, cr_reason = reason, cr_request_id = request_id,
      cr_last_sequence = last_sequence\<rparr>"

definition control_request_validate :: "media_control_request \<Rightarrow> unit proto" where
  "control_request_validate r =
     (if cr_request_type r \<noteq> RequestKeyframe
      then invalid ''v3 media control request'' ''unknown request type''
      else if cr_last_sequence r = Some (- 1)
      then invalid ''v3 media control request'' ''the all-ones last sequence is reserved for none''
      else Inr ())"

definition control_request_encode :: "media_control_request \<Rightarrow> bytes proto" where
  "control_request_encode r =
     bind_res (control_request_validate r) (\<lambda>_. Inr
       (MEDIA_CONTROL_V3_MAGIC @ to_be_bytes MEDIA_V3_VERSION @ to_be_bytes MEDIA_CONTROL_REQUEST_V3_LEN_U16 @
        [control_type_byte (cr_request_type r)] @ [keyframe_reason_byte (cr_reason r)] @ replicate 2 0 @
        to_be_bytes (cr_request_id r) @
        to_be_bytes (case cr_last_sequence r of None \<Rightarrow> - 1 | Some s \<Rightarrow> s)))"

definition control_request_decode :: "bytes \<Rightarrow> media_control_request proto" where
  "control_request_decode w =
     (if slice 0 4 w \<noteq> MEDIA_CONTROL_V3_MAGIC
      then invalid ''v3 media control request'' ''invalid control magic''
      else if from_be_bytes (slice 4 6 w) \<noteq> MEDIA_V3_VERSION
      then Inl (UnsupportedVersion MEDIA_V3_VERSION (from_be_bytes (slice 4 6 w)))
      else if from_be_bytes (slice 6 8 w) \<noteq> MEDIA_CONTROL_REQUEST_V3_LEN_U16
      then invalid ''v3 media control request'' ''request length must be 28 bytes''
      else if \<not> zeroed (slice 10 12 w)
      then invalid ''v3 media control request'' ''reserved fields must be zero''
      else (let last_sequence = from_be_bytes (slice 20 28 w) in
      bind_res (control_type_try_from (w ! 8)) (\<lambda>t.
      bind_res (keyframe_reason_try_from (w ! 9)) (\<lambda>reason.
      let r = \<lparr>cr_request_type = t, cr_reason = reason, cr_request_id = from_be_bytes (slice 12 20 w),
              cr_last_sequence = (if last_sequence \<noteq> - 1 then Some last_sequence else None)\<rparr>
      in bind_res (control_request_validate r) (\<lambda>_. Inr r)))))"

lemma control_layout:
  assumes "length w = 28"
  shows "w = slice 0 4 w @ slice 4 6 w @ slice 6 8 w @ [w ! 8] @ [w ! 9] @ slice 10 12 w @ slice 12 20 w @ slice 20 28 w"
  using slices_whole [of 0 "[4, 6, 8, 9, 10, 12, 20, 28]" w] assms
  by (simp add: slice_single)

lemma control_request_bytes:
  assumes "control_request_encode r = Inr w"
  shows "length w = 28" "slice 0 4 w = MEDIA_CONTROL_V3_MAGIC" "slice 4 6 w = to_be_bytes MEDIA_V3_VERSION"
    "slice 6 8 w = to_be_bytes MEDIA_CONTROL_REQUEST_V3_LEN_U16" "w ! 8 = control_type_byte (cr_request_type r)"
    "w ! 9 = keyframe_reason_byte (cr_reason r)" "zeroed (slice 10 12 w)"
    "slice 12 20 w = to_be_bytes (cr_request_id r)"
    "slice 20 28 w = to_be_bytes (case cr_last_sequence r of None \<Rightarrow> - 1 | Some s \<Rightarrow> s)"
    "control_request_validate r = Inr ()"
  using assms
  by (auto simp: control_request_encode_def res_simps slice_def nth_append MEDIA_CONTROL_V3_MAGIC_def length_magic)

lemma control_request_decode_encode:
  assumes "control_request_encode r = Inr w"
  shows "control_request_decode w = Inr r"
proof -
  note b = control_request_bytes [OF assms]
  have s: "(if (case cr_last_sequence r of None \<Rightarrow> - 1 | Some s \<Rightarrow> s) \<noteq> - 1
      then Some (case cr_last_sequence r of None \<Rightarrow> - 1 | Some s \<Rightarrow> s) else None) = cr_last_sequence r"
    using b(10) by (auto simp: control_request_validate_def split: option.splits if_splits)
  have r: "\<lparr>cr_request_type = cr_request_type r, cr_reason = cr_reason r, cr_request_id = cr_request_id r,
      cr_last_sequence = cr_last_sequence r\<rparr> = r"
    by simp
  show ?thesis
    unfolding control_request_decode_def b(2-6,8,9) from_to_be_bytes Let_def s
      iffD2 [OF control_bytes(1) HOL.refl] iffD2 [OF control_bytes(2) HOL.refl] bind_res_simps r b(10)
    using b(7) by simp
qed

lemma control_request_encode_decode:
  assumes l: "length w = 28" and d: "control_request_decode w = Inr r"
  shows "control_request_encode r = Inr w"
proof -
  have f: "slice 0 4 w = MEDIA_CONTROL_V3_MAGIC" "from_be_bytes (slice 4 6 w) = MEDIA_V3_VERSION"
    "from_be_bytes (slice 6 8 w) = MEDIA_CONTROL_REQUEST_V3_LEN_U16" "zeroed (slice 10 12 w)"
    "control_type_byte (cr_request_type r) = w ! 8" "keyframe_reason_byte (cr_reason r) = w ! 9"
    "control_request_validate r = Inr ()" "cr_request_id r = from_be_bytes (slice 12 20 w)"
    "(case cr_last_sequence r of None \<Rightarrow> - 1 | Some s \<Rightarrow> s) = from_be_bytes (slice 20 28 w)"
    using d unfolding control_request_decode_def Let_def check_chain bind_res_eq_Inr by (auto split: if_splits)
  have v: "to_be_bytes MEDIA_V3_VERSION = slice 4 6 w" "to_be_bytes MEDIA_CONTROL_REQUEST_V3_LEN_U16 = slice 6 8 w"
    using l to_from_be_bytes(1) [of "slice 4 6 w"] to_from_be_bytes(1) [of "slice 6 8 w"]
    unfolding f(2,3) [symmetric] by simp_all
  have z: "replicate 2 0 = slice 10 12 w"
    using zeroed_slice [OF f(4)] l by simp
  have n: "to_be_bytes (from_be_bytes (slice 12 20 w) :: u64) = slice 12 20 w"
    "to_be_bytes (from_be_bytes (slice 20 28 w) :: u64) = slice 20 28 w"
    using l by (simp_all add: to_from_be_bytes)
  show ?thesis
    unfolding control_request_encode_def f(7) bind_res_simps v z f(1) [symmetric] f(5,6,8,9) n
    by (rule arg_cong [OF control_layout [OF l, symmetric]])
qed

interpretation control_request: fixed_codec control_request_encode control_request_decode MEDIA_CONTROL_REQUEST_V3_LEN
  unfolding MEDIA_CONTROL_REQUEST_V3_LEN_def
  by unfold_locales (simp, erule control_request_bytes(1), erule control_request_decode_encode, erule (1) control_request_encode_decode)

definition read_media_control_request :: "bytes \<Rightarrow> (media_control_request option \<times> bytes) proto" where
  "read_media_control_request = read_record control_request_decode MEDIA_CONTROL_REQUEST_V3_LEN"

definition write_media_control_request :: "bytes \<Rightarrow> media_control_request \<Rightarrow> bytes proto" where
  "write_media_control_request = write_record control_request_encode"

end
