(* ===== verification/Feedback_Codec.thy ===== *)
theory Feedback_Codec
  imports Media_Codec
begin

text \<open>
  The feedback records of \<open>crates/sigil-protocol/src/feedback.rs\<close>: receiver reports in one
  direction, adaptive-bitrate decisions in the other, each of a fixed width.
\<close>

definition MEDIA_FEEDBACK_REPORT_V1_MAGIC :: bytes where "MEDIA_FEEDBACK_REPORT_V1_MAGIC = word_magic ''SGR1''"
definition ADAPTIVE_BITRATE_DECISION_V1_MAGIC :: bytes where "ADAPTIVE_BITRATE_DECISION_V1_MAGIC = word_magic ''SGD1''"
definition MEDIA_FEEDBACK_REPORT_V1_LEN :: nat where "MEDIA_FEEDBACK_REPORT_V1_LEN = 64"
definition MEDIA_FEEDBACK_REPORT_V1_LEN_U16 :: u16 where "MEDIA_FEEDBACK_REPORT_V1_LEN_U16 = 64"
definition ADAPTIVE_BITRATE_DECISION_V1_LEN :: nat where "ADAPTIVE_BITRATE_DECISION_V1_LEN = 40"
definition ADAPTIVE_BITRATE_DECISION_V1_LEN_U16 :: u16 where "ADAPTIVE_BITRATE_DECISION_V1_LEN_U16 = 40"
definition MIN_FEEDBACK_INTERVAL_MS :: u16 where "MIN_FEEDBACK_INTERVAL_MS = 250"
definition MAX_FEEDBACK_INTERVAL_MS :: u16 where "MAX_FEEDBACK_INTERVAL_MS = 5000"
definition MAX_FEEDBACK_QUEUE_CAPACITY :: u8 where "MAX_FEEDBACK_QUEUE_CAPACITY = 16"
definition OPTIONAL_SEQUENCE_NONE :: u64 where "OPTIONAL_SEQUENCE_NONE = - 1"
definition OPTIONAL_LATENCY_NONE :: u16 where "OPTIONAL_LATENCY_NONE = 65535"
definition MAX_FEEDBACK_LATENCY_MS :: u16 where "MAX_FEEDBACK_LATENCY_MS = 60000"
definition MIN_ADAPTIVE_BITRATE_KBPS :: u32 where "MIN_ADAPTIVE_BITRATE_KBPS = 1000"
definition MAX_ADAPTIVE_BITRATE_KBPS :: u32 where "MAX_ADAPTIVE_BITRATE_KBPS = 100000"

abbreviation invalid_report :: "string \<Rightarrow> 'a proto" where
  "invalid_report reason \<equiv> invalid ''media feedback report'' reason"

abbreviation invalid_decision :: "string \<Rightarrow> 'a proto" where
  "invalid_decision reason \<equiv> invalid ''adaptive bitrate decision'' reason"

section \<open>Receiver reports\<close>

datatype media_feedback_flags = MediaFeedbackFlags (feedback_bits: u8)

definition RESYNC_ACTIVE :: media_feedback_flags where "RESYNC_ACTIVE = MediaFeedbackFlags 1"

definition feedback_flags_from_bits :: "u8 \<Rightarrow> media_feedback_flags option" where
  "feedback_flags_from_bits bits =
     (if bits AND NOT (feedback_bits RESYNC_ACTIVE) = 0 then Some (MediaFeedbackFlags bits) else None)"

lemma feedback_flags [simp]:
  "feedback_flags_from_bits b = Some f \<longleftrightarrow> b = feedback_bits f \<and> b AND NOT (feedback_bits RESYNC_ACTIVE) = 0"
  by (cases f; auto simp: feedback_flags_from_bits_def)

record media_feedback_report =
  fr_report_id :: u64
  fr_interval_ms :: u16
  fr_flags :: media_feedback_flags
  fr_last_sequence :: "u64 option"
  fr_transport_dropped_delta :: u32
  fr_frontend_dropped_delta :: u32
  fr_decoder_dropped_delta :: u32
  fr_presenter_dropped_delta :: u32
  fr_frontend_queue_depth :: u8
  fr_frontend_queue_capacity :: u8
  fr_decode_queue_depth :: u8
  fr_decode_queue_capacity :: u8
  fr_presenter_queue_depth :: u8
  fr_presenter_queue_capacity :: u8
  fr_transport_delivery_p95_ms :: "u16 option"
  fr_decode_p95_ms :: "u16 option"
  fr_presentation_p95_ms :: "u16 option"

definition validate_queue :: "u8 \<Rightarrow> u8 \<Rightarrow> unit proto" where
  "validate_queue depth capacity =
     (if \<not> (1 \<le> capacity \<and> capacity \<le> MAX_FEEDBACK_QUEUE_CAPACITY)
      then invalid_report ''queue capacity must be 1..=16''
      else if capacity < depth then invalid_report ''queue depth must not exceed capacity''
      else Inr ())"

definition latency_valid :: "u16 option \<Rightarrow> bool" where
  "latency_valid l = (case l of None \<Rightarrow> True | Some ms \<Rightarrow> ms \<le> MAX_FEEDBACK_LATENCY_MS)"

definition report_validate :: "media_feedback_report \<Rightarrow> unit proto" where
  "report_validate r =
     (if fr_report_id r = 0 then invalid_report ''report ID must be nonzero''
      else if \<not> (MIN_FEEDBACK_INTERVAL_MS \<le> fr_interval_ms r \<and> fr_interval_ms r \<le> MAX_FEEDBACK_INTERVAL_MS)
      then invalid_report ''interval must be 250..=5000 milliseconds''
      else if feedback_flags_from_bits (feedback_bits (fr_flags r)) = None
      then invalid_report ''unsupported feedback flag bits''
      else if fr_last_sequence r = Some OPTIONAL_SEQUENCE_NONE
      then invalid_report ''the all-ones last sequence is reserved for none''
      else bind_res (validate_queue (fr_frontend_queue_depth r) (fr_frontend_queue_capacity r)) (\<lambda>_.
           bind_res (validate_queue (fr_decode_queue_depth r) (fr_decode_queue_capacity r)) (\<lambda>_.
           bind_res (validate_queue (fr_presenter_queue_depth r) (fr_presenter_queue_capacity r)) (\<lambda>_.
           if \<not> list_all latency_valid [fr_transport_delivery_p95_ms r, fr_decode_p95_ms r, fr_presentation_p95_ms r]
           then invalid_report ''p95 latency must be at most 60000 milliseconds''
           else Inr ()))))"

definition encode_optional_latency :: "u16 option \<Rightarrow> bytes" where
  "encode_optional_latency l = to_be_bytes (case l of None \<Rightarrow> OPTIONAL_LATENCY_NONE | Some ms \<Rightarrow> ms)"

definition decode_optional_latency :: "bytes \<Rightarrow> nat \<Rightarrow> u16 option" where
  "decode_optional_latency w offset =
     (let v = from_be_bytes (slice offset (offset + 2) w)
      in if v \<noteq> OPTIONAL_LATENCY_NONE then Some v else None)"

definition validate_fixed_prefix :: "bytes \<Rightarrow> u16 \<Rightarrow> string \<Rightarrow> unit proto" where
  "validate_fixed_prefix w expected_len message_type =
     (if from_be_bytes (slice 4 6 w) \<noteq> PROTOCOL_VERSION
      then Inl (UnsupportedVersion PROTOCOL_VERSION (from_be_bytes (slice 4 6 w)))
      else if from_be_bytes (slice 6 8 w) \<noteq> expected_len
      then invalid message_type ''fixed record length does not match the protocol''
      else Inr ())"

definition report_encode :: "media_feedback_report \<Rightarrow> bytes proto" where
  "report_encode r =
     bind_res (report_validate r) (\<lambda>_. Inr
       (MEDIA_FEEDBACK_REPORT_V1_MAGIC @ to_be_bytes PROTOCOL_VERSION @ to_be_bytes MEDIA_FEEDBACK_REPORT_V1_LEN_U16 @
        to_be_bytes (fr_report_id r) @ to_be_bytes (fr_interval_ms r) @ [feedback_bits (fr_flags r)] @ [0] @
        to_be_bytes (case fr_last_sequence r of None \<Rightarrow> OPTIONAL_SEQUENCE_NONE | Some s \<Rightarrow> s) @
        to_be_bytes (fr_transport_dropped_delta r) @ to_be_bytes (fr_frontend_dropped_delta r) @
        to_be_bytes (fr_decoder_dropped_delta r) @ to_be_bytes (fr_presenter_dropped_delta r) @
        [fr_frontend_queue_depth r] @ [fr_frontend_queue_capacity r] @ [fr_decode_queue_depth r] @
        [fr_decode_queue_capacity r] @ [fr_presenter_queue_depth r] @ [fr_presenter_queue_capacity r] @
        encode_optional_latency (fr_transport_delivery_p95_ms r) @ encode_optional_latency (fr_decode_p95_ms r) @
        encode_optional_latency (fr_presentation_p95_ms r) @ replicate 8 0))"

definition report_decode :: "bytes \<Rightarrow> media_feedback_report proto" where
  "report_decode w =
     (if slice 0 4 w \<noteq> MEDIA_FEEDBACK_REPORT_V1_MAGIC then invalid_report ''invalid report magic''
      else bind_res (validate_fixed_prefix w MEDIA_FEEDBACK_REPORT_V1_LEN_U16 ''media feedback report'') (\<lambda>_.
      if w ! 19 \<noteq> 0 \<or> \<not> zeroed (slice 56 64 w)
      then invalid_report ''reserved fields must be zero''
      else case feedback_flags_from_bits (w ! 18) of
        None \<Rightarrow> invalid_report ''unsupported feedback flag bits''
      | Some flags \<Rightarrow>
      (let last_sequence = from_be_bytes (slice 20 28 w);
           r = \<lparr>fr_report_id = from_be_bytes (slice 8 16 w), fr_interval_ms = from_be_bytes (slice 16 18 w),
              fr_flags = flags,
              fr_last_sequence = (if last_sequence \<noteq> OPTIONAL_SEQUENCE_NONE then Some last_sequence else None),
              fr_transport_dropped_delta = from_be_bytes (slice 28 32 w),
              fr_frontend_dropped_delta = from_be_bytes (slice 32 36 w),
              fr_decoder_dropped_delta = from_be_bytes (slice 36 40 w),
              fr_presenter_dropped_delta = from_be_bytes (slice 40 44 w),
              fr_frontend_queue_depth = w ! 44, fr_frontend_queue_capacity = w ! 45,
              fr_decode_queue_depth = w ! 46, fr_decode_queue_capacity = w ! 47,
              fr_presenter_queue_depth = w ! 48, fr_presenter_queue_capacity = w ! 49,
              fr_transport_delivery_p95_ms = decode_optional_latency w 50,
              fr_decode_p95_ms = decode_optional_latency w 52,
              fr_presentation_p95_ms = decode_optional_latency w 54\<rparr>
      in bind_res (report_validate r) (\<lambda>_. Inr r))))"

lemma latency_none: "latency_valid (Some OPTIONAL_LATENCY_NONE) \<longleftrightarrow> False"
  by (simp add: latency_valid_def OPTIONAL_LATENCY_NONE_def MAX_FEEDBACK_LATENCY_MS_def)

lemma optional_latency:
  "latency_valid l \<Longrightarrow> slice i j w = encode_optional_latency l \<Longrightarrow> j = i + 2 \<Longrightarrow> decode_optional_latency w i = l"
  by (cases l) (auto simp: decode_optional_latency_def encode_optional_latency_def latency_none)

lemma optional_latency_back:
  assumes "j = i + 2" "j \<le> length w"
  shows "encode_optional_latency (decode_optional_latency w i) = slice i j w"
proof -
  have "to_be_bytes (from_be_bytes (slice i (i + 2) w) :: u16) = slice i (i + 2) w"
    using assms by (intro to_from_be_bytes(1)) simp
  then show ?thesis
    using assms(1) by (auto simp: decode_optional_latency_def encode_optional_latency_def Let_def)
qed

lemma length_latency [simp]: "length (encode_optional_latency l) = 2"
  by (simp add: encode_optional_latency_def)

lemma report_layout:
  assumes "length w = 64"
  shows "w = slice 0 4 w @ slice 4 6 w @ slice 6 8 w @ slice 8 16 w @ slice 16 18 w @ [w ! 18] @ [w ! 19] @
    slice 20 28 w @ slice 28 32 w @ slice 32 36 w @ slice 36 40 w @ slice 40 44 w @ [w ! 44] @ [w ! 45] @ [w ! 46] @
    [w ! 47] @ [w ! 48] @ [w ! 49] @ slice 50 52 w @ slice 52 54 w @ slice 54 56 w @ slice 56 64 w"
  using slices_whole [of 0 "[4, 6, 8, 16, 18, 19, 20, 28, 32, 36, 40, 44, 45, 46, 47, 48, 49, 50, 52, 54, 56, 64]" w] assms
  by (simp add: slice_single)

lemma report_bytes:
  assumes "report_encode r = Inr w"
  shows "length w = 64" "slice 0 4 w = MEDIA_FEEDBACK_REPORT_V1_MAGIC" "slice 4 6 w = to_be_bytes PROTOCOL_VERSION"
    "slice 6 8 w = to_be_bytes MEDIA_FEEDBACK_REPORT_V1_LEN_U16" "slice 8 16 w = to_be_bytes (fr_report_id r)"
    "slice 16 18 w = to_be_bytes (fr_interval_ms r)" "w ! 18 = feedback_bits (fr_flags r)" "w ! 19 = 0"
    "slice 20 28 w = to_be_bytes (case fr_last_sequence r of None \<Rightarrow> OPTIONAL_SEQUENCE_NONE | Some s \<Rightarrow> s)"
    "slice 28 32 w = to_be_bytes (fr_transport_dropped_delta r)" "slice 32 36 w = to_be_bytes (fr_frontend_dropped_delta r)"
    "slice 36 40 w = to_be_bytes (fr_decoder_dropped_delta r)" "slice 40 44 w = to_be_bytes (fr_presenter_dropped_delta r)"
    "w ! 44 = fr_frontend_queue_depth r" "w ! 45 = fr_frontend_queue_capacity r" "w ! 46 = fr_decode_queue_depth r"
    "w ! 47 = fr_decode_queue_capacity r" "w ! 48 = fr_presenter_queue_depth r" "w ! 49 = fr_presenter_queue_capacity r"
    "slice 50 52 w = encode_optional_latency (fr_transport_delivery_p95_ms r)"
    "slice 52 54 w = encode_optional_latency (fr_decode_p95_ms r)"
    "slice 54 56 w = encode_optional_latency (fr_presentation_p95_ms r)" "zeroed (slice 56 64 w)"
    "report_validate r = Inr ()"
  using assms
  by (auto simp: report_encode_def res_simps slice_def nth_append MEDIA_FEEDBACK_REPORT_V1_MAGIC_def length_magic)

lemma report_valid_parts:
  assumes "report_validate r = Inr ()"
  shows "feedback_flags_from_bits (feedback_bits (fr_flags r)) = Some (fr_flags r)"
    "fr_last_sequence r \<noteq> Some OPTIONAL_SEQUENCE_NONE" "latency_valid (fr_transport_delivery_p95_ms r)"
    "latency_valid (fr_decode_p95_ms r)" "latency_valid (fr_presentation_p95_ms r)"
  using assms unfolding report_validate_def check_chain bind_res_eq_Inr
  by (auto simp: feedback_flags_from_bits_def simp del: feedback_flags split: if_splits)

lemma report_decode_encode:
  assumes "report_encode r = Inr w"
  shows "report_decode w = Inr r"
proof -
  note b = report_bytes [OF assms]
  note v = report_valid_parts [OF b(24)]
  have p: "validate_fixed_prefix w MEDIA_FEEDBACK_REPORT_V1_LEN_U16 ''media feedback report'' = Inr ()"
    unfolding validate_fixed_prefix_def b(3,4) from_to_be_bytes by simp
  have s: "(if (case fr_last_sequence r of None \<Rightarrow> OPTIONAL_SEQUENCE_NONE | Some s \<Rightarrow> s) \<noteq> OPTIONAL_SEQUENCE_NONE
      then Some (case fr_last_sequence r of None \<Rightarrow> OPTIONAL_SEQUENCE_NONE | Some s \<Rightarrow> s) else None) = fr_last_sequence r"
    using v(2) by (auto split: option.splits)
  have l: "decode_optional_latency w 50 = fr_transport_delivery_p95_ms r" "decode_optional_latency w 52 = fr_decode_p95_ms r"
    "decode_optional_latency w 54 = fr_presentation_p95_ms r"
    using optional_latency [OF v(3) b(20)] optional_latency [OF v(4) b(21)] optional_latency [OF v(5) b(22)] by simp_all
  have r: "\<lparr>fr_report_id = fr_report_id r, fr_interval_ms = fr_interval_ms r, fr_flags = fr_flags r,
      fr_last_sequence = fr_last_sequence r, fr_transport_dropped_delta = fr_transport_dropped_delta r,
      fr_frontend_dropped_delta = fr_frontend_dropped_delta r, fr_decoder_dropped_delta = fr_decoder_dropped_delta r,
      fr_presenter_dropped_delta = fr_presenter_dropped_delta r, fr_frontend_queue_depth = fr_frontend_queue_depth r,
      fr_frontend_queue_capacity = fr_frontend_queue_capacity r, fr_decode_queue_depth = fr_decode_queue_depth r,
      fr_decode_queue_capacity = fr_decode_queue_capacity r, fr_presenter_queue_depth = fr_presenter_queue_depth r,
      fr_presenter_queue_capacity = fr_presenter_queue_capacity r,
      fr_transport_delivery_p95_ms = fr_transport_delivery_p95_ms r, fr_decode_p95_ms = fr_decode_p95_ms r,
      fr_presentation_p95_ms = fr_presentation_p95_ms r\<rparr> = r"
    by simp
  show ?thesis
    unfolding report_decode_def p l b(2,5-19) from_to_be_bytes Let_def s v(1) option.case bind_res_simps r b(24)
    using b(23) by simp
qed

lemma report_encode_decode:
  assumes l: "length w = 64" and d: "report_decode w = Inr r"
  shows "report_encode r = Inr w"
proof -
  have f: "slice 0 4 w = MEDIA_FEEDBACK_REPORT_V1_MAGIC" "from_be_bytes (slice 4 6 w) = PROTOCOL_VERSION"
    "from_be_bytes (slice 6 8 w) = MEDIA_FEEDBACK_REPORT_V1_LEN_U16" "w ! 19 = 0" "zeroed (slice 56 64 w)"
    "feedback_bits (fr_flags r) = w ! 18" "report_validate r = Inr ()"
    "fr_report_id r = from_be_bytes (slice 8 16 w)" "fr_interval_ms r = from_be_bytes (slice 16 18 w)"
    "fr_transport_dropped_delta r = from_be_bytes (slice 28 32 w)" "fr_frontend_dropped_delta r = from_be_bytes (slice 32 36 w)"
    "fr_decoder_dropped_delta r = from_be_bytes (slice 36 40 w)" "fr_presenter_dropped_delta r = from_be_bytes (slice 40 44 w)"
    "fr_frontend_queue_depth r = w ! 44" "fr_frontend_queue_capacity r = w ! 45" "fr_decode_queue_depth r = w ! 46"
    "fr_decode_queue_capacity r = w ! 47" "fr_presenter_queue_depth r = w ! 48" "fr_presenter_queue_capacity r = w ! 49"
    "fr_transport_delivery_p95_ms r = decode_optional_latency w 50" "fr_decode_p95_ms r = decode_optional_latency w 52"
    "fr_presentation_p95_ms r = decode_optional_latency w 54"
    "(case fr_last_sequence r of None \<Rightarrow> OPTIONAL_SEQUENCE_NONE | Some s \<Rightarrow> s) = from_be_bytes (slice 20 28 w)"
    using d unfolding report_decode_def Let_def check_chain bind_res_eq_Inr validate_fixed_prefix_def
    by (auto split: if_splits)
  have v: "to_be_bytes PROTOCOL_VERSION = slice 4 6 w" "to_be_bytes MEDIA_FEEDBACK_REPORT_V1_LEN_U16 = slice 6 8 w"
    using l to_from_be_bytes(1) [of "slice 4 6 w"] to_from_be_bytes(1) [of "slice 6 8 w"]
    unfolding f(2,3) [symmetric] by simp_all
  have z: "replicate 8 0 = slice 56 64 w"
    using zeroed_slice [OF f(5)] l by simp
  have n: "to_be_bytes (fr_report_id r) = slice 8 16 w" "to_be_bytes (fr_interval_ms r) = slice 16 18 w"
    "to_be_bytes (fr_transport_dropped_delta r) = slice 28 32 w" "to_be_bytes (fr_frontend_dropped_delta r) = slice 32 36 w"
    "to_be_bytes (fr_decoder_dropped_delta r) = slice 36 40 w" "to_be_bytes (fr_presenter_dropped_delta r) = slice 40 44 w"
    "to_be_bytes (from_be_bytes (slice 20 28 w) :: u64) = slice 20 28 w"
    unfolding f(8-13) using l by (simp_all add: to_from_be_bytes)
  have o: "encode_optional_latency (fr_transport_delivery_p95_ms r) = slice 50 52 w"
    "encode_optional_latency (fr_decode_p95_ms r) = slice 52 54 w"
    "encode_optional_latency (fr_presentation_p95_ms r) = slice 54 56 w"
    unfolding f(20-22) using l by (simp_all add: optional_latency_back)
  show ?thesis
    unfolding report_encode_def f(7) bind_res_simps f(23) v n o z f(1) [symmetric] f(6,14-19)
    by (rule arg_cong [OF report_layout [OF l, unfolded f(4), symmetric]])
qed

interpretation feedback_report: fixed_codec report_encode report_decode MEDIA_FEEDBACK_REPORT_V1_LEN
  unfolding MEDIA_FEEDBACK_REPORT_V1_LEN_def
  by unfold_locales (simp, erule report_bytes(1), erule report_decode_encode, erule (1) report_encode_decode)

definition read_media_feedback_report :: "bytes \<Rightarrow> (media_feedback_report option \<times> bytes) proto" where
  "read_media_feedback_report = read_record report_decode MEDIA_FEEDBACK_REPORT_V1_LEN"

definition write_media_feedback_report :: "bytes \<Rightarrow> media_feedback_report \<Rightarrow> bytes proto" where
  "write_media_feedback_report = write_record report_encode"

section \<open>Host decisions\<close>

datatype adaptive_bitrate_state = AB_Hold | AB_Decrease | AB_Increase

definition bitrate_state_byte :: "adaptive_bitrate_state \<Rightarrow> u8" where
  "bitrate_state_byte s = (case s of AB_Hold \<Rightarrow> 0 | AB_Decrease \<Rightarrow> 1 | AB_Increase \<Rightarrow> 2)"

definition bitrate_state_try_from :: "u8 \<Rightarrow> adaptive_bitrate_state proto" where
  "bitrate_state_try_from b =
     (if b = 0 then Inr AB_Hold else if b = 1 then Inr AB_Decrease else if b = 2 then Inr AB_Increase
      else invalid_decision ''unsupported controller state'')"

lemma bitrate_state [simp]: "bitrate_state_try_from b = Inr s \<longleftrightarrow> b = bitrate_state_byte s"
  by (cases s) (auto simp: bitrate_state_try_from_def bitrate_state_byte_def)

datatype adaptive_bitrate_reasons = AdaptiveBitrateReasonFlags (reason_bits: u16)

definition REASON_RTT_INFLATION :: adaptive_bitrate_reasons where "REASON_RTT_INFLATION = AdaptiveBitrateReasonFlags 1"
definition REASON_LOSS_OR_CANCELLATION :: adaptive_bitrate_reasons where "REASON_LOSS_OR_CANCELLATION = AdaptiveBitrateReasonFlags 2"
definition REASON_SENDER_BACKPRESSURE :: adaptive_bitrate_reasons where "REASON_SENDER_BACKPRESSURE = AdaptiveBitrateReasonFlags 4"
definition REASON_RECEIVER_QUEUE :: adaptive_bitrate_reasons where "REASON_RECEIVER_QUEUE = AdaptiveBitrateReasonFlags 8"
definition REASON_DECODE_BACKLOG :: adaptive_bitrate_reasons where "REASON_DECODE_BACKLOG = AdaptiveBitrateReasonFlags 16"
definition REASON_DELIVERY_LATENCY :: adaptive_bitrate_reasons where "REASON_DELIVERY_LATENCY = AdaptiveBitrateReasonFlags 32"
definition REASON_CLEAN_RECOVERY :: adaptive_bitrate_reasons where "REASON_CLEAN_RECOVERY = AdaptiveBitrateReasonFlags 64"
definition REASON_FEEDBACK_STALE :: adaptive_bitrate_reasons where "REASON_FEEDBACK_STALE = AdaptiveBitrateReasonFlags 128"
definition REASON_NONE :: adaptive_bitrate_reasons where "REASON_NONE = AdaptiveBitrateReasonFlags 0"

definition REASONS_KNOWN :: u16 where
  "REASONS_KNOWN = reason_bits REASON_RTT_INFLATION OR reason_bits REASON_LOSS_OR_CANCELLATION
     OR reason_bits REASON_SENDER_BACKPRESSURE OR reason_bits REASON_RECEIVER_QUEUE
     OR reason_bits REASON_DECODE_BACKLOG OR reason_bits REASON_DELIVERY_LATENCY
     OR reason_bits REASON_CLEAN_RECOVERY OR reason_bits REASON_FEEDBACK_STALE"

definition reasons_from_bits :: "u16 \<Rightarrow> adaptive_bitrate_reasons option" where
  "reasons_from_bits bits =
     (if bits AND NOT REASONS_KNOWN = 0 then Some (AdaptiveBitrateReasonFlags bits) else None)"

definition reasons_contains :: "adaptive_bitrate_reasons \<Rightarrow> adaptive_bitrate_reasons \<Rightarrow> bool" where
  "reasons_contains r flag \<longleftrightarrow> reason_bits r AND reason_bits flag = reason_bits flag"

definition reasons_union :: "adaptive_bitrate_reasons \<Rightarrow> adaptive_bitrate_reasons \<Rightarrow> adaptive_bitrate_reasons" where
  "reasons_union a b = AdaptiveBitrateReasonFlags (reason_bits a OR reason_bits b)"

lemma reasons_flags [simp]:
  "reasons_from_bits b = Some r \<longleftrightarrow> b = reason_bits r \<and> b AND NOT REASONS_KNOWN = 0"
  by (cases r; auto simp: reasons_from_bits_def)

record adaptive_bitrate_decision =
  bd_decision_id :: u64
  bd_report_id :: u64
  bd_target_kbps :: u32
  bd_floor_kbps :: u32
  bd_ceiling_kbps :: u32
  bd_state :: adaptive_bitrate_state
  bd_reasons :: adaptive_bitrate_reasons
  bd_applied :: bool

definition decision_validate :: "adaptive_bitrate_decision \<Rightarrow> unit proto" where
  "decision_validate d =
     (if bd_decision_id d = 0 then invalid_decision ''decision ID must be nonzero''
      else if bd_report_id d = 0 then invalid_decision ''report ID must be nonzero''
      else if \<not> list_all (\<lambda>bitrate. MIN_ADAPTIVE_BITRATE_KBPS \<le> bitrate \<and> bitrate \<le> MAX_ADAPTIVE_BITRATE_KBPS)
                  [bd_target_kbps d, bd_floor_kbps d, bd_ceiling_kbps d]
      then invalid_decision ''bitrates must be between 1000 and 100000 kilobits per second''
      else if bd_target_kbps d < bd_floor_kbps d \<or> bd_ceiling_kbps d < bd_target_kbps d
      then invalid_decision ''bitrate floor must not exceed target and target must not exceed ceiling''
      else if reasons_from_bits (reason_bits (bd_reasons d)) = None
      then invalid_decision ''unsupported decision reason bits''
      else Inr ())"

definition decision_encode :: "adaptive_bitrate_decision \<Rightarrow> bytes proto" where
  "decision_encode d =
     bind_res (decision_validate d) (\<lambda>_. Inr
       (ADAPTIVE_BITRATE_DECISION_V1_MAGIC @ to_be_bytes PROTOCOL_VERSION @
        to_be_bytes ADAPTIVE_BITRATE_DECISION_V1_LEN_U16 @ to_be_bytes (bd_decision_id d) @
        to_be_bytes (bd_report_id d) @ to_be_bytes (bd_target_kbps d) @ to_be_bytes (bd_floor_kbps d) @
        to_be_bytes (bd_ceiling_kbps d) @ [bitrate_state_byte (bd_state d)] @ [if bd_applied d then 1 else 0] @
        to_be_bytes (reason_bits (bd_reasons d))))"

definition decision_decode :: "bytes \<Rightarrow> adaptive_bitrate_decision proto" where
  "decision_decode w =
     (if slice 0 4 w \<noteq> ADAPTIVE_BITRATE_DECISION_V1_MAGIC then invalid_decision ''invalid decision magic''
      else bind_res (validate_fixed_prefix w ADAPTIVE_BITRATE_DECISION_V1_LEN_U16 ''adaptive bitrate decision'') (\<lambda>_.
      if 1 < w ! 37 then invalid_decision ''applied must be encoded as zero or one''
      else bind_res (bitrate_state_try_from (w ! 36)) (\<lambda>state.
      case reasons_from_bits (from_be_bytes (slice 38 40 w)) of
        None \<Rightarrow> invalid_decision ''unsupported decision reason bits''
      | Some reasons \<Rightarrow>
      (let d = \<lparr>bd_decision_id = from_be_bytes (slice 8 16 w), bd_report_id = from_be_bytes (slice 16 24 w),
              bd_target_kbps = from_be_bytes (slice 24 28 w), bd_floor_kbps = from_be_bytes (slice 28 32 w),
              bd_ceiling_kbps = from_be_bytes (slice 32 36 w), bd_state = state, bd_reasons = reasons,
              bd_applied = (w ! 37 = 1)\<rparr>
      in bind_res (decision_validate d) (\<lambda>_. Inr d)))))"

lemma decision_layout:
  assumes "length w = 40"
  shows "w = slice 0 4 w @ slice 4 6 w @ slice 6 8 w @ slice 8 16 w @ slice 16 24 w @ slice 24 28 w @
    slice 28 32 w @ slice 32 36 w @ [w ! 36] @ [w ! 37] @ slice 38 40 w"
  using slices_whole [of 0 "[4, 6, 8, 16, 24, 28, 32, 36, 37, 38, 40]" w] assms
  by (simp add: slice_single)

lemma decision_bytes:
  assumes "decision_encode d = Inr w"
  shows "length w = 40" "slice 0 4 w = ADAPTIVE_BITRATE_DECISION_V1_MAGIC" "slice 4 6 w = to_be_bytes PROTOCOL_VERSION"
    "slice 6 8 w = to_be_bytes ADAPTIVE_BITRATE_DECISION_V1_LEN_U16" "slice 8 16 w = to_be_bytes (bd_decision_id d)"
    "slice 16 24 w = to_be_bytes (bd_report_id d)" "slice 24 28 w = to_be_bytes (bd_target_kbps d)"
    "slice 28 32 w = to_be_bytes (bd_floor_kbps d)" "slice 32 36 w = to_be_bytes (bd_ceiling_kbps d)"
    "w ! 36 = bitrate_state_byte (bd_state d)" "w ! 37 = (if bd_applied d then 1 else 0)"
    "slice 38 40 w = to_be_bytes (reason_bits (bd_reasons d))" "decision_validate d = Inr ()"
  using assms
  by (auto simp: decision_encode_def res_simps slice_def nth_append ADAPTIVE_BITRATE_DECISION_V1_MAGIC_def length_magic)

lemma decision_reasons:
  "decision_validate d = Inr u \<Longrightarrow> reasons_from_bits (reason_bits (bd_reasons d)) = Some (bd_reasons d)"
  unfolding decision_validate_def check_chain
  by (auto simp: reasons_from_bits_def simp del: reasons_flags split: if_splits)

lemma decision_decode_encode:
  assumes "decision_encode d = Inr w"
  shows "decision_decode w = Inr d"
proof -
  note b = decision_bytes [OF assms]
  have p: "validate_fixed_prefix w ADAPTIVE_BITRATE_DECISION_V1_LEN_U16 ''adaptive bitrate decision'' = Inr ()"
    unfolding validate_fixed_prefix_def b(3,4) from_to_be_bytes by simp
  have a: "(1 < (if bd_applied d then 1 else 0 :: u8)) = False" "((if bd_applied d then 1 else 0 :: u8) = 1) = bd_applied d"
    by simp_all
  have r: "\<lparr>bd_decision_id = bd_decision_id d, bd_report_id = bd_report_id d, bd_target_kbps = bd_target_kbps d,
      bd_floor_kbps = bd_floor_kbps d, bd_ceiling_kbps = bd_ceiling_kbps d, bd_state = bd_state d,
      bd_reasons = bd_reasons d, bd_applied = bd_applied d\<rparr> = d"
    by simp
  show ?thesis
    unfolding decision_decode_def p b(2,5-12) a from_to_be_bytes Let_def decision_reasons [OF b(13)] option.case
      iffD2 [OF bitrate_state HOL.refl] bind_res_simps r b(13)
    by simp
qed

lemma decision_encode_decode:
  assumes l: "length w = 40" and dec: "decision_decode w = Inr d"
  shows "decision_encode d = Inr w"
proof -
  have f: "slice 0 4 w = ADAPTIVE_BITRATE_DECISION_V1_MAGIC" "from_be_bytes (slice 4 6 w) = PROTOCOL_VERSION"
    "from_be_bytes (slice 6 8 w) = ADAPTIVE_BITRATE_DECISION_V1_LEN_U16" "\<not> 1 < w ! 37" "bd_applied d \<longleftrightarrow> w ! 37 = 1"
    "bitrate_state_byte (bd_state d) = w ! 36" "reason_bits (bd_reasons d) = from_be_bytes (slice 38 40 w)"
    "decision_validate d = Inr ()" "bd_decision_id d = from_be_bytes (slice 8 16 w)"
    "bd_report_id d = from_be_bytes (slice 16 24 w)" "bd_target_kbps d = from_be_bytes (slice 24 28 w)"
    "bd_floor_kbps d = from_be_bytes (slice 28 32 w)" "bd_ceiling_kbps d = from_be_bytes (slice 32 36 w)"
    using dec unfolding decision_decode_def Let_def check_chain bind_res_eq_Inr validate_fixed_prefix_def by auto
  have v: "to_be_bytes PROTOCOL_VERSION = slice 4 6 w" "to_be_bytes ADAPTIVE_BITRATE_DECISION_V1_LEN_U16 = slice 6 8 w"
    using l to_from_be_bytes(1) [of "slice 4 6 w"] to_from_be_bytes(1) [of "slice 6 8 w"]
    unfolding f(2,3) [symmetric] by simp_all
  have a: "(if bd_applied d then 1 else 0) = w ! 37"
  proof -
    have "w ! 37 = 0 \<or> w ! 37 = 1"
      using f(4) by (simp add: not_less word_le_nat_alt word_unat_eq_iff) linarith
    then show ?thesis using f(5) by auto
  qed
  have n: "to_be_bytes (bd_decision_id d) = slice 8 16 w" "to_be_bytes (bd_report_id d) = slice 16 24 w"
    "to_be_bytes (bd_target_kbps d) = slice 24 28 w" "to_be_bytes (bd_floor_kbps d) = slice 28 32 w"
    "to_be_bytes (bd_ceiling_kbps d) = slice 32 36 w" "to_be_bytes (reason_bits (bd_reasons d)) = slice 38 40 w"
    unfolding f(7,9-13) using l by (simp_all add: to_from_be_bytes)
  show ?thesis
    unfolding decision_encode_def f(8) bind_res_simps v n a f(1) [symmetric] f(6)
    by (rule arg_cong [OF decision_layout [OF l, symmetric]])
qed

interpretation bitrate_decision: fixed_codec decision_encode decision_decode ADAPTIVE_BITRATE_DECISION_V1_LEN
  unfolding ADAPTIVE_BITRATE_DECISION_V1_LEN_def
  by unfold_locales (simp, erule decision_bytes(1), erule decision_decode_encode, erule (1) decision_encode_decode)

definition read_adaptive_bitrate_decision :: "bytes \<Rightarrow> (adaptive_bitrate_decision option \<times> bytes) proto" where
  "read_adaptive_bitrate_decision = read_record decision_decode ADAPTIVE_BITRATE_DECISION_V1_LEN"

definition write_adaptive_bitrate_decision :: "bytes \<Rightarrow> adaptive_bitrate_decision \<Rightarrow> bytes proto" where
  "write_adaptive_bitrate_decision = write_record decision_encode"

section \<open>Streams\<close>

text \<open>
  C14: A feedback stream is read back as it was written: after any list of reports the reader returns
  exactly these reports, in order, and then a clean end; and likewise for the decisions in the other
  direction. Conversely, a record a reader accepts is valid and re-encodes to the bytes consumed.
\<close>

theorem feedback_streams_roundtrip:
  "(write_records report_encode rs = Inr out \<longrightarrow>
      read_records report_decode MEDIA_FEEDBACK_REPORT_V1_LEN (Suc (length rs)) out = Inr (map Some rs @ [None], [])) \<and>
   (write_records decision_encode ds = Inr out \<longrightarrow>
      read_records decision_decode ADAPTIVE_BITRATE_DECISION_V1_LEN (Suc (length ds)) out = Inr (map Some ds @ [None], [])) \<and>
   (read_media_feedback_report stream = Inr (Some r, rest) \<longrightarrow>
      report_validate r = Inr () \<and> (\<exists>w. stream = w @ rest \<and> report_encode r = Inr w)) \<and>
   (read_adaptive_bitrate_decision stream = Inr (Some d, rest) \<longrightarrow>
      decision_validate d = Inr () \<and> (\<exists>w. stream = w @ rest \<and> decision_encode d = Inr w))"
proof (intro conjI impI)
  assume "read_media_feedback_report stream = Inr (Some r, rest)"
  then obtain w where w: "stream = w @ rest" "report_encode r = Inr w"
    unfolding read_media_feedback_report_def using feedback_report.read_record_valid by blast
  then show "report_validate r = Inr ()" "\<exists>w. stream = w @ rest \<and> report_encode r = Inr w"
    by (auto simp: report_encode_def res_simps)
next
  assume "read_adaptive_bitrate_decision stream = Inr (Some d, rest)"
  then obtain w where w: "stream = w @ rest" "decision_encode d = Inr w"
    unfolding read_adaptive_bitrate_decision_def using bitrate_decision.read_record_valid by blast
  then show "decision_validate d = Inr ()" "\<exists>w. stream = w @ rest \<and> decision_encode d = Inr w"
    by (auto simp: decision_encode_def res_simps)
qed (rule feedback_report.read_written_eof bitrate_decision.read_written_eof; assumption)+

definition demo_decision :: "u64 \<Rightarrow> adaptive_bitrate_decision" where
  "demo_decision n = \<lparr>bd_decision_id = n, bd_report_id = 1, bd_target_kbps = 12000, bd_floor_kbps = 4000,
     bd_ceiling_kbps = 20000, bd_state = AB_Decrease, bd_reasons = REASON_DECODE_BACKLOG, bd_applied = True\<rparr>"

theorem feedback_streams_roundtrip_witness:
  "\<exists>out. write_records decision_encode [demo_decision 1, demo_decision 2] = Inr out \<and>
     read_records decision_decode ADAPTIVE_BITRATE_DECISION_V1_LEN 3 out =
       Inr ([Some (demo_decision 1), Some (demo_decision 2), None], [])"
proof -
  have "decision_validate (demo_decision n) = Inr ()" if "n \<noteq> 0" for n
    using that by (simp add: decision_validate_def demo_decision_def MIN_ADAPTIVE_BITRATE_KBPS_def
        MAX_ADAPTIVE_BITRATE_KBPS_def REASON_DECODE_BACKLOG_def reasons_from_bits_def REASONS_KNOWN_def
        REASON_RTT_INFLATION_def REASON_LOSS_OR_CANCELLATION_def REASON_SENDER_BACKPRESSURE_def
        REASON_RECEIVER_QUEUE_def REASON_DELIVERY_LATENCY_def REASON_CLEAN_RECOVERY_def REASON_FEEDBACK_STALE_def)
  then obtain out where out: "write_records decision_encode [demo_decision 1, demo_decision 2] = Inr out"
    by (simp add: decision_encode_def)
  with feedback_streams_roundtrip [of "[]" out "[demo_decision 1, demo_decision 2]"]
  show ?thesis by (auto simp: numeral_3_eq_3)
qed

end
