(* ===== verification/Media_Auth.thy ===== *)
theory Media_Auth
  imports Tokens Media_Codec
begin

text \<open>
  Authenticated media (\<open>media_auth.rs\<close>): the host signs a certificate for the key of a media
  generation, and the generation key signs the header of every media object, which carries the
  object's delivery coordinates and the digest of its payload. SHA-256 comes from an external
  crate and is a parameter \<open>sha256\<close>; Ed25519 and base64url are the \<open>crypto\<close> parameter of
  \<open>Tokens\<close>.
\<close>

section \<open>Generation certificates\<close>

definition CERTIFICATE_MAGIC :: bytes where "CERTIFICATE_MAGIC = ascii_bytes ''SGMC''"
definition CERTIFICATE_VERSION :: u16 where "CERTIFICATE_VERSION = 1"
definition CERTIFICATE_CLAIMS_LEN :: nat where "CERTIFICATE_CLAIMS_LEN = 96"
definition CERTIFICATE_LEN :: nat where "CERTIFICATE_LEN = CERTIFICATE_CLAIMS_LEN + SIGNATURE_LEN"
definition CERTIFICATE_DOMAIN :: bytes where
  "CERTIFICATE_DOMAIN = ascii_bytes ''goq.sh/sigil-media-certificate/v1'' @ [0]"
definition OBJECT_MAGIC :: bytes where "OBJECT_MAGIC = ascii_bytes ''SGMA''"
definition OBJECT_VERSION :: u16 where "OBJECT_VERSION = 1"
definition OBJECT_UNSIGNED_HEADER_LEN :: nat where "OBJECT_UNSIGNED_HEADER_LEN = 70"
definition OBJECT_DOMAIN :: bytes where "OBJECT_DOMAIN = ascii_bytes ''goq.sh/sigil-media-object/v1'' @ [0]"
definition MAX_GENERATION_CERTIFICATE_TTL_SECS :: u64 where
  "MAX_GENERATION_CERTIFICATE_TTL_SECS = 24 * 60 * 60"
definition MEDIA_GENERATION_CERTIFICATE_TOKEN_PREFIX :: string where
  "MEDIA_GENERATION_CERTIFICATE_TOKEN_PREFIX = ''goq-media-cert-v1.''"
definition MAX_MEDIA_GENERATION_CERTIFICATE_TOKEN_LEN :: nat where
  "MAX_MEDIA_GENERATION_CERTIFICATE_TOKEN_LEN = 256"
definition AUTHENTICATED_MEDIA_OBJECT_HEADER_LEN :: nat where
  "AUTHENTICATED_MEDIA_OBJECT_HEADER_LEN = OBJECT_UNSIGNED_HEADER_LEN + SIGNATURE_LEN"
definition MAX_AUTHENTICATED_PAYLOAD_LEN :: nat where
  "MAX_AUTHENTICATED_PAYLOAD_LEN = MEDIA_HEADER_LEN + MAX_MEDIA_PAYLOAD_LEN"

datatype media_auth_mode = Ed25519

definition auth_mode_byte :: "media_auth_mode \<Rightarrow> u8" where
  "auth_mode_byte m = (case m of Ed25519 \<Rightarrow> 1)"

definition auth_mode_try_from :: "u8 \<Rightarrow> media_auth_mode proto" where
  "auth_mode_try_from v =
     (if v = 1 then Inr Ed25519 else invalid ''media authentication mode'' ''unsupported authentication mode'')"

datatype media_track = VideoH264 | AudioOpus

definition media_track_byte :: "media_track \<Rightarrow> u8" where
  "media_track_byte t = (case t of VideoH264 \<Rightarrow> 1 | AudioOpus \<Rightarrow> 2)"

definition media_track_try_from :: "u8 \<Rightarrow> media_track proto" where
  "media_track_try_from v =
     (if v = 1 then Inr VideoH264 else if v = 2 then Inr AudioOpus
      else invalid ''authenticated media object'' ''unsupported media track'')"

lemma auth_enum_bytes [simp]:
  "auth_mode_try_from (auth_mode_byte m) = Inr m"
  "media_track_try_from (media_track_byte t) = Inr t"
  by (cases m; simp add: auth_mode_try_from_def auth_mode_byte_def)
    (cases t; simp add: media_track_try_from_def media_track_byte_def)

lemma auth_enum_values:
  "auth_mode_try_from v = Inr m \<Longrightarrow> auth_mode_byte m = v"
  "media_track_try_from v = Inr t \<Longrightarrow> media_track_byte t = v"
  by (auto simp: auth_mode_try_from_def auth_mode_byte_def media_track_try_from_def media_track_byte_def
      split: if_splits)

record certificate_claims =
  gc_host_node_id :: bytes
  gc_generation_id :: u64
  gc_generation_signing_key :: bytes
  gc_issued_at_unix :: u64
  gc_expires_at_unix :: u64
  gc_authentication_mode :: media_auth_mode

definition certificate_claims_typed :: "certificate_claims \<Rightarrow> bool" where
  "certificate_claims_typed cl \<longleftrightarrow>
     length (gc_host_node_id cl) = 32 \<and> length (gc_generation_signing_key cl) = 32"

definition certificate_claims_validate :: "crypto \<Rightarrow> certificate_claims \<Rightarrow> unit proto" where
  "certificate_claims_validate c cl =
     (if gc_authentication_mode cl \<noteq> Ed25519
      then invalid ''media generation certificate'' ''unsupported authentication mode''
      else if gc_generation_id cl = 0
      then invalid ''media generation certificate'' ''generation id must be non-zero''
      else if gc_expires_at_unix cl \<le> gc_issued_at_unix cl
         \<or> MAX_GENERATION_CERTIFICATE_TTL_SECS < gc_expires_at_unix cl - gc_issued_at_unix cl
      then invalid ''media generation certificate'' ''certificate lifetime must be within 1..=86400 seconds''
      else if \<not> valid_public_key c (gc_host_node_id cl)
      then invalid ''media generation certificate'' ''host node id is not an Ed25519 public key''
      else if \<not> valid_public_key c (gc_generation_signing_key cl)
      then invalid ''media generation certificate'' ''generation key is not an Ed25519 public key''
      else Inr ())"

definition certificate_claims_new ::
  "crypto \<Rightarrow> bytes \<Rightarrow> u64 \<Rightarrow> bytes \<Rightarrow> u64 \<Rightarrow> u64 \<Rightarrow> certificate_claims proto" where
  "certificate_claims_new c host gen key issued expires =
     (let cl = \<lparr>gc_host_node_id = host, gc_generation_id = gen, gc_generation_signing_key = key,
                gc_issued_at_unix = issued, gc_expires_at_unix = expires, gc_authentication_mode = Ed25519\<rparr>
      in bind_res (certificate_claims_validate c cl) (\<lambda>_. Inr cl))"

definition certificate_claims_encode :: "certificate_claims \<Rightarrow> bytes" where
  "certificate_claims_encode cl =
     CERTIFICATE_MAGIC @ to_be_bytes CERTIFICATE_VERSION @ [auth_mode_byte (gc_authentication_mode cl)] @ [0] @
     gc_host_node_id cl @ to_be_bytes (gc_generation_id cl) @ gc_generation_signing_key cl @
     to_be_bytes (gc_issued_at_unix cl) @ to_be_bytes (gc_expires_at_unix cl)"

definition certificate_signing_message :: "certificate_claims \<Rightarrow> bytes" where
  "certificate_signing_message cl = CERTIFICATE_DOMAIN @ certificate_claims_encode cl"

record signed_certificate =
  cert_claims :: certificate_claims
  cert_signature :: bytes

definition certificate_issue :: "crypto \<Rightarrow> certificate_claims \<Rightarrow> bytes \<Rightarrow> signed_certificate proto" where
  "certificate_issue c cl host_secret =
     bind_res (certificate_claims_validate c cl) (\<lambda>_.
     if public_key_of c host_secret \<noteq> gc_host_node_id cl
     then invalid ''media generation certificate'' ''host signing key does not match the certificate host''
     else Inr \<lparr>cert_claims = cl, cert_signature = sign_with c host_secret (certificate_signing_message cl)\<rparr>)"

definition certificate_verify :: "crypto \<Rightarrow> signed_certificate \<Rightarrow> unit proto" where
  "certificate_verify c cert =
     bind_res (certificate_claims_validate c (cert_claims cert)) (\<lambda>_.
     if \<not> valid_public_key c (gc_host_node_id (cert_claims cert))
     then invalid ''media generation certificate'' ''invalid host verification key''
     else if verify_strict c (gc_host_node_id (cert_claims cert))
               (certificate_signing_message (cert_claims cert)) (cert_signature cert)
     then Inr () else invalid ''media generation certificate'' ''host signature verification failed'')"

definition certificate_verify_binding ::
  "crypto \<Rightarrow> signed_certificate \<Rightarrow> bytes \<Rightarrow> u64 \<Rightarrow> u64 \<Rightarrow> unit proto" where
  "certificate_verify_binding c cert expected_host expected_generation now_unix =
     (let cl = cert_claims cert in
     bind_res (certificate_verify c cert) (\<lambda>_.
     if gc_host_node_id cl \<noteq> expected_host
     then invalid ''media generation certificate'' ''certificate is bound to another host''
     else if gc_generation_id cl \<noteq> expected_generation
     then invalid ''media generation certificate'' ''certificate is bound to another generation''
     else if now_unix < gc_issued_at_unix cl \<or> gc_expires_at_unix cl < now_unix
     then invalid ''media generation certificate'' ''certificate is not currently valid''
     else Inr ()))"

definition certificate_encode :: "crypto \<Rightarrow> signed_certificate \<Rightarrow> string" where
  "certificate_encode c cert =
     MEDIA_GENERATION_CERTIFICATE_TOKEN_PREFIX @
     base64url_encode c (certificate_claims_encode (cert_claims cert) @ cert_signature cert)"

definition certificate_decode :: "crypto \<Rightarrow> string \<Rightarrow> signed_certificate proto" where
  "certificate_decode c token =
     (if MAX_MEDIA_GENERATION_CERTIFICATE_TOKEN_LEN < length token \<or> CHR ''='' \<in> set token
         \<or> list_ex is_ascii_whitespace token
      then invalid ''media generation certificate'' ''certificate token is oversized or non-canonical''
      else case strip_prefix MEDIA_GENERATION_CERTIFICATE_TOKEN_PREFIX token of
        None \<Rightarrow> invalid ''media generation certificate'' ''certificate token prefix is invalid''
      | Some encoded \<Rightarrow>
      (case base64url_decode c encoded of
        None \<Rightarrow> invalid ''media generation certificate'' ''certificate token is not canonical base64url''
      | Some bs \<Rightarrow>
      if length bs \<noteq> CERTIFICATE_LEN then Inl (InvalidMessageLength (length bs) CERTIFICATE_LEN)
      else if slice 0 4 bs \<noteq> CERTIFICATE_MAGIC
      then invalid ''media generation certificate'' ''certificate magic is invalid''
      else if from_be_bytes (slice 4 6 bs) \<noteq> CERTIFICATE_VERSION
      then Inl (UnsupportedVersion CERTIFICATE_VERSION (from_be_bytes (slice 4 6 bs)))
      else if bs ! 7 \<noteq> 0
      then invalid ''media generation certificate'' ''reserved fields must be zero''
      else bind_res (auth_mode_try_from (bs ! 6)) (\<lambda>mode.
      let cert = \<lparr>cert_claims = \<lparr>gc_host_node_id = slice 8 40 bs, gc_generation_id = from_be_bytes (slice 40 48 bs),
                    gc_generation_signing_key = slice 48 80 bs, gc_issued_at_unix = from_be_bytes (slice 80 88 bs),
                    gc_expires_at_unix = from_be_bytes (slice 88 96 bs), gc_authentication_mode = mode\<rparr>,
                  cert_signature = drop CERTIFICATE_CLAIMS_LEN bs\<rparr> in
      bind_res (certificate_verify c cert) (\<lambda>_.
      if certificate_encode c cert \<noteq> token
      then invalid ''media generation certificate'' ''certificate encoding is not canonical''
      else Inr cert))))"

section \<open>Objects\<close>

record media_object_coordinates =
  oc_generation_id :: u64
  oc_track :: media_track
  oc_group_id :: u64
  oc_object_id :: u32
  oc_flags :: u16

text \<open>The bound is below \<open>2 ^ 32\<close>, so the conversion of the length to \<open>u32\<close> cannot fail after it.\<close>

definition coordinates_validate :: "media_object_coordinates \<Rightarrow> nat \<Rightarrow> unit proto" where
  "coordinates_validate oc payload_len =
     (if oc_generation_id oc = 0
      then invalid ''authenticated media object'' ''generation id must be non-zero''
      else if oc_flags oc AND NOT 7 \<noteq> 0
      then invalid ''authenticated media object'' ''unknown media flags are set''
      else if payload_len = 0 \<or> MAX_AUTHENTICATED_PAYLOAD_LEN < payload_len
      then Inl (InvalidMediaPayloadLength payload_len MAX_AUTHENTICATED_PAYLOAD_LEN)
      else if \<not> payload_len < 2 ^ 32
      then Inl (InvalidMediaPayloadLength payload_len MAX_AUTHENTICATED_PAYLOAD_LEN)
      else Inr ())"

definition encode_unsigned_object_header :: "media_object_coordinates \<Rightarrow> nat \<Rightarrow> bytes \<Rightarrow> bytes proto" where
  "encode_unsigned_object_header oc payload_len digest =
     bind_res (coordinates_validate oc payload_len) (\<lambda>_. Inr
       (OBJECT_MAGIC @ to_be_bytes OBJECT_VERSION @
        to_be_bytes (of_nat AUTHENTICATED_MEDIA_OBJECT_HEADER_LEN :: u16) @
        [auth_mode_byte Ed25519] @ [media_track_byte (oc_track oc)] @ to_be_bytes (oc_flags oc) @ replicate 2 0 @
        to_be_bytes (oc_generation_id oc) @ to_be_bytes (oc_group_id oc) @ to_be_bytes (oc_object_id oc) @
        to_be_bytes (of_nat payload_len :: u32) @ digest))"

definition authenticate ::
  "crypto \<Rightarrow> (bytes \<Rightarrow> bytes) \<Rightarrow> bytes \<Rightarrow> media_object_coordinates \<Rightarrow> bytes \<Rightarrow> bytes proto" where
  "authenticate c sha256 generation_secret oc payload =
     bind_res (coordinates_validate oc (length payload)) (\<lambda>_.
     bind_res (encode_unsigned_object_header oc (length payload) (sha256 payload)) (\<lambda>unsigned.
     Inr (unsigned @ sign_with c generation_secret (OBJECT_DOMAIN @ unsigned) @ payload)))"

definition certify ::
  "crypto \<Rightarrow> bytes \<Rightarrow> bytes \<Rightarrow> bytes \<Rightarrow> u64 \<Rightarrow> u64 \<Rightarrow> u64 \<Rightarrow> signed_certificate proto" where
  "certify c generation_secret host host_secret gen issued expires =
     bind_res (certificate_claims_new c host gen (public_key_of c generation_secret) issued expires) (\<lambda>cl.
     certificate_issue c cl host_secret)"

definition object_coordinates :: "bytes \<Rightarrow> media_object_coordinates proto" where
  "object_coordinates object =
     (if length object < AUTHENTICATED_MEDIA_OBJECT_HEADER_LEN
      then invalid ''authenticated media object'' ''object ended before its authentication header''
      else if slice 0 4 object \<noteq> OBJECT_MAGIC
      then invalid ''authenticated media object'' ''authentication magic is invalid''
      else if from_be_bytes (slice 4 6 object) \<noteq> OBJECT_VERSION
      then Inl (UnsupportedVersion OBJECT_VERSION (from_be_bytes (slice 4 6 object)))
      else if unat (from_be_bytes (slice 6 8 object) :: u16) \<noteq> AUTHENTICATED_MEDIA_OBJECT_HEADER_LEN
      then invalid ''authenticated media object'' ''authentication header length is invalid''
      else bind_res (auth_mode_try_from (object ! 8)) (\<lambda>mode.
      if mode \<noteq> Ed25519 \<or> \<not> zeroed (slice 12 14 object)
      then invalid ''authenticated media object'' ''authentication mode or reserved fields are invalid''
      else bind_res (media_track_try_from (object ! 9)) (\<lambda>track.
      let oc = \<lparr>oc_generation_id = from_be_bytes (slice 14 22 object), oc_track = track,
                oc_group_id = from_be_bytes (slice 22 30 object), oc_object_id = from_be_bytes (slice 30 34 object),
                oc_flags = from_be_bytes (slice 10 12 object)\<rparr> in
      bind_res (coordinates_validate oc (unat (from_be_bytes (slice 34 38 object) :: u32))) (\<lambda>_. Inr oc))))"

definition object_verify ::
  "crypto \<Rightarrow> (bytes \<Rightarrow> bytes) \<Rightarrow> bytes \<Rightarrow> signed_certificate \<Rightarrow> media_object_coordinates \<Rightarrow> bytes proto" where
  "object_verify c sha256 object cert expected =
     bind_res (certificate_verify c cert) (\<lambda>_.
     bind_res (object_coordinates object) (\<lambda>actual.
     let unsigned = take OBJECT_UNSIGNED_HEADER_LEN object;
         payload_len = unat (from_be_bytes (slice 34 38 unsigned) :: u32);
         payload = drop AUTHENTICATED_MEDIA_OBJECT_HEADER_LEN object;
         signature = slice OBJECT_UNSIGNED_HEADER_LEN AUTHENTICATED_MEDIA_OBJECT_HEADER_LEN object in
     if actual \<noteq> expected \<or> oc_generation_id actual \<noteq> gc_generation_id (cert_claims cert)
     then invalid ''authenticated media object'' ''object coordinates do not match delivery coordinates''
     else if length payload \<noteq> payload_len
     then invalid ''authenticated media object'' ''payload length does not match authentication header''
     else if sha256 payload \<noteq> slice 38 70 unsigned
     then invalid ''authenticated media object'' ''payload digest verification failed''
     else if \<not> valid_public_key c (gc_generation_signing_key (cert_claims cert))
     then invalid ''authenticated media object'' ''certificate generation key is invalid''
     else if verify_strict c (gc_generation_signing_key (cert_claims cert)) (OBJECT_DOMAIN @ unsigned) signature
     then Inr payload
     else invalid ''authenticated media object'' ''object signature verification failed''))"

section \<open>Certificates: issue, spell, read\<close>

lemma auth_magic_lengths [simp]: "length CERTIFICATE_MAGIC = 4" "length OBJECT_MAGIC = 4"
  by (simp_all add: CERTIFICATE_MAGIC_def OBJECT_MAGIC_def ascii_bytes_def)

lemma certificate_bytes:
  assumes "certificate_claims_typed cl" "length sig = 64"
  defines "bs \<equiv> certificate_claims_encode cl @ sig"
  shows "length bs = CERTIFICATE_LEN" "slice 0 4 bs = CERTIFICATE_MAGIC"
    "slice 4 6 bs = to_be_bytes CERTIFICATE_VERSION" "bs ! 6 = auth_mode_byte (gc_authentication_mode cl)"
    "bs ! 7 = 0" "slice 8 40 bs = gc_host_node_id cl" "slice 40 48 bs = to_be_bytes (gc_generation_id cl)"
    "slice 48 80 bs = gc_generation_signing_key cl" "slice 80 88 bs = to_be_bytes (gc_issued_at_unix cl)"
    "slice 88 96 bs = to_be_bytes (gc_expires_at_unix cl)" "drop CERTIFICATE_CLAIMS_LEN bs = sig"
  using assms(1,2)
  by (simp_all add: bs_def certificate_claims_encode_def certificate_claims_typed_def slice_def
      CERTIFICATE_LEN_def CERTIFICATE_CLAIMS_LEN_def SIGNATURE_LEN_def nth_append)

lemma certificate_prefix_clean: "list_all token_char MEDIA_GENERATION_CERTIFICATE_TOKEN_PREFIX"
  by (simp add: MEDIA_GENERATION_CERTIFICATE_TOKEN_PREFIX_def token_char_def is_ascii_whitespace_def)

lemma certificate_rebuild:
  "\<lparr>cert_claims = \<lparr>gc_host_node_id = gc_host_node_id (cert_claims x), gc_generation_id = gc_generation_id (cert_claims x),
     gc_generation_signing_key = gc_generation_signing_key (cert_claims x),
     gc_issued_at_unix = gc_issued_at_unix (cert_claims x), gc_expires_at_unix = gc_expires_at_unix (cert_claims x),
     gc_authentication_mode = gc_authentication_mode (cert_claims x)\<rparr>, cert_signature = cert_signature x\<rparr> = x"
  by simp

lemma certificate_issue_verified:
  assumes "crypto_ok c" "length sk = 32" "certificate_issue c cl sk = Inr cert"
  shows "certificate_verify c cert = Inr ()" "cert_claims cert = cl" "length (cert_signature cert) = 64"
    "certificate_claims_validate c cl = Inr ()"
  using assms crypto_ok_sign [OF assms(1,2)]
  by (auto simp: certificate_issue_def certificate_verify_def certificate_claims_validate_def res_simps
      split: if_splits)

lemma certificate_decode_encode:
  assumes c: "crypto_ok c" and typed: "certificate_claims_typed (cert_claims cert)"
    and sig: "length (cert_signature cert) = 64" and v: "certificate_verify c cert = Inr ()"
  shows "certificate_decode c (certificate_encode c cert) = Inr cert"
proof -
  define bs where "bs = certificate_claims_encode (cert_claims cert) @ cert_signature cert"
  note facts = certificate_bytes [OF typed sig, folded bs_def]
  have enc: "certificate_encode c cert = MEDIA_GENERATION_CERTIFICATE_TOKEN_PREFIX @ base64url_encode c bs"
    by (simp add: certificate_encode_def bs_def)
  note b64 = crypto_ok_base64 [OF c, of bs]
  have len: "length (certificate_encode c cert) \<le> MAX_MEDIA_GENERATION_CERTIFICATE_TOKEN_LEN"
    using b64(2) facts(1) by (simp add: enc MEDIA_GENERATION_CERTIFICATE_TOKEN_PREFIX_def
        MAX_MEDIA_GENERATION_CERTIFICATE_TOKEN_LEN_def CERTIFICATE_LEN_def CERTIFICATE_CLAIMS_LEN_def SIGNATURE_LEN_def)
  show ?thesis
    using len token_clean [OF certificate_prefix_clean b64(3)] v
    by (simp add: certificate_decode_def enc b64(1) facts Let_def certificate_rebuild)
qed

lemma certificate_decode_Inr:
  assumes "certificate_decode c token = Inr cert"
  shows "certificate_verify c cert = Inr ()" "certificate_encode c cert = token"
    "length token \<le> MAX_MEDIA_GENERATION_CERTIFICATE_TOKEN_LEN"
  using assms
  by (auto simp: certificate_decode_def res_simps Let_def split: if_splits option.splits)

section \<open>The header of an object\<close>

lemma auth_object_layout:
  assumes "70 \<le> length w"
  shows "take 70 w = slice 0 4 w @ slice 4 6 w @ slice 6 8 w @ [w ! 8] @ [w ! 9] @ slice 10 12 w @ slice 12 14 w @
    slice 14 22 w @ slice 22 30 w @ slice 30 34 w @ slice 34 38 w @ slice 38 70 w"
proof -
  have "w = (slice 0 4 w @ slice 4 6 w @ slice 6 8 w @ [w ! 8] @ [w ! 9] @ slice 10 12 w @ slice 12 14 w @
    slice 14 22 w @ slice 22 30 w @ slice 30 34 w @ slice 34 38 w @ slice 38 70 w) @ drop 70 w" (is "w = ?h @ _")
    using slices_whole [of 0 "[4, 6, 8, 9, 10, 12, 14, 22, 30, 34, 38, 70]" w] assms
    by (simp add: slice_single)
  moreover have "length ?h = 70" using assms by simp
  ultimately show ?thesis by (metis append_eq_conv_conj)
qed

lemma unsigned_bytes:
  assumes "encode_unsigned_object_header oc n d = Inr h" "length d = 32"
  shows "length h = 70" "slice 0 4 (h @ r) = OBJECT_MAGIC" "slice 4 6 (h @ r) = to_be_bytes OBJECT_VERSION"
    "slice 6 8 (h @ r) = to_be_bytes (of_nat AUTHENTICATED_MEDIA_OBJECT_HEADER_LEN :: u16)"
    "(h @ r) ! 8 = auth_mode_byte Ed25519" "(h @ r) ! 9 = media_track_byte (oc_track oc)"
    "slice 10 12 (h @ r) = to_be_bytes (oc_flags oc)" "zeroed (slice 12 14 (h @ r))"
    "slice 14 22 (h @ r) = to_be_bytes (oc_generation_id oc)" "slice 22 30 (h @ r) = to_be_bytes (oc_group_id oc)"
    "slice 30 34 (h @ r) = to_be_bytes (oc_object_id oc)" "slice 34 38 (h @ r) = to_be_bytes (of_nat n :: u32)"
    "slice 38 70 (h @ r) = d" "coordinates_validate oc n = Inr ()"
  using assms by (auto simp: encode_unsigned_object_header_def res_simps slice_def nth_append zeroed_def list_ex_iff)

lemma coordinates_validate_small: "coordinates_validate oc n = Inr () \<Longrightarrow> n < 2 ^ 32"
  by (auto simp: coordinates_validate_def split: if_splits)

lemma object_coordinates_encoded:
  assumes "encode_unsigned_object_header oc n d = Inr h" "length d = 32" "64 \<le> length r"
  shows "object_coordinates (h @ r) = Inr oc"
proof -
  note b = unsigned_bytes [OF assms(1,2)]
  have n: "unat (of_nat n :: u32) = n"
    using coordinates_validate_small [OF b(14)] by (simp add: unat_of_nat_small)
  have l: "\<not> length (h @ r) < AUTHENTICATED_MEDIA_OBJECT_HEADER_LEN"
    using assms(3) b(1) by (simp add: AUTHENTICATED_MEDIA_OBJECT_HEADER_LEN_def OBJECT_UNSIGNED_HEADER_LEN_def SIGNATURE_LEN_def)
  have w: "unat (of_nat AUTHENTICATED_MEDIA_OBJECT_HEADER_LEN :: u16) = AUTHENTICATED_MEDIA_OBJECT_HEADER_LEN"
    by (simp add: AUTHENTICATED_MEDIA_OBJECT_HEADER_LEN_def OBJECT_UNSIGNED_HEADER_LEN_def SIGNATURE_LEN_def)
  have r: "\<lparr>oc_generation_id = oc_generation_id oc, oc_track = oc_track oc, oc_group_id = oc_group_id oc,
      oc_object_id = oc_object_id oc, oc_flags = oc_flags oc\<rparr> = oc" by simp
  show ?thesis
    unfolding object_coordinates_def b(2-7) b(9-12) from_to_be_bytes auth_enum_bytes Let_def bind_res_simps n w r
    using l b(8,14) by simp
qed

lemma object_coordinates_header:
  assumes "object_coordinates obj = Inr oc"
  shows "encode_unsigned_object_header oc (unat (from_be_bytes (slice 34 38 obj) :: u32)) (slice 38 70 obj) = Inr (take 70 obj)"
    "134 \<le> length obj"
proof -
  have f: "134 \<le> length obj" "slice 0 4 obj = OBJECT_MAGIC" "from_be_bytes (slice 4 6 obj) = OBJECT_VERSION"
    "unat (from_be_bytes (slice 6 8 obj) :: u16) = 134" "auth_mode_try_from (obj ! 8) = Inr Ed25519"
    "zeroed (slice 12 14 obj)" "media_track_try_from (obj ! 9) = Inr (oc_track oc)"
    "oc_generation_id oc = from_be_bytes (slice 14 22 obj)" "oc_group_id oc = from_be_bytes (slice 22 30 obj)"
    "oc_object_id oc = from_be_bytes (slice 30 34 obj)" "oc_flags oc = from_be_bytes (slice 10 12 obj)"
    "coordinates_validate oc (unat (from_be_bytes (slice 34 38 obj) :: u32)) = Inr ()"
    using assms unfolding object_coordinates_def Let_def check_chain bind_res_eq_Inr
      AUTHENTICATED_MEDIA_OBJECT_HEADER_LEN_def OBJECT_UNSIGNED_HEADER_LEN_def SIGNATURE_LEN_def by auto
  show "134 \<le> length obj" by (rule f(1))
  have v: "to_be_bytes OBJECT_VERSION = slice 4 6 obj"
    using f(1) to_from_be_bytes(1) [of "slice 4 6 obj"] unfolding f(3) [symmetric] by simp
  have "(of_nat AUTHENTICATED_MEDIA_OBJECT_HEADER_LEN :: u16) = from_be_bytes (slice 6 8 obj)"
  proof -
    have "of_nat (unat x) = x" for x :: u16 by simp
    from this [of "from_be_bytes (slice 6 8 obj)"] show ?thesis
      unfolding f(4) by (simp add: AUTHENTICATED_MEDIA_OBJECT_HEADER_LEN_def OBJECT_UNSIGNED_HEADER_LEN_def SIGNATURE_LEN_def)
  qed
  then have w: "to_be_bytes (of_nat AUTHENTICATED_MEDIA_OBJECT_HEADER_LEN :: u16) = slice 6 8 obj"
    using f(1) by (simp add: to_from_be_bytes)
  have z: "replicate 2 0 = slice 12 14 obj" using zeroed_slice [OF f(6)] f(1) by simp
  have n: "to_be_bytes (oc_generation_id oc) = slice 14 22 obj" "to_be_bytes (oc_group_id oc) = slice 22 30 obj"
    "to_be_bytes (oc_object_id oc) = slice 30 34 obj" "to_be_bytes (oc_flags oc) = slice 10 12 obj"
    "to_be_bytes (of_nat (unat (from_be_bytes (slice 34 38 obj) :: u32)) :: u32) = slice 34 38 obj"
    unfolding f(8-11) using f(1) by (simp_all add: to_from_be_bytes)
  show "encode_unsigned_object_header oc (unat (from_be_bytes (slice 34 38 obj) :: u32)) (slice 38 70 obj) = Inr (take 70 obj)"
    unfolding encode_unsigned_object_header_def f(12) bind_res_simps v w z n f(2) [symmetric]
      auth_enum_values(1) [OF f(5)] auth_enum_values(2) [OF f(7)]
    using f(1) by (intro arg_cong [where f = Inr] auth_object_layout [symmetric]) simp
qed

text \<open>What a successful verification has checked, and that it accepts everything that passes.\<close>

lemma object_verify_iff:
  assumes "\<And>b. length (sha256 b) = 32"
  shows "object_verify c sha256 obj cert oc = Inr payload \<longleftrightarrow>
    certificate_verify c cert = Inr () \<and> oc_generation_id oc = gc_generation_id (cert_claims cert) \<and>
    (\<exists>h sig. encode_unsigned_object_header oc (length payload) (sha256 payload) = Inr h \<and> length sig = 64 \<and>
       obj = h @ sig @ payload \<and>
       verify_strict c (gc_generation_signing_key (cert_claims cert)) (OBJECT_DOMAIN @ h) sig)"
    (is "?l \<longleftrightarrow> ?r")
proof
  note lens = AUTHENTICATED_MEDIA_OBJECT_HEADER_LEN_def OBJECT_UNSIGNED_HEADER_LEN_def SIGNATURE_LEN_def
  have cut: "slice i j (take 70 w) = slice i j w" if "j \<le> 70" for i j and w :: bytes
    using that by (cases "i \<le> j") (auto simp: slice_def take_drop min_def)
  assume ?l
  then have f: "certificate_verify c cert = Inr ()" "object_coordinates obj = Inr oc"
    "oc_generation_id oc = gc_generation_id (cert_claims cert)" "payload = drop 134 obj"
    "length payload = unat (from_be_bytes (slice 34 38 obj) :: u32)" "sha256 payload = slice 38 70 obj"
    "verify_strict c (gc_generation_signing_key (cert_claims cert)) (OBJECT_DOMAIN @ take 70 obj) (slice 70 134 obj)"
    unfolding object_verify_def Let_def check_chain bind_res_eq_Inr lens by (auto simp: cut split: if_splits)
  note h = object_coordinates_header [OF f(2)]
  have "obj = take 70 obj @ slice 70 134 obj @ payload" "length (slice 70 134 obj) = 64"
    using h(2) slice_step [of 70 134 obj] by (simp_all add: f(4))
  with h(1) f(1,3,7) show ?r unfolding f(5) [symmetric] f(6) [symmetric] by blast
next
  note lens = AUTHENTICATED_MEDIA_OBJECT_HEADER_LEN_def OBJECT_UNSIGNED_HEADER_LEN_def SIGNATURE_LEN_def
  assume ?r
  then obtain h sig where f: "certificate_verify c cert = Inr ()" "oc_generation_id oc = gc_generation_id (cert_claims cert)"
    "encode_unsigned_object_header oc (length payload) (sha256 payload) = Inr h" "length sig = 64"
    "obj = h @ sig @ payload" "verify_strict c (gc_generation_signing_key (cert_claims cert)) (OBJECT_DOMAIN @ h) sig"
    by blast
  note b = unsigned_bytes [OF f(3) assms]
  have n: "unat (of_nat (length payload) :: u32) = length payload"
    using coordinates_validate_small [OF b(14)] by (simp add: unat_of_nat_small)
  have k: "valid_public_key c (gc_generation_signing_key (cert_claims cert))"
    using f(1) by (auto simp: certificate_verify_def certificate_claims_validate_def res_simps split: if_splits)
  have "object_coordinates obj = Inr oc"
    unfolding f(5) using f(4) by (intro object_coordinates_encoded [OF f(3) assms]) simp
  moreover have "take 4 (drop 34 h) = to_be_bytes (of_nat (length payload) :: u32)" "drop 38 h = sha256 payload"
    using b(1) b(12,13) [of "[]"] by (simp_all add: slice_def)
  ultimately show ?l
    using f(1,2,4,6) b(1) k by (simp add: object_verify_def f(5) lens n slice_def Let_def assms)
qed

end
