(* ===== verification/Demo_Crypto.thy ===== *)
theory Demo_Crypto
  imports Tokens
begin

text \<open>
  An instance of the \<open>crypto\<close> parameter that satisfies \<open>crypto_ok\<close>, so that the properties which
  assume it can be applied: base64url without padding as RFC 4648 defines it, and a signature that
  is only good enough for the laws (the key and a checksum of the message).
\<close>

section \<open>base64url without padding\<close>

definition sextet_char :: "nat \<Rightarrow> char" where
  "sextet_char n = ''ABCDEFGHIJKLMNOPQRSTUVWXYZabcdefghijklmnopqrstuvwxyz0123456789-_'' ! n"

definition char_sextet :: "char \<Rightarrow> nat option" where
  "char_sextet c = (case filter (\<lambda>n. sextet_char n = c) [0..<64] of [] \<Rightarrow> None | n # _ \<Rightarrow> Some n)"

fun sextets :: "nat list \<Rightarrow> nat list" where
  "sextets [] = []"
| "sextets [a] = [a div 4, a mod 4 * 16]"
| "sextets [a, b] = [a div 4, a mod 4 * 16 + b div 16, b mod 16 * 4]"
| "sextets (a # b # c # rest) =
     [a div 4, a mod 4 * 16 + b div 16, b mod 16 * 4 + c div 64, c mod 64] @ sextets rest"

fun octets :: "nat list \<Rightarrow> nat list option" where
  "octets [] = Some []"
| "octets [p] = None"
| "octets [p, q] = (if q mod 16 = 0 then Some [p * 4 + q div 16] else None)"
| "octets [p, q, r] = (if r mod 4 = 0 then Some [p * 4 + q div 16, q mod 16 * 16 + r div 4] else None)"
| "octets (p # q # r # s # rest) =
     map_option (\<lambda>bs. [p * 4 + q div 16, q mod 16 * 16 + r div 4, r mod 4 * 64 + s] @ bs) (octets rest)"

definition b64_encode :: "bytes \<Rightarrow> string" where
  "b64_encode bs = map sextet_char (sextets (map unat bs))"

definition b64_decode :: "string \<Rightarrow> bytes option" where
  "b64_decode s =
     (let ns = map char_sextet s in
      if None \<in> set ns then None else map_option (map of_nat) (octets (map the ns)))"

lemma char_sextet_char: "\<forall>n \<in> set [0..<64]. char_sextet (sextet_char n) = Some n \<and> token_char (sextet_char n)"
  by code_simp

lemma sextets_small: "\<forall>b \<in> set bs. b < 256 \<Longrightarrow> \<forall>n \<in> set (sextets bs). n < 64"
  by (induction bs rule: sextets.induct) auto

lemma octets_sextets: "\<forall>b \<in> set bs. b < 256 \<Longrightarrow> octets (sextets bs) = Some bs"
proof (induction bs rule: sextets.induct)
  case (3 a b)
  then have "b div 16 < 16" by auto
  then show ?case by simp
next
  case (4 a b c rest)
  then have "b div 16 < 16" "c div 64 < 4" by auto
  with 4 show ?case by simp
qed simp_all

lemma length_sextets: "3 * length (sextets bs) \<le> 4 * length bs + 2"
  by (induction bs rule: sextets.induct) auto

lemma b64_laws:
  "b64_decode (b64_encode bs) = Some bs" "length (b64_encode bs) \<le> (4 * length bs + 2) div 3"
  "list_all token_char (b64_encode bs)"
proof -
  have bytes: "\<forall>b \<in> set (map unat bs). b < 256"
    using unat_lt2p [where 'w = 8] by auto
  then have small: "n \<in> set (sextets (map unat bs)) \<Longrightarrow> n \<in> set [0..<64]" for n
    using sextets_small [OF bytes] by auto
  then have m: "map char_sextet (b64_encode bs) = map Some (sextets (map unat bs))"
    using char_sextet_char by (simp add: b64_encode_def)
  have "map (the \<circ> Some) (sextets (map unat bs)) = sextets (map unat bs)"
    by (simp add: comp_def)
  then show "b64_decode (b64_encode bs) = Some bs"
    unfolding b64_decode_def m Let_def using octets_sextets [OF bytes] by (auto simp: comp_def)
  show "length (b64_encode bs) \<le> (4 * length bs + 2) div 3"
    using length_sextets [of "map unat bs"] by (simp add: b64_encode_def)
  show "list_all token_char (b64_encode bs)"
    using small char_sextet_char by (auto simp: b64_encode_def list_all_iff)
qed

section \<open>A keyed checksum\<close>

definition toy_sum :: "bytes \<Rightarrow> u8" where
  "toy_sum m = foldl (\<lambda>h b. 31 * h + b) 7 m"

definition toy_sign :: "bytes \<Rightarrow> bytes \<Rightarrow> bytes" where
  "toy_sign sk m = sk @ replicate 32 (toy_sum m)"

definition toy_crypto :: crypto where
  "toy_crypto = \<lparr>valid_public_key = (\<lambda>k. length k = 32), public_key_of = (\<lambda>sk. sk), sign_with = toy_sign,
     verify_strict = (\<lambda>k m s. s = toy_sign k m), base64url_encode = b64_encode, base64url_decode = b64_decode\<rparr>"

definition toy_digest :: "bytes \<Rightarrow> bytes" where
  "toy_digest m = replicate 32 (toy_sum m)"

lemma toy_crypto_ok: "crypto_ok toy_crypto"
  unfolding crypto_ok_def toy_crypto_def using b64_laws by (simp add: toy_sign_def del: add_2_eq_Suc')

lemma toy_digest_length [simp]: "length (toy_digest m) = 32"
  by (simp add: toy_digest_def)

end
