(* ===== verification/Token_Properties.thy ===== *)
theory Token_Properties
  imports Media_Auth Demo_Crypto
begin

text \<open>
  What the signed tokens and the signed media objects guarantee: tokens are read back as issued and
  have one spelling, a signed statement has one meaning, a capability opens exactly the binding it
  was issued for, and a media object is accepted exactly with the signed coordinates and digest.
\<close>

section \<open>Signed statements determine what was signed\<close>

lemma to_be_bytes_inj:
  "to_be_bytes a = to_be_bytes b \<Longrightarrow> a = (b :: u64)" "to_be_bytes x = to_be_bytes y \<Longrightarrow> x = (y :: u32)"
  by (metis from_to_be_bytes(4)) (metis from_to_be_bytes(3))

lemma grants_eqI: "grant_bits a = grant_bits b \<Longrightarrow> a = b"
  by (cases a; cases b) simp

lemma invitation_claims_inj:
  assumes t: "invitation_claims_typed a" "invitation_claims_typed b"
    and e: "invitation_claims_encode a = invitation_claims_encode b"
  shows "a = b"
proof -
  let ?s = "replicate 64 0 :: bytes"
  have s: "length ?s = 64" by simp
  note l = invitation_bytes [OF t(1) s] and r = invitation_bytes [OF t(2) s]
  have "ic_host_node_id a = ic_host_node_id b" "ic_intended_peer_id a = ic_intended_peer_id b"
    "ic_nonce a = ic_nonce b" "grant_bits (ic_grants a) = grant_bits (ic_grants b)"
    "to_be_bytes (ic_issued_at_unix a) = to_be_bytes (ic_issued_at_unix b)"
    "to_be_bytes (ic_expires_at_unix a) = to_be_bytes (ic_expires_at_unix b)"
    "to_be_bytes (ic_enrollment_epoch a) = to_be_bytes (ic_enrollment_epoch b)"
    using l(4-10) r(4-10) unfolding e by simp_all
  then show ?thesis
    using grants_eqI by (auto dest!: to_be_bytes_inj intro!: invitation_claims.equality)
qed

lemma subscription_claims_inj:
  assumes t: "subscription_claims_typed a" "subscription_claims_typed b"
    and e: "subscription_claims_encode a = subscription_claims_encode b"
  shows "a = b"
proof -
  let ?s = "replicate 64 0 :: bytes"
  have s: "length ?s = 64" by simp
  note l = subscription_bytes [OF t(1) s] and r = subscription_bytes [OF t(2) s]
  have "sc_host_node_id a = sc_host_node_id b" "sc_subscriber_endpoint_id a = sc_subscriber_endpoint_id b"
    "sc_nonce a = sc_nonce b" "sc_relay_hops a = sc_relay_hops b"
    "track_bits (sc_tracks a) = track_bits (sc_tracks b)"
    "to_be_bytes (sc_media_generation_id a) = to_be_bytes (sc_media_generation_id b)"
    "to_be_bytes (sc_authorization_revision a) = to_be_bytes (sc_authorization_revision b)"
    "to_be_bytes (sc_issued_at_unix a) = to_be_bytes (sc_issued_at_unix b)"
    "to_be_bytes (sc_expires_at_unix a) = to_be_bytes (sc_expires_at_unix b)"
    using l(4-12) r(4-12) unfolding e by simp_all
  then show ?thesis
    by (auto dest!: to_be_bytes_inj intro!: subscription_claims.equality subscription_tracks.expand)
qed

lemma certificate_claims_inj:
  assumes t: "certificate_claims_typed a" "certificate_claims_typed b"
    and e: "certificate_claims_encode a = certificate_claims_encode b"
  shows "a = b"
proof -
  let ?s = "replicate 64 0 :: bytes"
  have s: "length ?s = 64" by simp
  note l = certificate_bytes [OF t(1) s] and r = certificate_bytes [OF t(2) s]
  have "gc_host_node_id a = gc_host_node_id b" "gc_generation_signing_key a = gc_generation_signing_key b"
    "to_be_bytes (gc_generation_id a) = to_be_bytes (gc_generation_id b)"
    "to_be_bytes (gc_issued_at_unix a) = to_be_bytes (gc_issued_at_unix b)"
    "to_be_bytes (gc_expires_at_unix a) = to_be_bytes (gc_expires_at_unix b)"
    using l(6-10) r(6-10) unfolding e by simp_all
  moreover have "gc_authentication_mode a = gc_authentication_mode b"
    by (metis media_auth_mode.exhaust)
  ultimately show ?thesis
    by (auto dest!: to_be_bytes_inj intro!: certificate_claims.equality)
qed

lemma object_header_inj:
  assumes "encode_unsigned_object_header a n d = Inr h" "encode_unsigned_object_header b m e = Inr h"
    "length d = 32" "length e = 32"
  shows "a = b \<and> n = m \<and> d = e"
proof -
  note l = unsigned_bytes [OF assms(1,3)] and r = unsigned_bytes [OF assms(2,4)]
  have "a = b"
    using object_coordinates_encoded [OF assms(1,3), of "replicate 64 0"]
      object_coordinates_encoded [OF assms(2,4), of "replicate 64 0"] by simp
  moreover have "unat (of_nat n :: u32) = n" "unat (of_nat m :: u32) = m"
    using coordinates_validate_small [OF l(14)] coordinates_validate_small [OF r(14)]
    by (simp_all add: unat_of_nat_small)
  moreover have "(of_nat n :: u32) = of_nat m"
    using l(12) [of "[]"] r(12) [of "[]"] by (metis from_to_be_bytes(3))
  ultimately show ?thesis using l(13) [of "[]"] r(13) [of "[]"] by metis
qed

text \<open>
  The four signing domains differ within their first bytes, so no message of one is a message of
  another.
\<close>

lemma domains_differ:
  "take 16 INVITATION_SIGNATURE_DOMAIN \<noteq> take 16 SUBSCRIPTION_SIGNATURE_DOMAIN"
  "take 16 INVITATION_SIGNATURE_DOMAIN \<noteq> take 16 CERTIFICATE_DOMAIN"
  "take 16 SUBSCRIPTION_SIGNATURE_DOMAIN \<noteq> take 16 CERTIFICATE_DOMAIN"
  "take 22 OBJECT_DOMAIN \<noteq> take 22 CERTIFICATE_DOMAIN"
  "take 16 OBJECT_DOMAIN \<noteq> take 16 INVITATION_SIGNATURE_DOMAIN"
  "take 16 OBJECT_DOMAIN \<noteq> take 16 SUBSCRIPTION_SIGNATURE_DOMAIN"
  by code_simp+

lemma domain_lengths:
  "22 \<le> length INVITATION_SIGNATURE_DOMAIN" "22 \<le> length SUBSCRIPTION_SIGNATURE_DOMAIN"
  "22 \<le> length CERTIFICATE_DOMAIN" "22 \<le> length OBJECT_DOMAIN"
  by code_simp+

lemma prefix_differ: "take n d \<noteq> take n e \<Longrightarrow> n \<le> length d \<Longrightarrow> n \<le> length e \<Longrightarrow> d @ x \<noteq> e @ y"
  by (metis append_eq_append_conv_if take_append append_take_drop_id diff_is_0_eq' take_0 append_Nil2)

lemma domains_separate:
  "INVITATION_SIGNATURE_DOMAIN @ x \<noteq> SUBSCRIPTION_SIGNATURE_DOMAIN @ y"
  "INVITATION_SIGNATURE_DOMAIN @ x \<noteq> CERTIFICATE_DOMAIN @ y"
  "SUBSCRIPTION_SIGNATURE_DOMAIN @ x \<noteq> CERTIFICATE_DOMAIN @ y"
  "OBJECT_DOMAIN @ x \<noteq> CERTIFICATE_DOMAIN @ y"
  "OBJECT_DOMAIN @ x \<noteq> INVITATION_SIGNATURE_DOMAIN @ y"
  "OBJECT_DOMAIN @ x \<noteq> SUBSCRIPTION_SIGNATURE_DOMAIN @ y"
  by (rule domains_differ [THEN prefix_differ]; use domain_lengths in linarith)+

text \<open>
  C15: A signed statement has one meaning. The messages signed for invitations, subscription
  capabilities, generation certificates and media objects are never equal across the four kinds, and
  within a kind equal messages have equal claims (for an object: equal coordinates, payload length
  and digest). So no signature can be reused for another statement or another purpose.
\<close>

theorem signed_statements_unambiguous:
  assumes "invitation_claims_typed i" "invitation_claims_typed i'" "subscription_claims_typed s"
    "subscription_claims_typed s'" "certificate_claims_typed g" "certificate_claims_typed g'"
    "encode_unsigned_object_header oc n d = Inr h" "encode_unsigned_object_header oc' n' d' = Inr h'"
    "length d = 32" "length d' = 32"
  shows "distinct [invitation_signing_message i, subscription_signing_message s,
        certificate_signing_message g, OBJECT_DOMAIN @ h] \<and>
      (invitation_signing_message i = invitation_signing_message i') = (i = i') \<and>
      (subscription_signing_message s = subscription_signing_message s') = (s = s') \<and>
      (certificate_signing_message g = certificate_signing_message g') = (g = g') \<and>
      (OBJECT_DOMAIN @ h = OBJECT_DOMAIN @ h') = (oc = oc' \<and> n = n' \<and> d = d')"
proof (intro conjI)
  show "distinct [invitation_signing_message i, subscription_signing_message s,
      certificate_signing_message g, OBJECT_DOMAIN @ h]"
    unfolding invitation_signing_message_def subscription_signing_message_def certificate_signing_message_def
    using domains_separate domains_separate(4,5,6) [symmetric] by simp
  show "(invitation_signing_message i = invitation_signing_message i') = (i = i')"
    unfolding invitation_signing_message_def using invitation_claims_inj assms(1,2) by auto
  show "(subscription_signing_message s = subscription_signing_message s') = (s = s')"
    unfolding subscription_signing_message_def using subscription_claims_inj assms(3,4) by auto
  show "(certificate_signing_message g = certificate_signing_message g') = (g = g')"
    unfolding certificate_signing_message_def using certificate_claims_inj assms(5,6) by auto
  show "(OBJECT_DOMAIN @ h = OBJECT_DOMAIN @ h') = (oc = oc' \<and> n = n' \<and> d = d')"
    using object_header_inj [of oc n d h oc' n' d'] assms(7-10) by auto
qed

definition demo_key :: bytes where "demo_key = replicate 32 7"

definition demo_invitation :: "u64 \<Rightarrow> invitation_claims" where
  "demo_invitation epoch = \<lparr>ic_host_node_id = demo_key, ic_intended_peer_id = replicate 32 9, ic_issued_at_unix = 1000,
     ic_expires_at_unix = 1300, ic_enrollment_epoch = epoch, ic_nonce = replicate 32 1, ic_grants = GRANT_VIEW\<rparr>"

definition demo_subscription :: subscription_claims where
  "demo_subscription = \<lparr>sc_host_node_id = demo_key, sc_media_generation_id = 4, sc_subscriber_endpoint_id = replicate 32 9,
     sc_tracks = TRACK_ALL, sc_authorization_revision = 2, sc_issued_at_unix = 1000, sc_expires_at_unix = 1300,
     sc_nonce = replicate 32 1, sc_relay_hops = 1\<rparr>"

definition demo_certificate :: certificate_claims where
  "demo_certificate = \<lparr>gc_host_node_id = demo_key, gc_generation_id = 4, gc_generation_signing_key = replicate 32 5,
     gc_issued_at_unix = 1000, gc_expires_at_unix = 1300, gc_authentication_mode = Ed25519\<rparr>"

definition demo_coordinates :: media_object_coordinates where
  "demo_coordinates = \<lparr>oc_generation_id = 4, oc_track = VideoH264, oc_group_id = 11, oc_object_id = 0, oc_flags = 1\<rparr>"

lemma demo_typed: "invitation_claims_typed (demo_invitation e)" "subscription_claims_typed demo_subscription"
    "certificate_claims_typed demo_certificate"
  by (simp_all add: invitation_claims_typed_def demo_invitation_def demo_key_def subscription_claims_typed_def
      demo_subscription_def certificate_claims_typed_def demo_certificate_def)

lemma demo_coordinates_ok: "0 < n \<Longrightarrow> n \<le> 1000 \<Longrightarrow> coordinates_validate demo_coordinates n = Inr ()"
  by (simp add: coordinates_validate_def demo_coordinates_def MAX_AUTHENTICATED_PAYLOAD_LEN_def MAX_MEDIA_PAYLOAD_LEN_def)

theorem signed_statements_unambiguous_witness:
  "invitation_signing_message (demo_invitation 1) \<noteq> invitation_signing_message (demo_invitation 2)"
proof -
  obtain h where "encode_unsigned_object_header demo_coordinates 5 (replicate 32 0) = Inr h"
    using demo_coordinates_ok [of 5] by (simp add: encode_unsigned_object_header_def)
  from signed_statements_unambiguous [OF demo_typed(1) [of 1] demo_typed(1) [of 2] demo_typed(2) demo_typed(2)
      demo_typed(3) demo_typed(3) this this]
  show ?thesis by (simp add: demo_invitation_def)
qed

section \<open>Tokens\<close>

text \<open>
  C16: Tokens are read back as issued: for claims that the host can issue, the text of an invitation,
  a subscription capability or a generation certificate decodes to exactly what was issued.
  Conversely a text that a decoder accepts is the encoding of what it returns (no second spelling),
  within the length limit, and its signature has been verified.
\<close>

theorem tokens_roundtrip_canonically:
  assumes "crypto_ok c" "length sk = 32"
  shows "(invitation_claims_typed icl \<and> invitation_issue c icl sk = Inr si \<longrightarrow>
      invitation_decode c (invitation_encode c si) = Inr si) \<and>
    (subscription_claims_typed scl \<and> subscription_issue c scl sk = Inr cap \<longrightarrow>
      subscription_decode c (subscription_encode c cap) = Inr cap) \<and>
    (certificate_claims_typed gcl \<and> certificate_issue c gcl sk = Inr cert \<longrightarrow>
      certificate_decode c (certificate_encode c cert) = Inr cert) \<and>
    (invitation_decode c t = Inr si' \<longrightarrow> invitation_encode c si' = t \<and> invitation_verify c si' = Inr () \<and>
      length t \<le> MAX_INVITATION_TOKEN_LEN) \<and>
    (subscription_decode c t = Inr cap' \<longrightarrow> subscription_encode c cap' = t \<and>
      subscription_verify c cap' = Inr () \<and> length t \<le> MAX_SUBSCRIPTION_CAPABILITY_TOKEN_LEN) \<and>
    (certificate_decode c t = Inr cert' \<longrightarrow> certificate_encode c cert' = t \<and>
      certificate_verify c cert' = Inr () \<and> length t \<le> MAX_MEDIA_GENERATION_CERTIFICATE_TOKEN_LEN)"
  using invitation_issue_verified [OF assms] subscription_issue_verified [OF assms] certificate_issue_verified [OF assms]
    invitation_decode_encode [OF assms(1)] subscription_decode_encode [OF assms(1)]
    certificate_decode_encode [OF assms(1)] invitation_decode_Inr [of c t si'] subscription_decode_Inr [of c t cap']
    certificate_decode_Inr [of c t cert']
  by auto

lemma demo_certificate_issue:
  "\<exists>cert. certificate_issue toy_crypto demo_certificate demo_key = Inr cert"
  by (simp add: certificate_issue_def certificate_claims_validate_def demo_certificate_def toy_crypto_def demo_key_def
      MAX_GENERATION_CERTIFICATE_TTL_SECS_def)

theorem tokens_roundtrip_canonically_witness:
  "\<exists>cert. certificate_issue toy_crypto demo_certificate demo_key = Inr cert \<and>
     certificate_decode toy_crypto (certificate_encode toy_crypto cert) = Inr cert"
  using demo_certificate_issue demo_typed(3)
    tokens_roundtrip_canonically [OF toy_crypto_ok, of demo_key] by (auto simp: demo_key_def)

text \<open>
  C17: A capability the host has issued passes \<open>verify_binding\<close> for exactly one host, media
  generation, subscriber and authorization revision, for tracks it contains, and at the times of its
  lifetime, which is at most 15 minutes; a generation certificate for exactly one host and
  generation and at most 24 hours.
\<close>

theorem issued_grants_open_exactly_their_binding:
  assumes "crypto_ok c" "length sk = 32"
    and "subscription_issue c scl sk = Inr cap" "certificate_issue c gcl sk = Inr cert"
  shows "(verify_binding c cap host gen subscriber tracks revision now = Inr () \<longleftrightarrow>
      host = sc_host_node_id scl \<and> gen = sc_media_generation_id scl \<and>
      subscriber = sc_subscriber_endpoint_id scl \<and> tracks_contains (sc_tracks scl) tracks \<and>
      revision = sc_authorization_revision scl \<and> sc_issued_at_unix scl \<le> now \<and> now \<le> sc_expires_at_unix scl) \<and>
    unat (sc_expires_at_unix scl) - unat (sc_issued_at_unix scl) \<le> 900 \<and>
    (certificate_verify_binding c cert host gen now = Inr () \<longleftrightarrow>
      host = gc_host_node_id gcl \<and> gen = gc_generation_id gcl \<and>
      gc_issued_at_unix gcl \<le> now \<and> now \<le> gc_expires_at_unix gcl) \<and>
    unat (gc_expires_at_unix gcl) - unat (gc_issued_at_unix gcl) \<le> 86400"
proof -
  note s = subscription_issue_verified [OF assms(1-3)] and g = certificate_issue_verified [OF assms(1,2,4)]
  have "sc_issued_at_unix scl \<le> sc_expires_at_unix scl" "sc_expires_at_unix scl - sc_issued_at_unix scl \<le> 900"
    "gc_issued_at_unix gcl \<le> gc_expires_at_unix gcl" "gc_expires_at_unix gcl - gc_issued_at_unix gcl \<le> 86400"
    using s(4) g(4) by (auto simp: subscription_claims_validate_def certificate_claims_validate_def res_simps
        MAX_SUBSCRIPTION_TTL_SECS_def MAX_GENERATION_CERTIFICATE_TTL_SECS_def split: if_splits)
  then have "unat (sc_expires_at_unix scl) - unat (sc_issued_at_unix scl) \<le> 900"
    "unat (gc_expires_at_unix gcl) - unat (gc_issued_at_unix gcl) \<le> 86400"
    by (simp_all add: unat_sub [symmetric] word_le_nat_alt)
  then show ?thesis
    using s(1) g(1) unfolding verify_binding_def certificate_verify_binding_def Let_def s(2) g(2)
    by (auto simp: not_le not_less)
qed

lemma demo_subscription_issue: "\<exists>cap. subscription_issue toy_crypto demo_subscription demo_key = Inr cap"
  by (simp add: subscription_issue_def subscription_claims_validate_def demo_subscription_def toy_crypto_def demo_key_def
      MAX_SUBSCRIPTION_TTL_SECS_def TRACK_ALL_def tracks_new_def)

theorem issued_grants_open_exactly_their_binding_witness:
  "\<exists>cap. subscription_issue toy_crypto demo_subscription demo_key = Inr cap \<and>
     verify_binding toy_crypto cap demo_key 4 (replicate 32 9) TRACK_AUDIO_OPUS 2 1200 = Inr () \<and>
     verify_binding toy_crypto cap demo_key 5 (replicate 32 9) TRACK_AUDIO_OPUS 2 1200 \<noteq> Inr ()"
proof -
  obtain cap cert where i: "subscription_issue toy_crypto demo_subscription demo_key = Inr cap"
    "certificate_issue toy_crypto demo_certificate demo_key = Inr cert"
    using demo_subscription_issue demo_certificate_issue by blast
  have "length demo_key = 32" by (simp add: demo_key_def)
  from issued_grants_open_exactly_their_binding [OF toy_crypto_ok this i] i(1) show ?thesis
    by (auto simp: demo_subscription_def tracks_contains_def TRACK_ALL_def TRACK_AUDIO_OPUS_def)
qed

section \<open>Media objects\<close>

lemma certify_Inr:
  assumes "crypto_ok c" "length hsk = 32" "certify c gsk host hsk gen issued expires = Inr cert"
  shows "certificate_verify c cert = Inr ()" "gc_generation_id (cert_claims cert) = gen"
    "gc_generation_signing_key (cert_claims cert) = public_key_of c gsk"
  using assms(3) certificate_issue_verified(1,2) [OF assms(1,2)]
  by (auto simp: certify_def certificate_claims_new_def Let_def res_simps)

lemma authenticate_Inr:
  assumes "crypto_ok c" "length gsk = 32" "authenticate c sha256 gsk oc payload = Inr obj"
  obtains h sig where "encode_unsigned_object_header oc (length payload) (sha256 payload) = Inr h"
    "obj = h @ sig @ payload" "length sig = 64" "verify_strict c (public_key_of c gsk) (OBJECT_DOMAIN @ h) sig"
  using assms(3) crypto_ok_sign [OF assms(1,2)] by (auto simp: authenticate_def res_simps)

text \<open>
  C18: A media object is accepted exactly when it is a header, a signature and a payload such that the
  header encodes the delivery coordinates the receiver expects, the length and the digest of the
  payload, the signature is the generation key's over that header, and the certificate of the key is
  signed by the host for that generation. Nothing else is accepted and nothing valid is refused.
\<close>

theorem media_object_accepted_exactly_as_signed:
  assumes "\<And>b. length (sha256 b) = 32"
  shows "object_verify c sha256 obj cert oc = Inr payload \<longleftrightarrow>
    certificate_verify c cert = Inr () \<and> oc_generation_id oc = gc_generation_id (cert_claims cert) \<and>
    (\<exists>h sig. encode_unsigned_object_header oc (length payload) (sha256 payload) = Inr h \<and> length sig = 64 \<and>
       obj = h @ sig @ payload \<and>
       verify_strict c (gc_generation_signing_key (cert_claims cert)) (OBJECT_DOMAIN @ h) sig)"
  by (rule object_verify_iff [OF assms])

text \<open>
  C19: From the generation key to the viewer: what the host authenticates under a certified key is
  accepted under its coordinates and yields the payload unchanged; the same object is refused under
  any other coordinates (another track, group, object, flags or generation).
\<close>

theorem authenticated_media_end_to_end:
  assumes c: "crypto_ok c" "length gsk = 32" "length hsk = 32" and d: "\<And>b. length (sha256 b) = 32"
    and cert: "certify c gsk host hsk gen issued expires = Inr cert"
    and obj: "authenticate c sha256 gsk oc payload = Inr obj"
  shows "object_verify c sha256 obj cert oc' = Inr p' \<longleftrightarrow> p' = payload \<and> oc' = oc \<and> oc_generation_id oc = gen"
proof -
  obtain h sig where h: "encode_unsigned_object_header oc (length payload) (sha256 payload) = Inr h"
    "obj = h @ sig @ payload" "length sig = 64" "verify_strict c (public_key_of c gsk) (OBJECT_DOMAIN @ h) sig"
    using authenticate_Inr [OF c(1,2) obj] .
  note k = certify_Inr [OF c(1,3) cert]
  have uniq: "h' = h \<and> p' = payload" if "encode_unsigned_object_header oc' (length p') (sha256 p') = Inr h'"
    "length sig' = 64" "obj = h' @ sig' @ p'" for h' sig'
    using that h unsigned_bytes(1) [OF h(1) d] unsigned_bytes(1) [OF that(1) d] by simp
  show ?thesis
  proof
    assume "object_verify c sha256 obj cert oc' = Inr p'"
    then obtain h' sig' where v: "encode_unsigned_object_header oc' (length p') (sha256 p') = Inr h'"
      "length sig' = 64" "obj = h' @ sig' @ p'" "oc_generation_id oc' = gen"
      using k(2) unfolding object_verify_iff [OF d] by auto
    with uniq [OF v(1-3)] object_header_inj [OF h(1) _ d d] show "p' = payload \<and> oc' = oc \<and> oc_generation_id oc = gen"
      by metis
  next
    assume "p' = payload \<and> oc' = oc \<and> oc_generation_id oc = gen"
    with h k show "object_verify c sha256 obj cert oc' = Inr p'"
      unfolding object_verify_iff [OF d] by auto
  qed
qed

lemma demo_media:
  "\<exists>cert obj. certify toy_crypto (replicate 32 5) demo_key demo_key 4 1000 1300 = Inr cert \<and>
     authenticate toy_crypto toy_digest (replicate 32 5) demo_coordinates [1, 2, 3] = Inr obj"
  using demo_coordinates_ok [of 3, unfolded numeral_3_eq_3]
  by (auto simp: certify_def certificate_claims_new_def certificate_issue_def certificate_claims_validate_def
      toy_crypto_def demo_key_def MAX_GENERATION_CERTIFICATE_TTL_SECS_def authenticate_def
      encode_unsigned_object_header_def)

theorem authenticated_media_end_to_end_witness:
  "\<exists>cert obj. object_verify toy_crypto toy_digest obj cert demo_coordinates = Inr [1, 2, 3] \<and>
     object_verify toy_crypto toy_digest obj cert (demo_coordinates\<lparr>oc_group_id := 12\<rparr>) \<noteq> Inr [1, 2, 3]"
proof -
  obtain cert obj where o: "certify toy_crypto (replicate 32 5) demo_key demo_key 4 1000 1300 = Inr cert"
    "authenticate toy_crypto toy_digest (replicate 32 5) demo_coordinates [1, 2, 3] = Inr obj"
    using demo_media by blast
  have l: "length (replicate 32 (5 :: u8)) = 32" "length demo_key = 32" by (simp_all add: demo_key_def)
  note e = authenticated_media_end_to_end [OF toy_crypto_ok l toy_digest_length o]
  show ?thesis
    by (intro exI [of _ cert] exI [of _ obj]) (simp add: e demo_coordinates_def)
qed

theorem media_object_accepted_exactly_as_signed_witness:
  "\<exists>cert obj. object_verify toy_crypto toy_digest obj cert demo_coordinates = Inr [1, 2, 3]"
proof -
  obtain cert obj where o: "certify toy_crypto (replicate 32 5) demo_key demo_key 4 1000 1300 = Inr cert"
    "authenticate toy_crypto toy_digest (replicate 32 5) demo_coordinates [1, 2, 3] = Inr obj"
    using demo_media by blast
  have l: "length (replicate 32 (5 :: u8)) = 32" "length demo_key = 32" by (simp_all add: demo_key_def)
  obtain h sig where "encode_unsigned_object_header demo_coordinates (length [1, 2, 3 :: u8]) (toy_digest [1, 2, 3]) = Inr h"
    "obj = h @ sig @ [1, 2, 3]" "length sig = 64"
    "verify_strict toy_crypto (public_key_of toy_crypto (replicate 32 5)) (OBJECT_DOMAIN @ h) sig"
    using authenticate_Inr [OF toy_crypto_ok l(1) o(2)] .
  moreover have "oc_generation_id demo_coordinates = 4" by (simp add: demo_coordinates_def)
  ultimately have "object_verify toy_crypto toy_digest obj cert demo_coordinates = Inr [1, 2, 3]"
    unfolding media_object_accepted_exactly_as_signed [of toy_digest, OF toy_digest_length]
    using certify_Inr [OF toy_crypto_ok l(2) o(1)] by auto
  then show ?thesis by blast
qed

end
