(* ===== verification/Bitrate_Controller.thy ===== *)
theory Bitrate_Controller
  imports Rate_Window Feedback_Codec
begin

text \<open>
  The controller that turns one viewer's feedback reports into a target bitrate
  (\<open>ShadowBitrateController\<close> in \<open>crates/sigil-host/src/server/adaptive.rs\<close>): a report and a
  telemetry snapshot are classified into a severity with reasons, and the severity moves the target
  down by a quarter or a fifth, or up by a small step after enough clean windows.
\<close>

section \<open>Signals\<close>

definition ADAPTIVE_BITRATE_FLOOR_KBPS :: u32 where "ADAPTIVE_BITRATE_FLOOR_KBPS = 1000"
definition ADAPTIVE_BITRATE_QUANTUM_KBPS :: u32 where "ADAPTIVE_BITRATE_QUANTUM_KBPS = 250"
definition ADAPTIVE_BITRATE_CLEAN_WINDOWS :: u8 where "ADAPTIVE_BITRATE_CLEAN_WINDOWS = 10"
definition ADAPTIVE_BITRATE_MODERATE_WINDOWS :: u8 where "ADAPTIVE_BITRATE_MODERATE_WINDOWS = 2"
definition ADAPTIVE_BITRATE_COOLDOWN_WINDOWS :: u8 where "ADAPTIVE_BITRATE_COOLDOWN_WINDOWS = 10"
definition FEEDBACK_FRESH_INTERVAL_MIN_MS :: u16 where "FEEDBACK_FRESH_INTERVAL_MIN_MS = 750"
definition FEEDBACK_FRESH_INTERVAL_MAX_MS :: u16 where "FEEDBACK_FRESH_INTERVAL_MAX_MS = 1500"
definition FEEDBACK_FRESH_ARRIVAL_GAP_MIN :: duration where "FEEDBACK_FRESH_ARRIVAL_GAP_MIN = from_millis 750"
definition FEEDBACK_STALE_ARRIVAL_GAP :: duration where "FEEDBACK_STALE_ARRIVAL_GAP = from_millis 2500"

datatype feedback_severity = FS_Clean | FS_InsufficientEvidence | FS_Moderate | FS_Severe | FS_Stale

record media_telemetry_snapshot =
  mt_scheduler_cancellations :: u64
  mt_send_failures :: u64
  mt_selected_path_rtt_micros :: u64
  mt_selected_path_lost_packets :: u64
  mt_selected_path_congestion_events :: u64

definition saturating_mul :: "'w::len word \<Rightarrow> 'w word \<Rightarrow> 'w word" where
  "saturating_mul a b = (if unat a * unat b < 2 ^ LENGTH('w) then a * b else - 1)"

definition clamp :: "'w::len word \<Rightarrow> 'w word \<Rightarrow> 'w word \<Rightarrow> 'w word" where
  "clamp x lo hi = (if x < lo then lo else if hi < x then hi else x)"

definition quantize_down :: "u32 \<Rightarrow> u32" where
  "quantize_down kbps = kbps div ADAPTIVE_BITRATE_QUANTUM_KBPS * ADAPTIVE_BITRATE_QUANTUM_KBPS"

definition queue_ratio_at_least :: "u8 \<Rightarrow> u8 \<Rightarrow> u16 \<Rightarrow> u16 \<Rightarrow> bool" where
  "queue_ratio_at_least depth capacity numerator denominator \<longleftrightarrow>
     0 < capacity \<and> saturating_mul (ucast capacity) numerator \<le> saturating_mul (ucast depth) denominator"

type_synonym signals = "feedback_severity \<times> adaptive_bitrate_reasons"

definition add_feedback_signal :: "feedback_severity \<Rightarrow> adaptive_bitrate_reasons \<Rightarrow> signals \<Rightarrow> signals" where
  "add_feedback_signal signal reason sr = (case sr of (severity, reasons) \<Rightarrow>
     (if signal = FS_Severe \<or> (severity = FS_Clean \<and> signal = FS_Moderate) then signal else severity,
      reasons_union reasons reason))"

text \<open>Two thresholds for one reason: the severe one wins, then the moderate one, else nothing.\<close>

definition graded_signal :: "bool \<Rightarrow> bool \<Rightarrow> adaptive_bitrate_reasons \<Rightarrow> signals \<Rightarrow> signals" where
  "graded_signal severe moderate reason sr =
     (if severe then add_feedback_signal FS_Severe reason sr
      else if moderate then add_feedback_signal FS_Moderate reason sr else sr)"

section \<open>The controller\<close>

record bitrate_controller =
  bc_floor_kbps :: u32
  bc_ceiling_kbps :: u32
  bc_target_kbps :: u32
  bc_next_decision_id :: u64
  bc_last_report_id :: "u64 option"
  bc_last_report_received_at :: "instant option"
  bc_previous_telemetry :: media_telemetry_snapshot
  bc_baseline_rtt_micros :: "u64 option"
  bc_last_sequence :: "u64 option"
  bc_moderate_windows :: u8
  bc_clean_windows :: u8
  bc_cooldown_windows :: u8

record bitrate_evaluation =
  be_decision :: adaptive_bitrate_decision
  be_pressure_severity :: feedback_severity
  be_clean_recovery_evidence :: bool
  be_fresh :: bool

definition bitrate_controller_new :: "u32 \<Rightarrow> media_telemetry_snapshot \<Rightarrow> bitrate_controller" where
  "bitrate_controller_new configured telemetry =
     (let ceiling = max (quantize_down configured) ADAPTIVE_BITRATE_FLOOR_KBPS in
      \<lparr>bc_floor_kbps = ADAPTIVE_BITRATE_FLOOR_KBPS, bc_ceiling_kbps = ceiling, bc_target_kbps = ceiling,
       bc_next_decision_id = 1, bc_last_report_id = None, bc_last_report_received_at = None,
       bc_previous_telemetry = telemetry, bc_baseline_rtt_micros = None, bc_last_sequence = None,
       bc_moderate_windows = 0, bc_clean_windows = 0, bc_cooldown_windows = 0\<rparr>)"

definition report_stale :: "bitrate_controller \<Rightarrow> media_feedback_report \<Rightarrow> instant \<Rightarrow> bool" where
  "report_stale bc report received_at \<longleftrightarrow>
     \<not> (FEEDBACK_FRESH_INTERVAL_MIN_MS \<le> fr_interval_ms report \<and> fr_interval_ms report \<le> FEEDBACK_FRESH_INTERVAL_MAX_MS)
     \<or> bc_last_report_received_at bc = None
     \<or> (case bc_last_report_received_at bc of None \<Rightarrow> False
        | Some previous \<Rightarrow> (let gap = received_at - previous in
            \<not> (FEEDBACK_FRESH_ARRIVAL_GAP_MIN \<le> gap \<and> gap \<le> FEEDBACK_STALE_ARRIVAL_GAP)))"

text \<open>What the host itself measured: losses and cancellations since the previous snapshot.\<close>

definition host_signals :: "media_telemetry_snapshot \<Rightarrow> media_telemetry_snapshot \<Rightarrow> signals" where
  "host_signals previous telemetry =
     (let lost_delta = saturating_sub (mt_selected_path_lost_packets telemetry) (mt_selected_path_lost_packets previous);
          congestion_delta = saturating_sub (mt_selected_path_congestion_events telemetry)
            (mt_selected_path_congestion_events previous);
          cancellation_delta = saturating_sub (mt_scheduler_cancellations telemetry) (mt_scheduler_cancellations previous);
          failure_delta = saturating_sub (mt_send_failures telemetry) (mt_send_failures previous)
      in graded_signal (2 \<le> cancellation_delta \<or> 0 < failure_delta) (0 < cancellation_delta) REASON_SENDER_BACKPRESSURE
        (graded_signal (0 < failure_delta \<or> 0 < lost_delta \<or> 2 \<le> cancellation_delta)
           (0 < cancellation_delta \<or> 0 < congestion_delta) REASON_LOSS_OR_CANCELLATION (FS_Clean, REASON_NONE)))"

text \<open>The smallest round trip seen is the baseline; \<open>rtt_signals\<close> also returns the new baseline.\<close>

definition rtt_signals :: "u64 option \<Rightarrow> u64 \<Rightarrow> signals \<Rightarrow> u64 option \<times> signals" where
  "rtt_signals base rtt sr =
     (if 0 < rtt
      then let baseline = (case base of None \<Rightarrow> rtt | Some b \<Rightarrow> b) in
        if rtt < baseline then (Some rtt, sr)
        else (Some baseline, graded_signal (max (saturating_mul baseline 2) 80000 \<le> rtt)
               (max (saturating_mul baseline 3 div 2) 40000 \<le> rtt) REASON_RTT_INFLATION sr)
      else (base, sr))"

definition any_queue_at_least :: "media_feedback_report \<Rightarrow> u16 \<Rightarrow> u16 \<Rightarrow> bool" where
  "any_queue_at_least report numerator denominator \<longleftrightarrow>
     queue_ratio_at_least (fr_frontend_queue_depth report) (fr_frontend_queue_capacity report) numerator denominator
     \<or> queue_ratio_at_least (fr_decode_queue_depth report) (fr_decode_queue_capacity report) numerator denominator
     \<or> queue_ratio_at_least (fr_presenter_queue_depth report) (fr_presenter_queue_capacity report) numerator denominator"

definition receiver_drops :: "media_feedback_report \<Rightarrow> u32" where
  "receiver_drops report =
     saturating_add (saturating_add (saturating_add (fr_transport_dropped_delta report)
       (fr_frontend_dropped_delta report)) (fr_decoder_dropped_delta report)) (fr_presenter_dropped_delta report)"

definition feedback_flags_contains :: "media_feedback_flags \<Rightarrow> media_feedback_flags \<Rightarrow> bool" where
  "feedback_flags_contains fl flag \<longleftrightarrow> feedback_bits fl AND feedback_bits flag = feedback_bits flag"

definition latency_or_zero :: "u16 option \<Rightarrow> u16" where
  "latency_or_zero l = (case l of None \<Rightarrow> 0 | Some ms \<Rightarrow> ms)"

definition receiver_signals :: "media_feedback_report \<Rightarrow> signals \<Rightarrow> signals" where
  "receiver_signals report sr =
     (let delivery_p95 = latency_or_zero (fr_transport_delivery_p95_ms report);
          decode_p95 = latency_or_zero (fr_decode_p95_ms report);
          presentation_p95 = latency_or_zero (fr_presentation_p95_ms report)
      in graded_signal (200 \<le> delivery_p95 \<or> 100 \<le> decode_p95 \<or> 100 \<le> presentation_p95)
           (100 \<le> delivery_p95 \<or> 50 \<le> decode_p95 \<or> 50 \<le> presentation_p95) REASON_DELIVERY_LATENCY
        (graded_signal (fr_decode_queue_depth report = fr_decode_queue_capacity report \<or> 0 < fr_decoder_dropped_delta report)
           (2 \<le> fr_decode_queue_depth report) REASON_DECODE_BACKLOG
        (graded_signal (feedback_flags_contains (fr_flags report) RESYNC_ACTIVE \<or> any_queue_at_least report 3 4
              \<or> 4 \<le> receiver_drops report)
           (any_queue_at_least report 1 2 \<or> 0 < receiver_drops report) REASON_RECEIVER_QUEUE sr)))"

text \<open>A clean window is evidence only if the sequence moved and all three latencies were measured.\<close>

definition recovery_evidence :: "bitrate_controller \<Rightarrow> media_feedback_report \<Rightarrow> bool" where
  "recovery_evidence bc report \<longleftrightarrow>
     (case (bc_last_sequence bc, fr_last_sequence report) of (Some previous, Some current) \<Rightarrow> previous < current | _ \<Rightarrow> False)
     \<and> fr_transport_delivery_p95_ms report \<noteq> None \<and> fr_decode_p95_ms report \<noteq> None
     \<and> fr_presentation_p95_ms report \<noteq> None"

record classification =
  cl_severity :: feedback_severity
  cl_pressure_severity :: feedback_severity
  cl_reasons :: adaptive_bitrate_reasons
  cl_stale :: bool
  cl_trusted_host_pressure :: bool

definition classify ::
  "bitrate_controller \<Rightarrow> media_feedback_report \<Rightarrow> media_telemetry_snapshot \<Rightarrow> instant \<Rightarrow> bitrate_controller \<times> classification" where
  "classify bc report telemetry received_at =
     (let stale = report_stale bc report received_at;
          (baseline, host) = rtt_signals (bc_baseline_rtt_micros bc) (mt_selected_path_rtt_micros telemetry)
            (host_signals (bc_previous_telemetry bc) telemetry);
          bc' = bc\<lparr>bc_baseline_rtt_micros := baseline\<rparr>;
          trusted = fst host \<noteq> FS_Clean
      in if stale
         then let severity = (if trusted then fst host else FS_Stale) in
           (bc', \<lparr>cl_severity = severity, cl_pressure_severity = severity,
                  cl_reasons = reasons_union (snd host) REASON_FEEDBACK_STALE, cl_stale = True,
                  cl_trusted_host_pressure = trusted\<rparr>)
         else let (pressure, reasons) = receiver_signals report host;
                  evidence = recovery_evidence bc' report in
           (bc', \<lparr>cl_severity = (if pressure = FS_Clean \<and> \<not> evidence then FS_InsufficientEvidence else pressure),
                  cl_pressure_severity = pressure,
                  cl_reasons = (if pressure = FS_Clean \<and> evidence \<and> bc_target_kbps bc' < bc_ceiling_kbps bc'
                                then reasons_union reasons REASON_CLEAN_RECOVERY else reasons),
                  cl_stale = False, cl_trusted_host_pressure = trusted\<rparr>))"

section \<open>Moving the target\<close>

definition lower_target :: "u32 \<Rightarrow> bitrate_controller \<Rightarrow> bitrate_controller \<times> adaptive_bitrate_state" where
  "lower_target raw bc =
     (let next_kbps = max (quantize_down raw) (bc_floor_kbps bc) in
      if next_kbps < bc_target_kbps bc then (bc\<lparr>bc_target_kbps := next_kbps\<rparr>, AB_Decrease) else (bc, AB_Hold))"

definition raise_target :: "bitrate_controller \<Rightarrow> bitrate_controller \<times> adaptive_bitrate_state" where
  "raise_target bc =
     (let maximum_step = clamp (bc_target_kbps bc div 20) ADAPTIVE_BITRATE_QUANTUM_KBPS 500;
          next_kbps = quantize_down (min (saturating_add (bc_target_kbps bc) maximum_step) (bc_ceiling_kbps bc)) in
      if bc_target_kbps bc < next_kbps then (bc\<lparr>bc_target_kbps := next_kbps\<rparr>, AB_Increase) else (bc, AB_Hold))"

definition apply_severity :: "feedback_severity \<Rightarrow> bitrate_controller \<Rightarrow> bitrate_controller \<times> adaptive_bitrate_state" where
  "apply_severity severity bc =
     (case severity of
        FS_Severe \<Rightarrow> lower_target (saturating_mul (bc_target_kbps bc) 3 div 4)
          (bc\<lparr>bc_moderate_windows := 0, bc_clean_windows := 0,
              bc_cooldown_windows := ADAPTIVE_BITRATE_COOLDOWN_WINDOWS\<rparr>)
      | FS_Moderate \<Rightarrow>
          (let moderate = saturating_add (bc_moderate_windows bc) 1;
               bc' = bc\<lparr>bc_moderate_windows := moderate, bc_clean_windows := 0\<rparr> in
           if ADAPTIVE_BITRATE_MODERATE_WINDOWS \<le> moderate
           then lower_target (saturating_mul (bc_target_kbps bc) 4 div 5)
             (bc'\<lparr>bc_moderate_windows := 0, bc_cooldown_windows := ADAPTIVE_BITRATE_COOLDOWN_WINDOWS\<rparr>)
           else (bc', AB_Hold))
      | FS_Clean \<Rightarrow>
          (let clean = saturating_add (bc_clean_windows bc) 1;
               bc' = bc\<lparr>bc_moderate_windows := 0, bc_clean_windows := clean\<rparr> in
           if ADAPTIVE_BITRATE_CLEAN_WINDOWS \<le> clean \<and> bc_cooldown_windows bc = 0
           then raise_target (bc'\<lparr>bc_clean_windows := 0\<rparr>) else (bc', AB_Hold))
      | _ \<Rightarrow> (bc\<lparr>bc_moderate_windows := 0, bc_clean_windows := 0\<rparr>, AB_Hold))"

definition fresh_id :: "bitrate_controller \<Rightarrow> media_feedback_report \<Rightarrow> bool" where
  "fresh_id bc report \<longleftrightarrow> (case bc_last_report_id bc of None \<Rightarrow> True | Some previous \<Rightarrow> previous < fr_report_id report)"

definition cooled :: "bitrate_controller \<Rightarrow> bitrate_controller" where
  "cooled bc = (if 0 < bc_cooldown_windows bc then bc\<lparr>bc_cooldown_windows := bc_cooldown_windows bc - 1\<rparr> else bc)"

definition decision_of ::
  "bitrate_controller \<Rightarrow> media_feedback_report \<Rightarrow> adaptive_bitrate_state \<Rightarrow> classification \<Rightarrow> adaptive_bitrate_decision" where
  "decision_of bc report state cl = \<lparr>bd_decision_id = bc_next_decision_id bc, bd_report_id = fr_report_id report,
     bd_target_kbps = bc_target_kbps bc, bd_floor_kbps = bc_floor_kbps bc, bd_ceiling_kbps = bc_ceiling_kbps bc,
     bd_state = state, bd_reasons = cl_reasons cl, bd_applied = False\<rparr>"

text \<open>
  What the controller remembers of an evaluated report. The telemetry of a stale window with host
  pressure that moved nothing stays the old one, so that the same pressure counts again.
\<close>

definition remember_report ::
  "bitrate_controller \<Rightarrow> u64 \<Rightarrow> media_feedback_report \<Rightarrow> media_telemetry_snapshot \<Rightarrow> instant \<Rightarrow>
   adaptive_bitrate_state \<Rightarrow> classification \<Rightarrow> bitrate_controller" where
  "remember_report bc next_id report telemetry received_at state cl =
     (let previous = (if \<not> cl_stale cl \<or> \<not> cl_trusted_host_pressure cl \<or> state = AB_Decrease
                         \<or> bc_target_kbps bc = bc_floor_kbps bc
                      then telemetry else bc_previous_telemetry bc);
          sequence = (case fr_last_sequence report of
              None \<Rightarrow> bc_last_sequence bc
            | Some sequence \<Rightarrow> if cl_stale cl then bc_last_sequence bc
                else Some (case bc_last_sequence bc of None \<Rightarrow> sequence | Some latest \<Rightarrow> max latest sequence))
      in bc\<lparr>bc_next_decision_id := next_id, bc_last_report_id := Some (fr_report_id report),
            bc_last_report_received_at := Some received_at, bc_previous_telemetry := previous,
            bc_last_sequence := sequence\<rparr>)"

definition bitrate_evaluate ::
  "bitrate_controller \<Rightarrow> media_feedback_report \<Rightarrow> media_telemetry_snapshot \<Rightarrow> instant \<Rightarrow>
   bitrate_controller \<times> bitrate_evaluation host" where
  "bitrate_evaluate bc report telemetry received_at =
     (if \<not> fresh_id bc report
      then (bc, Inl (Host ''feedback report IDs must increase monotonically''))
      else case classify bc report telemetry received_at of (bc1, cl) \<Rightarrow>
        (case apply_severity (cl_severity cl) (cooled bc1) of (bc2, state) \<Rightarrow>
          let bc3 = bc2\<lparr>bc_target_kbps := clamp (bc_target_kbps bc2) (bc_floor_kbps bc2) (bc_ceiling_kbps bc2)\<rparr>;
              decision = decision_of bc3 report state cl in
          bind_op (bc3, lift_proto (decision_validate decision)) (\<lambda>bc3 _.
          case checked_add (bc_next_decision_id bc3) 1 of
            None \<Rightarrow> (bc3, Inl (Host ''adaptive bitrate decision ID exhausted''))
          | Some next_id \<Rightarrow>
              (remember_report bc3 next_id report telemetry received_at state cl,
               Inr \<lparr>be_decision = decision, be_pressure_severity = cl_pressure_severity cl,
                    be_clean_recovery_evidence = (cl_severity cl = FS_Clean), be_fresh = (\<not> cl_stale cl)\<rparr>))))"

end
