(* ===== verification/Motion_Resolution.thy ===== *)
theory Motion_Resolution
  imports Bitrate_Controller
begin

text \<open>
  The two-tier resolution policy (\<open>VideoDimensions\<close> and \<open>MotionResolutionPolicy\<close> in
  \<open>crates/sigil-host/src/server/adaptive.rs\<close>): motion or pressure reduces the encoder to exactly
  three quarters of the native picture at once; native detail returns only after the picture has
  been still, a cooldown has passed and fresh feedback has been clean.
\<close>

section \<open>Dimensions\<close>

definition MOTION_RESOLUTION_MODERATE_WINDOWS :: u8 where "MOTION_RESOLUTION_MODERATE_WINDOWS = 2"
definition MOTION_RESOLUTION_CLEAN_WINDOWS :: u8 where "MOTION_RESOLUTION_CLEAN_WINDOWS = 3"
definition MOTION_RESOLUTION_ACTIVITY_FPS :: u64 where "MOTION_RESOLUTION_ACTIVITY_FPS = 10"
definition MOTION_RESOLUTION_STILL_SETTLE :: duration where "MOTION_RESOLUTION_STILL_SETTLE = from_secs 2"
definition MOTION_RESOLUTION_UPSCALE_COOLDOWN :: duration where "MOTION_RESOLUTION_UPSCALE_COOLDOWN = from_secs 3"

record video_dimensions =
  vd_width :: u16
  vd_height :: u16

definition three_quarter :: "video_dimensions \<Rightarrow> video_dimensions host" where
  "three_quarter vd =
     bind_res (ensure_that (vd_width vd mod 4 = 0 \<and> vd_height vd mod 4 = 0)
       (Host ''native dimensions must be divisible by four for an exact three-quarter tier'')) (\<lambda>_.
     let reduced = \<lparr>vd_width = vd_width vd div 4 * 3, vd_height = vd_height vd div 4 * 3\<rparr> in
     bind_res (ensure_that (64 \<le> vd_width reduced \<and> 64 \<le> vd_height reduced)
       (Host ''three-quarter dimensions are below the H.264 minimum'')) (\<lambda>_.
     bind_res (ensure_that (vd_width reduced mod 2 = 0 \<and> vd_height reduced mod 2 = 0)
       (Host ''three-quarter H.264 dimensions must be even'')) (\<lambda>_.
     bind_res (ensure_that ((ucast (vd_width vd) :: u32) * ucast (vd_height reduced)
                            = ucast (vd_height vd) * ucast (vd_width reduced))
       (Host ''three-quarter dimensions must preserve the native aspect ratio'')) (\<lambda>_. Inr reduced))))"

section \<open>The policy\<close>

datatype resolution_tier = RT_Native | RT_Reduced
datatype resolution_trigger = RG_Hold | RG_Motion | RG_Pressure | RG_Recovery

record motion_decision =
  md_tier :: resolution_tier
  md_target :: video_dimensions
  md_trigger :: resolution_trigger
  md_changed :: bool

record motion_policy =
  mp_native :: video_dimensions
  mp_reduced :: video_dimensions
  mp_tier :: resolution_tier
  mp_motion_active :: bool
  mp_still_since :: "instant option"
  mp_pressure_active :: bool
  mp_moderate_windows :: u8
  mp_clean_windows :: u8
  mp_last_transition_at :: "instant option"
  mp_last_motion_sequence :: "u64 option"

definition motion_policy_new :: "video_dimensions \<Rightarrow> motion_policy host" where
  "motion_policy_new native =
     bind_res (ensure_that (64 \<le> vd_width native \<and> 64 \<le> vd_height native)
       (Host ''native dimensions are too small'')) (\<lambda>_.
     bind_res (ensure_that (vd_width native mod 2 = 0 \<and> vd_height native mod 2 = 0)
       (Host ''native H.264 dimensions must be even'')) (\<lambda>_.
     bind_res (three_quarter native) (\<lambda>reduced.
     Inr \<lparr>mp_native = native, mp_reduced = reduced, mp_tier = RT_Native, mp_motion_active = False,
          mp_still_since = None, mp_pressure_active = False, mp_moderate_windows = 0, mp_clean_windows = 0,
          mp_last_transition_at = None, mp_last_motion_sequence = None\<rparr>)))"

definition policy_target :: "motion_policy \<Rightarrow> video_dimensions" where
  "policy_target mp = (case mp_tier mp of RT_Native \<Rightarrow> mp_native mp | RT_Reduced \<Rightarrow> mp_reduced mp)"

definition update_motion :: "bool \<Rightarrow> instant \<Rightarrow> motion_policy \<Rightarrow> motion_policy" where
  "update_motion motion_active observed_at mp =
     (if motion_active then mp\<lparr>mp_motion_active := True, mp_still_since := None\<rparr>
      else mp\<lparr>mp_still_since := (if mp_motion_active mp \<or> mp_still_since mp = None then Some observed_at
                                 else mp_still_since mp), mp_motion_active := False\<rparr>)"

definition update_feedback :: "feedback_severity \<Rightarrow> bool \<Rightarrow> motion_policy \<Rightarrow> motion_policy" where
  "update_feedback severity fresh mp =
     (if \<not> fresh \<or> severity \<in> {FS_InsufficientEvidence, FS_Stale}
      then mp\<lparr>mp_moderate_windows := 0, mp_clean_windows := 0\<rparr>
      else case severity of
        FS_Severe \<Rightarrow> mp\<lparr>mp_pressure_active := True, mp_moderate_windows := 0, mp_clean_windows := 0\<rparr>
      | FS_Moderate \<Rightarrow>
          (let moderate = saturating_add (mp_moderate_windows mp) 1;
               mp' = mp\<lparr>mp_clean_windows := 0, mp_moderate_windows := moderate\<rparr> in
           if MOTION_RESOLUTION_MODERATE_WINDOWS \<le> moderate
           then mp'\<lparr>mp_moderate_windows := 0, mp_pressure_active := True\<rparr> else mp')
      | FS_Clean \<Rightarrow>
          (let clean = saturating_add (mp_clean_windows mp) 1;
               mp' = mp\<lparr>mp_moderate_windows := 0, mp_clean_windows := clean\<rparr> in
           if MOTION_RESOLUTION_CLEAN_WINDOWS \<le> clean then mp'\<lparr>mp_pressure_active := False\<rparr> else mp')
      | _ \<Rightarrow> mp)"

definition policy_hold :: "motion_policy \<Rightarrow> motion_decision" where
  "policy_hold mp = \<lparr>md_tier = mp_tier mp, md_target = policy_target mp, md_trigger = RG_Hold, md_changed = False\<rparr>"

definition downshift :: "instant \<Rightarrow> resolution_trigger \<Rightarrow> motion_policy \<Rightarrow> motion_policy \<times> motion_decision" where
  "downshift observed_at trigger mp =
     (let changed = (mp_tier mp \<noteq> RT_Reduced);
          mp' = (if changed then mp\<lparr>mp_tier := RT_Reduced, mp_last_transition_at := Some observed_at\<rparr> else mp)
      in (mp', \<lparr>md_tier = mp_tier mp', md_target = policy_target mp', md_trigger = trigger, md_changed = changed\<rparr>))"

definition maybe_restore :: "instant \<Rightarrow> motion_policy \<Rightarrow> motion_policy \<times> motion_decision" where
  "maybe_restore observed_at mp =
     (let still_settled = (\<not> mp_motion_active mp \<and>
            (case mp_still_since mp of None \<Rightarrow> False
             | Some still_since \<Rightarrow> MOTION_RESOLUTION_STILL_SETTLE \<le> observed_at - still_since));
          cooldown_complete = (case mp_last_transition_at mp of None \<Rightarrow> True
             | Some previous \<Rightarrow> MOTION_RESOLUTION_UPSCALE_COOLDOWN \<le> observed_at - previous);
          clean = (MOTION_RESOLUTION_CLEAN_WINDOWS \<le> mp_clean_windows mp)
      in if mp_tier mp = RT_Reduced \<and> still_settled \<and> cooldown_complete \<and> clean \<and> \<not> mp_pressure_active mp
         then let mp' = mp\<lparr>mp_tier := RT_Native, mp_clean_windows := 0, mp_last_transition_at := Some observed_at\<rparr> in
           (mp', \<lparr>md_tier = mp_tier mp', md_target = policy_target mp', md_trigger = RG_Recovery, md_changed = True\<rparr>)
         else (mp, policy_hold mp))"

definition evaluate_target :: "instant \<Rightarrow> motion_policy \<Rightarrow> motion_policy \<times> motion_decision" where
  "evaluate_target observed_at mp =
     (if mp_motion_active mp then downshift observed_at RG_Motion mp
      else if mp_pressure_active mp then downshift observed_at RG_Pressure mp
      else maybe_restore observed_at mp)"

text \<open>The sequence progress of a report against the highest sequence seen before it.\<close>

definition motion_in_window :: "u64 option \<Rightarrow> media_feedback_report \<Rightarrow> bool" where
  "motion_in_window previous_sequence report =
     (case fr_last_sequence report of None \<Rightarrow> False
      | Some sequence \<Rightarrow>
          (let delta = (case previous_sequence of None \<Rightarrow> 0 | Some latest \<Rightarrow> saturating_sub sequence latest)
           in saturating_mul MOTION_RESOLUTION_ACTIVITY_FPS (ucast (fr_interval_ms report)) \<le> saturating_mul delta 1000))"

definition observe_window ::
  "media_feedback_report \<Rightarrow> bitrate_evaluation \<Rightarrow> instant \<Rightarrow> motion_policy \<Rightarrow> motion_policy \<times> motion_decision" where
  "observe_window report evaluation observed_at mp =
     (let previous_sequence = mp_last_motion_sequence mp;
          mp1 = (case fr_last_sequence report of None \<Rightarrow> mp
                 | Some sequence \<Rightarrow> mp\<lparr>mp_last_motion_sequence :=
                     Some (case mp_last_motion_sequence mp of None \<Rightarrow> sequence | Some latest \<Rightarrow> max latest sequence)\<rparr>);
          mp2 = (if be_fresh evaluation then update_motion (motion_in_window previous_sequence report) observed_at mp1 else mp1);
          severity = (if be_pressure_severity evaluation = FS_Clean \<and> \<not> be_clean_recovery_evidence evaluation
                      then FS_InsufficientEvidence else be_pressure_severity evaluation)
      in evaluate_target observed_at (update_feedback severity (be_fresh evaluation) mp2))"

text \<open>
  The policy for an encoder: \<open>None\<close> when the native mode has no exact reduced tier, an error when the
  dimensions do not fit the protocol.
\<close>

definition motion_resolution_policy :: "u32 \<Rightarrow> u32 \<Rightarrow> motion_policy option host" where
  "motion_resolution_policy width height =
     bind_res (ensure_that (unat width < 2 ^ 16) (Host ''native width exceeds protocol'')) (\<lambda>_.
     bind_res (ensure_that (unat height < 2 ^ 16) (Host ''native height exceeds protocol'')) (\<lambda>_.
     case motion_policy_new \<lparr>vd_width = ucast width, vd_height = ucast height\<rparr> of
       Inl error \<Rightarrow> Inr None
     | Inr policy \<Rightarrow> Inr (Some policy)))"

section \<open>The reduced picture\<close>

lemma mult_div_bound: "4 dvd (a::nat) \<Longrightarrow> a div 4 * 3 = a - a div 4"
  by (elim dvdE) simp

lemma three_quarter_spec:
  assumes "three_quarter vd = Inr r"
  shows "4 * unat (vd_width r) = 3 * unat (vd_width vd)" "4 * unat (vd_height r) = 3 * unat (vd_height vd)"
    "64 \<le> unat (vd_width r)" "64 \<le> unat (vd_height r)" "even (unat (vd_width r))" "even (unat (vd_height r))"
proof -
  have nooverflow: "unat (a div 4 * 3) = unat a div 4 * 3" for a :: u16
  proof -
    have "unat a < 2 ^ 16" using unat_lt2p [of a] by simp
    then have "unat a div 4 * 3 < 2 ^ 16" by simp
    then show ?thesis by (simp add: unat_word_ariths unat_div)
  qed
  have zero: "a mod k = 0 \<longleftrightarrow> unat k dvd unat a" for a k :: u16
    by (simp add: word_unat_eq_iff unat_mod dvd_eq_mod_eq_0)
  have f: "4 dvd unat (vd_width vd)" "4 dvd unat (vd_height vd)" "64 \<le> vd_width r" "64 \<le> vd_height r"
    "2 dvd unat (vd_width r)" "2 dvd unat (vd_height r)"
    "r = \<lparr>vd_width = vd_width vd div 4 * 3, vd_height = vd_height vd div 4 * 3\<rparr>"
    using assms by (auto simp: three_quarter_def Let_def zero)
  show "4 * unat (vd_width r) = 3 * unat (vd_width vd)" "4 * unat (vd_height r) = 3 * unat (vd_height vd)"
    using f(1,2) by (auto simp: f(7) nooverflow)
  show "64 \<le> unat (vd_width r)" "64 \<le> unat (vd_height r)" "even (unat (vd_width r))" "even (unat (vd_height r))"
    using f(3-6) by (simp_all add: word_le_nat_alt)
qed

end
