(* ===== verification/Motion_Properties.thy ===== *)
theory Motion_Properties
  imports Motion_Resolution
begin

text \<open>
  What the resolution policy guarantees over a history of feedback windows: the encoder is asked for
  the native picture or exactly three quarters of it, and detail returns only when it is due.
\<close>

section \<open>Histories\<close>

type_synonym motion_window = "media_feedback_report \<times> bitrate_evaluation \<times> instant"
type_synonym motion_entry = "instant \<times> bitrate_evaluation \<times> motion_decision"

fun motion_run :: "motion_policy \<Rightarrow> motion_window list \<Rightarrow> motion_entry list" where
  "motion_run mp [] = []"
| "motion_run mp ((report, evaluation, now) # xs) =
     (case observe_window report evaluation now mp of (mp', d) \<Rightarrow> (now, evaluation, d) # motion_run mp' xs)"

definition clean_entry :: "motion_entry \<Rightarrow> bool" where
  "clean_entry x \<longleftrightarrow> (case x of (_, e, _) \<Rightarrow>
     be_fresh e \<and> be_pressure_severity e = FS_Clean \<and> be_clean_recovery_evidence e)"

text \<open>What the policy remembers of its history (newest entry first).\<close>

definition motion_inv :: "motion_entry list \<Rightarrow> motion_policy \<Rightarrow> bool" where
  "motion_inv hist mp \<longleftrightarrow>
     unat (mp_clean_windows mp) \<le> length (takeWhile clean_entry hist) \<and>
     (\<forall>(t, e, d) \<in> set hist. md_changed d \<longrightarrow> (\<exists>l. mp_last_transition_at mp = Some l \<and> t \<le> l)) \<and>
     (\<not> mp_motion_active mp \<longrightarrow> (\<forall>(t, e, d) \<in> set hist. md_trigger d = RG_Motion \<longrightarrow>
        (\<exists>s. mp_still_since mp = Some s \<and> t \<le> s)))"

definition policy_pictures :: "video_dimensions \<Rightarrow> video_dimensions \<Rightarrow> motion_policy \<Rightarrow> bool" where
  "policy_pictures native reduced mp \<longleftrightarrow> mp_native mp = native \<and> mp_reduced mp = reduced"

lemma pictures_kept:
  "policy_pictures n r (update_motion m t mp) = policy_pictures n r mp"
  "policy_pictures n r (update_feedback s f mp) = policy_pictures n r mp"
  "policy_pictures n r (mp\<lparr>mp_last_motion_sequence := q\<rparr>) = policy_pictures n r mp"
  by (auto simp: policy_pictures_def update_motion_def update_feedback_def Let_def split: feedback_severity.splits)

lemma evaluate_target_pictures:
  "evaluate_target t mp = (mp', d) \<Longrightarrow> policy_pictures n r mp \<Longrightarrow>
     policy_pictures n r mp' \<and> md_target d = (case md_tier d of RT_Native \<Rightarrow> n | RT_Reduced \<Rightarrow> r)"
  by (auto simp: evaluate_target_def downshift_def maybe_restore_def policy_hold_def policy_target_def policy_pictures_def
      Let_def split: if_splits resolution_tier.splits)

lemma observe_window_pictures:
  "observe_window rep e t mp = (mp', d) \<Longrightarrow> policy_pictures n r mp \<Longrightarrow>
     policy_pictures n r mp' \<and> md_target d = (case md_tier d of RT_Native \<Rightarrow> n | RT_Reduced \<Rightarrow> r)"
  unfolding observe_window_def Let_def
  by (erule evaluate_target_pictures) (auto simp: pictures_kept split: option.splits)

lemma motion_run_pictures:
  "policy_pictures n r mp \<Longrightarrow> \<forall>(t, e, d) \<in> set (motion_run mp xs).
     md_target d = (case md_tier d of RT_Native \<Rightarrow> n | RT_Reduced \<Rightarrow> r)"
proof (induction mp xs rule: motion_run.induct)
  case (2 mp rep e t xs)
  obtain mp' d where o: "observe_window rep e t mp = (mp', d)" by (metis prod.exhaust)
  show ?case
    using "2.IH" [OF o [symmetric]] observe_window_pictures [OF o "2.prems"] by (simp add: o)
qed simp

text \<open>
  The encoder is only ever asked for the native picture or for exactly three quarters of it in
  both directions, with even sides of at least 64 pixels. The policy exists only for modes that have
  such a picture; for the others there is no policy and the resolution never changes.
\<close>

theorem motion_targets_exact:
  assumes "motion_resolution_policy w h = Inr (Some mp)" "(t, e, d) \<in> set (motion_run mp xs)"
  shows "case md_tier d of
      RT_Native \<Rightarrow> unat (vd_width (md_target d)) = unat w \<and> unat (vd_height (md_target d)) = unat h
    | RT_Reduced \<Rightarrow> 4 * unat (vd_width (md_target d)) = 3 * unat w \<and> 4 * unat (vd_height (md_target d)) = 3 * unat h \<and>
        even (unat (vd_width (md_target d))) \<and> even (unat (vd_height (md_target d))) \<and>
        64 \<le> unat (vd_width (md_target d)) \<and> 64 \<le> unat (vd_height (md_target d))"
proof -
  obtain reduced where p: "unat w < 2 ^ 16" "unat h < 2 ^ 16"
    "three_quarter \<lparr>vd_width = ucast w, vd_height = ucast h\<rparr> = Inr reduced"
    "policy_pictures \<lparr>vd_width = ucast w, vd_height = ucast h\<rparr> reduced mp"
    using assms(1) by (auto simp: motion_resolution_policy_def motion_policy_new_def policy_pictures_def res_simps
        split: sum.splits)
  have u: "unat (ucast w :: u16) = unat w" "unat (ucast h :: u16) = unat h"
    using p(1,2) by (simp_all add: unsigned_ucast_eq take_bit_nat_eq_self)
  show ?thesis
    using motion_run_pictures [OF p(4), of xs] assms(2) three_quarter_spec [OF p(3)]
    by (auto simp: u split: resolution_tier.splits)
qed

section \<open>When detail returns\<close>

lemma unat_inc_le: "unat (saturating_add (k :: u8) 1) \<le> unat k + 1"
  using unat_lt2p [of k] by (auto simp: saturating_add_def unat_word_ariths unsigned_minus_1_eq_mask mask_eq_exp_minus_1)

lemma update_feedback_spec:
  "mp_motion_active (update_feedback s f mp) = mp_motion_active mp"
  "mp_still_since (update_feedback s f mp) = mp_still_since mp"
  "mp_last_transition_at (update_feedback s f mp) = mp_last_transition_at mp"
  "unat (mp_clean_windows (update_feedback s f mp)) \<le> (if f \<and> s = FS_Clean then unat (mp_clean_windows mp) + 1 else 0)"
  using unat_inc_le [of "mp_clean_windows mp"] by (cases s; cases f; simp add: update_feedback_def Let_def)+

definition restore_due :: "instant \<Rightarrow> motion_policy \<Rightarrow> bool" where
  "restore_due t mp \<longleftrightarrow> \<not> mp_motion_active mp \<and> 3 \<le> unat (mp_clean_windows mp) \<and>
     (\<exists>s. mp_still_since mp = Some s \<and> from_secs 2 \<le> t - s) \<and>
     (\<forall>l. mp_last_transition_at mp = Some l \<longrightarrow> from_secs 3 \<le> t - l)"

definition evaluated :: "instant \<Rightarrow> motion_policy \<Rightarrow> motion_policy \<Rightarrow> motion_decision \<Rightarrow> bool" where
  "evaluated t mp mp' d \<longleftrightarrow>
     mp_motion_active mp' = mp_motion_active mp \<and> mp_still_since mp' = mp_still_since mp \<and>
     unat (mp_clean_windows mp') \<le> unat (mp_clean_windows mp) \<and>
     mp_last_transition_at mp' = (if md_changed d then Some t else mp_last_transition_at mp) \<and>
     (md_trigger d = RG_Motion \<longleftrightarrow> mp_motion_active mp) \<and>
     (md_trigger d = RG_Recovery \<longrightarrow> restore_due t mp)"

lemma maybe_restore_evaluated:
  assumes "maybe_restore t mp = (mp', d)" "\<not> mp_motion_active mp"
  shows "evaluated t mp mp' d"
proof (cases "md_changed d")
  case True
  then have "mp' = mp\<lparr>mp_tier := RT_Native, mp_clean_windows := 0, mp_last_transition_at := Some t\<rparr>"
    "restore_due t mp" "md_trigger d = RG_Recovery"
    using assms by (auto simp: maybe_restore_def policy_hold_def Let_def restore_due_def MOTION_RESOLUTION_CLEAN_WINDOWS_def
        MOTION_RESOLUTION_STILL_SETTLE_def MOTION_RESOLUTION_UPSCALE_COOLDOWN_def word_le_nat_alt
        split: if_splits option.splits)
  with True assms(2) show ?thesis by (simp add: evaluated_def)
next
  case False
  then have "mp' = mp" "md_trigger d = RG_Hold"
    using assms(1) by (auto simp: maybe_restore_def policy_hold_def Let_def split: if_splits)
  with False assms(2) show ?thesis by (simp add: evaluated_def)
qed

lemma evaluate_target_evaluated:
  assumes "evaluate_target t mp = (mp', d)"
  shows "evaluated t mp mp' d"
proof (cases "mp_motion_active mp \<or> mp_pressure_active mp")
  case True
  then show ?thesis using assms
    by (auto simp: evaluate_target_def downshift_def Let_def evaluated_def split: if_splits)
next
  case False
  then show ?thesis using assms maybe_restore_evaluated by (simp add: evaluate_target_def)
qed

lemma update_motion_inv:
  assumes "motion_inv hist mp" "\<forall>(t', _, _) \<in> set hist. t' \<le> t"
  shows "motion_inv hist (update_motion m t mp)"
  using assms by (fastforce simp: motion_inv_def update_motion_def)

text \<open>One window keeps the memory true, and a recovery happens only when it is due.\<close>

lemma observe_window_inv:
  assumes inv: "motion_inv hist mp" and times: "\<forall>(t', _, _) \<in> set hist. t' \<le> t"
    and o: "observe_window rep e t mp = (mp', d)"
  shows "motion_inv ((t, e, d) # hist) mp'"
    "md_trigger d = RG_Recovery \<Longrightarrow> clean_entry (t, e, d) \<and> 2 \<le> length (takeWhile clean_entry hist) \<and>
      (\<forall>(t', e', d') \<in> set hist. (md_changed d' \<longrightarrow> t' + from_secs 3 \<le> t) \<and>
         (md_trigger d' = RG_Motion \<longrightarrow> t' + from_secs 2 \<le> t))"
proof -
  define mp1 where "mp1 = (case fr_last_sequence rep of None \<Rightarrow> mp
     | Some sequence \<Rightarrow> mp\<lparr>mp_last_motion_sequence :=
         Some (case mp_last_motion_sequence mp of None \<Rightarrow> sequence | Some latest \<Rightarrow> max latest sequence)\<rparr>)"
  define mp2 where "mp2 = (if be_fresh e then update_motion (motion_in_window (mp_last_motion_sequence mp) rep) t mp1 else mp1)"
  define sev where "sev = (if be_pressure_severity e = FS_Clean \<and> \<not> be_clean_recovery_evidence e
                      then FS_InsufficientEvidence else be_pressure_severity e)"
  define mp3 where "mp3 = update_feedback sev (be_fresh e) mp2"
  have "motion_inv hist mp1" using inv by (auto simp: mp1_def motion_inv_def split: option.splits)
  then have i2: "motion_inv hist mp2" using update_motion_inv [OF _ times] by (simp add: mp2_def)
  have clean: "be_fresh e \<and> sev = FS_Clean \<longleftrightarrow> clean_entry (t, e, d)"
    by (auto simp: sev_def clean_entry_def)
  note u = update_feedback_spec [of sev "be_fresh e" mp2, folded mp3_def, unfolded clean]
  have ev: "evaluated t mp3 mp' d"
    using o unfolding observe_window_def Let_def mp1_def [symmetric] mp2_def [symmetric] sev_def [symmetric]
      mp3_def [symmetric] by (rule evaluate_target_evaluated)
  have c3: "unat (mp_clean_windows mp3) \<le> length (takeWhile clean_entry ((t, e, d) # hist))"
    using u(4) i2 by (auto simp: motion_inv_def)
  show "motion_inv ((t, e, d) # hist) mp'"
    using ev c3 i2 times u(1-3) unfolding motion_inv_def evaluated_def by fastforce
  assume "md_trigger d = RG_Recovery"
  then have due: "restore_due t mp3" using ev by (simp add: evaluated_def)
  have "clean_entry (t, e, d)" "2 \<le> length (takeWhile clean_entry hist)"
    using due u(4) c3 by (auto simp: restore_due_def split: if_splits)
  moreover have "t' + from_secs 3 \<le> t" if "(t', e', d') \<in> set hist" "md_changed d'" for t' e' d'
    using i2 that due u(3) by (fastforce simp: motion_inv_def restore_due_def from_secs_def)
  moreover have "t' + from_secs 2 \<le> t" if "(t', e', d') \<in> set hist" "md_trigger d' = RG_Motion" for t' e' d'
    using i2 that due u(1,2) by (fastforce simp: motion_inv_def restore_due_def from_secs_def)
  ultimately show "clean_entry (t, e, d) \<and> 2 \<le> length (takeWhile clean_entry hist) \<and>
      (\<forall>(t', e', d') \<in> set hist. (md_changed d' \<longrightarrow> t' + from_secs 3 \<le> t) \<and>
         (md_trigger d' = RG_Motion \<longrightarrow> t' + from_secs 2 \<le> t))" by auto
qed

lemma motion_run_recovery:
  assumes "motion_inv hist mp" "\<forall>(t', _, _) \<in> set hist. \<forall>(_, _, t) \<in> set xs. t' \<le> t"
    "sorted (map (snd \<circ> snd) xs)" "motion_run mp xs = us @ (t, e, d) # vs" "md_trigger d = RG_Recovery"
  shows "clean_entry (t, e, d) \<and> 2 \<le> length (takeWhile clean_entry (rev us @ hist)) \<and>
    (\<forall>(t', e', d') \<in> set (rev us @ hist). (md_changed d' \<longrightarrow> t' + from_secs 3 \<le> t) \<and>
       (md_trigger d' = RG_Motion \<longrightarrow> t' + from_secs 2 \<le> t))"
  using assms
proof (induction mp xs arbitrary: us hist rule: motion_run.induct)
  case (2 mp rep ev now xs)
  obtain mp' c where o: "observe_window rep ev now mp = (mp', c)" by (metis prod.exhaust)
  have times: "\<forall>(t', _, _) \<in> set hist. t' \<le> now" using "2.prems"(2) by auto
  note s = observe_window_inv [OF "2.prems"(1) times o]
  have l: "(now, ev, c) # motion_run mp' xs = us @ (t, e, d) # vs" using "2.prems"(4) by (simp add: o)
  show ?case
  proof (cases us)
    case Nil
    with l s(2) "2.prems"(5) show ?thesis by auto
  next
    case (Cons u us')
    with l have u: "u = (now, ev, c)" "motion_run mp' xs = us' @ (t, e, d) # vs" by auto
    have "\<forall>(t', _, _) \<in> set ((now, ev, c) # hist). \<forall>(_, _, t) \<in> set xs. t' \<le> t"
      using "2.prems"(2,3) by fastforce
    from "2.IH" [OF o [symmetric] s(1) this _ u(2) "2.prems"(5)] "2.prems"(3) show ?thesis
      by (simp add: Cons u(1))
  qed
qed simp

text \<open>
  Detail returns only when it is due. In every history of a new policy, at nondecreasing times, a
  window that restores the native picture is fresh and clean with evidence of progress, and so were
  the two windows before it; the last change of resolution was at least three seconds earlier and
  the last window with motion at least two seconds earlier. Stale feedback never restores detail.
\<close>

theorem detail_returns_only_when_due:
  assumes "motion_policy_new native = Inr mp" "sorted (map (snd \<circ> snd) xs)"
    and "motion_run mp xs = us @ (t, e, d) # vs" "md_trigger d = RG_Recovery"
  shows "(\<exists>ws a b. us = ws @ [a, b] \<and> list_all clean_entry [a, b, (t, e, d)]) \<and>
    (\<forall>(t', e', d') \<in> set us. (md_changed d' \<longrightarrow> t' + from_secs 3 \<le> t) \<and>
       (md_trigger d' = RG_Motion \<longrightarrow> t' + from_secs 2 \<le> t))"
proof -
  have "motion_inv [] mp" using assms(1) by (auto simp: motion_policy_new_def motion_inv_def res_simps)
  from motion_run_recovery [OF this _ assms(2-4)]
  have r: "clean_entry (t, e, d)" "2 \<le> length (takeWhile clean_entry (rev us))"
    "\<forall>(t', e', d') \<in> set us. (md_changed d' \<longrightarrow> t' + from_secs 3 \<le> t) \<and>
       (md_trigger d' = RG_Motion \<longrightarrow> t' + from_secs 2 \<le> t)" by auto
  obtain b a ws where w: "rev us = b # a # ws" "clean_entry b" "clean_entry a"
    using r(2) by (cases "rev us" rule: remdups_adj.cases) (auto split: if_splits)
  then have "us = rev ws @ [a, b]" by (metis rev_rev_ident rev.simps(2) append.assoc append_Cons append_Nil)
  with w r(1,3) show ?thesis by auto
qed

section \<open>A concrete history\<close>

definition motion_demo_report :: "u64 \<Rightarrow> media_feedback_report" where
  "motion_demo_report sequence = \<lparr>fr_report_id = 1, fr_interval_ms = 1000, fr_flags = MediaFeedbackFlags 0,
     fr_last_sequence = Some sequence, fr_transport_dropped_delta = 0, fr_frontend_dropped_delta = 0,
     fr_decoder_dropped_delta = 0, fr_presenter_dropped_delta = 0, fr_frontend_queue_depth = 0,
     fr_frontend_queue_capacity = 4, fr_decode_queue_depth = 0, fr_decode_queue_capacity = 4,
     fr_presenter_queue_depth = 0, fr_presenter_queue_capacity = 4, fr_transport_delivery_p95_ms = Some 20,
     fr_decode_p95_ms = Some 5, fr_presentation_p95_ms = Some 5\<rparr>"

definition motion_demo_evaluation :: bitrate_evaluation where
  "motion_demo_evaluation = \<lparr>be_decision = \<lparr>bd_decision_id = 1, bd_report_id = 1, bd_target_kbps = 12000, bd_floor_kbps = 1000,
     bd_ceiling_kbps = 12000, bd_state = AB_Hold, bd_reasons = REASON_NONE, bd_applied = False\<rparr>,
     be_pressure_severity = FS_Clean, be_clean_recovery_evidence = True, be_fresh = True\<rparr>"

text \<open>A burst of motion in the second second, then a still picture.\<close>

definition motion_demo_windows :: "motion_window list" where
  "motion_demo_windows = map (\<lambda>(q, n). (motion_demo_report q, motion_demo_evaluation, n * 1000000000))
     [(0, 1), (60, 2), (60, 3), (60, 4), (60, 5)]"

definition motion_demo_policy :: motion_policy where
  "motion_demo_policy = \<lparr>mp_native = \<lparr>vd_width = 1920, vd_height = 1080\<rparr>, mp_reduced = \<lparr>vd_width = 1440, vd_height = 810\<rparr>,
     mp_tier = RT_Native, mp_motion_active = False, mp_still_since = None, mp_pressure_active = False,
     mp_moderate_windows = 0, mp_clean_windows = 0, mp_last_transition_at = None, mp_last_motion_sequence = None\<rparr>"

lemma motion_demo_new: "motion_policy_new \<lparr>vd_width = 1920, vd_height = 1080\<rparr> = Inr motion_demo_policy"
  "motion_resolution_policy 1920 1080 = Inr (Some motion_demo_policy)"
  by (simp_all add: motion_resolution_policy_def motion_policy_new_def three_quarter_def motion_demo_policy_def)

definition motion_demo_state :: "u64 \<Rightarrow> resolution_tier \<Rightarrow> bool \<Rightarrow> instant option \<Rightarrow> u8 \<Rightarrow> instant option \<Rightarrow> motion_policy" where
  "motion_demo_state sequence tier motion still clean transition =
     motion_demo_policy\<lparr>mp_tier := tier, mp_motion_active := motion, mp_still_since := still, mp_clean_windows := clean,
       mp_last_transition_at := transition, mp_last_motion_sequence := Some sequence\<rparr>"

lemma motion_demo_flags:
  "motion_in_window (Some 0) (motion_demo_report 0) = False"
  "motion_in_window (Some 0) (motion_demo_report 60) = True"
  "motion_in_window (Some 60) (motion_demo_report 60) = False"
  by (simp_all add: motion_in_window_def motion_demo_report_def saturating_sub_def saturating_mul_def
      MOTION_RESOLUTION_ACTIVITY_FPS_def)

lemma motion_demo_observe:
  "observe_window (motion_demo_report q) motion_demo_evaluation t (motion_demo_state r tier motion still clean transition) =
     evaluate_target t (update_feedback FS_Clean True (update_motion (motion_in_window (Some r) (motion_demo_report q)) t
       (motion_demo_state (max r q) tier motion still clean transition)))"
  by (simp add: observe_window_def motion_demo_evaluation_def motion_demo_state_def motion_demo_report_def Let_def)

lemma motion_demo_observe_first:
  "observe_window (motion_demo_report 0) motion_demo_evaluation t motion_demo_policy =
     evaluate_target t (update_feedback FS_Clean True (update_motion False t
       (motion_demo_state 0 RT_Native False None 0 None)))"
  by (simp add: observe_window_def motion_demo_evaluation_def motion_demo_state_def motion_demo_report_def Let_def
      motion_in_window_def saturating_mul_def MOTION_RESOLUTION_ACTIVITY_FPS_def motion_demo_policy_def)

definition motion_demo_decision :: "resolution_tier \<Rightarrow> resolution_trigger \<Rightarrow> bool \<Rightarrow> motion_decision" where
  "motion_demo_decision tier trigger changed = \<lparr>md_tier = tier, md_target = (case tier of RT_Native \<Rightarrow> \<lparr>vd_width = 1920, vd_height = 1080\<rparr>
      | RT_Reduced \<Rightarrow> \<lparr>vd_width = 1440, vd_height = 810\<rparr>), md_trigger = trigger, md_changed = changed\<rparr>"

text \<open>The stages of an observation on these states.\<close>

lemma motion_demo_stages:
  "update_motion True t (motion_demo_state q tier m s c l) = motion_demo_state q tier True None c l"
  "update_motion False t (motion_demo_state q tier True s c l) = motion_demo_state q tier False (Some t) c l"
  "update_motion False t (motion_demo_state q tier False None c l) = motion_demo_state q tier False (Some t) c l"
  "update_motion False t (motion_demo_state q tier False (Some i) c l) = motion_demo_state q tier False (Some i) c l"
  "update_feedback FS_Clean True (motion_demo_state q tier m s c l) = motion_demo_state q tier m s (saturating_add c 1) l"
  "evaluate_target t (motion_demo_state q RT_Native True s c l) =
     (motion_demo_state q RT_Reduced True s c (Some t), motion_demo_decision RT_Reduced RG_Motion True)"
  "evaluate_target t (motion_demo_state q RT_Native False s c l) =
     (motion_demo_state q RT_Native False s c l, motion_demo_decision RT_Native RG_Hold False)"
  "t < i + 2000000000 \<or> t < j + 3000000000 \<Longrightarrow> evaluate_target t (motion_demo_state q RT_Reduced False (Some i) c (Some j)) =
     (motion_demo_state q RT_Reduced False (Some i) c (Some j), motion_demo_decision RT_Reduced RG_Hold False)"
  "i + 2000000000 \<le> t \<Longrightarrow> j + 3000000000 \<le> t \<Longrightarrow> 3 \<le> c \<Longrightarrow>
     evaluate_target t (motion_demo_state q RT_Reduced False (Some i) c (Some j)) =
     (motion_demo_state q RT_Native False (Some i) 0 (Some t), motion_demo_decision RT_Native RG_Recovery True)"
  by (auto simp: motion_demo_state_def motion_demo_policy_def update_motion_def update_feedback_def Let_def
      evaluate_target_def downshift_def maybe_restore_def policy_hold_def policy_target_def motion_demo_decision_def
      MOTION_RESOLUTION_CLEAN_WINDOWS_def MOTION_RESOLUTION_STILL_SETTLE_def MOTION_RESOLUTION_UPSCALE_COOLDOWN_def from_secs_def)

lemma motion_demo_counts:
  "saturating_add 0 1 = (1 :: u8)" "saturating_add 1 1 = (2 :: u8)" "saturating_add 2 1 = (3 :: u8)"
  "saturating_add 3 1 = (4 :: u8)" "saturating_add 4 1 = (5 :: u8)" "max (0 :: u64) 60 = 60"
  by (simp_all add: saturating_add_def max_def)

lemma motion_demo_steps:
  "observe_window (motion_demo_report 0) motion_demo_evaluation 1000000000 motion_demo_policy =
     (motion_demo_state 0 RT_Native False (Some 1000000000) 1 None, motion_demo_decision RT_Native RG_Hold False)"
  "observe_window (motion_demo_report 60) motion_demo_evaluation 2000000000
     (motion_demo_state 0 RT_Native False (Some 1000000000) 1 None) =
   (motion_demo_state 60 RT_Reduced True None 2 (Some 2000000000), motion_demo_decision RT_Reduced RG_Motion True)"
  "observe_window (motion_demo_report 60) motion_demo_evaluation 3000000000
     (motion_demo_state 60 RT_Reduced True None 2 (Some 2000000000)) =
   (motion_demo_state 60 RT_Reduced False (Some 3000000000) 3 (Some 2000000000), motion_demo_decision RT_Reduced RG_Hold False)"
  "observe_window (motion_demo_report 60) motion_demo_evaluation 4000000000
     (motion_demo_state 60 RT_Reduced False (Some 3000000000) 3 (Some 2000000000)) =
   (motion_demo_state 60 RT_Reduced False (Some 3000000000) 4 (Some 2000000000), motion_demo_decision RT_Reduced RG_Hold False)"
  "observe_window (motion_demo_report 60) motion_demo_evaluation 5000000000
     (motion_demo_state 60 RT_Reduced False (Some 3000000000) 4 (Some 2000000000)) =
   (motion_demo_state 60 RT_Native False (Some 3000000000) 0 (Some 5000000000), motion_demo_decision RT_Native RG_Recovery True)"
  unfolding motion_demo_observe_first motion_demo_observe max.idem motion_demo_counts motion_demo_flags
    motion_demo_stages(1-7) by (simp_all add: motion_demo_stages(8,9))

lemma motion_demo_run:
  "motion_run motion_demo_policy motion_demo_windows =
     map (\<lambda>(t, d). (t, motion_demo_evaluation, d))
       [(1000000000, motion_demo_decision RT_Native RG_Hold False), (2000000000, motion_demo_decision RT_Reduced RG_Motion True),
        (3000000000, motion_demo_decision RT_Reduced RG_Hold False), (4000000000, motion_demo_decision RT_Reduced RG_Hold False),
        (5000000000, motion_demo_decision RT_Native RG_Recovery True)]"
  by (simp add: motion_demo_windows_def motion_demo_steps)

theorem detail_returns_only_when_due_witness:
  "\<exists>us d. motion_run motion_demo_policy motion_demo_windows = us @ [(5000000000, motion_demo_evaluation, d)] \<and>
     md_trigger d = RG_Recovery \<and>
     (\<exists>ws a b. us = ws @ [a, b] \<and> list_all clean_entry [a, b, (5000000000, motion_demo_evaluation, d)])"
proof -
  define d where "d = motion_demo_decision RT_Native RG_Recovery True"
  obtain us where r: "motion_run motion_demo_policy motion_demo_windows = us @ (5000000000, motion_demo_evaluation, d) # []"
    by (rule that [of "butlast (motion_run motion_demo_policy motion_demo_windows)"]) (simp add: motion_demo_run d_def)
  have s: "sorted (map (snd \<circ> snd) motion_demo_windows)" by (simp add: motion_demo_windows_def)
  have g: "md_trigger d = RG_Recovery" by (simp add: d_def motion_demo_decision_def)
  show ?thesis
    using detail_returns_only_when_due [OF motion_demo_new(1) s r g] r g by blast
qed

theorem motion_targets_exact_witness:
  "4 * unat (vd_width (md_target (motion_demo_decision RT_Reduced RG_Motion True))) = 3 * unat (1920 :: u32)"
  using motion_targets_exact [OF motion_demo_new(2), of 2000000000 motion_demo_evaluation
      "motion_demo_decision RT_Reduced RG_Motion True" motion_demo_windows]
  by (simp add: motion_demo_run motion_demo_decision_def)

end
