(* ===== verification/Feedback_Ingress.thy ===== *)
theory Feedback_Ingress
  imports Bitrate_Controller
begin

text \<open>
  The latest-value ingress of a viewer's feedback (\<open>CumulativeFeedbackIngress\<close>) and the recovery
  state of a viewer that stays under pressure at the bitrate floor (\<open>ContributorRecoveryState\<close>),
  both in \<open>crates/sigil-host/src/server/adaptive.rs\<close>. The ingress keeps running totals, so that a
  consumer that wakes up late still sees every drop and every resynchronisation.
\<close>

section \<open>The ingress\<close>

definition MEDIA_FEEDBACK_INTERVAL_MAX_MS :: u64 where "MEDIA_FEEDBACK_INTERVAL_MAX_MS = 5000"

record ingress_totals =
  it_interval_ms :: u64
  it_transport_dropped :: u64
  it_frontend_dropped :: u64
  it_decoder_dropped :: u64
  it_presenter_dropped :: u64
  it_resync_reports :: u64

record ingress_cursor =
  ig_last_report_id :: "u64 option"
  ig_totals :: ingress_totals

record cumulative_ingress =
  ci_latest :: "media_feedback_report option"
  ci_totals :: ingress_totals

definition zero_totals :: ingress_totals where
  "zero_totals = \<lparr>it_interval_ms = 0, it_transport_dropped = 0, it_frontend_dropped = 0, it_decoder_dropped = 0,
     it_presenter_dropped = 0, it_resync_reports = 0\<rparr>"

definition ingress_default :: cumulative_ingress where
  "ingress_default = \<lparr>ci_latest = None, ci_totals = zero_totals\<rparr>"

definition cursor_default :: ingress_cursor where
  "cursor_default = \<lparr>ig_last_report_id = None, ig_totals = zero_totals\<rparr>"

definition ingress_observe :: "media_feedback_report \<Rightarrow> cumulative_ingress \<Rightarrow> cumulative_ingress" where
  "ingress_observe report ci =
     (let t = ci_totals ci in
      \<lparr>ci_latest = Some report,
       ci_totals = \<lparr>it_interval_ms = it_interval_ms t + ucast (fr_interval_ms report),
         it_transport_dropped = it_transport_dropped t + ucast (fr_transport_dropped_delta report),
         it_frontend_dropped = it_frontend_dropped t + ucast (fr_frontend_dropped_delta report),
         it_decoder_dropped = it_decoder_dropped t + ucast (fr_decoder_dropped_delta report),
         it_presenter_dropped = it_presenter_dropped t + ucast (fr_presenter_dropped_delta report),
         it_resync_reports = (if feedback_flags_contains (fr_flags report) RESYNC_ACTIVE
                              then it_resync_reports t + 1 else it_resync_reports t)\<rparr>\<rparr>)"

definition cumulative_feedback_delta :: "u64 \<Rightarrow> u64 \<Rightarrow> u32" where
  "cumulative_feedback_delta current baseline = ucast (min (current - baseline) 4294967295)"

definition report_since ::
  "ingress_cursor \<Rightarrow> cumulative_ingress \<Rightarrow> (media_feedback_report \<times> ingress_cursor) option proto" where
  "report_since cursor ci =
     (case ci_latest ci of
        None \<Rightarrow> Inr None
      | Some latest \<Rightarrow>
        if (case ig_last_report_id cursor of None \<Rightarrow> False | Some report_id \<Rightarrow> fr_report_id latest \<le> report_id)
        then Inr None
        else let t = ci_totals ci; c = ig_totals cursor;
          report = latest\<lparr>
            fr_interval_ms := ucast (min (it_interval_ms t - it_interval_ms c) MEDIA_FEEDBACK_INTERVAL_MAX_MS),
            fr_transport_dropped_delta := cumulative_feedback_delta (it_transport_dropped t) (it_transport_dropped c),
            fr_frontend_dropped_delta := cumulative_feedback_delta (it_frontend_dropped t) (it_frontend_dropped c),
            fr_decoder_dropped_delta := cumulative_feedback_delta (it_decoder_dropped t) (it_decoder_dropped c),
            fr_presenter_dropped_delta := cumulative_feedback_delta (it_presenter_dropped t) (it_presenter_dropped c),
            fr_flags := (if 0 < it_resync_reports t - it_resync_reports c then RESYNC_ACTIVE else MediaFeedbackFlags 0)\<rparr>
          in bind_res (report_validate report) (\<lambda>_.
             Inr (Some (report, \<lparr>ig_last_report_id = Some (fr_report_id latest), ig_totals = t\<rparr>))))"

section \<open>Recovery of an isolated viewer\<close>

definition FLOOR_BREACH_WINDOWS :: u8 where "FLOOR_BREACH_WINDOWS = 3"
definition ISOLATED_RECOVERY_CLEAN_WINDOWS :: u8 where "ISOLATED_RECOVERY_CLEAN_WINDOWS = 3"
definition ISOLATED_RECOVERY_PRESSURE_WINDOWS :: u8 where "ISOLATED_RECOVERY_PRESSURE_WINDOWS = 3"
definition ISOLATED_RECOVERY_MAX_ATTEMPTS :: u8 where "ISOLATED_RECOVERY_MAX_ATTEMPTS = 2"
definition ISOLATED_RECOVERY_BACKOFF :: duration where "ISOLATED_RECOVERY_BACKOFF = from_secs 2"

datatype recovery_state =
    Recovery_Active u8
  | Recovering (rec_attempt: u8) (rec_retry_at: instant) (rec_clean: u8) (rec_pressure: u8)
  | Recovery_Detaching

datatype recovery_mutation = RM_None | RM_RequestRecovery | RM_Recovered | RM_Detach

definition recovery_default :: recovery_state where
  "recovery_default = Recovery_Active 0"

fun recovery_contributes :: "recovery_state \<Rightarrow> bool" where
  "recovery_contributes (Recovery_Active _) = True"
| "recovery_contributes _ = False"

definition window_pressured :: "bitrate_evaluation \<Rightarrow> bool" where
  "window_pressured e \<longleftrightarrow> be_fresh e \<and> be_pressure_severity e \<in> {FS_Moderate, FS_Severe}"

definition window_clean :: "bitrate_evaluation \<Rightarrow> bool" where
  "window_clean e \<longleftrightarrow> be_fresh e \<and> be_pressure_severity e = FS_Clean \<and> be_clean_recovery_evidence e"

definition window_at_floor :: "bitrate_evaluation \<Rightarrow> bool" where
  "window_at_floor e \<longleftrightarrow> be_fresh e \<and> be_pressure_severity e = FS_Severe
     \<and> bd_target_kbps (be_decision e) = bd_floor_kbps (be_decision e)"

fun recovery_observe :: "bitrate_evaluation \<Rightarrow> instant \<Rightarrow> recovery_state \<Rightarrow> recovery_state \<times> recovery_mutation" where
  "recovery_observe e now (Recovery_Active floor_breach_windows) =
     (let breaches = (if window_at_floor e then saturating_add floor_breach_windows 1 else 0) in
      if breaches < FLOOR_BREACH_WINDOWS then (Recovery_Active breaches, RM_None)
      else (Recovering 1 (now + ISOLATED_RECOVERY_BACKOFF) 0 0, RM_RequestRecovery))"
| "recovery_observe e now (Recovering attempt retry_at clean_windows pressure_windows) =
     (if now < retry_at then (Recovering attempt retry_at clean_windows pressure_windows, RM_None)
      else if window_clean e then
        (let clean = saturating_add clean_windows 1 in
         if ISOLATED_RECOVERY_CLEAN_WINDOWS \<le> clean then (recovery_default, RM_Recovered)
         else (Recovering attempt retry_at clean 0, RM_None))
      else if window_pressured e then
        (let pressure = saturating_add pressure_windows 1 in
         if ISOLATED_RECOVERY_PRESSURE_WINDOWS \<le> pressure
         then if ISOLATED_RECOVERY_MAX_ATTEMPTS \<le> attempt then (Recovery_Detaching, RM_Detach)
              else let next_attempt = saturating_add attempt 1 in
                (Recovering next_attempt (now + ISOLATED_RECOVERY_BACKOFF * unat next_attempt) 0 0, RM_RequestRecovery)
         else (Recovering attempt retry_at 0 pressure, RM_None))
      else (Recovering attempt retry_at 0 0, RM_None))"
| "recovery_observe e now Recovery_Detaching = (Recovery_Detaching, RM_None)"

section \<open>The ingress loses nothing\<close>

text \<open>
  The reference: what one report would have to say for a whole list of reports. Counters are added
  up and clamped to the width of the wire, the interval to five seconds; everything else is the
  latest report's.
\<close>

definition sum_capped :: "('a \<Rightarrow> nat) \<Rightarrow> nat \<Rightarrow> 'a list \<Rightarrow> nat" where
  "sum_capped f cap xs = min (\<Sum>x\<leftarrow>xs. f x) cap"

definition has_resync :: "media_feedback_report \<Rightarrow> bool" where
  "has_resync r \<longleftrightarrow> feedback_flags_contains (fr_flags r) RESYNC_ACTIVE"

definition aggregate_reports :: "media_feedback_report list \<Rightarrow> media_feedback_report" where
  "aggregate_reports rs = (last rs)\<lparr>
     fr_interval_ms := of_nat (sum_capped (\<lambda>r. unat (fr_interval_ms r)) 5000 rs),
     fr_transport_dropped_delta := of_nat (sum_capped (\<lambda>r. unat (fr_transport_dropped_delta r)) (2 ^ 32 - 1) rs),
     fr_frontend_dropped_delta := of_nat (sum_capped (\<lambda>r. unat (fr_frontend_dropped_delta r)) (2 ^ 32 - 1) rs),
     fr_decoder_dropped_delta := of_nat (sum_capped (\<lambda>r. unat (fr_decoder_dropped_delta r)) (2 ^ 32 - 1) rs),
     fr_presenter_dropped_delta := of_nat (sum_capped (\<lambda>r. unat (fr_presenter_dropped_delta r)) (2 ^ 32 - 1) rs),
     fr_flags := (if list_ex has_resync rs then RESYNC_ACTIVE else MediaFeedbackFlags 0)\<rparr>"

lemma ucast_unat: "(ucast w :: 'b::len word) = of_nat (unat w)" for w :: "'a::len word"
  by simp

text \<open>The totals after a list of reports, and their difference to the totals before.\<close>

fun ingress_all :: "cumulative_ingress \<Rightarrow> media_feedback_report list \<Rightarrow> cumulative_ingress" where
  "ingress_all ci [] = ci"
| "ingress_all ci (r # rs) = ingress_all (ingress_observe r ci) rs"

lemma ingress_all_latest: "rs \<noteq> [] \<Longrightarrow> ci_latest (ingress_all ci rs) = Some (last rs)"
  by (induction ci rs rule: ingress_all.induct) (auto simp: ingress_observe_def Let_def)

lemma ingress_all_totals:
  "it_interval_ms (ci_totals (ingress_all ci rs)) = it_interval_ms (ci_totals ci) + of_nat (\<Sum>r\<leftarrow>rs. unat (fr_interval_ms r))"
  "it_transport_dropped (ci_totals (ingress_all ci rs)) =
     it_transport_dropped (ci_totals ci) + of_nat (\<Sum>r\<leftarrow>rs. unat (fr_transport_dropped_delta r))"
  "it_frontend_dropped (ci_totals (ingress_all ci rs)) =
     it_frontend_dropped (ci_totals ci) + of_nat (\<Sum>r\<leftarrow>rs. unat (fr_frontend_dropped_delta r))"
  "it_decoder_dropped (ci_totals (ingress_all ci rs)) =
     it_decoder_dropped (ci_totals ci) + of_nat (\<Sum>r\<leftarrow>rs. unat (fr_decoder_dropped_delta r))"
  "it_presenter_dropped (ci_totals (ingress_all ci rs)) =
     it_presenter_dropped (ci_totals ci) + of_nat (\<Sum>r\<leftarrow>rs. unat (fr_presenter_dropped_delta r))"
  "it_resync_reports (ci_totals (ingress_all ci rs)) =
     it_resync_reports (ci_totals ci) + of_nat (length (filter has_resync rs))"
  by (induction ci rs rule: ingress_all.induct)
    (simp_all add: ingress_observe_def Let_def has_resync_def algebra_simps)

lemma capped_difference:
  assumes "S < 2 ^ 64"
  shows "(ucast (min ((t + of_nat S) - t) (C :: u64)) :: 'w::len word) = of_nat (min S (unat C))"
proof -
  have "unat (of_nat S :: u64) = S" using assms by (simp add: unat_of_nat_small)
  then have "unat (min (of_nat S) C) = min S (unat C)" by (simp add: min_def word_le_nat_alt)
  moreover have "(t + of_nat S) - t = of_nat S" by simp
  ultimately show ?thesis unfolding ucast_unat by simp
qed

lemma sum_list_bound: "\<forall>x \<in> set xs. f x \<le> b \<Longrightarrow> (\<Sum>x\<leftarrow>xs. f x) \<le> length xs * (b::nat)"
  by (induction xs) auto

lemma sums_small:
  assumes "length rs < 2 ^ 32"
  shows "(\<Sum>r\<leftarrow>rs. unat (f r :: u32)) < 2 ^ 64" "(\<Sum>r\<leftarrow>rs. unat (g r :: u16)) < 2 ^ 64"
proof -
  have "unat (f r) \<le> 2 ^ 32 - 1" "unat (g r) \<le> 2 ^ 32 - 1" for r
    using unat_lt2p [of "f r"] unat_lt2p [of "g r"] by simp_all
  then have "(\<Sum>r\<leftarrow>rs. unat (f r)) \<le> length rs * (2 ^ 32 - 1)" "(\<Sum>r\<leftarrow>rs. unat (g r)) \<le> length rs * (2 ^ 32 - 1)"
    by (simp_all add: sum_list_bound)
  moreover have "length rs * (2 ^ 32 - 1) < 2 ^ 64" using assms by simp
  ultimately show "(\<Sum>r\<leftarrow>rs. unat (f r)) < 2 ^ 64" "(\<Sum>r\<leftarrow>rs. unat (g r)) < 2 ^ 64" by linarith+
qed

lemma delta_aggregate:
  assumes "length rs < 2 ^ 32"
  shows "cumulative_feedback_delta (t + of_nat (\<Sum>r\<leftarrow>rs. unat (f r :: u32))) t = of_nat (sum_capped (\<lambda>r. unat (f r)) (2 ^ 32 - 1) rs)"
    "ucast (min ((t + of_nat (\<Sum>r\<leftarrow>rs. unat (g r :: u16))) - t) MEDIA_FEEDBACK_INTERVAL_MAX_MS) =
       (of_nat (sum_capped (\<lambda>r. unat (g r)) 5000 rs) :: u16)"
  using capped_difference [OF sums_small(1) [OF assms, of f], of t 4294967295, where 'w = 32]
    capped_difference [OF sums_small(2) [OF assms, of g], of t 5000, where 'w = 16]
  by (simp_all add: cumulative_feedback_delta_def sum_capped_def MEDIA_FEEDBACK_INTERVAL_MAX_MS_def)

text \<open>The summary of valid reports is itself a valid report.\<close>

lemma report_validate_iff:
  "report_validate r = Inr () \<longleftrightarrow> fr_report_id r \<noteq> 0 \<and> 250 \<le> unat (fr_interval_ms r) \<and> unat (fr_interval_ms r) \<le> 5000 \<and>
     feedback_flags_from_bits (feedback_bits (fr_flags r)) \<noteq> None \<and> fr_last_sequence r \<noteq> Some OPTIONAL_SEQUENCE_NONE \<and>
     validate_queue (fr_frontend_queue_depth r) (fr_frontend_queue_capacity r) = Inr () \<and>
     validate_queue (fr_decode_queue_depth r) (fr_decode_queue_capacity r) = Inr () \<and>
     validate_queue (fr_presenter_queue_depth r) (fr_presenter_queue_capacity r) = Inr () \<and>
     list_all latency_valid [fr_transport_delivery_p95_ms r, fr_decode_p95_ms r, fr_presentation_p95_ms r]"
  unfolding report_validate_def check_chain bind_res_eq_Inr MIN_FEEDBACK_INTERVAL_MS_def MAX_FEEDBACK_INTERVAL_MS_def
  by (auto simp: word_le_nat_alt)

lemma aggregate_valid:
  assumes "rs \<noteq> []" "\<forall>r \<in> set rs. report_validate r = Inr ()"
  shows "report_validate (aggregate_reports rs) = Inr ()"
proof -
  have l: "report_validate (last rs) = Inr ()" using assms by simp
  obtain r where r: "r \<in> set rs" using assms(1) by (cases rs) auto
  have "250 \<le> unat (fr_interval_ms r)" using assms(2) r by (simp add: report_validate_iff)
  also have "\<dots> \<le> (\<Sum>r\<leftarrow>rs. unat (fr_interval_ms r))" using r by (intro member_le_sum_list) auto
  finally have s: "250 \<le> sum_capped (\<lambda>r. unat (fr_interval_ms r)) 5000 rs" "sum_capped (\<lambda>r. unat (fr_interval_ms r)) 5000 rs \<le> 5000"
    by (simp_all add: sum_capped_def)
  have "unat (of_nat (sum_capped (\<lambda>r. unat (fr_interval_ms r)) 5000 rs) :: u16) = sum_capped (\<lambda>r. unat (fr_interval_ms r)) 5000 rs"
    by (rule unat_of_nat_small) (use s in simp)
  with l s show ?thesis
    unfolding report_validate_iff by (simp add: aggregate_reports_def feedback_flags_from_bits_def RESYNC_ACTIVE_def)
qed

lemma report_since_summary:
  assumes "rs \<noteq> []" "\<forall>r \<in> set rs. report_validate r = Inr ()" "length rs < 2 ^ 32"
    and "ig_totals cursor = ci_totals ci"
    and "case ig_last_report_id cursor of None \<Rightarrow> True | Some i \<Rightarrow> i < fr_report_id (last rs)"
  shows "report_since cursor (ingress_all ci rs) =
    Inr (Some (aggregate_reports rs,
      \<lparr>ig_last_report_id = Some (fr_report_id (last rs)), ig_totals = ci_totals (ingress_all ci rs)\<rparr>))"
proof -
  have "length (filter has_resync rs) < 2 ^ 64"
    by (rule le_less_trans [OF length_filter_le]) (use assms(3) in simp)
  then have "unat (of_nat (length (filter has_resync rs)) :: u64) = length (filter has_resync rs)"
    by (simp add: unat_of_nat_small)
  then have resync: "(0 :: u64) < of_nat (length (filter has_resync rs)) \<longleftrightarrow> list_ex has_resync rs"
    by (simp add: word_less_nat_alt list_ex_iff filter_empty_conv) 
  have new: "\<not> (case ig_last_report_id cursor of None \<Rightarrow> False | Some i \<Rightarrow> fr_report_id (last rs) \<le> i)"
    using assms(5) by (auto split: option.splits)
  have eq: "(last rs)\<lparr>
      fr_interval_ms := ucast (min (it_interval_ms (ci_totals (ingress_all ci rs)) - it_interval_ms (ig_totals cursor))
        MEDIA_FEEDBACK_INTERVAL_MAX_MS),
      fr_transport_dropped_delta := cumulative_feedback_delta
        (it_transport_dropped (ci_totals (ingress_all ci rs))) (it_transport_dropped (ig_totals cursor)),
      fr_frontend_dropped_delta := cumulative_feedback_delta
        (it_frontend_dropped (ci_totals (ingress_all ci rs))) (it_frontend_dropped (ig_totals cursor)),
      fr_decoder_dropped_delta := cumulative_feedback_delta
        (it_decoder_dropped (ci_totals (ingress_all ci rs))) (it_decoder_dropped (ig_totals cursor)),
      fr_presenter_dropped_delta := cumulative_feedback_delta
        (it_presenter_dropped (ci_totals (ingress_all ci rs))) (it_presenter_dropped (ig_totals cursor)),
      fr_flags := (if 0 < it_resync_reports (ci_totals (ingress_all ci rs)) - it_resync_reports (ig_totals cursor)
        then RESYNC_ACTIVE else MediaFeedbackFlags 0)\<rparr> = aggregate_reports rs"
    unfolding assms(4) ingress_all_totals delta_aggregate [OF assms(3)]
    unfolding add_diff_cancel_left' resync aggregate_reports_def ..
  show ?thesis
    unfolding report_since_def ingress_all_latest [OF assms(1)] option.case Let_def eq aggregate_valid [OF assms(1,2)]
    using new by simp
qed

text \<open>
  C26: The ingress loses nothing. Whatever reports arrive between two reads, the reader gets exactly
  the summary of all of them (interval and drop counters added up and clamped, a resynchronisation
  in any of them kept, the rest from the latest), the summary is a valid report, and the new cursor
  starts at the totals just read. The read cannot fail.
\<close>

theorem ingress_equals_summary:
  assumes "rs \<noteq> []" "\<forall>r \<in> set rs. report_validate r = Inr ()" "length rs < 2 ^ 32"
    and "ig_totals cursor = ci_totals ci"
    and "case ig_last_report_id cursor of None \<Rightarrow> True | Some i \<Rightarrow> i < fr_report_id (last rs)"
  shows "report_since cursor (ingress_all ci rs) =
    Inr (Some (aggregate_reports rs,
      \<lparr>ig_last_report_id = Some (fr_report_id (last rs)), ig_totals = ci_totals (ingress_all ci rs)\<rparr>))"
  by (rule report_since_summary [OF assms])

text \<open>The premises hold, for example, for two reports and a fresh cursor.\<close>

definition ingress_demo_report :: "u64 \<Rightarrow> u32 \<Rightarrow> media_feedback_report" where
  "ingress_demo_report i drops = \<lparr>fr_report_id = i, fr_interval_ms = 1000, fr_flags = MediaFeedbackFlags 0,
     fr_last_sequence = None, fr_transport_dropped_delta = drops, fr_frontend_dropped_delta = 0,
     fr_decoder_dropped_delta = 0, fr_presenter_dropped_delta = 0, fr_frontend_queue_depth = 0,
     fr_frontend_queue_capacity = 4, fr_decode_queue_depth = 0, fr_decode_queue_capacity = 4,
     fr_presenter_queue_depth = 0, fr_presenter_queue_capacity = 4, fr_transport_delivery_p95_ms = None,
     fr_decode_p95_ms = None, fr_presentation_p95_ms = None\<rparr>"

theorem ingress_equals_summary_witness:
  "\<exists>cursor. report_since cursor_default
       (ingress_all ingress_default [ingress_demo_report 1 4294967290, ingress_demo_report 2 10]) =
     Inr (Some ((ingress_demo_report 2 4294967295)\<lparr>fr_interval_ms := 2000\<rparr>, cursor))"
proof -
  have v: "\<forall>r \<in> set [ingress_demo_report 1 4294967290, ingress_demo_report 2 10]. report_validate r = Inr ()"
    by (simp add: report_validate_iff ingress_demo_report_def feedback_flags_from_bits_def validate_queue_def
        MAX_FEEDBACK_QUEUE_CAPACITY_def latency_valid_def)
  have "aggregate_reports [ingress_demo_report 1 4294967290, ingress_demo_report 2 10] =
      (ingress_demo_report 2 4294967295)\<lparr>fr_interval_ms := 2000\<rparr>"
    by (simp add: aggregate_reports_def ingress_demo_report_def sum_capped_def has_resync_def
        feedback_flags_contains_def RESYNC_ACTIVE_def)
  with ingress_equals_summary [OF _ v, of cursor_default ingress_default] show ?thesis
    by (simp add: cursor_default_def ingress_default_def)
qed

section \<open>When a viewer is detached\<close>

type_synonym recovery_entry = "instant \<times> bitrate_evaluation \<times> recovery_mutation"

fun recovery_run :: "recovery_state \<Rightarrow> (bitrate_evaluation \<times> instant) list \<Rightarrow> recovery_entry list" where
  "recovery_run st [] = []"
| "recovery_run st ((e, now) # xs) =
     (case recovery_observe e now st of (st', m) \<Rightarrow> (now, e, m) # recovery_run st' xs)"

abbreviation count_of :: "(bitrate_evaluation \<Rightarrow> bool) \<Rightarrow> recovery_entry list \<Rightarrow> nat" where
  "count_of P xs \<equiv> length (filter (\<lambda>(t, e, m). P e) xs)"

abbreviation uneventful :: "recovery_entry list \<Rightarrow> bool" where
  "uneventful xs \<equiv> list_all (\<lambda>(t, e, m). m = RM_None) xs"

text \<open>One and two recovery attempts at the end of a history, the pressure since the last one counted.\<close>

definition one_attempt :: "recovery_entry list \<Rightarrow> instant \<Rightarrow> nat \<Rightarrow> bool" where
  "one_attempt us retry_at pressure \<longleftrightarrow> (\<exists>a t0 e0 b. us = a @ (t0, e0, RM_RequestRecovery) # b \<and> uneventful b \<and>
     3 \<le> count_of window_at_floor (a @ [(t0, e0, RM_RequestRecovery)]) \<and>
     retry_at = t0 + from_secs 2 \<and> pressure \<le> count_of window_pressured b)"

definition two_attempts :: "recovery_entry list \<Rightarrow> instant \<Rightarrow> nat \<Rightarrow> bool" where
  "two_attempts us retry_at pressure \<longleftrightarrow> (\<exists>us' t1 e1 b r p. us = us' @ (t1, e1, RM_RequestRecovery) # b \<and> uneventful b \<and>
     one_attempt us' r p \<and> r \<le> t1 \<and> 3 \<le> p + (if window_pressured e1 then 1 else 0) \<and>
     retry_at = t1 + from_secs 4 \<and> pressure \<le> count_of window_pressured b)"

fun recovery_inv :: "recovery_entry list \<Rightarrow> recovery_state \<Rightarrow> bool" where
  "recovery_inv us (Recovery_Active k) = (unat k \<le> count_of window_at_floor us)"
| "recovery_inv us (Recovering attempt retry_at clean pressure) =
     (attempt = 1 \<and> one_attempt us retry_at (unat pressure) \<or> attempt = 2 \<and> two_attempts us retry_at (unat pressure))"
| "recovery_inv us Recovery_Detaching = True"

lemma attempts_uneventful:
  "one_attempt us r p \<Longrightarrow> q \<le> p + (if window_pressured e then 1 else 0) \<Longrightarrow> one_attempt (us @ [(t, e, RM_None)]) r q"
  "two_attempts us r p \<Longrightarrow> q \<le> p + (if window_pressured e then 1 else 0) \<Longrightarrow> two_attempts (us @ [(t, e, RM_None)]) r q"
proof -
  assume "one_attempt us r p" and q: "q \<le> p + (if window_pressured e then 1 else 0)"
  then obtain a t0 e0 b where o: "us = a @ (t0, e0, RM_RequestRecovery) # b" "uneventful b"
     "3 \<le> count_of window_at_floor (a @ [(t0, e0, RM_RequestRecovery)])" "r = t0 + from_secs 2"
     "p \<le> count_of window_pressured b" unfolding one_attempt_def by blast
  have "q \<le> count_of window_pressured (b @ [(t, e, RM_None)])" using o(5) q by (auto split: if_splits)
  with o show "one_attempt (us @ [(t, e, RM_None)]) r q"
    unfolding one_attempt_def by (intro exI [of _ a] exI [of _ t0] exI [of _ e0] exI [of _ "b @ [(t, e, RM_None)]"]) simp
next
  assume "two_attempts us r p" and q: "q \<le> p + (if window_pressured e then 1 else 0)"
  then obtain us' t1 e1 b r' p' where o: "us = us' @ (t1, e1, RM_RequestRecovery) # b" "uneventful b" "one_attempt us' r' p'"
     "r' \<le> t1" "3 \<le> p' + (if window_pressured e1 then 1 else 0)" "r = t1 + from_secs 4"
     "p \<le> count_of window_pressured b" unfolding two_attempts_def by blast
  have "q \<le> count_of window_pressured (b @ [(t, e, RM_None)])" using o(7) q by (auto split: if_splits)
  with o show "two_attempts (us @ [(t, e, RM_None)]) r q"
    unfolding two_attempts_def
    by (intro exI [of _ us'] exI [of _ t1] exI [of _ e1] exI [of _ "b @ [(t, e, RM_None)]"] exI [of _ r'] exI [of _ p']) simp
qed

lemma unat_inc_bound: "unat (saturating_add (k :: u8) 1) \<le> unat k + 1"
  using unat_lt2p [of k] by (auto simp: saturating_add_def unat_word_ariths unsigned_minus_1_eq_mask mask_eq_exp_minus_1)

lemma floor_is_pressured: "window_at_floor e \<Longrightarrow> window_pressured e"
  by (simp add: window_at_floor_def window_pressured_def)

lemma recovery_step:
  assumes "recovery_inv us st" "recovery_observe e now st = (st', m)"
  shows "recovery_inv (us @ [(now, e, m)]) st'"
    "m = RM_Detach \<Longrightarrow> \<exists>r p. two_attempts us r p \<and> r \<le> now \<and> window_pressured e \<and> 2 \<le> p"
proof -
  have "recovery_inv (us @ [(now, e, m)]) st' \<and>
    (m = RM_Detach \<longrightarrow> (\<exists>r p. two_attempts us r p \<and> r \<le> now \<and> window_pressured e \<and> 2 \<le> p))"
  proof (cases st)
    case (Recovery_Active k)
    define n where "n = (if window_at_floor e then saturating_add k 1 else 0)"
    have n: "unat n \<le> count_of window_at_floor (us @ [(now, e, m)])"
      using assms(1) unat_inc_bound [of k] by (auto simp: n_def Recovery_Active)
    show ?thesis
    proof (cases "n < FLOOR_BREACH_WINDOWS")
      case True
      then show ?thesis using assms(2) n by (auto simp: Recovery_Active n_def [symmetric] Let_def)
    next
      case False
      then have "3 \<le> unat n" by (simp add: FLOOR_BREACH_WINDOWS_def word_le_nat_alt not_less)
      with n have "one_attempt (us @ [(now, e, RM_RequestRecovery)]) (now + from_secs 2) 0"
        unfolding one_attempt_def by (intro exI [of _ us] exI [of _ now] exI [of _ e] exI [of _ "[]"]) auto
      then show ?thesis
        using assms(2) False by (auto simp: Recovery_Active n_def [symmetric] Let_def ISOLATED_RECOVERY_BACKOFF_def)
    qed
  next
    case (Recovering attempt retry_at clean pressure)
    define q where "q = saturating_add pressure 1"
    have q: "unat q \<le> unat pressure + 1" using unat_inc_bound by (simp add: q_def)
    have inv: "attempt = 1 \<and> one_attempt us retry_at (unat pressure) \<or> attempt = 2 \<and> two_attempts us retry_at (unat pressure)"
      using assms(1) by (simp add: Recovering)
    have stay: "recovery_inv (us @ [(now, e, RM_None)]) (Recovering attempt retry_at c p)"
      if "unat p \<le> unat pressure + (if window_pressured e then 1 else 0)" for c p
      using inv attempts_uneventful [OF _ that] by auto
    consider (wait) "now < retry_at" | (clean) "\<not> now < retry_at" "window_clean e"
      | (pressed) "\<not> now < retry_at" "\<not> window_clean e" "window_pressured e"
      | (other) "\<not> now < retry_at" "\<not> window_clean e" "\<not> window_pressured e" by blast
    then show ?thesis
    proof cases
      case wait
      then show ?thesis using assms(2) stay [of pressure clean] by (auto simp: Recovering)
    next
      case clean
      then show ?thesis using assms(2) stay [of 0]
        by (auto simp: Recovering Let_def recovery_default_def split: if_splits)
    next
      case other
      then show ?thesis using assms(2) stay [of 0 0] by (auto simp: Recovering)
    next
      case pressed
      show ?thesis
      proof (cases "ISOLATED_RECOVERY_PRESSURE_WINDOWS \<le> q")
        case False
        then show ?thesis using assms(2) pressed stay [of q 0] q
          by (auto simp: Recovering q_def [symmetric] Let_def)
      next
        case True
        then have p: "2 \<le> unat pressure"
          using q by (simp add: ISOLATED_RECOVERY_PRESSURE_WINDOWS_def word_le_nat_alt)
        show ?thesis
        proof (cases "attempt = 2")
          case True
          then show ?thesis using assms(2) pressed \<open>_ \<le> q\<close> p inv
            by (auto simp: Recovering q_def [symmetric] Let_def ISOLATED_RECOVERY_MAX_ATTEMPTS_def not_less)
        next
          case False
          then have one: "attempt = 1" "one_attempt us retry_at (unat pressure)" using inv by auto
          have "saturating_add (1 :: u8) 1 = 2" "\<not> (2 :: u8) \<le> 1" by (simp_all add: saturating_add_def word_le_nat_alt)
          moreover have "two_attempts (us @ [(now, e, RM_RequestRecovery)]) (now + from_secs 4) 0"
            unfolding two_attempts_def using one(2) pressed p
            by (intro exI [of _ us] exI [of _ now] exI [of _ e] exI [of _ "[]"] exI [of _ retry_at] exI [of _ "unat pressure"]) auto
          ultimately show ?thesis using assms(2) pressed \<open>_ \<le> q\<close>
            by (auto simp: Recovering q_def [symmetric] Let_def one(1) ISOLATED_RECOVERY_MAX_ATTEMPTS_def
                ISOLATED_RECOVERY_BACKOFF_def from_secs_def)
        qed
      qed
    qed
  next
    case Recovery_Detaching
    then show ?thesis using assms(2) by auto
  qed
  then show "recovery_inv (us @ [(now, e, m)]) st'"
    "m = RM_Detach \<Longrightarrow> \<exists>r p. two_attempts us r p \<and> r \<le> now \<and> window_pressured e \<and> 2 \<le> p" by blast+
qed

lemma recovery_run_detach:
  assumes "recovery_inv hist st" "recovery_run st xs = us @ (t, e, RM_Detach) # vs"
  shows "\<exists>r p. two_attempts (hist @ us) r p \<and> r \<le> t \<and> window_pressured e \<and> 2 \<le> p"
  using assms
proof (induction st xs arbitrary: hist us rule: recovery_run.induct)
  case (2 st e' now xs)
  obtain st' m where o: "recovery_observe e' now st = (st', m)" by (metis prod.exhaust)
  note s = recovery_step [OF "2.prems"(1) o]
  have l: "(now, e', m) # recovery_run st' xs = us @ (t, e, RM_Detach) # vs" using "2.prems"(2) by (simp add: o)
  show ?case
  proof (cases us)
    case Nil
    with l s(2) show ?thesis by auto
  next
    case (Cons u us')
    with l have "u = (now, e', m)" "recovery_run st' xs = us' @ (t, e, RM_Detach) # vs" by auto
    with "2.IH" [OF o [symmetric] s(1)] show ?thesis by (simp add: Cons)
  qed
qed simp

text \<open>
  C27: Nobody is detached in haste. In every history of a viewer, a detachment is preceded by two
  recovery requests with nothing but waiting windows after each of them: before the first there were
  at least three fresh severe windows at the bitrate floor, after each backoff (two seconds, then
  four) at least three fresh windows under pressure. So a viewer is detached at the earliest six
  seconds after it was isolated, and no recovery happened in between.
\<close>

theorem detachment_needs_two_failed_recoveries:
  assumes "recovery_run recovery_default xs = us @ (t, e, RM_Detach) # vs"
  shows "\<exists>a t0 e0 b t1 e1 c.
    us = a @ (t0, e0, RM_RequestRecovery) # b @ (t1, e1, RM_RequestRecovery) # c \<and> uneventful b \<and> uneventful c \<and>
    3 \<le> count_of window_at_floor (a @ [(t0, e0, RM_RequestRecovery)]) \<and>
    t0 + from_secs 2 \<le> t1 \<and> 3 \<le> count_of window_pressured (b @ [(t1, e1, RM_RequestRecovery)]) \<and>
    t1 + from_secs 4 \<le> t \<and> 3 \<le> count_of window_pressured (c @ [(t, e, RM_Detach)])"
proof -
  have "recovery_inv [] recovery_default" by (simp add: recovery_default_def)
  from recovery_run_detach [OF this assms] obtain r p where
    d: "two_attempts us r p" "r \<le> t" "window_pressured e" "2 \<le> p" by auto
  from d(1) obtain us' t1 e1 c r' p' where two: "us = us' @ (t1, e1, RM_RequestRecovery) # c" "uneventful c"
    "one_attempt us' r' p'" "r' \<le> t1" "3 \<le> p' + (if window_pressured e1 then 1 else 0)" "r = t1 + from_secs 4"
    "p \<le> count_of window_pressured c" unfolding two_attempts_def by blast
  from two(3) obtain a t0 e0 b where one: "us' = a @ (t0, e0, RM_RequestRecovery) # b" "uneventful b"
    "3 \<le> count_of window_at_floor (a @ [(t0, e0, RM_RequestRecovery)])" "r' = t0 + from_secs 2"
    "p' \<le> count_of window_pressured b" unfolding one_attempt_def by blast
  have "us = a @ (t0, e0, RM_RequestRecovery) # b @ (t1, e1, RM_RequestRecovery) # c" using two(1) one(1) by simp
  moreover have "3 \<le> count_of window_pressured (b @ [(t1, e1, RM_RequestRecovery)])"
    using two(5) one(5) by (auto split: if_splits)
  moreover have "3 \<le> count_of window_pressured (c @ [(t, e, RM_Detach)])" using two(7) d(3,4) by simp
  moreover have "t0 + from_secs 2 \<le> t1" "t1 + from_secs 4 \<le> t" using two(4,6) one(4) d(2) by simp_all
  ultimately show ?thesis using two(2) one(2,3) by blast
qed

definition recovery_demo_evaluation :: bitrate_evaluation where
  "recovery_demo_evaluation = \<lparr>be_decision = \<lparr>bd_decision_id = 1, bd_report_id = 1, bd_target_kbps = 1000, bd_floor_kbps = 1000,
     bd_ceiling_kbps = 12000, bd_state = AB_Hold, bd_reasons = REASON_RECEIVER_QUEUE, bd_applied = False\<rparr>,
     be_pressure_severity = FS_Severe, be_clean_recovery_evidence = False, be_fresh = True\<rparr>"

text \<open>Severe windows, one per second: isolated at 3 s, second attempt at 7 s, detached at 13 s.\<close>

definition recovery_demo_history :: "recovery_entry list" where
  "recovery_demo_history = map (\<lambda>(s, m). (s * 1000000000, recovery_demo_evaluation, m))
     [(1, RM_None), (2, RM_None), (3, RM_RequestRecovery), (4, RM_None), (5, RM_None), (6, RM_None),
      (7, RM_RequestRecovery), (8, RM_None), (9, RM_None), (10, RM_None), (11, RM_None), (12, RM_None)]"

lemma recovery_demo_step:
  "window_at_floor recovery_demo_evaluation" "window_pressured recovery_demo_evaluation" "\<not> window_clean recovery_demo_evaluation"
  by (simp_all add: window_at_floor_def window_pressured_def window_clean_def recovery_demo_evaluation_def)

lemma recovery_demo_run:
  "recovery_run recovery_default (map (\<lambda>s. (recovery_demo_evaluation, s * 1000000000)) [1, 2, 3, 4, 5, 6, 7, 8, 9, 10, 11, 12, 13]) =
     recovery_demo_history @ [(13000000000, recovery_demo_evaluation, RM_Detach)]"
proof -
  have c: "saturating_add 0 1 = (1 :: u8)" "saturating_add 1 1 = (2 :: u8)" "saturating_add 2 1 = (3 :: u8)"
    "(1 :: u8) < 3" "(2 :: u8) < 3" "\<not> (3 :: u8) \<le> 1" "\<not> (3 :: u8) \<le> 2" "\<not> (2 :: u8) \<le> 1"
    by (simp_all add: saturating_add_def word_le_nat_alt word_less_nat_alt)
  show ?thesis
    by (simp add: recovery_default_def recovery_demo_step c FLOOR_BREACH_WINDOWS_def ISOLATED_RECOVERY_BACKOFF_def
        ISOLATED_RECOVERY_PRESSURE_WINDOWS_def ISOLATED_RECOVERY_MAX_ATTEMPTS_def from_secs_def recovery_demo_history_def)
qed

theorem detachment_needs_two_failed_recoveries_witness:
  "\<exists>a t0 e0 b. recovery_demo_history = a @ (t0, e0, RM_RequestRecovery) # b \<and> t0 + from_secs 6 \<le> 13000000000"
proof -
  obtain a t0 e0 b t1 e1 c where "recovery_demo_history = a @ (t0, e0, RM_RequestRecovery) # b @ (t1, e1, RM_RequestRecovery) # c"
    "t0 + from_secs 2 \<le> t1" "t1 + from_secs 4 \<le> 13000000000"
    using detachment_needs_two_failed_recoveries [of _ recovery_demo_history 13000000000 recovery_demo_evaluation "[]",
        OF recovery_demo_run] by blast
  moreover from this have "t0 + from_secs 6 \<le> 13000000000" by (simp add: from_secs_def)
  ultimately show ?thesis by blast
qed

end
