(* ===== verification/Generation_Adaptive.thy ===== *)
theory Generation_Adaptive
  imports Feedback_Ingress Motion_Resolution Session_Registry
begin

text \<open>
  The coordinator of a shared media generation (\<open>GenerationAdaptiveCoordinator\<close> in
  \<open>crates/sigil-host/src/server/adaptive.rs\<close>): one ingress, controller and recovery state per
  viewer, and one target bitrate for the one encoder all of them watch. The mutex-protected state is
  passed explicitly; \<open>evaluate\<close> is one pass of the task loop. The map of contributors is an
  association list in the (unspecified) iteration order of the \<open>HashMap\<close>; the watch channels of a
  contributor are the last value sent.
\<close>

section \<open>State\<close>

type_synonym contributor_key = "endpoint_id \<times> u64"

record generation_contributor =
  gk_authorization_revision :: u64
  gk_ingress :: cumulative_ingress
  gk_cursor :: ingress_cursor
  gk_controller :: bitrate_controller
  gk_latest_report :: "media_feedback_report option"
  gk_latest_evaluation :: "bitrate_evaluation option"
  gk_last_received_at :: "instant option"
  gk_recovery :: recovery_state
  gk_decision :: "adaptive_bitrate_decision option"
  gk_detach :: bool

record generation_adaptive =
  ga_generation_id :: u64
  ga_ceiling_kbps :: u32
  ga_contributors :: "(contributor_key \<times> generation_contributor) list"
  ga_next_decision_id :: u64
  ga_target_kbps :: u32
  ga_recovering_viewers :: nat
  ga_encoder_actuation_available :: bool

definition update_recovering_count :: "generation_adaptive \<Rightarrow> generation_adaptive" where
  "update_recovering_count ga = ga\<lparr>ga_recovering_viewers :=
     length (filter (\<lambda>(k, c). \<not> recovery_contributes (gk_recovery c)) (ga_contributors ga))\<rparr>"

text \<open>The ceiling is the configured bitrate rounded down to the quantum; below the floor it is an error.\<close>

definition adaptive_ceiling :: "u32 \<Rightarrow> u32 host" where
  "adaptive_ceiling configured =
     (let ceiling_kbps = quantize_down configured in
      bind_res (ensure_that (ADAPTIVE_BITRATE_FLOOR_KBPS \<le> ceiling_kbps)
        (Host ''adaptive bitrate ceiling is below the 1000 kbps floor'')) (\<lambda>_. Inr ceiling_kbps))"

definition coordinator_start :: "u32 \<Rightarrow> u64 \<Rightarrow> bool \<Rightarrow> generation_adaptive host" where
  "coordinator_start configured generation actuation =
     bind_res (adaptive_ceiling configured) (\<lambda>ceiling_kbps.
     Inr \<lparr>ga_generation_id = generation, ga_ceiling_kbps = ceiling_kbps, ga_contributors = [],
          ga_next_decision_id = 1, ga_target_kbps = ceiling_kbps, ga_recovering_viewers = 0,
          ga_encoder_actuation_available = actuation\<rparr>)"

definition contributor_new :: "u64 \<Rightarrow> u32 \<Rightarrow> media_telemetry_snapshot \<Rightarrow> generation_contributor" where
  "contributor_new revision ceiling_kbps telemetry =
     \<lparr>gk_authorization_revision = revision, gk_ingress = ingress_default, gk_cursor = cursor_default,
      gk_controller = bitrate_controller_new ceiling_kbps telemetry, gk_latest_report = None,
      gk_latest_evaluation = None, gk_last_received_at = None, gk_recovery = recovery_default,
      gk_decision = None, gk_detach = False\<rparr>"

definition register_contributor ::
  "endpoint_id \<Rightarrow> u64 \<Rightarrow> u64 \<Rightarrow> u64 \<Rightarrow> media_telemetry_snapshot \<Rightarrow> generation_adaptive \<Rightarrow> generation_adaptive \<times> contributor_key host" where
  "register_contributor remote session revision media_generation telemetry ga =
     (if media_generation \<noteq> ga_generation_id ga
      then (ga, Inl (Host ''feedback media generation does not match the shared generation''))
      else if revision = 0 then (ga, Inl (Host ''feedback authorization revision must be non-zero''))
      else if \<not> (length (ga_contributors ga) < MAX_VIEWERS \<or> map_of (ga_contributors ga) (remote, session) \<noteq> None)
      then (ga, Inl (Host ''generation feedback contributor capacity is full''))
      else (update_recovering_count (ga\<lparr>ga_contributors := AList.update (remote, session)
              (contributor_new revision (ga_ceiling_kbps ga) telemetry) (ga_contributors ga)\<rparr>), Inr (remote, session)))"

definition unregister_contributor :: "contributor_key \<Rightarrow> u64 \<Rightarrow> generation_adaptive \<Rightarrow> generation_adaptive" where
  "unregister_contributor key revision ga =
     (case map_of (ga_contributors ga) key of
        Some c \<Rightarrow> if gk_authorization_revision c = revision
          then update_recovering_count (ga\<lparr>ga_contributors := AList.delete key (ga_contributors ga)\<rparr>) else ga
      | None \<Rightarrow> ga)"

definition registration_observe ::
  "contributor_key \<Rightarrow> u64 \<Rightarrow> media_feedback_report \<Rightarrow> generation_adaptive \<Rightarrow> generation_adaptive \<times> unit host" where
  "registration_observe key revision report ga =
     (case report_validate report of Inl e \<Rightarrow> (ga, Inl (Protocol e)) | Inr _ \<Rightarrow>
      (case map_of (ga_contributors ga) key of
         None \<Rightarrow> (ga, Inl (Host ''feedback contributor no longer matches the active viewer generation''))
       | Some c \<Rightarrow> if gk_authorization_revision c \<noteq> revision
           then (ga, Inl (Host ''feedback contributor no longer matches the active viewer generation''))
           else (ga\<lparr>ga_contributors := AList.update key (c\<lparr>gk_ingress := ingress_observe report (gk_ingress c)\<rparr>)
                  (ga_contributors ga)\<rparr>, Inr ())))"

section \<open>One pass\<close>

text \<open>
  The body of the loop over the contributors: the result says whether the contributor had a new
  window and whether it asks for a recovery key frame. A detachment is signalled only when the
  encoder really follows the decisions.
\<close>

definition evaluate_contributor ::
  "media_telemetry_snapshot \<Rightarrow> instant \<Rightarrow> bool \<Rightarrow> generation_contributor \<Rightarrow> generation_contributor \<times> (bool \<times> bool) host" where
  "evaluate_contributor telemetry now actuation c =
     (case report_since (gk_cursor c) (gk_ingress c) of
        Inl e \<Rightarrow> (c, Inl (Protocol e))
      | Inr None \<Rightarrow> (c, Inr (False, False))
      | Inr (Some (report, next_cursor)) \<Rightarrow>
          (case bitrate_evaluate (gk_controller c) report telemetry now of
             (controller, Inl e) \<Rightarrow> (c\<lparr>gk_cursor := next_cursor, gk_controller := controller\<rparr>, Inl e)
           | (controller, Inr evaluation) \<Rightarrow>
               (case recovery_observe evaluation now (gk_recovery c) of (recovery, mutation) \<Rightarrow>
                  (c\<lparr>gk_cursor := next_cursor, gk_controller := controller, gk_recovery := recovery,
                     gk_detach := gk_detach c \<or> (mutation = RM_Detach \<and> actuation),
                     gk_latest_report := Some report, gk_latest_evaluation := Some evaluation,
                     gk_last_received_at := Some now\<rparr>,
                   Inr (True, mutation = RM_RequestRecovery)))))"

fun evaluate_contributors ::
  "(contributor_key \<Rightarrow> media_telemetry_snapshot) \<Rightarrow> instant \<Rightarrow> bool \<Rightarrow> (contributor_key \<times> generation_contributor) list \<Rightarrow>
   (contributor_key \<times> generation_contributor) list \<times> (contributor_key list \<times> bool) host" where
  "evaluate_contributors snapshots now actuation [] = ([], Inr ([], False))"
| "evaluate_contributors snapshots now actuation ((key, c) # cs) =
     (case evaluate_contributor (snapshots key) now actuation c of
        (c', Inl e) \<Rightarrow> ((key, c') # cs, Inl e)
      | (c', Inr (changed, request)) \<Rightarrow>
          (case evaluate_contributors snapshots now actuation cs of
             (cs', Inl e) \<Rightarrow> ((key, c') # cs', Inl e)
           | (cs', Inr (keys, requests)) \<Rightarrow>
               ((key, c') # cs', Inr (if changed then key # keys else keys, request \<or> requests))))"

definition contributor_active :: "instant \<Rightarrow> generation_contributor \<Rightarrow> bool" where
  "contributor_active now c \<longleftrightarrow> recovery_contributes (gk_recovery c) \<and>
     (case gk_last_received_at c of None \<Rightarrow> False | Some received \<Rightarrow> now - received \<le> FEEDBACK_STALE_ARRIVAL_GAP) \<and>
     (case gk_latest_evaluation c of None \<Rightarrow> False | Some evaluation \<Rightarrow> be_fresh evaluation)"

fun active_windows ::
  "instant \<Rightarrow> (contributor_key \<times> generation_contributor) list \<Rightarrow> (bitrate_evaluation \<times> media_feedback_report) list" where
  "active_windows now [] = []"
| "active_windows now ((key, c) # cs) =
     (case (contributor_active now c, gk_latest_evaluation c, gk_latest_report c) of
        (True, Some evaluation, Some report) \<Rightarrow> (evaluation, report) # active_windows now cs
      | _ \<Rightarrow> active_windows now cs)"

definition aggregate_target_and_clean ::
  "(bitrate_evaluation \<times> media_feedback_report) list \<Rightarrow> u32 \<Rightarrow> u32 \<Rightarrow> u32 \<times> bool" where
  "aggregate_target_and_clean active current_target_kbps ceiling_kbps =
     (let targets = map (\<lambda>(evaluation, _). bd_target_kbps (be_decision evaluation)) active;
          lowest = (if targets = [] then current_target_kbps else Min (set targets));
          all_clean = (active \<noteq> [] \<and> list_all (\<lambda>(evaluation, _).
            be_pressure_severity evaluation = FS_Clean \<and> be_clean_recovery_evidence evaluation) active)
      in (clamp lowest ADAPTIVE_BITRATE_FLOOR_KBPS ceiling_kbps, all_clean))"

definition feedback_severity_rank :: "feedback_severity \<Rightarrow> nat" where
  "feedback_severity_rank severity =
     (case severity of FS_Clean \<Rightarrow> 0 | FS_InsufficientEvidence \<Rightarrow> 1 | FS_Moderate \<Rightarrow> 2 | FS_Severe \<Rightarrow> 3 | FS_Stale \<Rightarrow> 4)"

text \<open>\<open>max_by_key\<close> returns the last of several maximal elements.\<close>

fun worst_window ::
  "(bitrate_evaluation \<times> media_feedback_report) list \<Rightarrow> (bitrate_evaluation \<times> media_feedback_report) option" where
  "worst_window [] = None"
| "worst_window (x # xs) =
     (case worst_window xs of
        None \<Rightarrow> Some x
      | Some y \<Rightarrow> if feedback_severity_rank (be_pressure_severity (fst x)) \<le> feedback_severity_rank (be_pressure_severity (fst y))
                  then Some y else Some x)"

record adaptive_commit_plan =
  cp_decision :: adaptive_bitrate_decision
  cp_telemetry :: media_telemetry_snapshot
  cp_resolution_decision :: "motion_decision option"
  cp_force_keyframe :: bool

record generation_update =
  gu_plan :: adaptive_commit_plan
  gu_request_recovery :: bool
  gu_decision_id :: u64
  gu_last_sequence :: "u64 option"

text \<open>Every viewer whose window was evaluated gets a decision of its own with the shared target.\<close>

fun publish_decisions ::
  "u32 \<Rightarrow> adaptive_bitrate_state \<Rightarrow> bool \<Rightarrow> contributor_key list \<Rightarrow> generation_adaptive \<Rightarrow> generation_adaptive \<times> unit host" where
  "publish_decisions target_kbps global_state applied [] ga = (ga, Inr ())"
| "publish_decisions target_kbps global_state applied (key # keys) ga =
     (case map_of (ga_contributors ga) key of
        None \<Rightarrow> publish_decisions target_kbps global_state applied keys ga
      | Some c \<Rightarrow>
        (case gk_latest_evaluation c of
           None \<Rightarrow> publish_decisions target_kbps global_state applied keys ga
         | Some evaluation \<Rightarrow>
           (case checked_add (ga_next_decision_id ga) 1 of
              None \<Rightarrow> (ga, Inl (Host ''generation adaptive decision ID exhausted''))
            | Some next_id \<Rightarrow>
              let decision = \<lparr>bd_decision_id = ga_next_decision_id ga, bd_report_id = bd_report_id (be_decision evaluation),
                    bd_target_kbps = target_kbps, bd_floor_kbps = ADAPTIVE_BITRATE_FLOOR_KBPS,
                    bd_ceiling_kbps = ga_ceiling_kbps ga, bd_state = global_state,
                    bd_reasons = bd_reasons (be_decision evaluation), bd_applied = applied\<rparr> in
              bind_op (ga\<lparr>ga_next_decision_id := next_id\<rparr>, lift_proto (decision_validate decision)) (\<lambda>ga _.
              publish_decisions target_kbps global_state applied keys
                (ga\<lparr>ga_contributors := AList.update key (c\<lparr>gk_decision := Some decision\<rparr>) (ga_contributors ga)\<rparr>)))))"

definition target_state :: "u32 \<Rightarrow> u32 \<Rightarrow> adaptive_bitrate_state" where
  "target_state previous_kbps target_kbps =
     (if target_kbps < previous_kbps then AB_Decrease else if previous_kbps < target_kbps then AB_Increase else AB_Hold)"

definition commit_aggregate ::
  "instant \<Rightarrow> media_telemetry_snapshot \<Rightarrow> bool \<Rightarrow> motion_policy option \<Rightarrow> contributor_key list \<Rightarrow> bool \<Rightarrow>
   (bitrate_evaluation \<times> media_feedback_report) list \<Rightarrow> u32 \<Rightarrow> bool \<Rightarrow> generation_adaptive \<Rightarrow>
   (generation_adaptive \<times> motion_policy option) \<times> generation_update option host" where
  "commit_aggregate now telemetry applied policy changed_keys request_recovery active target_kbps all_clean ga =
     (let global_state = target_state (ga_target_kbps ga) target_kbps;
          ga1 = ga\<lparr>ga_target_kbps := target_kbps\<rparr>;
          worst = worst_window active;
          evaluation = map_option (\<lambda>w. (fst w)\<lparr>be_clean_recovery_evidence := all_clean\<rparr>) worst;
          report = map_option snd worst;
          reasons = (case worst of Some w \<Rightarrow> bd_reasons (be_decision (fst w)) | None \<Rightarrow> REASON_FEEDBACK_STALE);
          (policy', resolution) = (case (policy, worst, evaluation) of
             (Some mp, Some w, Some e) \<Rightarrow> (case observe_window (snd w) e now mp of (mp', d) \<Rightarrow> (Some mp', Some d))
           | _ \<Rightarrow> (policy, None));
          plan = \<lparr>cp_decision = \<lparr>bd_decision_id = ga_next_decision_id ga1,
              bd_report_id = (case report of Some r \<Rightarrow> fr_report_id r | None \<Rightarrow> 1), bd_target_kbps = target_kbps,
              bd_floor_kbps = ADAPTIVE_BITRATE_FLOOR_KBPS, bd_ceiling_kbps = ga_ceiling_kbps ga1,
              bd_state = global_state, bd_reasons = reasons, bd_applied = applied\<rparr>,
            cp_telemetry = telemetry, cp_resolution_decision = resolution,
            cp_force_keyframe = (request_recovery \<or>
              (case report of Some r \<Rightarrow> feedback_flags_contains (fr_flags r) RESYNC_ACTIVE | None \<Rightarrow> False))\<rparr>
      in case publish_decisions target_kbps global_state applied changed_keys ga1 of
           (ga2, Inl e) \<Rightarrow> ((ga2, policy'), Inl e)
         | (ga2, Inr _) \<Rightarrow>
             ((ga2, policy'), bind_res (lift_proto (decision_validate (cp_decision plan))) (\<lambda>_.
               Inr (Some \<lparr>gu_plan = plan, gu_request_recovery = request_recovery,
                 gu_decision_id = ga_next_decision_id ga1,
                 gu_last_sequence = (case report of Some r \<Rightarrow> fr_last_sequence r | None \<Rightarrow> None)\<rparr>))))"

definition generation_evaluate ::
  "(contributor_key \<Rightarrow> media_telemetry_snapshot) \<Rightarrow> instant \<Rightarrow> media_telemetry_snapshot \<Rightarrow> bool \<Rightarrow>
   motion_policy option \<Rightarrow> generation_adaptive \<Rightarrow>
   (generation_adaptive \<times> motion_policy option) \<times> generation_update option host" where
  "generation_evaluate snapshots now telemetry applied policy ga =
     (case evaluate_contributors snapshots now (ga_encoder_actuation_available ga) (ga_contributors ga) of
        (cs, Inl e) \<Rightarrow> ((ga\<lparr>ga_contributors := cs\<rparr>, policy), Inl e)
      | (cs, Inr (changed_keys, request_recovery)) \<Rightarrow>
        let ga1 = update_recovering_count (ga\<lparr>ga_contributors := cs\<rparr>);
            active = active_windows now cs in
        if changed_keys = [] \<and> active = [] then ((ga1, policy), Inr None)
        else (case aggregate_target_and_clean active (ga_target_kbps ga1) (ga_ceiling_kbps ga1) of
          (target_kbps, all_clean) \<Rightarrow>
            if changed_keys = [] \<and> target_kbps = ga_target_kbps ga1 then ((ga1, policy), Inr None)
            else commit_aggregate now telemetry applied policy changed_keys request_recovery active target_kbps all_clean ga1))"

end
