(* ===== verification/Bitrate_Properties.thy ===== *)
theory Bitrate_Properties
  imports Bitrate_Controller
begin

text \<open>
  What the bitrate controller guarantees: its invariant, the size of its steps, that only clean and
  cooled-down histories raise the bitrate, and that clean feedback brings it back to the ceiling.
\<close>

section \<open>Arithmetic of the target\<close>

lemma unat_quantize: "unat (quantize_down k) = unat k div 250 * 250"
proof -
  have "unat k < 2 ^ 32" using unat_lt2p [of k] by simp
  then have "unat k div 250 * 250 < 2 ^ 32"
    by (meson div_times_less_eq_dividend le_less_trans)
  then show ?thesis
    by (simp add: quantize_down_def ADAPTIVE_BITRATE_QUANTUM_KBPS_def unat_word_ariths unat_div)
qed

lemma unat_saturating_mul:
  "unat (a :: u32) * unat b < 2 ^ 32 \<Longrightarrow> unat (saturating_mul a b) = unat a * unat b"
  by (simp add: saturating_mul_def unat_word_ariths)

lemma unat_saturating_add:
  "unat (a :: u32) + unat b < 2 ^ 32 \<Longrightarrow> unat (saturating_add a b) = unat a + unat b"
  by (simp add: saturating_add_def unat_word_ariths)

lemma unat_clamp: "unat (clamp x lo hi) = (if unat x < unat lo then unat lo else if unat hi < unat x then unat hi else unat x)"
  by (simp add: clamp_def word_less_nat_alt)

lemma unat_max_min: "unat (max a b) = max (unat a) (unat b)" "unat (min a b) = min (unat a) (unat b)"
  by (simp_all add: max_def min_def word_le_nat_alt)

section \<open>The invariant\<close>

text \<open>
  The floor is fixed, the target lies between floor and ceiling, and both are multiples of the
  quantum; the ceiling is one that a decision may carry.
\<close>

definition controller_wf :: "bitrate_controller \<Rightarrow> bool" where
  "controller_wf bc \<longleftrightarrow>
     bc_floor_kbps bc = ADAPTIVE_BITRATE_FLOOR_KBPS \<and> bc_target_kbps bc \<le> bc_ceiling_kbps bc \<and>
     ADAPTIVE_BITRATE_FLOOR_KBPS \<le> bc_target_kbps bc \<and> unat (bc_ceiling_kbps bc) \<le> 100000 \<and>
     250 dvd unat (bc_target_kbps bc) \<and> 250 dvd unat (bc_ceiling_kbps bc) \<and>
     bc_cooldown_windows bc \<le> ADAPTIVE_BITRATE_COOLDOWN_WINDOWS"

lemma controller_wf_nat:
  assumes "controller_wf bc"
  shows "unat (bc_floor_kbps bc) = 1000" "unat (bc_target_kbps bc) \<le> unat (bc_ceiling_kbps bc)"
    "1000 \<le> unat (bc_target_kbps bc)" "unat (bc_ceiling_kbps bc) \<le> 100000"
    "250 dvd unat (bc_target_kbps bc)" "250 dvd unat (bc_ceiling_kbps bc)"
  using assms by (auto simp: controller_wf_def ADAPTIVE_BITRATE_FLOOR_KBPS_def word_le_nat_alt)

lemma controller_new_wf:
  assumes "unat configured \<le> 100000"
  shows "controller_wf (bitrate_controller_new configured telemetry)"
proof -
  have "unat (max (quantize_down configured) 1000) \<le> 100000" "250 dvd unat (max (quantize_down configured) 1000)"
    using assms div_times_less_eq_dividend [of "unat configured" 250]
    by (auto simp: unat_max_min unat_quantize max_def simp del: div_times_less_eq_dividend)
  then show ?thesis
    by (simp add: controller_wf_def bitrate_controller_new_def Let_def ADAPTIVE_BITRATE_FLOOR_KBPS_def)
qed

lemma target_unchanged: "k = bc_target_kbps bc \<Longrightarrow> bc\<lparr>bc_target_kbps := k\<rparr> = bc"
  by simp

text \<open>The two moves of the target, as arithmetic.\<close>

lemma lower_target_spec:
  assumes wf: "controller_wf bc" and raw: "unat raw \<le> unat (bc_target_kbps bc)"
    and l: "lower_target raw bc = (bc', st)"
  shows "controller_wf bc'" "unat (bc_target_kbps bc') = max (unat raw div 250 * 250) 1000"
    "bc' = bc\<lparr>bc_target_kbps := bc_target_kbps bc'\<rparr>"
    "st = (if bc_target_kbps bc' < bc_target_kbps bc then AB_Decrease else AB_Hold)"
proof -
  note n = controller_wf_nat [OF wf]
  let ?next = "max (quantize_down raw) (bc_floor_kbps bc)"
  have v: "unat ?next = max (unat raw div 250 * 250) 1000" by (simp add: unat_max_min unat_quantize n)
  have le: "unat ?next \<le> unat (bc_target_kbps bc)"
    using raw n(3) div_times_less_eq_dividend [of "unat raw" 250] unfolding v by linarith
  have bc': "bc' = bc\<lparr>bc_target_kbps := ?next\<rparr>" "st = (if ?next < bc_target_kbps bc then AB_Decrease else AB_Hold)"
    using l le target_unchanged [of ?next bc]
    by (auto simp: lower_target_def Let_def word_less_nat_alt word_unat_eq_iff split: if_splits)
  show "unat (bc_target_kbps bc') = max (unat raw div 250 * 250) 1000" using v bc'(1) by simp
  show "bc' = bc\<lparr>bc_target_kbps := bc_target_kbps bc'\<rparr>"
    "st = (if bc_target_kbps bc' < bc_target_kbps bc then AB_Decrease else AB_Hold)" using bc' by simp_all
  have "250 dvd max (unat raw div 250 * 250) (1000::nat)" by (auto simp: max_def)
  then show "controller_wf bc'"
    using wf le n v by (simp add: controller_wf_def bc'(1) word_le_nat_alt ADAPTIVE_BITRATE_FLOOR_KBPS_def)
qed

lemma raise_target_spec:
  assumes wf: "controller_wf bc" and l: "raise_target bc = (bc', st)"
  shows "controller_wf bc'" "bc' = bc\<lparr>bc_target_kbps := bc_target_kbps bc'\<rparr>"
    "min (unat (bc_target_kbps bc) + 250) (unat (bc_ceiling_kbps bc)) \<le> unat (bc_target_kbps bc')"
    "unat (bc_target_kbps bc') \<le> unat (bc_target_kbps bc) + 500"
    "unat (bc_target_kbps bc') \<le> unat (bc_target_kbps bc) + max 250 (unat (bc_target_kbps bc) div 20)"
    "st = (if bc_target_kbps bc < bc_target_kbps bc' then AB_Increase else AB_Hold)"
proof -
  note n = controller_wf_nat [OF wf]
  let ?t = "unat (bc_target_kbps bc)" and ?c = "unat (bc_ceiling_kbps bc)"
  let ?step = "clamp (bc_target_kbps bc div 20) ADAPTIVE_BITRATE_QUANTUM_KBPS 500"
  let ?next = "quantize_down (min (saturating_add (bc_target_kbps bc) ?step) (bc_ceiling_kbps bc))"
  have s: "unat ?step = (if ?t div 20 < 250 then 250 else if 500 < ?t div 20 then 500 else ?t div 20)"
    by (simp add: unat_clamp ADAPTIVE_BITRATE_QUANTUM_KBPS_def unat_div)
  then have sb: "250 \<le> unat ?step" "unat ?step \<le> 500" "unat ?step \<le> max 250 (?t div 20)" by auto
  then have v: "unat ?next = min (?t + unat ?step) ?c div 250 * 250"
    using n by (simp add: unat_quantize unat_max_min unat_saturating_add)
  obtain a b where ab: "?t = 250 * a" "?c = 250 * b" using n(5,6) by (auto elim!: dvdE)
  have "min (?t + 250) ?c = min (a + 1) b * 250" by (simp add: ab min_def)
  moreover have "min (?t + 250) ?c \<le> min (?t + unat ?step) ?c" using sb(1) by simp
  ultimately have lo: "min (?t + 250) ?c \<le> unat ?next"
    unfolding v by (metis div_le_mono mult_le_mono1 nonzero_mult_div_cancel_right zero_neq_numeral)
  have hi: "unat ?next \<le> min (?t + unat ?step) ?c"
    unfolding v by (rule div_times_less_eq_dividend)
  have le: "?t \<le> unat ?next" using lo n(2) by simp
  have bc': "bc' = bc\<lparr>bc_target_kbps := ?next\<rparr>" "st = (if bc_target_kbps bc < ?next then AB_Increase else AB_Hold)"
    using l le target_unchanged [of ?next bc]
    by (auto simp: raise_target_def Let_def word_less_nat_alt word_unat_eq_iff split: if_splits)
  show "bc' = bc\<lparr>bc_target_kbps := bc_target_kbps bc'\<rparr>"
    "st = (if bc_target_kbps bc < bc_target_kbps bc' then AB_Increase else AB_Hold)"
    "min (?t + 250) ?c \<le> unat (bc_target_kbps bc')" using bc' lo by simp_all
  show "unat (bc_target_kbps bc') \<le> ?t + 500" "unat (bc_target_kbps bc') \<le> ?t + max 250 (?t div 20)"
    using bc'(1) hi sb by simp_all
  have "250 dvd unat ?next" unfolding v by simp
  then show "controller_wf bc'"
    using wf le hi n by (simp add: controller_wf_def bc'(1) word_le_nat_alt ADAPTIVE_BITRATE_FLOOR_KBPS_def)
qed

lemma controller_wf_counters:
  "controller_wf bc \<Longrightarrow> k \<le> ADAPTIVE_BITRATE_COOLDOWN_WINDOWS \<Longrightarrow>
     controller_wf (bc\<lparr>bc_moderate_windows := m, bc_clean_windows := n, bc_cooldown_windows := k\<rparr>)"
  "controller_wf bc \<Longrightarrow> controller_wf (bc\<lparr>bc_moderate_windows := m, bc_clean_windows := n\<rparr>)"
  by (simp_all add: controller_wf_def)

text \<open>How a severity moves the target; everything but the target and the counters is kept.\<close>

definition same_frame :: "bitrate_controller \<Rightarrow> bitrate_controller \<Rightarrow> bool" where
  "same_frame a b \<longleftrightarrow>
     bc_floor_kbps b = bc_floor_kbps a \<and> bc_ceiling_kbps b = bc_ceiling_kbps a \<and>
     bc_next_decision_id b = bc_next_decision_id a \<and> bc_last_report_id b = bc_last_report_id a \<and>
     bc_last_report_received_at b = bc_last_report_received_at a \<and>
     bc_previous_telemetry b = bc_previous_telemetry a \<and> bc_last_sequence b = bc_last_sequence a"

lemma same_frame_target:
  "b = a\<lparr>bc_target_kbps := k\<rparr> \<Longrightarrow> same_frame a b \<and> bc_clean_windows b = bc_clean_windows a \<and>
     bc_cooldown_windows b = bc_cooldown_windows a \<and> bc_moderate_windows b = bc_moderate_windows a"
  by (simp add: same_frame_def)

definition severity_move :: "feedback_severity \<Rightarrow> nat \<Rightarrow> nat \<Rightarrow> nat \<Rightarrow> bool" where
  "severity_move severity ceiling before after \<longleftrightarrow>
     (case severity of
        FS_Severe \<Rightarrow> after = max (before * 3 div 4 div 250 * 250) 1000
      | FS_Moderate \<Rightarrow> after = before \<or> after = max (before * 4 div 5 div 250 * 250) 1000
      | FS_Clean \<Rightarrow> after = before \<or> min (before + 250) ceiling \<le> after \<and> after \<le> before + 500
          \<and> after \<le> before + max 250 (before div 20)
      | _ \<Rightarrow> after = before)"

definition move_state :: "u32 \<Rightarrow> u32 \<Rightarrow> adaptive_bitrate_state" where
  "move_state before after = (if after < before then AB_Decrease else if before < after then AB_Increase else AB_Hold)"

definition moved :: "feedback_severity \<Rightarrow> bitrate_controller \<Rightarrow> bitrate_controller \<Rightarrow> adaptive_bitrate_state \<Rightarrow> bool" where
  "moved severity a b st \<longleftrightarrow> controller_wf b \<and> same_frame a b \<and>
     severity_move severity (unat (bc_ceiling_kbps a)) (unat (bc_target_kbps a)) (unat (bc_target_kbps b)) \<and>
     st = move_state (bc_target_kbps a) (bc_target_kbps b)"

lemma lowered:
  assumes wf: "controller_wf bc" and raw: "unat raw \<le> unat (bc_target_kbps bc)"
    and l: "lower_target raw bc = (bc', st)"
    and sev: "severity = FS_Severe \<and> unat raw = unat (bc_target_kbps bc) * 3 div 4
      \<or> severity = FS_Moderate \<and> unat raw = unat (bc_target_kbps bc) * 4 div 5"
  shows "moved severity bc bc' st"
proof -
  note s = lower_target_spec [OF wf raw l]
  have "\<not> bc_target_kbps bc < bc_target_kbps bc'"
    using s(2) raw controller_wf_nat(3) [OF wf] div_times_less_eq_dividend [of "unat raw" 250]
    by (simp add: word_less_nat_alt not_less del: div_times_less_eq_dividend) 
  then show ?thesis
    using s(1,2,4) sev same_frame_target [OF s(3)] by (auto simp: moved_def severity_move_def move_state_def)
qed

lemma raised:
  assumes wf: "controller_wf bc" and l: "raise_target bc = (bc', st)"
  shows "moved FS_Clean bc bc' st"
proof -
  note s = raise_target_spec [OF assms]
  have "\<not> bc_target_kbps bc' < bc_target_kbps bc"
    using s(3) controller_wf_nat(2) [OF wf] by (simp add: word_less_nat_alt not_less)
  then show ?thesis
    using s(1,3-6) same_frame_target [OF s(2)] by (auto simp: moved_def severity_move_def move_state_def)
qed

lemma moved_counters:
  "moved severity (bc\<lparr>bc_moderate_windows := m, bc_clean_windows := n\<rparr>) b st = moved severity bc b st"
  "moved severity (bc\<lparr>bc_moderate_windows := m, bc_clean_windows := n, bc_cooldown_windows := k\<rparr>) b st = moved severity bc b st"
  by (simp_all add: moved_def same_frame_def)

lemma moved_held:
  "controller_wf b \<Longrightarrow> same_frame a b \<Longrightarrow> bc_target_kbps b = bc_target_kbps a \<Longrightarrow>
   severity \<noteq> FS_Severe \<Longrightarrow> moved severity a b AB_Hold"
  by (cases severity) (simp_all add: moved_def severity_move_def move_state_def)

lemma apply_severity_spec:
  assumes wf: "controller_wf bc" and a: "apply_severity severity bc = (bc', st)"
  shows "moved severity bc bc' st"
proof -
  note n = controller_wf_nat [OF wf]
  have m: "unat (saturating_mul (bc_target_kbps bc) 3 div 4) = unat (bc_target_kbps bc) * 3 div 4"
    "unat (saturating_mul (bc_target_kbps bc) 4 div 5) = unat (bc_target_kbps bc) * 4 div 5"
    using n by (simp_all add: unat_div unat_saturating_mul)
  note c = controller_wf_counters [OF wf] controller_wf_counters(1) [OF wf order_refl]
  let ?z = "bc\<lparr>bc_moderate_windows := 0, bc_clean_windows := 0, bc_cooldown_windows := ADAPTIVE_BITRATE_COOLDOWN_WINDOWS\<rparr>"
  show ?thesis
  proof (cases severity)
    case FS_Severe
    then have "lower_target (saturating_mul (bc_target_kbps bc) 3 div 4) ?z = (bc', st)"
      using a by (simp add: apply_severity_def)
    from lowered [OF c(3) _ this, of severity] show ?thesis
      unfolding moved_counters m by (simp add: FS_Severe)
  next
    case FS_Moderate
    show ?thesis
    proof (cases "ADAPTIVE_BITRATE_MODERATE_WINDOWS \<le> saturating_add (bc_moderate_windows bc) 1")
      case True
      have e: "bc\<lparr>bc_clean_windows := 0, bc_moderate_windows := 0, bc_cooldown_windows := ADAPTIVE_BITRATE_COOLDOWN_WINDOWS\<rparr> = ?z"
        by (rule bitrate_controller.equality) simp_all
      from True have "lower_target (saturating_mul (bc_target_kbps bc) 4 div 5) ?z = (bc', st)"
        using a FS_Moderate by (simp add: apply_severity_def Let_def e)
      from lowered [OF c(3) _ this, of severity] show ?thesis
        unfolding moved_counters m by (simp add: FS_Moderate)
    next
      case False
      then show ?thesis using a c(2) by (auto simp: apply_severity_def FS_Moderate Let_def same_frame_def intro!: moved_held)
    qed
  next
    case FS_Clean
    show ?thesis
    proof (cases "ADAPTIVE_BITRATE_CLEAN_WINDOWS \<le> saturating_add (bc_clean_windows bc) 1 \<and> bc_cooldown_windows bc = 0")
      case True
      then have "raise_target (bc\<lparr>bc_moderate_windows := 0, bc_clean_windows := 0\<rparr>) = (bc', st)"
        using a by (simp add: apply_severity_def FS_Clean Let_def)
      from raised [OF c(2) this] show ?thesis unfolding moved_counters FS_Clean .
    next
      case False
      then show ?thesis using a c(2) by (auto simp: apply_severity_def FS_Clean Let_def same_frame_def intro!: moved_held)
    qed
  qed (use a c(2) in \<open>auto simp: apply_severity_def same_frame_def intro!: moved_held\<close>)
qed

section \<open>One evaluation\<close>

text \<open>Only known reason bits are ever set.\<close>

definition reasons_ok :: "adaptive_bitrate_reasons \<Rightarrow> bool" where
  "reasons_ok r \<longleftrightarrow> reason_bits r AND NOT REASONS_KNOWN = 0"

lemma reasons_ok_union [simp]: "reasons_ok a \<Longrightarrow> reasons_ok b \<Longrightarrow> reasons_ok (reasons_union a b)"
  by (simp add: reasons_ok_def reasons_union_def bit.conj_disj_distrib2)

lemma reasons_ok_known [simp]:
  "reasons_ok REASON_RTT_INFLATION" "reasons_ok REASON_LOSS_OR_CANCELLATION" "reasons_ok REASON_SENDER_BACKPRESSURE"
  "reasons_ok REASON_RECEIVER_QUEUE" "reasons_ok REASON_DECODE_BACKLOG" "reasons_ok REASON_DELIVERY_LATENCY"
  "reasons_ok REASON_CLEAN_RECOVERY" "reasons_ok REASON_FEEDBACK_STALE" "reasons_ok REASON_NONE"
  by (simp_all add: reasons_ok_def REASONS_KNOWN_def REASON_RTT_INFLATION_def REASON_LOSS_OR_CANCELLATION_def
      REASON_SENDER_BACKPRESSURE_def REASON_RECEIVER_QUEUE_def REASON_DECODE_BACKLOG_def REASON_DELIVERY_LATENCY_def
      REASON_CLEAN_RECOVERY_def REASON_FEEDBACK_STALE_def REASON_NONE_def)

lemma graded_signal_ok [simp]: "reasons_ok r \<Longrightarrow> reasons_ok (snd sr) \<Longrightarrow> reasons_ok (snd (graded_signal a b r sr))"
  by (cases sr) (auto simp: graded_signal_def add_feedback_signal_def)

lemma signals_ok [simp]:
  "reasons_ok (snd (host_signals p tel))"
  "reasons_ok (snd sr) \<Longrightarrow> reasons_ok (snd (snd (rtt_signals b rtt sr)))"
  "reasons_ok (snd sr) \<Longrightarrow> reasons_ok (snd (receiver_signals rep sr))"
  by (simp_all add: host_signals_def rtt_signals_def receiver_signals_def Let_def)

lemma classify_spec:
  assumes "classify bc rep tel now = (bc1, cl)"
  shows "bc1 = bc\<lparr>bc_baseline_rtt_micros := bc_baseline_rtt_micros bc1\<rparr>" "reasons_ok (cl_reasons cl)"
    "cl_stale cl = report_stale bc rep now"
    "cl_severity cl = FS_Clean \<longleftrightarrow> cl_pressure_severity cl = FS_Clean \<and> \<not> cl_stale cl \<and> recovery_evidence bc rep"
proof -
  obtain base host where h: "rtt_signals (bc_baseline_rtt_micros bc) (mt_selected_path_rtt_micros tel)
      (host_signals (bc_previous_telemetry bc) tel) = (base, host)" by (metis prod.exhaust)
  have ok: "reasons_ok (snd host)"
    using signals_ok(2) [OF signals_ok(1), of "bc_baseline_rtt_micros bc" "mt_selected_path_rtt_micros tel"
        "bc_previous_telemetry bc" tel] by (simp add: h)
  obtain pr re where p: "receiver_signals rep host = (pr, re)" by (metis prod.exhaust)
  have okp: "reasons_ok re" using signals_ok(3) [OF ok, of rep] by (simp add: p)
  have ev: "recovery_evidence (bc\<lparr>bc_baseline_rtt_micros := base\<rparr>) rep = recovery_evidence bc rep"
    by (simp add: recovery_evidence_def)
  show "bc1 = bc\<lparr>bc_baseline_rtt_micros := bc_baseline_rtt_micros bc1\<rparr>" "reasons_ok (cl_reasons cl)"
    "cl_stale cl = report_stale bc rep now"
    "cl_severity cl = FS_Clean \<longleftrightarrow> cl_pressure_severity cl = FS_Clean \<and> \<not> cl_stale cl \<and> recovery_evidence bc rep"
    using assms ok okp unfolding classify_def Let_def h p case_prod_conv ev by (auto split: if_splits)
qed

lemma clamp_inside: "lo \<le> x \<Longrightarrow> x \<le> hi \<Longrightarrow> clamp x lo hi = x"
  unfolding clamp_def using leD by auto

lemma unat_pred: "0 < (k :: 'w::len word) \<Longrightarrow> unat (k - 1) = unat k - 1"
proof -
  assume "0 < k"
  then have "1 \<le> k" by (simp add: word_le_nat_alt word_less_nat_alt Suc_leI)
  then show ?thesis by (simp add: unat_sub)
qed

lemma cooled_simps [simp]:
  "bc_target_kbps (cooled bc) = bc_target_kbps bc" "bc_clean_windows (cooled bc) = bc_clean_windows bc"
  "bc_moderate_windows (cooled bc) = bc_moderate_windows bc"
  "bc_cooldown_windows (cooled bc) = (if 0 < bc_cooldown_windows bc then bc_cooldown_windows bc - 1 else 0)"
  "same_frame a (cooled bc) = same_frame a bc" "bc_ceiling_kbps (cooled bc) = bc_ceiling_kbps bc"
  "bc_next_decision_id (cooled bc) = bc_next_decision_id bc"
  by (auto simp: cooled_def same_frame_def word_gt_0)

lemma cooled_frame:
  "bc_floor_kbps (cooled bc) = bc_floor_kbps bc" "bc_last_report_id (cooled bc) = bc_last_report_id bc"
  "bc_last_report_received_at (cooled bc) = bc_last_report_received_at bc"
  "bc_previous_telemetry (cooled bc) = bc_previous_telemetry bc" "bc_last_sequence (cooled bc) = bc_last_sequence bc"
  "bc_next_decision_id (cooled bc) = bc_next_decision_id bc" "bc_ceiling_kbps (cooled bc) = bc_ceiling_kbps bc"
  by (simp_all add: cooled_def)

lemma cooled_wf [simp]: "controller_wf bc \<Longrightarrow> controller_wf (cooled bc)"
proof -
  assume "controller_wf bc"
  moreover have "bc_cooldown_windows bc - 1 \<le> ADAPTIVE_BITRATE_COOLDOWN_WINDOWS"
    if "0 < bc_cooldown_windows bc" "bc_cooldown_windows bc \<le> ADAPTIVE_BITRATE_COOLDOWN_WINDOWS"
    using that by (simp add: word_le_nat_alt unat_pred)
  ultimately show ?thesis by (simp add: controller_wf_def cooled_def)
qed

lemma decision_of_valid:
  assumes "controller_wf bc" "fr_report_id rep \<noteq> 0" "bc_next_decision_id bc \<noteq> 0" "reasons_ok (cl_reasons cl)"
  shows "decision_validate (decision_of bc rep st cl) = Inr ()"
  using assms controller_wf_nat [OF assms(1)]
  by (simp add: decision_validate_def decision_of_def MIN_ADAPTIVE_BITRATE_KBPS_def MAX_ADAPTIVE_BITRATE_KBPS_def
      word_le_nat_alt word_less_nat_alt not_less reasons_from_bits_def reasons_ok_def)

lemma remember_report_simps [simp]:
  "bc_target_kbps (remember_report bc n rep tel now st cl) = bc_target_kbps bc"
  "bc_ceiling_kbps (remember_report bc n rep tel now st cl) = bc_ceiling_kbps bc"
  "bc_clean_windows (remember_report bc n rep tel now st cl) = bc_clean_windows bc"
  "bc_cooldown_windows (remember_report bc n rep tel now st cl) = bc_cooldown_windows bc"
  "bc_next_decision_id (remember_report bc n rep tel now st cl) = n"
  "bc_last_report_id (remember_report bc n rep tel now st cl) = Some (fr_report_id rep)"
  "controller_wf (remember_report bc n rep tel now st cl) = controller_wf bc"
  by (simp_all add: remember_report_def Let_def controller_wf_def)

lemma evaluate_spec:
  assumes wf: "controller_wf bc" and id: "fr_report_id rep \<noteq> 0" "bc_next_decision_id bc \<noteq> 0" "fresh_id bc rep"
    and cl: "classify bc rep tel now = (bc1, cl)" and ap: "apply_severity (cl_severity cl) (cooled bc1) = (bc3, st)"
  shows "bc_next_decision_id bc = - 1 \<Longrightarrow>
      bitrate_evaluate bc rep tel now = (bc3, Inl (Host ''adaptive bitrate decision ID exhausted''))"
    and "bc_next_decision_id bc \<noteq> - 1 \<Longrightarrow>
      bitrate_evaluate bc rep tel now =
        (remember_report bc3 (bc_next_decision_id bc + 1) rep tel now st cl,
         Inr \<lparr>be_decision = decision_of bc3 rep st cl, be_pressure_severity = cl_pressure_severity cl,
              be_clean_recovery_evidence = (cl_severity cl = FS_Clean), be_fresh = (\<not> report_stale bc rep now)\<rparr>)"
    and "moved (cl_severity cl) (cooled bc1) bc3 st"
proof -
  note c = classify_spec [OF cl]
  have wf1: "controller_wf bc1" using wf by (subst c(1)) (simp add: controller_wf_def)
  show m: "moved (cl_severity cl) (cooled bc1) bc3 st" by (rule apply_severity_spec [OF cooled_wf [OF wf1] ap])
  then have wf3: "controller_wf bc3" and fr: "same_frame bc1 bc3"
    by (auto simp: moved_def same_frame_def cooled_def split: if_splits)
  have n1: "bc_next_decision_id bc1 = bc_next_decision_id bc" by (subst c(1)) simp
  have n3: "bc_next_decision_id bc3 = bc_next_decision_id bc" using fr n1 by (simp add: same_frame_def)
  have k: "bc3\<lparr>bc_target_kbps := clamp (bc_target_kbps bc3) (bc_floor_kbps bc3) (bc_ceiling_kbps bc3)\<rparr> = bc3"
    using wf3 by (intro target_unchanged clamp_inside) (auto simp: controller_wf_def)
  have v: "decision_validate (decision_of bc3 rep st cl) = Inr ()"
    by (rule decision_of_valid [OF wf3 id(1) _ c(2)]) (simp add: n3 id(2))
  note ev = bitrate_evaluate_def [of bc rep tel now, unfolded cl ap Let_def prod.case k v lift_proto_simps bind_op_simps]
  show "bc_next_decision_id bc = - 1 \<Longrightarrow>
      bitrate_evaluate bc rep tel now = (bc3, Inl (Host ''adaptive bitrate decision ID exhausted''))"
  proof -
    assume "bc_next_decision_id bc = - 1"
    then have "checked_add (bc_next_decision_id bc3) 1 = None"
      using n3 checked_add_1_Some [of "bc_next_decision_id bc3"] by (cases "checked_add (bc_next_decision_id bc3) 1") auto
    then show ?thesis using id(3) unfolding ev by simp
  qed
  assume "bc_next_decision_id bc \<noteq> - 1"
  then have "checked_add (bc_next_decision_id bc3) 1 = Some (bc_next_decision_id bc + 1)"
    using n3 checked_add_1_Some [of "bc_next_decision_id bc3"] by simp
  then show "bitrate_evaluate bc rep tel now =
        (remember_report bc3 (bc_next_decision_id bc + 1) rep tel now st cl,
         Inr \<lparr>be_decision = decision_of bc3 rep st cl, be_pressure_severity = cl_pressure_severity cl,
              be_clean_recovery_evidence = (cl_severity cl = FS_Clean), be_fresh = (\<not> report_stale bc rep now)\<rparr>)"
    using id(3) c(3) unfolding ev by simp
qed

section \<open>Steps and runs\<close>

lemma apply_severity_baseline:
  "apply_severity severity (cooled b) = (a, st) \<Longrightarrow> bc_baseline_rtt_micros a = bc_baseline_rtt_micros b"
  by (cases severity) (auto simp: apply_severity_def lower_target_def raise_target_def cooled_def Let_def split: if_splits)

lemma classify_pressure:
  "classify bc rep tel now = (bc1, cl) \<Longrightarrow> cl_severity cl \<in> {FS_Moderate, FS_Severe} \<Longrightarrow>
     cl_pressure_severity cl = cl_severity cl"
  by (auto simp: classify_def Let_def split: prod.splits if_splits)

text \<open>The controller accepts this report: known id, and the decision ids are not used up.\<close>

definition evaluable :: "bitrate_controller \<Rightarrow> media_feedback_report \<Rightarrow> bool" where
  "evaluable bc rep \<longleftrightarrow> controller_wf bc \<and> fr_report_id rep \<noteq> 0 \<and> fresh_id bc rep \<and>
     bc_next_decision_id bc \<noteq> 0 \<and> bc_next_decision_id bc \<noteq> - 1"

lemma evaluate_step:
  assumes "evaluable bc rep"
  obtains bc' e cl a st where "bitrate_evaluate bc rep tel now = (bc', Inr e)"
    "controller_wf bc'" "bc_ceiling_kbps bc' = bc_ceiling_kbps bc"
    "bc_next_decision_id bc' = bc_next_decision_id bc + 1" "bc_last_report_id bc' = Some (fr_report_id rep)"
    "severity_move (cl_severity cl) (unat (bc_ceiling_kbps bc)) (unat (bc_target_kbps bc)) (unat (bc_target_kbps bc'))"
    "be_decision e = decision_of a rep (move_state (bc_target_kbps bc) (bc_target_kbps bc')) cl"
    "bc_target_kbps a = bc_target_kbps bc'" "bc_next_decision_id a = bc_next_decision_id bc"
    "decision_validate (be_decision e) = Inr ()"
    "be_clean_recovery_evidence e \<longleftrightarrow> cl_severity cl = FS_Clean" "be_fresh e \<longleftrightarrow> \<not> report_stale bc rep now"
    "be_pressure_severity e = cl_pressure_severity cl"
    "cl_severity cl = FS_Clean \<longrightarrow> be_fresh e \<and> be_pressure_severity e = FS_Clean"
    "cl_severity cl \<in> {FS_Moderate, FS_Severe} \<longrightarrow> be_pressure_severity e = cl_severity cl"
    "apply_severity (cl_severity cl) (cooled (bc\<lparr>bc_baseline_rtt_micros := bc_baseline_rtt_micros a\<rparr>)) = (a, st)"
    "bc_clean_windows bc' = bc_clean_windows a" "bc_cooldown_windows bc' = bc_cooldown_windows a"
    "bc' = remember_report a (bc_next_decision_id bc + 1) rep tel now st cl" "same_frame bc a"
    "classify bc rep tel now = (bc\<lparr>bc_baseline_rtt_micros := bc_baseline_rtt_micros a\<rparr>, cl)"
proof -
  obtain bc1 cl where cl: "classify bc rep tel now = (bc1, cl)" by (metis prod.exhaust)
  obtain a st where ap: "apply_severity (cl_severity cl) (cooled bc1) = (a, st)" by (metis prod.exhaust)
  from assms have e: "controller_wf bc" "fr_report_id rep \<noteq> 0" "bc_next_decision_id bc \<noteq> 0" "fresh_id bc rep"
    "bc_next_decision_id bc \<noteq> - 1" by (auto simp: evaluable_def)
  note s = evaluate_spec [OF e(1-4) cl ap] and c = classify_spec [OF cl]
  let ?bc' = "remember_report a (bc_next_decision_id bc + 1) rep tel now st cl"
  let ?e = "\<lparr>be_decision = decision_of a rep st cl, be_pressure_severity = cl_pressure_severity cl,
         be_clean_recovery_evidence = (cl_severity cl = FS_Clean), be_fresh = (\<not> report_stale bc rep now)\<rparr>"
  have b1: "bc_target_kbps bc1 = bc_target_kbps bc" "bc_ceiling_kbps bc1 = bc_ceiling_kbps bc"
    "bc_next_decision_id bc1 = bc_next_decision_id bc" by (subst c(1), simp)+
  have frame1: "bc_floor_kbps bc1 = bc_floor_kbps bc" "bc_last_report_id bc1 = bc_last_report_id bc"
    "bc_last_report_received_at bc1 = bc_last_report_received_at bc"
    "bc_previous_telemetry bc1 = bc_previous_telemetry bc" "bc_last_sequence bc1 = bc_last_sequence bc"
    by (subst c(1), simp)+
  from s(3) have m: "controller_wf a" "same_frame (cooled bc1) a" "st = move_state (bc_target_kbps bc) (bc_target_kbps a)"
    "severity_move (cl_severity cl) (unat (bc_ceiling_kbps bc)) (unat (bc_target_kbps bc)) (unat (bc_target_kbps a))"
    by (auto simp: moved_def b1)
  have a: "bc_next_decision_id a = bc_next_decision_id bc" "bc_ceiling_kbps a = bc_ceiling_kbps bc"
    using m(2) by (simp_all add: same_frame_def b1)
  have ba: "bc_baseline_rtt_micros a = bc_baseline_rtt_micros bc1"
    using ap by (rule apply_severity_baseline)
  have bc1: "bc\<lparr>bc_baseline_rtt_micros := bc_baseline_rtt_micros a\<rparr> = bc1" unfolding ba using c(1) by simp
  have v: "decision_validate (decision_of a rep st cl) = Inr ()"
    using decision_of_valid [OF m(1) e(2) _ c(2)] e(3) a(1) by simp
  show thesis
  proof (rule that [of ?bc' ?e cl a st])
    show "bitrate_evaluate bc rep tel now = (?bc', Inr ?e)" by (rule s(2) [OF e(5)])
    show "apply_severity (cl_severity cl) (cooled (bc\<lparr>bc_baseline_rtt_micros := bc_baseline_rtt_micros a\<rparr>)) = (a, st)"
      unfolding bc1 by (rule ap)
    show "classify bc rep tel now = (bc\<lparr>bc_baseline_rtt_micros := bc_baseline_rtt_micros a\<rparr>, cl)"
      unfolding bc1 by (rule cl)
    show "same_frame bc a" using m(2) unfolding same_frame_def cooled_frame b1 frame1 by simp
    show "cl_severity cl = FS_Clean \<longrightarrow> be_fresh ?e \<and> be_pressure_severity ?e = FS_Clean"
      using c(3,4) by simp
    show "cl_severity cl \<in> {FS_Moderate, FS_Severe} \<longrightarrow> be_pressure_severity ?e = cl_severity cl"
      using classify_pressure [OF cl] by simp
  qed (simp_all add: m(1,3,4) a v [unfolded m(3)])
qed

text \<open>
  C20: The controller never produces an invalid decision. A controller made for a configured ceiling
  satisfies the invariant; from a controller that satisfies it, every report with a new, nonzero id
  is evaluated without an error (until the 64-bit decision ids are used up), the invariant is kept,
  and the decision passes the protocol validation, carries the next decision id and the new target.
\<close>

theorem bitrate_decisions_always_valid:
  assumes "unat configured \<le> 100000" "evaluable bc rep"
  shows "controller_wf (bitrate_controller_new configured tel) \<and>
    (\<exists>bc' e. bitrate_evaluate bc rep tel' now = (bc', Inr e) \<and> controller_wf bc' \<and>
       decision_validate (be_decision e) = Inr () \<and> bd_target_kbps (be_decision e) = bc_target_kbps bc' \<and>
       bd_decision_id (be_decision e) = bc_next_decision_id bc \<and>
       bc_next_decision_id bc' = bc_next_decision_id bc + 1 \<and> bc_last_report_id bc' = Some (fr_report_id rep))"
proof -
  from assms(2) obtain bc' e cl a st where e: "bitrate_evaluate bc rep tel' now = (bc', Inr e)" "controller_wf bc'"
    "bc_next_decision_id bc' = bc_next_decision_id bc + 1" "bc_last_report_id bc' = Some (fr_report_id rep)"
    "be_decision e = decision_of a rep (move_state (bc_target_kbps bc) (bc_target_kbps bc')) cl"
    "bc_target_kbps a = bc_target_kbps bc'" "bc_next_decision_id a = bc_next_decision_id bc"
    "decision_validate (be_decision e) = Inr ()"
    by (rule evaluate_step [of bc rep tel' now])
  with controller_new_wf [OF assms(1)] show ?thesis by (auto simp: decision_of_def)
qed


section \<open>Histories\<close>

text \<open>A controller evaluates one report after the other; the caller stops at the first error.\<close>

fun bitrate_run ::
  "bitrate_controller \<Rightarrow> (media_feedback_report \<times> media_telemetry_snapshot \<times> instant) list \<Rightarrow>
   bitrate_controller \<times> bitrate_evaluation list" where
  "bitrate_run bc [] = (bc, [])"
| "bitrate_run bc ((rep, tel, now) # xs) =
     (case bitrate_evaluate bc rep tel now of
        (bc', Inl err) \<Rightarrow> (bc', [])
      | (bc', Inr e) \<Rightarrow> (case bitrate_run bc' xs of (bc'', es) \<Rightarrow> (bc'', e # es)))"

definition raising :: "bitrate_evaluation \<Rightarrow> bool" where
  "raising e \<longleftrightarrow> bd_state (be_decision e) = AB_Increase"

definition calm_window :: "bitrate_evaluation \<Rightarrow> bool" where
  "calm_window e \<longleftrightarrow> be_clean_recovery_evidence e \<and> bd_state (be_decision e) = AB_Hold"

lemma unat_inc_u8: "unat (saturating_add (k :: u8) 1) = min 255 (unat k + 1)"
proof -
  have "unat k < 256" using unat_lt2p [of k] by simp
  moreover have "unat (- 1 :: u8) = 255" by (simp add: unsigned_minus_1_eq_mask mask_eq_exp_minus_1)
  ultimately show ?thesis by (auto simp: saturating_add_def unat_word_ariths)
qed

text \<open>The clean window counter and the cooldown, one step at a time.\<close>

lemma apply_clean:
  assumes "apply_severity FS_Clean (cooled bc) = (bc', st)" "controller_wf bc"
  shows "9 \<le> unat (bc_clean_windows bc) \<and> unat (bc_cooldown_windows bc) \<le> 1 \<and>
      min (unat (bc_target_kbps bc) + 250) (unat (bc_ceiling_kbps bc)) \<le> unat (bc_target_kbps bc') \<or>
    \<not> (9 \<le> unat (bc_clean_windows bc) \<and> unat (bc_cooldown_windows bc) \<le> 1) \<and>
      bc_target_kbps bc' = bc_target_kbps bc \<and> unat (bc_clean_windows bc') = min 255 (unat (bc_clean_windows bc) + 1) \<and>
      unat (bc_cooldown_windows bc') = unat (bc_cooldown_windows bc) - 1"
proof -
  have cd: "unat (bc_cooldown_windows (cooled bc)) = unat (bc_cooldown_windows bc) - 1"
    by (simp add: unat_pred word_gt_0)
  have z: "bc_cooldown_windows (cooled bc) = 0 \<longleftrightarrow> unat (bc_cooldown_windows bc) \<le> 1"
    unfolding unat_eq_zero [symmetric] cd by auto
  have g: "ADAPTIVE_BITRATE_CLEAN_WINDOWS \<le> saturating_add (bc_clean_windows (cooled bc)) 1 \<longleftrightarrow> 9 \<le> unat (bc_clean_windows bc)"
    by (auto simp: ADAPTIVE_BITRATE_CLEAN_WINDOWS_def word_le_nat_alt unat_inc_u8)
  show ?thesis
  proof (cases "9 \<le> unat (bc_clean_windows bc) \<and> unat (bc_cooldown_windows bc) \<le> 1")
    case True
    then have r: "raise_target ((cooled bc)\<lparr>bc_moderate_windows := 0, bc_clean_windows := 0\<rparr>) = (bc', st)"
      using assms(1) g z unfolding apply_severity_def Let_def by simp
    show ?thesis
      using raise_target_spec(3) [OF controller_wf_counters(2) [OF cooled_wf [OF assms(2)]] r] True by simp
  next
    case False
    then have "bc' = (cooled bc)\<lparr>bc_moderate_windows := 0, bc_clean_windows := saturating_add (bc_clean_windows (cooled bc)) 1\<rparr>"
      using assms(1) g z unfolding apply_severity_def Let_def by auto
    then show ?thesis using False cd by (simp add: unat_inc_u8)
  qed
qed

lemma apply_not_clean:
  "apply_severity severity bc = (bc', st) \<Longrightarrow> severity \<noteq> FS_Clean \<Longrightarrow> bc_clean_windows bc' = 0"
  by (cases severity) (auto simp: apply_severity_def lower_target_def Let_def split: if_splits)

lemma apply_clean_raising:
  assumes "apply_severity FS_Clean (cooled bc) = (bc', st)"
    "9 \<le> unat (bc_clean_windows bc)" "unat (bc_cooldown_windows bc) \<le> 1"
  shows "bc_clean_windows bc' = 0"
proof -
  have "unat (bc_cooldown_windows (cooled bc)) = unat (bc_cooldown_windows bc) - 1"
    by (simp add: unat_pred word_gt_0)
  then have "bc_cooldown_windows (cooled bc) = 0"
    unfolding unat_eq_zero [symmetric] using assms(3) by auto
  moreover have "ADAPTIVE_BITRATE_CLEAN_WINDOWS \<le> saturating_add (bc_clean_windows (cooled bc)) 1"
    using assms(2) by (simp add: ADAPTIVE_BITRATE_CLEAN_WINDOWS_def word_le_nat_alt unat_inc_u8)
  ultimately show ?thesis using assms(1) unfolding apply_severity_def raise_target_def Let_def by (auto split: if_splits)
qed

text \<open>What one evaluation does to a history whose last \<open>k\<close> windows were calm.\<close>

lemma evaluate_history:
  assumes "evaluable bc rep" "bitrate_evaluate bc rep tel now = (bc', Inr e)"
  shows "raising e \<longrightarrow> be_clean_recovery_evidence e \<and> 9 \<le> unat (bc_clean_windows bc)"
    "unat (bc_clean_windows bc') \<le> (if calm_window e then unat (bc_clean_windows bc) + 1 else 0)"
    "be_clean_recovery_evidence e \<Longrightarrow>
       min (unat (bc_target_kbps bc) + 250) (unat (bc_ceiling_kbps bc)) \<le> unat (bc_target_kbps bc') \<or>
       bc_target_kbps bc' = bc_target_kbps bc \<and> unat (bc_cooldown_windows bc') = unat (bc_cooldown_windows bc) - 1 \<and>
       unat (bc_clean_windows bc') = min 255 (unat (bc_clean_windows bc) + 1) \<and>
       \<not> (9 \<le> unat (bc_clean_windows bc) \<and> unat (bc_cooldown_windows bc) \<le> 1)"
proof -
  obtain e' cl a st b where s: "bitrate_evaluate bc rep tel now = (b, Inr e')" "controller_wf b"
    "be_decision e' = decision_of a rep (move_state (bc_target_kbps bc) (bc_target_kbps b)) cl"
    "bc_target_kbps a = bc_target_kbps b"
    "be_clean_recovery_evidence e' \<longleftrightarrow> cl_severity cl = FS_Clean"
    "severity_move (cl_severity cl) (unat (bc_ceiling_kbps bc)) (unat (bc_target_kbps bc)) (unat (bc_target_kbps b))"
    "apply_severity (cl_severity cl) (cooled (bc\<lparr>bc_baseline_rtt_micros := bc_baseline_rtt_micros a\<rparr>)) = (a, st)"
    "bc_clean_windows b = bc_clean_windows a" "bc_cooldown_windows b = bc_cooldown_windows a"
    by (rule evaluate_step [OF assms(1), of tel now])
  then have be: "b = bc'" "e' = e" using assms(2) by auto
  note s = s [unfolded be]
  have wf: "controller_wf bc" "controller_wf (bc\<lparr>bc_baseline_rtt_micros := bc_baseline_rtt_micros a\<rparr>)"
    using assms(1) by (simp_all add: evaluable_def controller_wf_def)
  have st: "raising e \<longleftrightarrow> bc_target_kbps bc < bc_target_kbps bc'"
    "calm_window e \<longleftrightarrow> cl_severity cl = FS_Clean \<and> bc_target_kbps bc' = bc_target_kbps bc"
    using s(3,5) by (auto simp: raising_def calm_window_def decision_of_def move_state_def)
  have c: "cl_severity cl = FS_Clean \<Longrightarrow> 9 \<le> unat (bc_clean_windows bc) \<and> unat (bc_cooldown_windows bc) \<le> 1 \<and>
      min (unat (bc_target_kbps bc) + 250) (unat (bc_ceiling_kbps bc)) \<le> unat (bc_target_kbps bc') \<and> bc_clean_windows bc' = 0 \<or>
    \<not> (9 \<le> unat (bc_clean_windows bc) \<and> unat (bc_cooldown_windows bc) \<le> 1) \<and>
      bc_target_kbps bc' = bc_target_kbps bc \<and> unat (bc_clean_windows bc') = min 255 (unat (bc_clean_windows bc) + 1) \<and>
      unat (bc_cooldown_windows bc') = unat (bc_cooldown_windows bc) - 1"
    using apply_clean [OF _ wf(2), of a st] apply_clean_raising [of "bc\<lparr>bc_baseline_rtt_micros := bc_baseline_rtt_micros a\<rparr>" a st]
      s(4,7,8,9) by auto
  have nc: "cl_severity cl \<noteq> FS_Clean \<Longrightarrow> bc_clean_windows bc' = 0 \<and> \<not> raising e"
    using apply_not_clean [OF s(7)] s(6,8) controller_wf_nat(3) [OF wf(1)]
      div_times_less_eq_dividend [of "unat (bc_target_kbps bc) * 3 div 4" 250]
      div_times_less_eq_dividend [of "unat (bc_target_kbps bc) * 4 div 5" 250]
    by (cases "cl_severity cl") (auto simp: severity_move_def st(1) word_less_nat_alt)
  show "raising e \<longrightarrow> be_clean_recovery_evidence e \<and> 9 \<le> unat (bc_clean_windows bc)"
    using c nc s(5) st(1) by (cases "cl_severity cl = FS_Clean") auto
  show "unat (bc_clean_windows bc') \<le> (if calm_window e then unat (bc_clean_windows bc) + 1 else 0)"
    using c nc st(2) by (cases "cl_severity cl = FS_Clean") auto
  show "min (unat (bc_target_kbps bc) + 250) (unat (bc_ceiling_kbps bc)) \<le> unat (bc_target_kbps bc') \<or>
       bc_target_kbps bc' = bc_target_kbps bc \<and> unat (bc_cooldown_windows bc') = unat (bc_cooldown_windows bc) - 1 \<and>
       unat (bc_clean_windows bc') = min 255 (unat (bc_clean_windows bc) + 1) \<and>
       \<not> (9 \<le> unat (bc_clean_windows bc) \<and> unat (bc_cooldown_windows bc) \<le> 1)"
    if "be_clean_recovery_evidence e" using that c s(5) by auto
qed

lemma evaluate_Inr_evaluable:
  assumes "controller_wf bc" "fr_report_id rep \<noteq> 0" "bc_next_decision_id bc \<noteq> 0"
    and ev: "bitrate_evaluate bc rep tel now = (bc', Inr e)"
  shows "evaluable bc rep" "controller_wf bc'" "bc_next_decision_id bc' \<noteq> 0" "bc_ceiling_kbps bc' = bc_ceiling_kbps bc"
proof -
  have f: "fresh_id bc rep" using ev by (auto simp: bitrate_evaluate_def split: if_splits)
  obtain bc1 cl where cl: "classify bc rep tel now = (bc1, cl)" by (metis prod.exhaust)
  obtain a st where ap: "apply_severity (cl_severity cl) (cooled bc1) = (a, st)" by (metis prod.exhaust)
  have n: "bc_next_decision_id bc \<noteq> - 1"
    using evaluate_spec(1) [OF assms(1-3) f cl ap] ev by auto
  with f assms(1-3) show e: "evaluable bc rep" by (simp add: evaluable_def)
  obtain b e' where "bitrate_evaluate bc rep tel now = (b, Inr e')" "controller_wf b"
    "bc_next_decision_id b = bc_next_decision_id bc + 1" "bc_ceiling_kbps b = bc_ceiling_kbps bc"
    by (rule evaluate_step [OF e, of tel now])
  moreover have "bc_next_decision_id bc + 1 \<noteq> 0"
    using n by (metis add_eq_0_iff2 minus_equation_iff)
  ultimately show "controller_wf bc'" "bc_next_decision_id bc' \<noteq> 0" "bc_ceiling_kbps bc' = bc_ceiling_kbps bc"
    using ev by auto
qed

definition reports_identified :: "(media_feedback_report \<times> media_telemetry_snapshot \<times> instant) list \<Rightarrow> bool" where
  "reports_identified xs \<longleftrightarrow> list_all (\<lambda>(rep, _, _). fr_report_id rep \<noteq> 0) xs"

lemma bitrate_run_history:
  assumes "controller_wf bc" "bc_next_decision_id bc \<noteq> 0" "reports_identified xs"
    "unat (bc_clean_windows bc) \<le> length (takeWhile calm_window hist)"
    "snd (bitrate_run bc xs) = us @ e # vs" "raising e"
  shows "be_clean_recovery_evidence e \<and> 9 \<le> length (takeWhile calm_window (rev us @ hist))"
  using assms
proof (induction bc xs arbitrary: us hist rule: bitrate_run.induct)
  case (1 bc)
  then show ?case by simp
next
  case (2 bc rep tel now xs)
  have id: "fr_report_id rep \<noteq> 0" "reports_identified xs" using "2.prems"(3) by (auto simp: reports_identified_def)
  obtain bc' r where ev: "bitrate_evaluate bc rep tel now = (bc', r)" by (metis prod.exhaust)
  then obtain d where d: "r = Inr d" using "2.prems"(5) by (cases r) auto
  obtain bc'' es where es: "bitrate_run bc' xs = (bc'', es)" by (metis prod.exhaust)
  note ok = evaluate_Inr_evaluable [OF "2.prems"(1) id(1) "2.prems"(2) ev [unfolded d]]
  note h = evaluate_history(1,2) [OF ok(1) ev [unfolded d]]
  have l: "d # es = us @ e # vs" using "2.prems"(5) by (simp add: ev d es)
  show ?case
  proof (cases us)
    case Nil
    with l h(1) "2.prems"(4,6) show ?thesis by auto
  next
    case (Cons u us')
    with l have u: "u = d" "es = us' @ e # vs" by auto
    have "unat (bc_clean_windows bc') \<le> length (takeWhile calm_window (d # hist))"
      using h(2) "2.prems"(4) by auto
    from "2.IH" [OF ev [symmetric] d ok(2,3) id(2) this] es u "2.prems"(6) show ?thesis
      unfolding Cons u(1) by simp
  qed
qed

text \<open>
  C22: The bitrate rises only after ten good windows. In every history of a controller that starts
  with no clean windows, a window that raises the target is itself clean, and the nine windows
  before it were clean and left the target alone: no stale, inconclusive or pressured window and no
  reduction within the last ten windows.
\<close>

theorem raises_need_ten_clean_windows:
  assumes "controller_wf bc" "bc_next_decision_id bc \<noteq> 0" "bc_clean_windows bc = 0" "reports_identified xs"
    and "snd (bitrate_run bc xs) = us @ e # vs" "bd_state (be_decision e) = AB_Increase"
  shows "be_clean_recovery_evidence e \<and>
    (\<exists>ws zs. us = ws @ zs \<and> length zs = 9 \<and>
       list_all (\<lambda>z. be_clean_recovery_evidence z \<and> bd_state (be_decision z) = AB_Hold) zs)"
proof -
  have h: "be_clean_recovery_evidence e" "9 \<le> length (takeWhile calm_window (rev us))"
    using bitrate_run_history [OF assms(1,2,4) _ assms(5), of "[]"] assms(3,6) by (simp_all add: raising_def)
  let ?zs = "rev (take 9 (rev us))"
  have "us = take (length us - 9) us @ ?zs" by (simp add: take_rev)
  moreover have "length (rev us) \<ge> 9" using h(2) length_takeWhile_le [of calm_window "rev us"] by linarith
  then have "length ?zs = 9" by simp
  moreover have "calm_window z" if "z \<in> set (take 9 (rev us))" for z
  proof -
    have "take 9 (rev us) = take 9 (takeWhile calm_window (rev us))"
      using h(2) by (metis takeWhile_dropWhile_id take_append diff_is_0_eq' take_0 append_Nil2)
    with that have "z \<in> set (takeWhile calm_window (rev us))" by (metis in_set_takeD)
    then show ?thesis by (rule set_takeWhileD [THEN conjunct2])
  qed
  then have "list_all (\<lambda>z. be_clean_recovery_evidence z \<and> bd_state (be_decision z) = AB_Hold) ?zs"
    by (auto simp: list_all_iff calm_window_def)
  ultimately show ?thesis using h(1) by blast
qed

lemma clean_run_mono:
  assumes "controller_wf bc" "bc_next_decision_id bc \<noteq> 0" "reports_identified xs"
    "bitrate_run bc xs = (bc', es)" "length es = length xs" "list_all be_clean_recovery_evidence es"
  shows "controller_wf bc' \<and> bc_next_decision_id bc' \<noteq> 0 \<and> bc_ceiling_kbps bc' = bc_ceiling_kbps bc \<and>
    unat (bc_target_kbps bc) \<le> unat (bc_target_kbps bc') \<and>
    (xs \<noteq> [] \<and> 9 - unat (bc_clean_windows bc) < length xs \<and> unat (bc_cooldown_windows bc) \<le> length xs \<longrightarrow>
     min (unat (bc_target_kbps bc) + 250) (unat (bc_ceiling_kbps bc)) \<le> unat (bc_target_kbps bc'))"
  using assms
proof (induction bc xs arbitrary: es rule: bitrate_run.induct)
  case (1 bc)
  then show ?case by simp
next
  case (2 bc rep tel now xs)
  have id: "fr_report_id rep \<noteq> 0" "reports_identified xs" using "2.prems"(3) by (auto simp: reports_identified_def)
  obtain b r where ev: "bitrate_evaluate bc rep tel now = (b, r)" by (metis prod.exhaust)
  then obtain d where d: "r = Inr d" using "2.prems"(4,5) by (cases r) auto
  obtain b' fs where fs: "bitrate_run b xs = (b', fs)" by (metis prod.exhaust)
  have l: "es = d # fs" "bc' = b'" using "2.prems"(4) by (auto simp: ev d fs)
  note ok = evaluate_Inr_evaluable [OF "2.prems"(1) id(1) "2.prems"(2) ev [unfolded d]]
  have cl: "be_clean_recovery_evidence d" "list_all be_clean_recovery_evidence fs" "length fs = length xs"
    using "2.prems"(5,6) by (auto simp: l)
  note h = evaluate_history(3) [OF ok(1) ev [unfolded d] cl(1)]
  note ih = "2.IH" [OF ev [symmetric] d ok(2,3) id(2) fs [folded l(2)] cl(3,2)]
  note n = controller_wf_nat(2) [OF "2.prems"(1)]
  show ?case using ih h ok(4) n by (cases xs) (auto simp: min_def split: if_splits)
qed

lemma length_bitrate_run: "length (snd (bitrate_run bc xs)) \<le> length xs"
  by (induction bc xs rule: bitrate_run.induct) (auto split: prod.splits sum.splits)

lemma bitrate_run_append:
  "bitrate_run bc (xs @ ys) = (case bitrate_run bc xs of (b, es) \<Rightarrow>
     if length es = length xs then (case bitrate_run b ys of (b', fs) \<Rightarrow> (b', es @ fs)) else (b, es))"
proof (induction bc xs rule: bitrate_run.induct)
  case (2 bc rep tel now xs)
  then show ?case by (cases "bitrate_evaluate bc rep tel now"; cases "snd (bitrate_evaluate bc rep tel now)")
      (auto split: prod.splits)
qed (simp split: prod.splits)

lemma clean_blocks_raise:
  assumes "controller_wf bc" "bc_next_decision_id bc \<noteq> 0" "reports_identified xs"
    "bitrate_run bc xs = (bc', es)" "length es = length xs" "list_all be_clean_recovery_evidence es" "10 * k \<le> length xs"
  shows "min (unat (bc_target_kbps bc) + 250 * k) (unat (bc_ceiling_kbps bc)) \<le> unat (bc_target_kbps bc')"
  using assms
proof (induction k arbitrary: bc xs es)
  case 0
  then show ?case using clean_run_mono [of bc xs bc' es] by auto
next
  case (Suc k)
  obtain b fs where r1: "bitrate_run bc (take 10 xs) = (b, fs)" by (metis prod.exhaust)
  obtain b' gs where r2: "bitrate_run b (drop 10 xs) = (b', gs)" by (metis prod.exhaust)
  have lf: "length fs \<le> length (take 10 xs)" using length_bitrate_run [of bc "take 10 xs"] by (simp add: r1)
  have eq: "bitrate_run bc xs = (if length fs = length (take 10 xs) then (b', fs @ gs) else (b, fs))"
    using bitrate_run_append [of bc "take 10 xs" "drop 10 xs"] by (simp add: r1 r2)
  have full: "length fs = length (take 10 xs)"
  proof (rule ccontr)
    assume "length fs \<noteq> length (take 10 xs)"
    with eq Suc.prems(4,5) lf show False by auto
  qed
  with eq Suc.prems(4) have e: "es = fs @ gs" "bc' = b'" by auto
  have id: "reports_identified (take 10 xs)" "reports_identified (drop 10 xs)"
    using Suc.prems(3) by (auto simp: reports_identified_def list_all_iff dest: in_set_takeD in_set_dropD)
  have cl: "list_all be_clean_recovery_evidence fs" "list_all be_clean_recovery_evidence gs" "length gs = length (drop 10 xs)"
    using Suc.prems(5,6) full by (auto simp: e)
  have "length (take 10 xs) = 10" "unat (bc_cooldown_windows bc) \<le> 10" "take 10 xs \<noteq> []"
    using Suc.prems(1,7) by (auto simp: controller_wf_def ADAPTIVE_BITRATE_COOLDOWN_WINDOWS_def word_le_nat_alt)
  then have m: "controller_wf b" "bc_next_decision_id b \<noteq> 0" "bc_ceiling_kbps b = bc_ceiling_kbps bc"
    "min (unat (bc_target_kbps bc) + 250) (unat (bc_ceiling_kbps bc)) \<le> unat (bc_target_kbps b)"
    using clean_run_mono [OF Suc.prems(1,2) id(1) r1 full cl(1)] by simp_all
  show ?case
  proof -
    have "10 * k \<le> length (drop 10 xs)" using Suc.prems(7) by simp
    from Suc.IH [OF m(1,2) id(2) r2 [folded e(2)] cl(3,2) this] m(3,4) show ?thesis
      by (simp add: min_def split: if_splits)
  qed
qed

text \<open>
  C23: Clean feedback restores the bitrate. While every window is clean, each ten windows raise the
  target by at least 250 kbps until it is the ceiling; so from any state the ceiling is reached
  after at most ten windows for each 250 kbps missing, whatever the cooldown left by earlier
  pressure.
\<close>

theorem clean_feedback_restores_ceiling:
  assumes "controller_wf bc" "bc_next_decision_id bc \<noteq> 0" "reports_identified xs"
    and "bitrate_run bc xs = (bc', es)" "length es = length xs" "list_all be_clean_recovery_evidence es"
    and "unat (bc_ceiling_kbps bc) - unat (bc_target_kbps bc) \<le> 250 * k" "10 * k \<le> length xs"
  shows "bc_target_kbps bc' = bc_ceiling_kbps bc"
proof -
  have "unat (bc_ceiling_kbps bc) \<le> unat (bc_target_kbps bc')"
    using clean_blocks_raise [OF assms(1-6,8)] assms(7) by simp
  moreover have "controller_wf bc'" "bc_ceiling_kbps bc' = bc_ceiling_kbps bc"
    using clean_run_mono [OF assms(1-6)] by simp_all
  then have "unat (bc_target_kbps bc') \<le> unat (bc_ceiling_kbps bc)" using controller_wf_nat(2) by metis
  ultimately show ?thesis by (simp add: word_unat_eq_iff)
qed

section \<open>A concrete history\<close>

definition demo_telemetry :: media_telemetry_snapshot where
  "demo_telemetry = \<lparr>mt_scheduler_cancellations = 0, mt_send_failures = 0, mt_selected_path_rtt_micros = 20000,
     mt_selected_path_lost_packets = 0, mt_selected_path_congestion_events = 0\<rparr>"

definition demo_report :: "nat \<Rightarrow> media_feedback_report" where
  "demo_report n = \<lparr>fr_report_id = of_nat n, fr_interval_ms = 1000, fr_flags = MediaFeedbackFlags 0,
     fr_last_sequence = Some (of_nat (60 * n)), fr_transport_dropped_delta = 0, fr_frontend_dropped_delta = 0,
     fr_decoder_dropped_delta = 0, fr_presenter_dropped_delta = 0, fr_frontend_queue_depth = 0,
     fr_frontend_queue_capacity = 4, fr_decode_queue_depth = 0, fr_decode_queue_capacity = 4,
     fr_presenter_queue_depth = 0, fr_presenter_queue_capacity = 4, fr_transport_delivery_p95_ms = Some 20,
     fr_decode_p95_ms = Some 5, fr_presentation_p95_ms = Some 5\<rparr>"

text \<open>A viewer that was pressed down by 250 kbps and then sends clean windows, one per second.\<close>

definition demo_controller :: bitrate_controller where
  "demo_controller = (bitrate_controller_new 12000 demo_telemetry)\<lparr>bc_target_kbps := 11750,
     bc_cooldown_windows := 10, bc_last_report_id := Some 1, bc_last_report_received_at := Some 0,
     bc_last_sequence := Some 60, bc_next_decision_id := 2\<rparr>"

definition demo_windows :: "nat \<Rightarrow> nat \<Rightarrow> (media_feedback_report \<times> media_telemetry_snapshot \<times> instant) list" where
  "demo_windows i n = map (\<lambda>i. (demo_report (i + 2), demo_telemetry, (i + 1) * 1000000000)) [i..<n]"

lemma demo_signals:
  "host_signals demo_telemetry demo_telemetry = (FS_Clean, REASON_NONE)"
  "base \<in> {None, Some 20000} \<Longrightarrow> rtt_signals base 20000 (FS_Clean, REASON_NONE) = (Some 20000, (FS_Clean, REASON_NONE))"
  "receiver_signals (demo_report i) (FS_Clean, REASON_NONE) = (FS_Clean, REASON_NONE)"
  by (auto simp: host_signals_def demo_telemetry_def saturating_sub_def graded_signal_def rtt_signals_def
      saturating_mul_def receiver_signals_def demo_report_def latency_or_zero_def any_queue_at_least_def
      queue_ratio_at_least_def receiver_drops_def saturating_add_def feedback_flags_contains_def RESYNC_ACTIVE_def)

definition demo_good :: "nat \<Rightarrow> bitrate_controller \<Rightarrow> bool" where
  "demo_good i bc \<longleftrightarrow> controller_wf bc \<and> bc_next_decision_id bc = of_nat (i + 2) \<and>
     bc_last_report_id bc = Some (of_nat (i + 1)) \<and> bc_last_report_received_at bc = Some (i * 1000000000) \<and>
     bc_previous_telemetry bc = demo_telemetry \<and> bc_baseline_rtt_micros bc \<in> {None, Some 20000} \<and>
     bc_last_sequence bc = Some (of_nat (60 * (i + 1)))"

lemma of_nat_u64: "i < 100000 \<Longrightarrow> unat (of_nat i :: u64) = i"
  by (simp add: unat_of_nat_small)

lemma demo_classify:
  assumes "demo_good i bc" "i < 1000"
  shows "classify bc (demo_report (i + 2)) demo_telemetry ((i + 1) * 1000000000) =
    (bc\<lparr>bc_baseline_rtt_micros := Some 20000\<rparr>,
     \<lparr>cl_severity = FS_Clean, cl_pressure_severity = FS_Clean,
      cl_reasons = (if bc_target_kbps bc < bc_ceiling_kbps bc then reasons_union REASON_NONE REASON_CLEAN_RECOVERY
        else REASON_NONE), cl_stale = False, cl_trusted_host_pressure = False\<rparr>)"
proof -
  have g: "bc_last_report_received_at bc = Some (i * 1000000000)" "bc_previous_telemetry bc = demo_telemetry"
    "bc_baseline_rtt_micros bc \<in> {None, Some 20000}" "bc_last_sequence bc = Some (of_nat (60 * (i + 1)))"
    using assms(1) by (auto simp: demo_good_def)
  have st: "\<not> report_stale bc (demo_report (i + 2)) ((i + 1) * 1000000000)"
    by (simp add: report_stale_def g demo_report_def FEEDBACK_FRESH_INTERVAL_MIN_MS_def FEEDBACK_FRESH_INTERVAL_MAX_MS_def
        FEEDBACK_FRESH_ARRIVAL_GAP_MIN_def FEEDBACK_STALE_ARRIVAL_GAP_def from_millis_def)
  have sq: "(of_nat (60 * (i + 1)) :: u64) < of_nat (60 * (i + 2))"
    using assms(2) by (subst word_less_nat_alt, subst of_nat_u64, simp, subst of_nat_u64) simp_all
  have ev: "recovery_evidence (bc\<lparr>bc_baseline_rtt_micros := Some 20000\<rparr>) (demo_report (i + 2))"
    using sq unfolding recovery_evidence_def by (simp add: g demo_report_def del: of_nat_mult of_nat_add mult_Suc_right)
  have tel: "mt_selected_path_rtt_micros demo_telemetry = 20000" by (simp add: demo_telemetry_def)
  show ?thesis
    unfolding classify_def Let_def g(2) demo_signals(1) tel demo_signals(2) [OF g(3)] case_prod_conv fst_conv snd_conv
      demo_signals(3) using st ev by simp
qed

lemma demo_evaluable: "evaluable demo_controller (demo_report 2)"
  by (simp add: evaluable_def fresh_id_def demo_controller_def bitrate_controller_new_def controller_wf_def Let_def
      ADAPTIVE_BITRATE_FLOOR_KBPS_def ADAPTIVE_BITRATE_COOLDOWN_WINDOWS_def quantize_down_def
      ADAPTIVE_BITRATE_QUANTUM_KBPS_def demo_report_def)

lemma demo_sequence:
  assumes "i < 1000"
  shows "(60 + 60 * of_nat i :: u64) \<le> 120 + 60 * of_nat i"
proof -
  have "(of_nat (60 * (i + 1)) :: u64) \<le> of_nat (60 * (i + 2))"
    using assms by (subst word_le_nat_alt, subst of_nat_u64, simp, subst of_nat_u64) simp_all
  then show ?thesis by simp
qed

lemma demo_step:
  assumes "demo_good i bc" "i < 1000"
  obtains bc' e where "bitrate_evaluate bc (demo_report (i + 2)) demo_telemetry ((i + 1) * 1000000000) = (bc', Inr e)"
    "demo_good (Suc i) bc'" "be_clean_recovery_evidence e"
proof -
  let ?rep = "demo_report (i + 2)" and ?now = "(i + 1) * 1000000000"
  have u: "unat (of_nat (i + 2) :: u64) = i + 2" "unat (of_nat (i + 1) :: u64) = i + 1" "unat (- 1 :: u64) = 2 ^ 64 - 1"
    "unat (0 :: u64) = 0"
    using assms(2) by (simp_all only: of_nat_u64 unsigned_minus_1_eq_mask mask_eq_exp_minus_1 len_of_numeral_defs unat_0) simp_all
  have ev: "evaluable bc ?rep"
    using assms u unfolding evaluable_def fresh_id_def demo_good_def word_unat_eq_iff word_less_nat_alt
    by (simp add: demo_report_def del: of_nat_add)
  note cl = demo_classify [OF assms]
  obtain bc' e c a st where s: "bitrate_evaluate bc ?rep demo_telemetry ?now = (bc', Inr e)"
    "controller_wf bc'" "bc_next_decision_id bc' = bc_next_decision_id bc + 1"
    "be_clean_recovery_evidence e \<longleftrightarrow> cl_severity c = FS_Clean"
    "apply_severity (cl_severity c) (cooled (bc\<lparr>bc_baseline_rtt_micros := bc_baseline_rtt_micros a\<rparr>)) = (a, st)"
    "bc' = remember_report a (bc_next_decision_id bc + 1) ?rep demo_telemetry ?now st c" "same_frame bc a"
    "classify bc ?rep demo_telemetry ?now = (bc\<lparr>bc_baseline_rtt_micros := bc_baseline_rtt_micros a\<rparr>, c)"
    by (rule evaluate_step [OF ev, of demo_telemetry ?now])
  have c: "cl_severity c = FS_Clean" "\<not> cl_stale c" using s(8) unfolding cl by auto
  have "bc\<lparr>bc_baseline_rtt_micros := Some 20000\<rparr> = bc\<lparr>bc_baseline_rtt_micros := bc_baseline_rtt_micros a\<rparr>"
    using s(8) unfolding cl by (rule Pair_inject) 
  from arg_cong [OF this, of bc_baseline_rtt_micros] have b: "bc_baseline_rtt_micros a = Some 20000" by simp
  have "demo_good (Suc i) bc'"
    using assms(1) s(2,3,7) c(2) b unfolding s(6) demo_good_def same_frame_def remember_report_def Let_def
    by (simp add: demo_report_def max_def demo_sequence [OF assms(2)])
  with s(1,4) c(1) show thesis by (intro that) auto
qed

lemma demo_run:
  assumes "demo_good i bc" "i + n \<le> 1000"
  shows "\<exists>bc' es. bitrate_run bc (demo_windows i (i + n)) = (bc', es) \<and> length es = n \<and> list_all be_clean_recovery_evidence es"
  using assms
proof (induction n arbitrary: i bc)
  case (Suc n)
  obtain b e where s: "bitrate_evaluate bc (demo_report (i + 2)) demo_telemetry ((i + 1) * 1000000000) = (b, Inr e)"
    "demo_good (Suc i) b" "be_clean_recovery_evidence e"
    using demo_step [OF Suc.prems(1)] Suc.prems(2) by (metis add_Suc_right less_le_trans less_add_Suc1)
  have "demo_windows i (i + Suc n) = (demo_report (i + 2), demo_telemetry, (i + 1) * 1000000000) # demo_windows (Suc i) (Suc i + n)"
    using upt_conv_Cons [of i "i + Suc n"] by (simp add: demo_windows_def)
  then show ?case using Suc.IH [OF s(2)] Suc.prems(2) s(1,3) by (auto split: prod.splits)
qed (simp add: demo_windows_def)

lemma demo_good_start: "demo_good 0 demo_controller"
  by (simp add: demo_good_def demo_controller_def bitrate_controller_new_def controller_wf_def Let_def
      ADAPTIVE_BITRATE_FLOOR_KBPS_def ADAPTIVE_BITRATE_COOLDOWN_WINDOWS_def quantize_down_def
      ADAPTIVE_BITRATE_QUANTUM_KBPS_def demo_telemetry_def)

lemma demo_reports_identified: "i \<le> n \<Longrightarrow> n \<le> 1000 \<Longrightarrow> reports_identified (demo_windows i n)"
proof -
  assume n: "n \<le> 1000"
  have "(of_nat (k + 2) :: u64) \<noteq> 0" if "k < n" for k
    using that n of_nat_u64 [of "k + 2"] unfolding word_unat_eq_iff by (simp del: of_nat_add)
  then show ?thesis by (auto simp: reports_identified_def list_all_iff demo_windows_def demo_report_def simp del: of_nat_add)
qed

theorem clean_feedback_restores_ceiling_witness:
  "\<exists>bc' es. bitrate_run demo_controller (demo_windows 0 10) = (bc', es) \<and>
     bc_target_kbps demo_controller = 11750 \<and> bc_target_kbps bc' = 12000"
proof -
  obtain bc' es where r: "bitrate_run demo_controller (demo_windows 0 10) = (bc', es)" "length es = 10"
    "list_all be_clean_recovery_evidence es"
    using demo_run [OF demo_good_start, of 10] by auto
  have l: "length es = length (demo_windows 0 10)" using r(2) by (simp add: demo_windows_def)
  have d: "bc_ceiling_kbps demo_controller = 12000" "bc_target_kbps demo_controller = 11750"
    "bc_next_decision_id demo_controller \<noteq> 0" "controller_wf demo_controller"
    using demo_good_start by (simp_all add: demo_good_def demo_controller_def bitrate_controller_new_def quantize_down_def
        ADAPTIVE_BITRATE_QUANTUM_KBPS_def ADAPTIVE_BITRATE_FLOOR_KBPS_def Let_def)
  have "bc_target_kbps bc' = bc_ceiling_kbps demo_controller"
    using clean_feedback_restores_ceiling [OF d(4,3) demo_reports_identified r(1) l r(3), of 1] d(1,2)
    by (simp add: demo_windows_def)
  with r(1) d show ?thesis by auto
qed

theorem bitrate_decisions_always_valid_witness:
  "\<exists>bc' e. bitrate_evaluate demo_controller (demo_report 2) demo_telemetry 1000000000 = (bc', Inr e) \<and>
     decision_validate (be_decision e) = Inr ()"
  using bitrate_decisions_always_valid [of 12000 demo_controller "demo_report 2" demo_telemetry demo_telemetry 1000000000]
    demo_evaluable by auto


lemma not_raising_run:
  assumes "controller_wf bc" "bc_next_decision_id bc \<noteq> 0" "reports_identified xs"
    "bitrate_run bc xs = (bc', es)" "length es = length xs" "\<forall>e \<in> set es. bd_state (be_decision e) \<noteq> AB_Increase"
  shows "bc_target_kbps bc' \<le> bc_target_kbps bc"
  using assms
proof (induction bc xs arbitrary: es rule: bitrate_run.induct)
  case (1 bc)
  then show ?case by simp
next
  case (2 bc rep tel now xs)
  have id: "fr_report_id rep \<noteq> 0" "reports_identified xs" using "2.prems"(3) by (auto simp: reports_identified_def)
  obtain b r where ev: "bitrate_evaluate bc rep tel now = (b, r)" by (metis prod.exhaust)
  then obtain d where d: "r = Inr d" using "2.prems"(4,5) by (cases r) auto
  obtain b' fs where fs: "bitrate_run b xs = (b', fs)" by (metis prod.exhaust)
  have l: "es = d # fs" "bc' = b'" using "2.prems"(4) by (auto simp: ev d fs)
  note ok = evaluate_Inr_evaluable [OF "2.prems"(1) id(1) "2.prems"(2) ev [unfolded d]]
  obtain b2 e2 cl a where e2: "bitrate_evaluate bc rep tel now = (b2, Inr e2)"
    "be_decision e2 = decision_of a rep (move_state (bc_target_kbps bc) (bc_target_kbps b2)) cl"
    by (rule evaluate_step [OF ok(1), of tel now])
  have "b2 = b" "e2 = d" using e2(1) ev d by simp_all
  then have "bd_state (be_decision d) = move_state (bc_target_kbps bc) (bc_target_kbps b)"
    using e2(2) by (simp add: decision_of_def)
  moreover have "bd_state (be_decision d) \<noteq> AB_Increase" using "2.prems"(6) by (simp add: l)
  ultimately have "\<not> bc_target_kbps bc < bc_target_kbps b" by (auto simp: move_state_def split: if_splits)
  moreover have "bc_target_kbps bc' \<le> bc_target_kbps b"
    using "2.IH" [OF ev [symmetric] d ok(2,3) id(2) fs [folded l(2)]] "2.prems"(5,6) by (simp add: l)
  ultimately show ?case by simp
qed

theorem raises_need_ten_clean_windows_witness:
  "\<exists>us e vs. snd (bitrate_run demo_controller (demo_windows 0 10)) = us @ e # vs \<and>
     bd_state (be_decision e) = AB_Increase \<and> be_clean_recovery_evidence e \<and> 9 \<le> length us"
proof -
  obtain bc' es where r: "bitrate_run demo_controller (demo_windows 0 10) = (bc', es)" "length es = 10"
    "list_all be_clean_recovery_evidence es"
    using demo_run [OF demo_good_start, of 10] by auto
  have l: "length es = length (demo_windows 0 10)" using r(2) by (simp add: demo_windows_def)
  have d: "bc_ceiling_kbps demo_controller = 12000" "bc_target_kbps demo_controller = 11750"
    "bc_next_decision_id demo_controller \<noteq> 0" "controller_wf demo_controller" "bc_clean_windows demo_controller = 0"
    using demo_good_start by (simp_all add: demo_good_def demo_controller_def bitrate_controller_new_def quantize_down_def
        ADAPTIVE_BITRATE_QUANTUM_KBPS_def ADAPTIVE_BITRATE_FLOOR_KBPS_def Let_def)
  have id: "reports_identified (demo_windows 0 10)" by (rule demo_reports_identified) simp_all
  have "12000 \<le> unat (bc_target_kbps bc')"
    using clean_blocks_raise [OF d(4,3) id r(1) l r(3), of 1] d(1,2) by (simp add: demo_windows_def)
  then have "\<not> bc_target_kbps bc' \<le> bc_target_kbps demo_controller" by (simp add: d(2) word_le_nat_alt)
  then obtain e where "e \<in> set es" and e: "bd_state (be_decision e) = AB_Increase"
    using not_raising_run [OF d(4,3) id r(1) l] by blast
  then obtain us vs where "es = us @ e # vs" by (meson split_list)
  then have s: "snd (bitrate_run demo_controller (demo_windows 0 10)) = us @ e # vs" by (simp add: r(1))
  from raises_need_ten_clean_windows [OF d(4,3,5) id s e] s e show ?thesis by fastforce
qed

end
