(* ===== verification/Generation_Properties.thy ===== *)
theory Generation_Properties
  imports Generation_Adaptive Bitrate_Properties
begin

text \<open>
  What the shared coordinator guarantees: no viewer can make a pass fail for the others, every
  decision is valid, and the shared target is what the most constrained contributing viewer needs.
\<close>

section \<open>The invariant\<close>

text \<open>At most \<open>n\<close> reports have arrived since the last read, on top of the totals the cursor names.\<close>

definition pending_reports :: "nat \<Rightarrow> generation_contributor \<Rightarrow> bool" where
  "pending_reports n c \<longleftrightarrow> (\<exists>base rs. gk_ingress c = ingress_all base rs \<and> ig_totals (gk_cursor c) = ci_totals base \<and>
     (\<forall>r \<in> set rs. report_validate r = Inr ()) \<and> length rs \<le> n \<and>
     (case ci_latest base of None \<Rightarrow> True
      | Some r \<Rightarrow> (\<exists>i. ig_last_report_id (gk_cursor c) = Some i \<and> fr_report_id r \<le> i)))"

definition evaluation_ok :: "u32 \<Rightarrow> bitrate_evaluation \<Rightarrow> bool" where
  "evaluation_ok ceiling_kbps e \<longleftrightarrow> decision_validate (be_decision e) = Inr () \<and>
     ADAPTIVE_BITRATE_FLOOR_KBPS \<le> bd_target_kbps (be_decision e) \<and> bd_target_kbps (be_decision e) \<le> ceiling_kbps"

text \<open>After \<open>n\<close> events: the controller counts at most one decision for each.\<close>

definition contributor_ok :: "nat \<Rightarrow> u32 \<Rightarrow> generation_contributor \<Rightarrow> bool" where
  "contributor_ok n ceiling_kbps c \<longleftrightarrow> controller_wf (gk_controller c) \<and> bc_ceiling_kbps (gk_controller c) = ceiling_kbps \<and>
     bc_next_decision_id (gk_controller c) \<noteq> 0 \<and> unat (bc_next_decision_id (gk_controller c)) \<le> n + 1 \<and>
     bc_last_report_id (gk_controller c) = ig_last_report_id (gk_cursor c) \<and> pending_reports n c \<and>
     (\<forall>e. gk_latest_evaluation c = Some e \<longrightarrow> evaluation_ok ceiling_kbps e) \<and>
     (gk_latest_report c = None \<longleftrightarrow> gk_latest_evaluation c = None) \<and>
     (\<forall>r. gk_latest_report c = Some r \<longrightarrow> fr_report_id r \<noteq> 0)"

definition target_ok :: "u32 \<Rightarrow> u32 \<Rightarrow> bool" where
  "target_ok ceiling_kbps target_kbps \<longleftrightarrow> ADAPTIVE_BITRATE_FLOOR_KBPS \<le> target_kbps \<and> target_kbps \<le> ceiling_kbps \<and>
     unat ceiling_kbps \<le> 100000 \<and> 250 dvd unat ceiling_kbps"

definition generation_ok :: "nat \<Rightarrow> generation_adaptive \<Rightarrow> bool" where
  "generation_ok n ga \<longleftrightarrow> target_ok (ga_ceiling_kbps ga) (ga_target_kbps ga) \<and> ga_next_decision_id ga \<noteq> 0 \<and>
     unat (ga_next_decision_id ga) \<le> n * MAX_VIEWERS + 1 \<and>
     distinct (map fst (ga_contributors ga)) \<and> length (ga_contributors ga) \<le> MAX_VIEWERS \<and>
     (\<forall>(k, c) \<in> set (ga_contributors ga). contributor_ok n (ga_ceiling_kbps ga) c)"

section \<open>Reading and judging one viewer\<close>

lemma report_since_ok:
  assumes p: "pending_reports n c" and n: "n < 2 ^ 32"
  shows "report_since (gk_cursor c) (gk_ingress c) = Inr None \<or>
    (\<exists>report cursor. report_since (gk_cursor c) (gk_ingress c) = Inr (Some (report, cursor)) \<and>
       report_validate report = Inr () \<and> ig_last_report_id cursor = Some (fr_report_id report) \<and>
       (case ig_last_report_id (gk_cursor c) of None \<Rightarrow> True | Some i \<Rightarrow> i < fr_report_id report) \<and>
       pending_reports n (c\<lparr>gk_cursor := cursor\<rparr>))"
proof -
  obtain base rs where b: "gk_ingress c = ingress_all base rs" "ig_totals (gk_cursor c) = ci_totals base"
    "\<forall>r \<in> set rs. report_validate r = Inr ()" "length rs \<le> n"
    "case ci_latest base of None \<Rightarrow> True
      | Some r \<Rightarrow> (\<exists>i. ig_last_report_id (gk_cursor c) = Some i \<and> fr_report_id r \<le> i)"
    using p unfolding pending_reports_def by blast
  show ?thesis
  proof (cases "rs = []")
    case True
    then show ?thesis using b(1,5) by (auto simp: report_since_def split: option.splits)
  next
    case False
    show ?thesis
    proof (cases "case ig_last_report_id (gk_cursor c) of None \<Rightarrow> True | Some i \<Rightarrow> i < fr_report_id (last rs)")
      case True
      let ?cursor = "\<lparr>ig_last_report_id = Some (fr_report_id (last rs)), ig_totals = ci_totals (ingress_all base rs)\<rparr>"
      have s: "report_since (gk_cursor c) (gk_ingress c) = Inr (Some (aggregate_reports rs, ?cursor))"
        unfolding b(1) using report_since_summary [OF False b(3) _ b(2) True] b(4) n by simp
      have i: "fr_report_id (aggregate_reports rs) = fr_report_id (last rs)" by (simp add: aggregate_reports_def)
      have "pending_reports n (c\<lparr>gk_cursor := ?cursor\<rparr>)"
        unfolding pending_reports_def using ingress_all_latest [OF False, of base]
        by (intro exI [of _ "ingress_all base rs"] exI [of _ "[]"]) (simp add: b(1))
      with s i True aggregate_valid [OF False b(3)] show ?thesis by (auto split: option.splits)
    next
      case False
      then obtain i where "ig_last_report_id (gk_cursor c) = Some i" "fr_report_id (last rs) \<le> i"
        by (auto split: option.splits)
      then show ?thesis
        using ingress_all_latest [OF \<open>rs \<noteq> []\<close>, of base] by (auto simp: report_since_def b(1))
    qed
  qed
qed

lemma pending_reports_frame:
  "gk_ingress d = gk_ingress c \<Longrightarrow> gk_cursor d = gk_cursor c \<Longrightarrow> pending_reports n d = pending_reports n c"
  by (simp add: pending_reports_def cong: option.case_cong)

lemma pending_reports_mono: "pending_reports n c \<Longrightarrow> n \<le> m \<Longrightarrow> pending_reports m c"
  unfolding pending_reports_def by (meson le_trans)

lemma contributor_ok_mono: "contributor_ok n k c \<Longrightarrow> n \<le> m \<Longrightarrow> contributor_ok m k c"
  using pending_reports_mono [of n c m] by (auto simp: contributor_ok_def)

lemma unat_suc64: "unat (i :: u64) \<le> n + 1 \<Longrightarrow> n < 2 ^ 32 \<Longrightarrow> unat (i + 1) = unat i + 1"
  by (simp add: unat_word_ariths)

lemma evaluate_contributor_ok:
  assumes ok: "contributor_ok n k c" and n: "n < 2 ^ 32"
  obtains c' changed request where "evaluate_contributor telemetry now actuation c = (c', Inr (changed, request))"
    "contributor_ok (Suc n) k c'"
proof (cases "report_since (gk_cursor c) (gk_ingress c) = Inr None")
  case True
  then show thesis using contributor_ok_mono [OF ok, of "Suc n"]
    by (intro that [of c False False]) (simp_all add: evaluate_contributor_def)
next
  case False
  have next_id: "unat (bc_next_decision_id (gk_controller c)) \<le> n + 1" using ok by (simp add: contributor_ok_def)
  note u = unat_suc64 [OF next_id n]
  have pend: "pending_reports n c" using ok by (simp add: contributor_ok_def)
  obtain report cursor where r: "report_since (gk_cursor c) (gk_ingress c) = Inr (Some (report, cursor))"
    "report_validate report = Inr ()" "ig_last_report_id cursor = Some (fr_report_id report)"
    "case ig_last_report_id (gk_cursor c) of None \<Rightarrow> True | Some i \<Rightarrow> i < fr_report_id report"
    "pending_reports n (c\<lparr>gk_cursor := cursor\<rparr>)"
    using report_since_ok [OF pend n] False by blast
  have rid: "fr_report_id report \<noteq> 0" using r(2) by (simp add: report_validate_iff)
  have id: "bc_next_decision_id (gk_controller c) \<noteq> - 1" using u by auto
  have "evaluable (gk_controller c) report"
    using ok id rid r(4) by (simp add: evaluable_def contributor_ok_def fresh_id_def)
  then obtain bc e cl a where e: "bitrate_evaluate (gk_controller c) report telemetry now = (bc, Inr e)" "controller_wf bc"
    "bc_next_decision_id bc = bc_next_decision_id (gk_controller c) + 1" "bc_last_report_id bc = Some (fr_report_id report)"
    "decision_validate (be_decision e) = Inr ()" "bc_ceiling_kbps bc = bc_ceiling_kbps (gk_controller c)"
    "be_decision e = decision_of a report (move_state (bc_target_kbps (gk_controller c)) (bc_target_kbps bc)) cl"
    "bc_target_kbps a = bc_target_kbps bc"
    by (rule evaluate_step [of "gk_controller c" report telemetry now])
  have nz: "bc_next_decision_id bc \<noteq> 0" using u e(3) by auto
  have eok: "evaluation_ok k e"
    using e(2,5,6,8) ok by (simp add: evaluation_ok_def e(7) decision_of_def controller_wf_def contributor_ok_def)
  obtain rec m where m: "recovery_observe e now (gk_recovery c) = (rec, m)" by (metis prod.exhaust)
  let ?c = "c\<lparr>gk_cursor := cursor, gk_controller := bc, gk_recovery := rec,
     gk_detach := gk_detach c \<or> (m = RM_Detach \<and> actuation), gk_latest_report := Some report,
     gk_latest_evaluation := Some e, gk_last_received_at := Some now\<rparr>"
  have "pending_reports n ?c" using r(5) by (rule pending_reports_frame [THEN iffD1, rotated 2]) simp_all
  then have "pending_reports (Suc n) ?c" by (rule pending_reports_mono) simp
  moreover have "unat (bc_next_decision_id bc) \<le> Suc n + 1" using u next_id e(3) by simp
  ultimately have "contributor_ok (Suc n) k ?c"
    using e(2,4,6) nz r(3) rid eok ok by (simp add: contributor_ok_def)
  moreover have "evaluate_contributor telemetry now actuation c = (?c, Inr (True, m = RM_RequestRecovery))"
    by (simp add: evaluate_contributor_def r(1) e(1) m)
  ultimately show thesis by (intro that [of ?c True "m = RM_RequestRecovery"]) simp_all
qed

section \<open>A pass over all viewers\<close>

lemma evaluate_contributors_ok:
  assumes "\<forall>(i, c) \<in> set cs. contributor_ok n k c" "n < 2 ^ 32"
  shows "\<exists>cs' keys request. evaluate_contributors snapshots now actuation cs = (cs', Inr (keys, request)) \<and>
    map fst cs' = map fst cs \<and> (\<forall>(i, c) \<in> set cs'. contributor_ok (Suc n) k c) \<and> length keys \<le> length cs"
  using assms
proof (induction cs)
  case (Cons kc cs)
  obtain i c where kc: "kc = (i, c)" by (metis prod.exhaust)
  have a: "contributor_ok n k c" "\<forall>(i, c) \<in> set cs. contributor_ok n k c" using Cons.prems(1) by (simp_all add: kc)
  obtain c' ch rq where c: "evaluate_contributor (snapshots i) now actuation c = (c', Inr (ch, rq))" "contributor_ok (Suc n) k c'"
    by (rule evaluate_contributor_ok [OF a(1) Cons.prems(2), of "snapshots i" now actuation])
  obtain cs' keys request where r: "evaluate_contributors snapshots now actuation cs = (cs', Inr (keys, request))"
    "map fst cs' = map fst cs" "\<forall>(i, c) \<in> set cs'. contributor_ok (Suc n) k c" "length keys \<le> length cs"
    using Cons.IH [OF a(2) Cons.prems(2)] by blast
  have e: "evaluate_contributors snapshots now actuation (kc # cs) =
      ((i, c') # cs', Inr (if ch then i # keys else keys, rq \<or> request))" by (simp add: kc c(1) r(1))
  have "length (if ch then i # keys else keys) \<le> length (kc # cs)" using r(4) by simp
  moreover have "map fst ((i, c') # cs') = map fst (kc # cs)" using r(2) by (simp add: kc)
  moreover have "\<forall>(i, c) \<in> set ((i, c') # cs'). contributor_ok (Suc n) k c" using r(3) c(2) by simp
  ultimately show ?case unfolding e by blast
qed auto

lemma decision_validate_iff:
  "decision_validate d = Inr () \<longleftrightarrow> bd_decision_id d \<noteq> 0 \<and> bd_report_id d \<noteq> 0 \<and>
     list_all (\<lambda>bitrate. MIN_ADAPTIVE_BITRATE_KBPS \<le> bitrate \<and> bitrate \<le> MAX_ADAPTIVE_BITRATE_KBPS)
       [bd_target_kbps d, bd_floor_kbps d, bd_ceiling_kbps d] \<and>
     \<not> (bd_target_kbps d < bd_floor_kbps d \<or> bd_ceiling_kbps d < bd_target_kbps d) \<and>
     reasons_from_bits (reason_bits (bd_reasons d)) \<noteq> None"
  unfolding decision_validate_def check_chain by blast

lemma shared_decision_valid:
  assumes "target_ok ceiling_kbps target_kbps" "i \<noteq> 0" "r \<noteq> 0" "reasons_from_bits (reason_bits reasons) \<noteq> None"
  shows "decision_validate \<lparr>bd_decision_id = i, bd_report_id = r, bd_target_kbps = target_kbps,
     bd_floor_kbps = ADAPTIVE_BITRATE_FLOOR_KBPS, bd_ceiling_kbps = ceiling_kbps, bd_state = st,
     bd_reasons = reasons, bd_applied = applied\<rparr> = Inr ()"
  using assms unfolding decision_validate_iff target_ok_def
  by (simp add: MIN_ADAPTIVE_BITRATE_KBPS_def MAX_ADAPTIVE_BITRATE_KBPS_def ADAPTIVE_BITRATE_FLOOR_KBPS_def
      word_le_nat_alt word_less_nat_alt not_less)

lemma update_present_keys: "map_of xs k \<noteq> None \<Longrightarrow> map fst (AList.update k v xs) = map fst xs"
  by (induction xs) auto

lemma update_member: "(j, w) \<in> set (AList.update k v xs) \<Longrightarrow> (j, w) \<in> set xs \<or> (j = k \<and> w = v)"
  by (induction xs) (auto split: if_splits)

lemma checked_add_one:
  fixes i :: u64
  assumes "unat i + m + 1 < 2 ^ 64"
  shows "checked_add i 1 = Some (i + 1) \<and> i + 1 \<noteq> 0 \<and> unat (i + 1) = unat i + 1"
proof -
  have u: "unat (i + 1) = unat i + 1" using assms by (simp add: unat_word_ariths)
  then have "i + 1 \<noteq> 0" by (metis add_is_0 one_neq_zero unat_0)
  with u assms show ?thesis by (simp add: checked_add_def)
qed

definition shared_decision :: "u32 \<Rightarrow> adaptive_bitrate_state \<Rightarrow> bool \<Rightarrow> bitrate_evaluation \<Rightarrow> generation_adaptive \<Rightarrow> adaptive_bitrate_decision" where
  "shared_decision target_kbps st applied e ga =
     \<lparr>bd_decision_id = ga_next_decision_id ga, bd_report_id = bd_report_id (be_decision e),
      bd_target_kbps = target_kbps, bd_floor_kbps = ADAPTIVE_BITRATE_FLOOR_KBPS,
      bd_ceiling_kbps = ga_ceiling_kbps ga, bd_state = st,
      bd_reasons = bd_reasons (be_decision e), bd_applied = applied\<rparr>"

lemma publish_step:
  assumes "map_of (ga_contributors ga) key = Some c" "gk_latest_evaluation c = Some e"
    "checked_add (ga_next_decision_id ga) 1 = Some i" "decision_validate (shared_decision target_kbps st applied e ga) = Inr ()"
  shows "publish_decisions target_kbps st applied (key # keys) ga = publish_decisions target_kbps st applied keys
    (ga\<lparr>ga_next_decision_id := i, ga_contributors :=
       AList.update key (c\<lparr>gk_decision := Some (shared_decision target_kbps st applied e ga)\<rparr>) (ga_contributors ga)\<rparr>)"
  using assms by (simp add: shared_decision_def Let_def)

lemma publish_skip:
  "\<not> (\<exists>c e. map_of (ga_contributors ga) key = Some c \<and> gk_latest_evaluation c = Some e) \<Longrightarrow>
   publish_decisions target_kbps st applied (key # keys) ga = publish_decisions target_kbps st applied keys ga"
  by (simp split: option.splits)

lemma contributor_ok_decision: "contributor_ok n k (c\<lparr>gk_decision := d\<rparr>) = contributor_ok n k c"
  using pending_reports_frame [of "c\<lparr>gk_decision := d\<rparr>" c n] by (simp add: contributor_ok_def)

lemma publish_decisions_ok:
  assumes "\<forall>(i, c) \<in> set (ga_contributors ga). contributor_ok n (ga_ceiling_kbps ga) c"
    "target_ok (ga_ceiling_kbps ga) target_kbps" "ga_next_decision_id ga \<noteq> 0"
    "unat (ga_next_decision_id ga) + length keys < 2 ^ 64"
  shows "\<exists>ga'. publish_decisions target_kbps st applied keys ga = (ga', Inr ()) \<and>
    (\<forall>(i, c) \<in> set (ga_contributors ga'). contributor_ok n (ga_ceiling_kbps ga) c) \<and>
    map fst (ga_contributors ga') = map fst (ga_contributors ga) \<and>
    ga_target_kbps ga' = ga_target_kbps ga \<and> ga_ceiling_kbps ga' = ga_ceiling_kbps ga \<and> ga_next_decision_id ga' \<noteq> 0 \<and>
    unat (ga_next_decision_id ga') \<le> unat (ga_next_decision_id ga) + length keys"
  using assms
proof (induction keys arbitrary: ga)
  case (Cons key keys)
  show ?case
  proof (cases "\<exists>c e. map_of (ga_contributors ga) key = Some c \<and> gk_latest_evaluation c = Some e")
    case False
    have "unat (ga_next_decision_id ga) + length keys < 2 ^ 64" using Cons.prems(4) by simp
    from Cons.IH [OF Cons.prems(1-3) this] show ?thesis
      unfolding publish_skip [OF False] using le_SucI by (metis (no_types, lifting) add_Suc_right length_Cons)
  next
    case True
    then obtain c e where c: "map_of (ga_contributors ga) key = Some c" "gk_latest_evaluation c = Some e" by blast
    have cok: "contributor_ok n (ga_ceiling_kbps ga) c" using map_of_SomeD [OF c(1)] Cons.prems(1) by blast
    then have e: "decision_validate (be_decision e) = Inr ()" using c(2) by (simp add: contributor_ok_def evaluation_ok_def)
    have i: "checked_add (ga_next_decision_id ga) 1 = Some (ga_next_decision_id ga + 1) \<and> ga_next_decision_id ga + 1 \<noteq> 0 \<and>
        unat (ga_next_decision_id ga + 1) = unat (ga_next_decision_id ga) + 1"
      using Cons.prems(4) by (intro checked_add_one [of _ "length keys"]) simp
    have "bd_report_id (be_decision e) \<noteq> 0" "reasons_from_bits (reason_bits (bd_reasons (be_decision e))) \<noteq> None"
      using e unfolding decision_validate_iff by blast+
    then have v: "decision_validate (shared_decision target_kbps st applied e ga) = Inr ()"
      unfolding shared_decision_def by (rule shared_decision_valid [OF Cons.prems(2,3)])
    let ?c = "c\<lparr>gk_decision := Some (shared_decision target_kbps st applied e ga)\<rparr>"
    let ?ga = "ga\<lparr>ga_next_decision_id := ga_next_decision_id ga + 1, ga_contributors := AList.update key ?c (ga_contributors ga)\<rparr>"
    have keys: "map fst (ga_contributors ?ga) = map fst (ga_contributors ga)" using c(1) by (simp add: update_present_keys)
    have ok: "\<forall>(i, c) \<in> set (ga_contributors ?ga). contributor_ok n (ga_ceiling_kbps ?ga) c"
    proof (intro ballI, clarify)
      fix j w assume "(j, w) \<in> set (ga_contributors ?ga)"
      then have "(j, w) \<in> set (ga_contributors ga) \<or> w = ?c" using update_member by fastforce
      then show "contributor_ok n (ga_ceiling_kbps ?ga) w" using Cons.prems(1) cok by (auto simp: contributor_ok_decision)
    qed
    have "target_ok (ga_ceiling_kbps ?ga) target_kbps" "ga_next_decision_id ?ga \<noteq> 0"
      "unat (ga_next_decision_id ?ga) + length keys < 2 ^ 64" using Cons.prems(2,4) i by simp_all
    from Cons.IH [OF ok this] keys i show ?thesis
      unfolding publish_step [OF c conjunct1 [OF i] v] by simp
  qed
qed simp


section \<open>The shared target\<close>

text \<open>The targets of the viewers that are not isolated and whose last window is fresh and recent.\<close>

definition active_targets :: "instant \<Rightarrow> generation_adaptive \<Rightarrow> u32 set" where
  "active_targets now ga = {bd_target_kbps (be_decision e) | k c e breaches received.
     (k, c) \<in> set (ga_contributors ga) \<and> gk_recovery c = Recovery_Active breaches \<and>
     gk_last_received_at c = Some received \<and> now - received \<le> FEEDBACK_STALE_ARRIVAL_GAP \<and>
     gk_latest_evaluation c = Some e \<and> be_fresh e}"

lemma contributor_active_iff:
  "contributor_active now c \<and> gk_latest_evaluation c = Some e \<longleftrightarrow>
     (\<exists>breaches received. gk_recovery c = Recovery_Active breaches \<and> gk_last_received_at c = Some received \<and>
        now - received \<le> FEEDBACK_STALE_ARRIVAL_GAP \<and> gk_latest_evaluation c = Some e \<and> be_fresh e)"
  by (cases "gk_recovery c") (auto simp: contributor_active_def split: option.splits)

lemma active_targets_alt:
  "active_targets now ga = {bd_target_kbps (be_decision e) | k c e.
     (k, c) \<in> set (ga_contributors ga) \<and> contributor_active now c \<and> gk_latest_evaluation c = Some e}"
  unfolding active_targets_def contributor_active_iff by blast

lemma active_windows_targets:
  assumes "\<forall>(i, c) \<in> set cs. gk_latest_report c = None \<longleftrightarrow> gk_latest_evaluation c = None"
  shows "(\<lambda>w. bd_target_kbps (be_decision (fst w))) ` set (active_windows now cs) = {bd_target_kbps (be_decision e) | i c e.
     (i, c) \<in> set cs \<and> contributor_active now c \<and> gk_latest_evaluation c = Some e}"
  using assms
proof (induction cs)
  case (Cons ic cs)
  obtain i j c where ic: "ic = ((i, j), c)" by (metis surj_pair)
  show ?case
  proof (cases "contributor_active now c")
    case True
    then obtain e where e: "gk_latest_evaluation c = Some e" by (auto simp: contributor_active_def split: option.splits)
    then obtain r where r: "gk_latest_report c = Some r" using Cons.prems by (auto simp: ic)
    have "active_windows now (ic # cs) = (e, r) # active_windows now cs" by (simp add: ic True e r)
    then show ?thesis using Cons True e by (auto simp: ic)
  next
    case False
    then have "active_windows now (ic # cs) = active_windows now cs" by (simp add: ic)
    then show ?thesis using Cons False by (auto simp: ic)
  qed
qed simp

lemma active_windows_from: "w \<in> set (active_windows now cs) \<Longrightarrow>
  \<exists>i c. (i, c) \<in> set cs \<and> gk_latest_evaluation c = Some (fst w) \<and> gk_latest_report c = Some (snd w)"
proof (induction cs)
  case (Cons ic cs)
  obtain i j c where ic: "ic = ((i, j), c)" by (metis surj_pair)
  from Cons show ?case by (auto simp: ic split: option.splits bool.splits if_splits) blast
qed simp

lemma contributor_active_decision: "contributor_active now (c\<lparr>gk_decision := d\<rparr>) = contributor_active now c"
  by (simp add: contributor_active_def)

lemma active_windows_decision:
  "map_of cs key = Some c \<Longrightarrow> active_windows now (AList.update key (c\<lparr>gk_decision := d\<rparr>) cs) = active_windows now cs"
proof (induction cs)
  case (Cons ic cs)
  obtain i w where ic: "ic = (i, w)" by (metis prod.exhaust)
  show ?case
  proof (cases "i = key")
    case True
    then show ?thesis using Cons.prems by (simp add: ic contributor_active_decision)
  next
    case False
    then have "active_windows now (AList.update key (c\<lparr>gk_decision := d\<rparr>) cs) = active_windows now cs"
      using Cons by (simp add: ic)
    moreover have "AList.update key (c\<lparr>gk_decision := d\<rparr>) (ic # cs) = ic # AList.update key (c\<lparr>gk_decision := d\<rparr>) cs"
      using False by (simp add: ic)
    ultimately show ?thesis by (simp only: ic active_windows.simps)
  qed
qed simp

lemma publish_decisions_active:
  "publish_decisions target_kbps st applied keys ga = (ga', r) \<Longrightarrow>
     active_windows now (ga_contributors ga') = active_windows now (ga_contributors ga)"
proof (induction keys arbitrary: ga)
  case (Cons key keys)
  show ?case
  proof (cases "\<exists>c e. map_of (ga_contributors ga) key = Some c \<and> gk_latest_evaluation c = Some e")
    case False
    show ?thesis using Cons.prems unfolding publish_skip [OF False] by (rule Cons.IH)
  next
    case True
    then obtain c e where c: "map_of (ga_contributors ga) key = Some c" "gk_latest_evaluation c = Some e" by blast
    show ?thesis
    proof (cases "checked_add (ga_next_decision_id ga) 1")
      case None
      then show ?thesis using Cons.prems by (auto simp: c)
    next
      case (Some i)
      show ?thesis
      proof (cases "decision_validate (shared_decision target_kbps st applied e ga)")
        case (Inl err)
        then show ?thesis using Cons.prems by (auto simp: c Some shared_decision_def Let_def)
      next
        case (Inr u)
        then have v: "decision_validate (shared_decision target_kbps st applied e ga) = Inr ()" by simp
        show ?thesis
          using Cons.IH [OF Cons.prems [unfolded publish_step [OF c Some v]]]
          by (simp add: active_windows_decision [OF c(1)])
      qed
    qed
  qed
qed simp

lemma aggregate_exact:
  assumes "\<forall>w \<in> set active. evaluation_ok ceiling_kbps (fst w)" "target_ok ceiling_kbps current"
  shows "fst (aggregate_target_and_clean active current ceiling_kbps) =
     (if active = [] then current else Min ((\<lambda>w. bd_target_kbps (be_decision (fst w))) ` set active))"
    and "target_ok ceiling_kbps (fst (aggregate_target_and_clean active current ceiling_kbps))"
proof -
  let ?T = "(\<lambda>w. bd_target_kbps (be_decision (fst w))) ` set active"
  have s: "set (map (\<lambda>(evaluation, _). bd_target_kbps (be_decision evaluation)) active) = ?T" by (auto simp: case_prod_beta)
  let ?m = "if active = [] then current else Min ?T"
  have m: "ADAPTIVE_BITRATE_FLOOR_KBPS \<le> ?m \<and> ?m \<le> ceiling_kbps"
  proof (cases "active = []")
    case True
    then show ?thesis using assms(2) by (simp add: target_ok_def)
  next
    case False
    then have "Min ?T \<in> ?T" by (intro Min_in) auto
    then obtain w where w: "w \<in> set active" "Min ?T = bd_target_kbps (be_decision (fst w))" by blast
    have "?m = bd_target_kbps (be_decision (fst w))" using False w(2) by simp
    moreover have "evaluation_ok ceiling_kbps (fst w)" using assms(1) w(1) by blast
    ultimately show ?thesis by (simp only: evaluation_ok_def)
  qed
  have e: "fst (aggregate_target_and_clean active current ceiling_kbps) = clamp ?m ADAPTIVE_BITRATE_FLOOR_KBPS ceiling_kbps"
    unfolding aggregate_target_and_clean_def Let_def s by simp
  show eq: "fst (aggregate_target_and_clean active current ceiling_kbps) = ?m" unfolding e by (simp only: clamp_inside [OF conjunct1 [OF m] conjunct2 [OF m]])
  show "target_ok ceiling_kbps (fst (aggregate_target_and_clean active current ceiling_kbps))"
    using m assms(2) unfolding eq target_ok_def by (simp only: simp_thms)
qed


section \<open>The whole pass\<close>

lemma worst_window_in: "worst_window ws = Some w \<Longrightarrow> w \<in> set ws"
  by (induction ws arbitrary: w) (auto split: option.splits if_splits)

lemma stale_reason_known: "reasons_from_bits (reason_bits REASON_FEEDBACK_STALE) \<noteq> None"
  using reasons_ok_known(8) by (simp add: reasons_from_bits_def reasons_ok_def)

lemma commit_aggregate_ok:
  assumes ok: "\<forall>(i, c) \<in> set (ga_contributors ga). contributor_ok n (ga_ceiling_kbps ga) c"
    and target: "target_ok (ga_ceiling_kbps ga) target_kbps"
    and id: "ga_next_decision_id ga \<noteq> 0" "unat (ga_next_decision_id ga) + length keys < 2 ^ 64"
    and active: "active = active_windows now (ga_contributors ga)"
  obtains ga' policy' u where
    "commit_aggregate now telemetry applied policy keys request active target_kbps clean ga = ((ga', policy'), Inr (Some u))"
    "\<forall>(i, c) \<in> set (ga_contributors ga'). contributor_ok n (ga_ceiling_kbps ga') c"
    "map fst (ga_contributors ga') = map fst (ga_contributors ga)" "ga_target_kbps ga' = target_kbps"
    "ga_ceiling_kbps ga' = ga_ceiling_kbps ga" "ga_next_decision_id ga' \<noteq> 0"
    "unat (ga_next_decision_id ga') \<le> unat (ga_next_decision_id ga) + length keys"
    "active_windows now (ga_contributors ga') = active"
    "bd_target_kbps (cp_decision (gu_plan u)) = target_kbps" "decision_validate (cp_decision (gu_plan u)) = Inr ()"
    "bd_state (cp_decision (gu_plan u)) = target_state (ga_target_kbps ga) target_kbps"
proof -
  let ?ga1 = "ga\<lparr>ga_target_kbps := target_kbps\<rparr>" and ?st = "target_state (ga_target_kbps ga) target_kbps"
  let ?worst = "worst_window active"
  let ?report = "map_option snd ?worst"
  let ?reasons = "case ?worst of Some w \<Rightarrow> bd_reasons (be_decision (fst w)) | None \<Rightarrow> REASON_FEEDBACK_STALE"
  let ?id = "case ?report of Some r \<Rightarrow> fr_report_id r | None \<Rightarrow> (1 :: u64)"
  let ?d = "\<lparr>bd_decision_id = ga_next_decision_id ga, bd_report_id = ?id, bd_target_kbps = target_kbps,
              bd_floor_kbps = ADAPTIVE_BITRATE_FLOOR_KBPS, bd_ceiling_kbps = ga_ceiling_kbps ga,
              bd_state = ?st, bd_reasons = ?reasons, bd_applied = applied\<rparr>"
  have w: "?id \<noteq> 0 \<and> reasons_from_bits (reason_bits ?reasons) \<noteq> None"
  proof (cases ?worst)
    case None
    then show ?thesis using stale_reason_known by simp
  next
    case (Some w)
    obtain i c where c: "(i, c) \<in> set (ga_contributors ga)" "gk_latest_evaluation c = Some (fst w)" "gk_latest_report c = Some (snd w)"
      using active_windows_from [OF worst_window_in [OF Some, unfolded active]] by blast
    have "contributor_ok n (ga_ceiling_kbps ga) c" using ok c(1) by blast
    then have "fr_report_id (snd w) \<noteq> 0" "decision_validate (be_decision (fst w)) = Inr ()"
      using c(2,3) by (simp_all add: contributor_ok_def evaluation_ok_def)
    then show ?thesis unfolding decision_validate_iff Some by simp
  qed
  have v: "decision_validate ?d = Inr ()"
    by (rule shared_decision_valid [OF target id(1) conjunct1 [OF w] conjunct2 [OF w]])
  obtain ga' where p: "publish_decisions target_kbps ?st applied keys ?ga1 = (ga', Inr ())"
    "\<forall>(i, c) \<in> set (ga_contributors ga'). contributor_ok n (ga_ceiling_kbps ga) c"
    "map fst (ga_contributors ga') = map fst (ga_contributors ga)" "ga_target_kbps ga' = target_kbps"
    "ga_ceiling_kbps ga' = ga_ceiling_kbps ga" "ga_next_decision_id ga' \<noteq> 0"
    "unat (ga_next_decision_id ga') \<le> unat (ga_next_decision_id ga) + length keys"
    using publish_decisions_ok [of ?ga1 n target_kbps keys ?st applied] ok target id by auto
  define pd where "pd = (case (policy, ?worst, map_option (\<lambda>w. (fst w)\<lparr>be_clean_recovery_evidence := clean\<rparr>) ?worst) of
             (Some mp, Some w, Some e) \<Rightarrow> (case observe_window (snd w) e now mp of (mp', d) \<Rightarrow> (Some mp', Some d))
           | _ \<Rightarrow> (policy, None))"
  obtain policy' res where pd: "pd = (policy', res)" by (metis prod.exhaust)
  let ?u = "\<lparr>gu_plan = \<lparr>cp_decision = ?d, cp_telemetry = telemetry, cp_resolution_decision = res,
            cp_force_keyframe = (request \<or>
              (case ?report of Some r \<Rightarrow> feedback_flags_contains (fr_flags r) RESYNC_ACTIVE | None \<Rightarrow> False))\<rparr>,
            gu_request_recovery = request, gu_decision_id = ga_next_decision_id ga,
            gu_last_sequence = (case ?report of Some r \<Rightarrow> fr_last_sequence r | None \<Rightarrow> None)\<rparr>"
  have "commit_aggregate now telemetry applied policy keys request active target_kbps clean ga = ((ga', policy'), Inr (Some ?u))"
    unfolding commit_aggregate_def Let_def unfolding pd_def [symmetric] unfolding pd
    by (simp add: p(1) v [simplified])
  then show thesis
    by (rule that) (use p v publish_decisions_active [OF p(1)] in \<open>simp_all add: active\<close>)
qed


lemma active_windows_ok:
  assumes "\<forall>(i, c) \<in> set cs. contributor_ok n k c"
  shows "\<forall>w \<in> set (active_windows now cs). evaluation_ok k (fst w)"
proof
  fix w assume "w \<in> set (active_windows now cs)"
  then obtain i c where "(i, c) \<in> set cs" "gk_latest_evaluation c = Some (fst w)" using active_windows_from by blast
  moreover from this assms have "contributor_ok n k c" by blast
  ultimately show "evaluation_ok k (fst w)" by (simp add: contributor_ok_def)
qed

lemma active_targets_windows:
  assumes "\<forall>(i, c) \<in> set (ga_contributors ga). contributor_ok n k c"
  shows "active_targets now ga = (\<lambda>w. bd_target_kbps (be_decision (fst w))) ` set (active_windows now (ga_contributors ga))"
proof -
  have "\<forall>(i, c) \<in> set (ga_contributors ga). gk_latest_report c = None \<longleftrightarrow> gk_latest_evaluation c = None"
    using assms by (auto simp: contributor_ok_def)
  from active_windows_targets [OF this] show ?thesis by (simp add: active_targets_alt)
qed

text \<open>The target a pass must settle on, and what it leaves.\<close>

definition needed_target :: "instant \<Rightarrow> generation_adaptive \<Rightarrow> u32 \<Rightarrow> u32" where
  "needed_target now ga current = (if active_targets now ga = {} then current else Min (active_targets now ga))"

definition pass_result :: "nat \<Rightarrow> instant \<Rightarrow> generation_adaptive \<Rightarrow> generation_adaptive \<Rightarrow> generation_update option \<Rightarrow> bool" where
  "pass_result n now ga ga' u \<longleftrightarrow> generation_ok (Suc n) ga' \<and>
     map fst (ga_contributors ga') = map fst (ga_contributors ga) \<and> ga_ceiling_kbps ga' = ga_ceiling_kbps ga \<and>
     ga_target_kbps ga' = needed_target now ga' (ga_target_kbps ga) \<and>
     (case u of None \<Rightarrow> ga_target_kbps ga' = ga_target_kbps ga
      | Some up \<Rightarrow> bd_target_kbps (cp_decision (gu_plan up)) = ga_target_kbps ga' \<and>
          decision_validate (cp_decision (gu_plan up)) = Inr () \<and>
          bd_state (cp_decision (gu_plan up)) = target_state (ga_target_kbps ga) (ga_target_kbps ga'))"

lemma update_count_simps [simp]:
  "ga_contributors (update_recovering_count ga) = ga_contributors ga"
  "ga_ceiling_kbps (update_recovering_count ga) = ga_ceiling_kbps ga"
  "ga_target_kbps (update_recovering_count ga) = ga_target_kbps ga"
  "ga_next_decision_id (update_recovering_count ga) = ga_next_decision_id ga"
  "ga_generation_id (update_recovering_count ga) = ga_generation_id ga"
  "active_targets now (update_recovering_count ga) = active_targets now ga"
  "generation_ok n (update_recovering_count ga) = generation_ok n ga"
  by (simp_all add: update_recovering_count_def active_targets_def generation_ok_def)

lemma generation_evaluate_ok:
  assumes ok: "generation_ok n ga" and n: "n < 2 ^ 32"
  obtains ga' policy' u where
    "generation_evaluate snapshots now telemetry applied policy ga = ((ga', policy'), Inr u)" "pass_result n now ga ga' u"
proof -
  let ?k = "ga_ceiling_kbps ga"
  from ok have g: "target_ok ?k (ga_target_kbps ga)" "ga_next_decision_id ga \<noteq> 0"
    "unat (ga_next_decision_id ga) \<le> n * MAX_VIEWERS + 1" "distinct (map fst (ga_contributors ga))"
    "length (ga_contributors ga) \<le> MAX_VIEWERS" "\<forall>(k, c) \<in> set (ga_contributors ga). contributor_ok n ?k c"
    by (simp_all add: generation_ok_def)
  obtain cs keys request where c: "evaluate_contributors snapshots now (ga_encoder_actuation_available ga) (ga_contributors ga)
      = (cs, Inr (keys, request))" "map fst cs = map fst (ga_contributors ga)"
    "\<forall>(i, c) \<in> set cs. contributor_ok (Suc n) ?k c" "length keys \<le> length (ga_contributors ga)"
    using evaluate_contributors_ok [OF g(6) n] by blast
  define ga1 where "ga1 = update_recovering_count (ga\<lparr>ga_contributors := cs\<rparr>)"
  have s [simp]: "ga_contributors ga1 = cs" "ga_ceiling_kbps ga1 = ?k" "ga_target_kbps ga1 = ga_target_kbps ga"
    "ga_next_decision_id ga1 = ga_next_decision_id ga" by (simp_all add: ga1_def)
  define active where "active = active_windows now cs"
  have len: "length (ga_contributors ga) = length cs" using c(2) map_eq_imp_length_eq by metis
  have lk: "length keys \<le> MAX_VIEWERS" using c(4) g(5) by simp
  have ok1: "generation_ok (Suc n) ga1"
    using g c(2,3) by (simp add: generation_ok_def len)
  obtain target_kbps clean where a: "aggregate_target_and_clean active (ga_target_kbps ga) ?k = (target_kbps, clean)"
    by (metis prod.exhaust)
  have ts: "active_targets now x = (\<lambda>w. bd_target_kbps (be_decision (fst w))) ` set active"
    if "\<forall>(i, c) \<in> set (ga_contributors x). contributor_ok (Suc n) ?k c" "active_windows now (ga_contributors x) = active" for x
    using active_targets_windows [OF that(1), of now] that(2) by simp
  have needed: "needed_target now x (ga_target_kbps ga) = target_kbps"
    if "\<forall>(i, c) \<in> set (ga_contributors x). contributor_ok (Suc n) ?k c" "active_windows now (ga_contributors x) = active" for x
    using aggregate_exact(1) [OF active_windows_ok [OF c(3)] g(1), of now] a
    unfolding needed_target_def ts [OF that] active_def [symmetric] by (cases "active = []") simp_all
  have target: "target_ok ?k target_kbps"
    using aggregate_exact(2) [OF active_windows_ok [OF c(3)] g(1), of now] a by (simp add: active_def)
  have n1: "needed_target now ga1 (ga_target_kbps ga) = target_kbps" by (rule needed) (simp_all add: c(3) active_def)
  have ev: "generation_evaluate snapshots now telemetry applied policy ga =
      (if keys = [] \<and> active = [] \<or> keys = [] \<and> target_kbps = ga_target_kbps ga then ((ga1, policy), Inr None)
       else commit_aggregate now telemetry applied policy keys request active target_kbps clean ga1)"
    unfolding generation_evaluate_def Let_def c(1) by (simp add: ga1_def [symmetric] active_def [symmetric] a)
  show thesis
  proof (cases "keys = [] \<and> active = [] \<or> keys = [] \<and> target_kbps = ga_target_kbps ga")
    case True
    then have t: "target_kbps = ga_target_kbps ga" using n1 ts [of ga1] c(3) by (auto simp: needed_target_def active_def)
    have "pass_result n now ga ga1 None" using ok1 c(2) n1 t by (simp add: pass_result_def)
    then show thesis using ev True by (intro that [of ga1 policy None]) simp_all
  next
    case False
    have lim: "unat (ga_next_decision_id ga1) + length keys < 2 ^ 64" using g(3) lk n by (simp add: MAX_VIEWERS_def)
    obtain ga2 policy' u where u:
      "commit_aggregate now telemetry applied policy keys request active target_kbps clean ga1 = ((ga2, policy'), Inr (Some u))"
      "\<forall>(i, c) \<in> set (ga_contributors ga2). contributor_ok (Suc n) (ga_ceiling_kbps ga2) c"
      "map fst (ga_contributors ga2) = map fst (ga_contributors ga1)" "ga_target_kbps ga2 = target_kbps"
      "ga_ceiling_kbps ga2 = ga_ceiling_kbps ga1" "ga_next_decision_id ga2 \<noteq> 0"
      "unat (ga_next_decision_id ga2) \<le> unat (ga_next_decision_id ga1) + length keys"
      "active_windows now (ga_contributors ga2) = active"
      "bd_target_kbps (cp_decision (gu_plan u)) = target_kbps" "decision_validate (cp_decision (gu_plan u)) = Inr ()"
      "bd_state (cp_decision (gu_plan u)) = target_state (ga_target_kbps ga1) target_kbps"
    proof (rule commit_aggregate_ok [of ga1 "Suc n" target_kbps keys active now])
    qed (use c(3) target g(2) lim in \<open>simp_all add: active_def\<close>)
    have n2: "needed_target now ga2 (ga_target_kbps ga) = target_kbps"
      by (rule needed) (use u(2,5,8) in simp_all)
    have len2: "length (ga_contributors ga2) \<le> MAX_VIEWERS" using u(3) g(5) len map_eq_imp_length_eq by (metis s(1))
    have "unat (ga_next_decision_id ga2) \<le> Suc n * MAX_VIEWERS + 1" using u(7) g(3) lk by simp
    then have "generation_ok (Suc n) ga2"
      using u(2-6) len2 g(4) target c(2) by (simp add: generation_ok_def)
    then have "pass_result n now ga ga2 (Some u)" using u c(2) n2 by (simp add: pass_result_def)
    then show thesis using ev False u(1) by (intro that [of ga2 policy' "Some u"]) simp_all
  qed
qed


section \<open>Joining, leaving and reporting\<close>

lemma contributor_new_ok:
  assumes "target_ok ceiling_kbps current"
  shows "contributor_ok n ceiling_kbps (contributor_new revision ceiling_kbps telemetry)"
proof -
  have k: "unat ceiling_kbps \<le> 100000" "250 dvd unat ceiling_kbps" "ADAPTIVE_BITRATE_FLOOR_KBPS \<le> ceiling_kbps"
    using assms by (auto simp: target_ok_def)
  have "unat (quantize_down ceiling_kbps) = unat ceiling_kbps" using k(2) by (simp add: unat_quantize)
  then have "quantize_down ceiling_kbps = ceiling_kbps" by (rule unsigned_word_eqI)
  then have "max (quantize_down ceiling_kbps) ADAPTIVE_BITRATE_FLOOR_KBPS = ceiling_kbps"
    using k(3) by (simp add: max_def)
  then have c: "bc_ceiling_kbps (bitrate_controller_new ceiling_kbps telemetry) = ceiling_kbps"
    by (simp add: bitrate_controller_new_def)
  have "pending_reports n (contributor_new revision ceiling_kbps telemetry)"
    unfolding pending_reports_def
    by (intro exI [of _ ingress_default] exI [of _ "[]"])
       (simp add: contributor_new_def ingress_default_def cursor_default_def)
  then show ?thesis using controller_new_wf [OF k(1)] c
    by (simp add: contributor_ok_def contributor_new_def bitrate_controller_new_def Let_def cursor_default_def)
qed

lemma generation_ok_update:
  assumes ok: "generation_ok n ga" and c: "contributor_ok m (ga_ceiling_kbps ga) c" and m: "n \<le> m"
    and room: "map_of (ga_contributors ga) key \<noteq> None \<or> length (ga_contributors ga) < MAX_VIEWERS"
  shows "generation_ok m (ga\<lparr>ga_contributors := AList.update key c (ga_contributors ga)\<rparr>)"
proof -
  have "length (AList.update key c xs) = length xs + (if map_of xs key = None then 1 else 0)" for xs
    by (induction xs) auto
  moreover have "unat (ga_next_decision_id ga) \<le> m * MAX_VIEWERS + 1"
    using ok m unfolding generation_ok_def MAX_VIEWERS_def by linarith
  moreover have "contributor_ok m (ga_ceiling_kbps ga) w" if "(j, w) \<in> set (AList.update key c (ga_contributors ga))" for j w
    using update_member [OF that] ok c contributor_ok_mono [OF _ m] by (auto simp: generation_ok_def)
  ultimately show ?thesis
    using ok room by (auto simp: generation_ok_def distinct_update)
qed

lemma generation_ok_mono:
  assumes ok: "generation_ok n ga" and m: "n \<le> m"
  shows "generation_ok m ga"
proof -
  have "unat (ga_next_decision_id ga) \<le> m * MAX_VIEWERS + 1"
    using ok m unfolding generation_ok_def MAX_VIEWERS_def by linarith
  moreover have "contributor_ok m (ga_ceiling_kbps ga) c" if "(k, c) \<in> set (ga_contributors ga)" for k c
    using ok that by (auto simp: generation_ok_def intro: contributor_ok_mono [OF _ m])
  ultimately show ?thesis using ok by (auto simp: generation_ok_def)
qed

lemma register_ok:
  assumes ok: "generation_ok n ga" and r: "register_contributor remote session revision gen telemetry ga = (ga', res)"
  shows "generation_ok (Suc n) ga'"
proof (cases res)
  case (Inl e)
  then have "ga' = ga" using r by (auto simp: register_contributor_def split: if_splits)
  then show ?thesis using generation_ok_mono [OF ok] by simp
next
  case (Inr k)
  have t: "target_ok (ga_ceiling_kbps ga) (ga_target_kbps ga)" using ok by (simp add: generation_ok_def)
  from Inr have "length (ga_contributors ga) < MAX_VIEWERS \<or> map_of (ga_contributors ga) (remote, session) \<noteq> None"
    "ga' = update_recovering_count (ga\<lparr>ga_contributors := AList.update (remote, session)
              (contributor_new revision (ga_ceiling_kbps ga) telemetry) (ga_contributors ga)\<rparr>)"
    using r by (auto simp: register_contributor_def split: if_splits)
  then show ?thesis
    using generation_ok_update [OF ok contributor_new_ok [OF t, of "Suc n"], of "(remote, session)"] by auto
qed

lemma unregister_ok:
  assumes "generation_ok n ga"
  shows "generation_ok (Suc n) (unregister_contributor key revision ga)"
proof -
  have "set (AList.delete key xs) \<subseteq> set xs" "length (AList.delete key xs) \<le> length xs" for xs :: "(contributor_key \<times> generation_contributor) list"
    using length_filter_le [of _ xs] by (auto simp: AList.delete_eq)
  then have d: "set (AList.delete key (ga_contributors ga)) \<subseteq> set (ga_contributors ga)"
    "length (AList.delete key (ga_contributors ga)) \<le> length (ga_contributors ga)" by blast+
  have "\<forall>(k, c) \<in> set (AList.delete key (ga_contributors ga)). contributor_ok n (ga_ceiling_kbps ga) c"
    using assms d(1) unfolding generation_ok_def by blast
  then have "generation_ok n (ga\<lparr>ga_contributors := AList.delete key (ga_contributors ga)\<rparr>)"
    using assms d(2) by (simp add: generation_ok_def distinct_delete)
  then show ?thesis
    using generation_ok_mono [of n _ "Suc n"] assms by (auto simp: unregister_contributor_def split: option.splits)
qed

lemma ingress_all_snoc: "ingress_all base (rs @ [r]) = ingress_observe r (ingress_all base rs)"
  by (induction base rs rule: ingress_all.induct) simp_all

lemma pending_reports_observe:
  assumes "pending_reports n c" "report_validate report = Inr ()"
  shows "pending_reports (Suc n) (c\<lparr>gk_ingress := ingress_observe report (gk_ingress c)\<rparr>)"
proof -
  obtain base rs where b: "gk_ingress c = ingress_all base rs" "ig_totals (gk_cursor c) = ci_totals base"
    "\<forall>r \<in> set rs. report_validate r = Inr ()" "length rs \<le> n"
    "case ci_latest base of None \<Rightarrow> True
      | Some r \<Rightarrow> (\<exists>i. ig_last_report_id (gk_cursor c) = Some i \<and> fr_report_id r \<le> i)"
    using assms(1) unfolding pending_reports_def by blast
  have "gk_ingress (c\<lparr>gk_ingress := ingress_observe report (gk_ingress c)\<rparr>) = ingress_all base (rs @ [report])"
    by (simp add: b(1) ingress_all_snoc)
  then show ?thesis
    unfolding pending_reports_def using b assms(2)
    by (intro exI [of _ base] exI [of _ "rs @ [report]"]) (simp cong: option.case_cong)
qed

lemma observe_ok:
  assumes ok: "generation_ok n ga" and o: "registration_observe key revision report ga = (ga', res)"
  shows "generation_ok (Suc n) ga'"
proof (cases res)
  case (Inl e)
  then have "ga' = ga" using o by (auto simp: registration_observe_def split: sum.splits option.splits if_splits)
  then show ?thesis using generation_ok_mono [OF ok] by simp
next
  case (Inr u)
  then obtain c where c: "map_of (ga_contributors ga) key = Some c" "report_validate report = Inr ()"
    "ga' = ga\<lparr>ga_contributors := AList.update key (c\<lparr>gk_ingress := ingress_observe report (gk_ingress c)\<rparr>) (ga_contributors ga)\<rparr>"
    using o by (auto simp: registration_observe_def split: sum.splits option.splits if_splits)
  have cok: "contributor_ok n (ga_ceiling_kbps ga) c" using map_of_SomeD [OF c(1)] ok by (auto simp: generation_ok_def)
  then have "pending_reports n c" by (simp add: contributor_ok_def)
  from pending_reports_observe [OF this c(2)]
  have "contributor_ok (Suc n) (ga_ceiling_kbps ga) (c\<lparr>gk_ingress := ingress_observe report (gk_ingress c)\<rparr>)"
    using cok by (simp add: contributor_ok_def)
  from generation_ok_update [OF ok this] show ?thesis unfolding c(3) by (simp add: c(1))
qed


section \<open>A whole generation\<close>

datatype generation_event =
    GE_Join endpoint_id u64 u64 u64 media_telemetry_snapshot
  | GE_Leave contributor_key u64
  | GE_Report contributor_key u64 media_feedback_report
  | GE_Pass "contributor_key \<Rightarrow> media_telemetry_snapshot" instant media_telemetry_snapshot bool

record pass_entry =
  pe_now :: instant
  pe_before :: generation_adaptive
  pe_after :: generation_adaptive
  pe_outcome :: "generation_update option host"

text \<open>The passes of a history of viewers joining, leaving and reporting, and the last state.\<close>

fun generation_run ::
  "generation_event list \<Rightarrow> generation_adaptive \<times> motion_policy option \<Rightarrow>
   pass_entry list \<times> generation_adaptive \<times> motion_policy option" where
  "generation_run [] s = ([], s)"
| "generation_run (GE_Join remote session revision gen telemetry # es) (ga, policy) =
     generation_run es (fst (register_contributor remote session revision gen telemetry ga), policy)"
| "generation_run (GE_Leave key revision # es) (ga, policy) =
     generation_run es (unregister_contributor key revision ga, policy)"
| "generation_run (GE_Report key revision report # es) (ga, policy) =
     generation_run es (fst (registration_observe key revision report ga), policy)"
| "generation_run (GE_Pass snapshots now telemetry applied # es) (ga, policy) =
     (case generation_evaluate snapshots now telemetry applied policy ga of
        ((ga', policy'), r) \<Rightarrow> (case generation_run es (ga', policy') of
          (ps, s) \<Rightarrow> (\<lparr>pe_now = now, pe_before = ga, pe_after = ga', pe_outcome = r\<rparr> # ps, s)))"

lemma generation_run_ok:
  assumes "generation_ok n (fst s)" "n + length es < 2 ^ 32"
  shows "\<forall>p \<in> set (fst (generation_run es s)). \<exists>m u. pe_outcome p = Inr u \<and> pass_result m (pe_now p) (pe_before p) (pe_after p) u"
  using assms
proof (induction es s arbitrary: n rule: generation_run.induct)
  case (2 remote session revision gen telemetry es ga policy)
  obtain ga' r where s: "register_contributor remote session revision gen telemetry ga = (ga', r)" by (metis prod.exhaust)
  have "generation_ok (Suc n) (fst (ga', policy))" using register_ok [OF _ s, of n] 2(2) by simp
  from 2(1) [of "Suc n"] this 2(3) show ?case by (simp add: s)
next
  case (3 key revision es ga policy)
  have "generation_ok (Suc n) (fst (unregister_contributor key revision ga, policy))" using unregister_ok 3(2) by simp
  from 3(1) [OF this] 3(3) show ?case by simp
next
  case (4 key revision report es ga policy)
  obtain ga' r where s: "registration_observe key revision report ga = (ga', r)" by (metis prod.exhaust)
  have "generation_ok (Suc n) (fst (ga', policy))" using observe_ok [OF _ s, of n] 4(2) by simp
  from 4(1) [of "Suc n"] this 4(3) show ?case by (simp add: s)
next
  case (5 snapshots now telemetry applied es ga policy)
  have n: "generation_ok n ga" "n < 2 ^ 32" using 5(2,3) by simp_all
  obtain ga' policy' u where s: "generation_evaluate snapshots now telemetry applied policy ga = ((ga', policy'), Inr u)"
    "pass_result n now ga ga' u"
    by (rule generation_evaluate_ok [OF n, of snapshots now telemetry applied policy])
  have ok: "generation_ok (Suc n) (fst (ga', policy'))" using s(2) by (simp add: pass_result_def)
  obtain ps t where r: "generation_run es (ga', policy') = (ps, t)" by (metis prod.exhaust)
  have "\<forall>p \<in> set ps. \<exists>m u. pe_outcome p = Inr u \<and> pass_result m (pe_now p) (pe_before p) (pe_after p) u"
    using 5(1) [OF s(1) [symmetric] HOL.refl ok] 5(3) by (simp add: r)
  moreover have "fst (generation_run (GE_Pass snapshots now telemetry applied # es) (ga, policy)) =
      \<lparr>pe_now = now, pe_before = ga, pe_after = ga', pe_outcome = Inr u\<rparr> # ps" by (simp add: s(1) r)
  ultimately show ?case using s(2) by (metis (no_types, lifting) pass_entry.simps(1-4) set_ConsD)
qed simp

lemma coordinator_start_ok:
  assumes "coordinator_start configured generation actuation = Inr ga" "unat configured \<le> 100000"
  shows "generation_ok 0 ga"
proof -
  have "ADAPTIVE_BITRATE_FLOOR_KBPS \<le> quantize_down configured"
    "ga = \<lparr>ga_generation_id = generation, ga_ceiling_kbps = quantize_down configured, ga_contributors = [],
          ga_next_decision_id = 1, ga_target_kbps = quantize_down configured, ga_recovering_viewers = 0,
          ga_encoder_actuation_available = actuation\<rparr>"
    using assms(1) by (auto simp: coordinator_start_def adaptive_ceiling_def Let_def ensure_that_def split: if_splits)
  moreover have "unat (quantize_down configured) \<le> 100000" "250 dvd unat (quantize_down configured)"
    using assms(2) div_times_less_eq_dividend [of "unat configured" 250]
    by (auto simp: unat_quantize simp del: div_times_less_eq_dividend)
  ultimately show ?thesis by (simp add: generation_ok_def target_ok_def)
qed

lemma generation_passes:
  assumes "coordinator_start configured generation actuation = Inr ga" "unat configured \<le> 100000" "length events < 2 ^ 32"
    "p \<in> set (fst (generation_run events (ga, policy)))"
  obtains m u where "pe_outcome p = Inr u" "pass_result m (pe_now p) (pe_before p) (pe_after p) u"
  using generation_run_ok [of 0 "(ga, policy)" events] coordinator_start_ok [OF assms(1,2)] assms(3,4) by auto


text \<open>
  C24: No viewer can stop the shared coordinator. For a ceiling of at most 100000 kbps, in every history
  of fewer than 2^32 events in which viewers join, leave and send any reports - valid or not, in any
  order, with any ids - every pass over the viewers succeeds, leaves the state within its limits (at
  most \<open>MAX_VIEWERS\<close> viewers, each once, a target between the floor and the ceiling), and the plan it
  hands to the encoder, if any, carries a decision that passes validation.
\<close>

theorem shared_passes_never_fail:
  assumes "coordinator_start configured generation actuation = Inr ga" "unat configured \<le> 100000"
    "length events < 2 ^ 32"
  shows "\<forall>p \<in> set (fst (generation_run events (ga, policy))). \<exists>u. pe_outcome p = Inr u \<and>
     length (ga_contributors (pe_after p)) \<le> MAX_VIEWERS \<and> distinct (map fst (ga_contributors (pe_after p))) \<and>
     ADAPTIVE_BITRATE_FLOOR_KBPS \<le> ga_target_kbps (pe_after p) \<and>
     ga_target_kbps (pe_after p) \<le> ga_ceiling_kbps (pe_after p) \<and>
     (\<forall>up. u = Some up \<longrightarrow> decision_validate (cp_decision (gu_plan up)) = Inr ())"
proof
  fix p assume "p \<in> set (fst (generation_run events (ga, policy)))"
  then obtain m u where u: "pe_outcome p = Inr u" "pass_result m (pe_now p) (pe_before p) (pe_after p) u"
    by (rule generation_passes [OF assms])
  then show "\<exists>u. pe_outcome p = Inr u \<and>
     length (ga_contributors (pe_after p)) \<le> MAX_VIEWERS \<and> distinct (map fst (ga_contributors (pe_after p))) \<and>
     ADAPTIVE_BITRATE_FLOOR_KBPS \<le> ga_target_kbps (pe_after p) \<and>
     ga_target_kbps (pe_after p) \<le> ga_ceiling_kbps (pe_after p) \<and>
     (\<forall>up. u = Some up \<longrightarrow> decision_validate (cp_decision (gu_plan up)) = Inr ())"
    by (intro exI [of _ u]) (auto simp: pass_result_def generation_ok_def target_ok_def)
qed

text \<open>
  C25: The shared target is what the most constrained viewer needs. In every such history, after a pass
  the target is the least of the targets of the contributing viewers - those with a fresh window that
  arrived within the stale gap and that are not isolated for recovery - and stays as it was when there
  is none. A pass without a plan leaves the target alone; a plan carries the new target and says whether
  it went down, up or stayed.
\<close>

theorem shared_target_is_the_least:
  assumes "coordinator_start configured generation actuation = Inr ga" "unat configured \<le> 100000"
    "length events < 2 ^ 32" "p \<in> set (fst (generation_run events (ga, policy)))"
  shows "let targets = active_targets (pe_now p) (pe_after p); before = ga_target_kbps (pe_before p); after = ga_target_kbps (pe_after p)
     in after = (if targets = {} then before else Min targets) \<and>
        (pe_outcome p = Inr None \<longrightarrow> after = before) \<and>
        (\<forall>up. pe_outcome p = Inr (Some up) \<longrightarrow> bd_target_kbps (cp_decision (gu_plan up)) = after \<and>
           bd_state (cp_decision (gu_plan up)) =
             (if after < before then AB_Decrease else if before < after then AB_Increase else AB_Hold))"
proof -
  obtain m u where u: "pe_outcome p = Inr u" "pass_result m (pe_now p) (pe_before p) (pe_after p) u"
    by (rule generation_passes [OF assms])
  have a: "ga_target_kbps (pe_after p) = needed_target (pe_now p) (pe_after p) (ga_target_kbps (pe_before p))"
    using u(2) by (simp add: pass_result_def)
  show ?thesis
  proof (cases u)
    case None
    then have "ga_target_kbps (pe_after p) = ga_target_kbps (pe_before p)" using u(2) by (simp add: pass_result_def) metis
    then show ?thesis using a u(1) None unfolding Let_def needed_target_def by (simp split: if_splits)
  next
    case (Some up)
    then have "bd_target_kbps (cp_decision (gu_plan up)) = ga_target_kbps (pe_after p)"
      "bd_state (cp_decision (gu_plan up)) = target_state (ga_target_kbps (pe_before p)) (ga_target_kbps (pe_after p))"
      using u(2) by (simp_all add: pass_result_def)
    then show ?thesis using a u(1) Some unfolding Let_def needed_target_def target_state_def by (simp only:) simp
  qed
qed

section \<open>A history\<close>

definition generation_demo_start :: generation_adaptive where
  "generation_demo_start = \<lparr>ga_generation_id = 7, ga_ceiling_kbps = 12000, ga_contributors = [],
     ga_next_decision_id = 1, ga_target_kbps = 12000, ga_recovering_viewers = 0, ga_encoder_actuation_available = True\<rparr>"

text \<open>Two viewers join, one reports, a pass runs.\<close>

definition generation_demo_events :: "generation_event list" where
  "generation_demo_events = [GE_Join [1] 1 1 7 demo_telemetry, GE_Join [2] 1 1 7 demo_telemetry,
     GE_Report ([1], 1) 1 (demo_report 1), GE_Pass (\<lambda>_. demo_telemetry) 1000000000 demo_telemetry True]"


lemma generation_demo:
  "coordinator_start 12000 7 True = Inr generation_demo_start" "length generation_demo_events < 2 ^ 32"
  "length (fst (generation_run generation_demo_events (generation_demo_start, None))) = 1"
proof -
  show "coordinator_start 12000 7 True = Inr generation_demo_start"
    by (simp add: coordinator_start_def adaptive_ceiling_def generation_demo_start_def quantize_down_def
        ADAPTIVE_BITRATE_FLOOR_KBPS_def ADAPTIVE_BITRATE_QUANTUM_KBPS_def)
qed (simp_all add: generation_demo_events_def split: prod.splits)

definition generation_demo_pass :: pass_entry where
  "generation_demo_pass = hd (fst (generation_run generation_demo_events (generation_demo_start, None)))"

lemma generation_demo_pass_in:
  "generation_demo_pass \<in> set (fst (generation_run generation_demo_events (generation_demo_start, None)))"
  unfolding generation_demo_pass_def using generation_demo(3) by (intro hd_in_set) (auto simp del: generation_run.simps)

theorem shared_passes_never_fail_witness:
  "coordinator_start 12000 7 True = Inr generation_demo_start \<and> unat (12000 :: u32) \<le> 100000 \<and>
   length generation_demo_events < 2 ^ 32 \<and>
   length (fst (generation_run generation_demo_events (generation_demo_start, None))) = 1 \<and>
   (\<exists>u. pe_outcome generation_demo_pass = Inr u) \<and>
   ADAPTIVE_BITRATE_FLOOR_KBPS \<le> ga_target_kbps (pe_after generation_demo_pass)"
  using shared_passes_never_fail [OF generation_demo(1) _ generation_demo(2), of None] generation_demo generation_demo_pass_in
  by (simp del: generation_run.simps) blast

theorem shared_target_is_the_least_witness:
  "coordinator_start 12000 7 True = Inr generation_demo_start \<and> unat (12000 :: u32) \<le> 100000 \<and>
   length generation_demo_events < 2 ^ 32 \<and>
   generation_demo_pass \<in> set (fst (generation_run generation_demo_events (generation_demo_start, None))) \<and>
   ga_target_kbps (pe_after generation_demo_pass) =
     (let targets = active_targets (pe_now generation_demo_pass) (pe_after generation_demo_pass)
      in if targets = {} then ga_target_kbps (pe_before generation_demo_pass) else Min targets)"
  using shared_target_is_the_least [OF generation_demo(1) _ generation_demo(2) generation_demo_pass_in]
    generation_demo generation_demo_pass_in
  by (simp add: Let_def del: generation_run.simps)

end
