(* ===== verification/Authorization_State.thy ===== *)
theory Authorization_State
  imports Tokens Session_Registry
begin

text \<open>
  The durable authorization document of the host (\<open>crates/sigil-host/src/authorization.rs\<close>): which
  portals are enrolled with which grants, which invitations were consumed, and a bounded security
  audit. This theory holds the document, its validation, and every operation as a function from the
  current document to a candidate; writing the candidate is in \<open>Authorization_Store\<close>.

  Text of endpoint ids, JSON and Ed25519 come from external crates and are the parameter
  \<open>externals\<close>; \<open>externals_ok\<close> states their documented laws.
\<close>

section \<open>Documents\<close>

definition STATE_VERSION :: u16 where "STATE_VERSION = 2"
definition LEGACY_STATE_VERSION :: u16 where "LEGACY_STATE_VERSION = 1"
definition MAX_STATE_FILE_LEN :: nat where "MAX_STATE_FILE_LEN = 64 * 1024"
definition MAX_CONSUMED_INVITATIONS :: nat where "MAX_CONSUMED_INVITATIONS = 64"
definition MAX_ENROLLED_VIEWERS :: nat where "MAX_ENROLLED_VIEWERS = 32"
definition MAX_SECURITY_AUDIT_ENTRIES :: nat where "MAX_SECURITY_AUDIT_ENTRIES = 64"
definition VIEWER_HANDLE_RANDOM_BYTES :: nat where "VIEWER_HANDLE_RANDOM_BYTES = 8"

record enrollment =
  en_peer_node_id :: string
  en_handle :: string
  en_grants :: invitation_grants
  en_enrolled_at_unix :: u64
  en_authorization_revision :: u64

datatype security_audit_action = SA_Enrolled | SA_GrantsReplaced | SA_Revoked | SA_ResetAll | SA_MigratedV1

record security_audit_entry =
  au_revision :: u64
  au_occurred_at_unix :: u64
  au_action :: security_audit_action
  au_handle :: string
  au_previous_grants :: "invitation_grants option"
  au_current_grants :: "invitation_grants option"

record consumed_invitation =
  ci_nonce :: bytes
  ci_expires_at_unix :: u64

record authorization_state =
  az_version :: u16
  az_host_node_id :: string
  az_enrollment_epoch :: u64
  az_committed_revision :: u64
  az_enrollments :: "enrollment list"
  az_consumed_invitations :: "consumed_invitation list"
  az_security_audit :: "security_audit_entry list"

record legacy_enrollment =
  le_peer_node_id :: string
  le_grants :: invitation_grants
  le_enrolled_at_unix :: u64

record legacy_authorization_state =
  la_version :: u16
  la_host_node_id :: string
  la_enrollment_epoch :: u64
  la_enrollment :: "legacy_enrollment option"
  la_consumed_invitations :: "consumed_invitation list"

text \<open>
  The external crates: \<open>EndpointId\<close> as text (\<open>to_string\<close> and \<open>parse\<close>), the JSON text of a document
  and its parser, the cryptography of the invitations, SHA-256, and the effective user of the process.
\<close>

record externals =
  ax_show :: "endpoint_id \<Rightarrow> string"
  ax_parse :: "string \<Rightarrow> endpoint_id option"
  ax_document :: "authorization_state \<Rightarrow> bytes"
  ax_read :: "bytes \<Rightarrow> authorization_state option"
  ax_read_legacy :: "bytes \<Rightarrow> legacy_authorization_state option"
  ax_crypto :: crypto
  ax_sha256 :: "bytes \<Rightarrow> bytes"
  ax_euid :: nat

text \<open>An id parses back from its text, and a document from its JSON followed by a line break.\<close>

definition externals_ok :: "externals \<Rightarrow> bool" where
  "externals_ok ax \<longleftrightarrow> (\<forall>i. ax_parse ax (ax_show ax i) = Some i) \<and>
     (\<forall>st. ax_document ax st \<noteq> [] \<and> ax_read ax (ax_document ax st @ [10]) = Some st)"

section \<open>Handles\<close>

definition handle_char :: "char \<Rightarrow> bool" where
  "handle_char c \<longleftrightarrow> c \<in> set ''0123456789abcdef''"

definition validate_viewer_handle :: "string \<Rightarrow> unit host" where
  "validate_viewer_handle handle =
     ensure_that (length handle = length ''viewer-'' + VIEWER_HANDLE_RANDOM_BYTES * 2 \<and>
        take (length ''viewer-'') handle = ''viewer-'' \<and> list_all handle_char (drop (length ''viewer-'') handle))
       (Host ''authorization viewer handle is invalid'')"

text \<open>\<open>{:016x}\<close>: sixteen lower-case hexadecimal digits.\<close>

definition hex_digit :: "nat \<Rightarrow> char" where
  "hex_digit n = ''0123456789abcdef'' ! (n mod 16)"

fun hex_digits :: "nat \<Rightarrow> nat \<Rightarrow> string" where
  "hex_digits 0 n = []"
| "hex_digits (Suc k) n = hex_digits k (n div 16) @ [hex_digit n]"

definition viewer_handle :: "u64 \<Rightarrow> string" where
  "viewer_handle random = ''viewer-'' @ hex_digits (VIEWER_HANDLE_RANDOM_BYTES * 2) (unat random)"

text \<open>
  The operating system's random source is the list of the numbers it will deliver, \<open>None\<close> where it
  fails; at most sixteen are drawn.
\<close>

fun draw_handle :: "nat \<Rightarrow> u64 option list \<Rightarrow> string list \<Rightarrow> string host" where
  "draw_handle 0 draws existing = Inl (Host ''could not allocate a unique opaque viewer handle'')"
| "draw_handle (Suc k) [] existing = Inl (Host ''generating opaque viewer handle'')"
| "draw_handle (Suc k) (None # draws) existing = Inl (Host ''generating opaque viewer handle'')"
| "draw_handle (Suc k) (Some random # draws) existing =
     (if viewer_handle random \<in> set existing then draw_handle k draws existing else Inr (viewer_handle random))"

definition random_viewer_handle :: "u64 option list \<Rightarrow> enrollment list \<Rightarrow> string host" where
  "random_viewer_handle draws existing = draw_handle 16 draws (map en_handle existing)"

section \<open>Validation\<close>

fun validate_enrollments ::
  "externals \<Rightarrow> u64 \<Rightarrow> endpoint_id set \<Rightarrow> string set \<Rightarrow> enrollment list \<Rightarrow> unit host" where
  "validate_enrollments ax revision peers handles [] = Inr ()"
| "validate_enrollments ax revision peers handles (e # es) =
     (case ax_parse ax (en_peer_node_id e) of
        None \<Rightarrow> Inl (Host ''authorization enrollment contains an invalid peer node ID'')
      | Some peer \<Rightarrow>
        bind_res (ensure_that (peer \<notin> peers) (Host ''authorization contains a duplicate peer'')) (\<lambda>_.
        bind_res (validate_viewer_handle (en_handle e)) (\<lambda>_.
        bind_res (ensure_that (en_handle e \<notin> handles) (Host ''authorization contains a duplicate viewer handle'')) (\<lambda>_.
        bind_res (lift_proto (grants_validate (en_grants e))) (\<lambda>_.
        bind_res (ensure_that (grants_contains (en_grants e) GRANT_VIEW)
          (Host ''authorization enrollment must include view permission'')) (\<lambda>_.
        bind_res (ensure_that (en_authorization_revision e \<noteq> 0 \<and> en_authorization_revision e \<le> revision)
          (Host ''authorization enrollment revision is invalid'')) (\<lambda>_.
        validate_enrollments ax revision (insert peer peers) (insert (en_handle e) handles) es)))))))"

fun validate_consumed :: "bytes set \<Rightarrow> consumed_invitation list \<Rightarrow> unit host" where
  "validate_consumed earlier [] = Inr ()"
| "validate_consumed earlier (c # cs) =
     bind_res (ensure_that (ci_nonce c \<noteq> replicate 32 0) (Host ''consumed invitation nonce is zero'')) (\<lambda>_.
     bind_res (ensure_that (ci_nonce c \<notin> earlier)
       (Host ''authorization replay ledger contains a duplicate nonce'')) (\<lambda>_.
     validate_consumed (insert (ci_nonce c) earlier) cs))"

definition validate_grants_option :: "invitation_grants option \<Rightarrow> unit host" where
  "validate_grants_option g = (case g of None \<Rightarrow> Inr () | Some grants \<Rightarrow> lift_proto (grants_validate grants))"

fun validate_audit :: "u64 \<Rightarrow> u64 \<Rightarrow> security_audit_entry list \<Rightarrow> unit host" where
  "validate_audit revision last_audit_revision [] = Inr ()"
| "validate_audit revision last_audit_revision (a # as) =
     bind_res (ensure_that (au_revision a \<noteq> 0 \<and> au_revision a \<le> revision \<and> last_audit_revision \<le> au_revision a)
       (Host ''authorization security audit revision is invalid'')) (\<lambda>_.
     bind_res (validate_viewer_handle (au_handle a)) (\<lambda>_.
     bind_res (validate_grants_option (au_previous_grants a)) (\<lambda>_.
     bind_res (validate_grants_option (au_current_grants a)) (\<lambda>_.
     validate_audit revision (au_revision a) as))))"

definition state_validate :: "externals \<Rightarrow> endpoint_id \<Rightarrow> authorization_state \<Rightarrow> unit host" where
  "state_validate ax expected_host st =
     bind_res (ensure_that (az_version st = STATE_VERSION) (Host ''unsupported authorization state version'')) (\<lambda>_.
     bind_res (ensure_that (ax_parse ax (az_host_node_id st) = Some expected_host)
       (Host ''authorization state belongs to a different Sigil host'')) (\<lambda>_.
     bind_res (ensure_that (az_enrollment_epoch st \<noteq> 0) (Host ''authorization epoch must be non-zero'')) (\<lambda>_.
     bind_res (ensure_that (az_committed_revision st \<noteq> 0)
       (Host ''authorization committed revision must be non-zero'')) (\<lambda>_.
     bind_res (ensure_that (length (az_enrollments st) \<le> MAX_ENROLLED_VIEWERS)
       (Host ''authorization enrollment map exceeds its fixed bound'')) (\<lambda>_.
     bind_res (ensure_that (length (az_consumed_invitations st) \<le> MAX_CONSUMED_INVITATIONS)
       (Host ''authorization replay ledger exceeds its fixed bound'')) (\<lambda>_.
     bind_res (ensure_that (length (az_security_audit st) \<le> MAX_SECURITY_AUDIT_ENTRIES)
       (Host ''authorization security audit exceeds its fixed bound'')) (\<lambda>_.
     bind_res (validate_enrollments ax (az_committed_revision st) {} {} (az_enrollments st)) (\<lambda>_.
     bind_res (validate_consumed {} (az_consumed_invitations st)) (\<lambda>_.
     validate_audit (az_committed_revision st) 0 (az_security_audit st))))))))))"

section \<open>Building blocks\<close>

definition state_empty :: "externals \<Rightarrow> endpoint_id \<Rightarrow> authorization_state" where
  "state_empty ax host =
     \<lparr>az_version = STATE_VERSION, az_host_node_id = ax_show ax host, az_enrollment_epoch = 1, az_committed_revision = 1,
      az_enrollments = [], az_consumed_invitations = [], az_security_audit = []\<rparr>"

definition prune_expired :: "u64 \<Rightarrow> authorization_state \<Rightarrow> authorization_state \<times> bool" where
  "prune_expired now st =
     (let kept = filter (\<lambda>c. now \<le> saturating_add (ci_expires_at_unix c) INVITATION_CLOCK_SKEW_SECS)
                   (az_consumed_invitations st)
      in (st\<lparr>az_consumed_invitations := kept\<rparr>, length (az_consumed_invitations st) \<noteq> length kept))"

definition next_revision :: "authorization_state \<Rightarrow> u64 host" where
  "next_revision st =
     (case checked_add (az_committed_revision st) 1 of
        None \<Rightarrow> Inl (Host ''authorization committed revision exhausted'') | Some revision \<Rightarrow> Inr revision)"

definition push_audit :: "security_audit_entry \<Rightarrow> authorization_state \<Rightarrow> authorization_state" where
  "push_audit entry st =
     st\<lparr>az_security_audit := (if length (az_security_audit st) = MAX_SECURITY_AUDIT_ENTRIES
                            then tl (az_security_audit st) else az_security_audit st) @ [entry]\<rparr>"

definition from_legacy ::
  "externals \<Rightarrow> u64 option list \<Rightarrow> endpoint_id \<Rightarrow> legacy_authorization_state \<Rightarrow> authorization_state host" where
  "from_legacy ax draws expected_host legacy =
     bind_res (ensure_that (la_version legacy = LEGACY_STATE_VERSION)
       (Host ''unsupported legacy authorization state version'')) (\<lambda>_.
     bind_res (ensure_that (ax_parse ax (la_host_node_id legacy) = Some expected_host)
       (Host ''authorization state belongs to a different Sigil host'')) (\<lambda>_.
     bind_res (ensure_that (la_enrollment_epoch legacy \<noteq> 0) (Host ''authorization epoch must be non-zero'')) (\<lambda>_.
     bind_res (ensure_that (length (la_consumed_invitations legacy) \<le> MAX_CONSUMED_INVITATIONS)
       (Host ''authorization replay ledger exceeds its fixed bound'')) (\<lambda>_.
     let st = (state_empty ax expected_host)\<lparr>az_enrollment_epoch := la_enrollment_epoch legacy,
                az_consumed_invitations := la_consumed_invitations legacy\<rparr> in
     bind_res (case la_enrollment legacy of
         None \<Rightarrow> Inr st
       | Some e \<Rightarrow>
         (case ax_parse ax (le_peer_node_id e) of
            None \<Rightarrow> Inl (Host ''legacy authorization enrollment contains an invalid peer node ID'')
          | Some peer \<Rightarrow>
            bind_res (lift_proto (grants_validate (le_grants e))) (\<lambda>_.
            bind_res (ensure_that (grants_contains (le_grants e) GRANT_VIEW)
              (Host ''legacy authorization enrollment must include view permission'')) (\<lambda>_.
            bind_res (random_viewer_handle draws []) (\<lambda>handle.
            Inr (push_audit \<lparr>au_revision = 1, au_occurred_at_unix = le_enrolled_at_unix e, au_action = SA_MigratedV1,
                   au_handle = handle, au_previous_grants = Some (le_grants e), au_current_grants = Some (le_grants e)\<rparr>
                 (st\<lparr>az_enrollments := az_enrollments st @ [\<lparr>en_peer_node_id = ax_show ax peer, en_handle = handle,
                     en_grants = le_grants e, en_enrolled_at_unix = le_enrolled_at_unix e,
                     en_authorization_revision = 1\<rparr>]\<rparr>))))))) (\<lambda>st.
     bind_res (state_validate ax expected_host st) (\<lambda>_. Inr st))))))"

end
