(* ===== verification/Authorization_Store.thy ===== *)
theory Authorization_Store
  imports Authorization_State
begin

text \<open>
  The authorization store: the operations of \<open>AuthorizationStore\<close> on the document, and the files
  under the state directory. Every operation works on a copy of the document in memory, writes the
  copy to disk and only then replaces the document in memory.
\<close>

section \<open>Operations on the document\<close>

record enrolled_viewer =
  ev_handle :: string
  ev_peer :: endpoint_id
  ev_grants :: invitation_grants
  ev_enrolled_at_unix :: u64
  ev_authorization_revision :: u64

record authorization_snapshot =
  ap_epoch :: u64
  ap_peer :: "endpoint_id option"
  ap_grants :: "invitation_grants option"
  ap_enrolled_at_unix :: "u64 option"
  ap_committed_revision :: u64
  ap_viewers :: "enrolled_viewer list"

record revocation_outcome =
  ro_had_enrollment :: bool
  ro_previous_epoch :: u64
  ro_current_epoch :: u64

definition as_public :: "externals \<Rightarrow> enrollment \<Rightarrow> enrolled_viewer host" where
  "as_public ax e =
     (case ax_parse ax (en_peer_node_id e) of
        None \<Rightarrow> Inl (Host ''invalid endpoint id'')
      | Some peer \<Rightarrow> Inr \<lparr>ev_handle = en_handle e, ev_peer = peer, ev_grants = en_grants e,
          ev_enrolled_at_unix = en_enrolled_at_unix e, ev_authorization_revision = en_authorization_revision e\<rparr>)"

fun as_public_all :: "externals \<Rightarrow> enrollment list \<Rightarrow> enrolled_viewer list host" where
  "as_public_all ax [] = Inr []"
| "as_public_all ax (e # es) =
     bind_res (as_public ax e) (\<lambda>v. bind_res (as_public_all ax es) (\<lambda>vs. Inr (v # vs)))"

definition snapshot_from_state :: "externals \<Rightarrow> authorization_state \<Rightarrow> authorization_snapshot host" where
  "snapshot_from_state ax st =
     bind_res (as_public_all ax (az_enrollments st)) (\<lambda>viewers.
     let head = (case viewers of [] \<Rightarrow> None | v # _ \<Rightarrow> Some v) in
     Inr \<lparr>ap_epoch = az_enrollment_epoch st, ap_peer = map_option ev_peer head, ap_grants = map_option ev_grants head,
          ap_enrolled_at_unix = map_option ev_enrolled_at_unix head, ap_committed_revision = az_committed_revision st,
          ap_viewers = viewers\<rparr>)"

definition issue_claims_from_snapshot ::
  "externals \<Rightarrow> endpoint_id \<Rightarrow> authorization_snapshot \<Rightarrow> endpoint_id \<Rightarrow> invitation_grants \<Rightarrow> u64 \<Rightarrow> u64 \<Rightarrow> bytes \<Rightarrow>
   invitation_claims host" where
  "issue_claims_from_snapshot ax host snapshot peer grants ttl_seconds now nonce =
     bind_res (lift_proto (grants_validate grants)) (\<lambda>_.
     bind_res (ensure_that (grants_contains grants GRANT_VIEW) (Host ''invitations must grant view permission'')) (\<lambda>_.
     bind_res (ensure_that (1 \<le> ttl_seconds \<and> ttl_seconds \<le> MAX_INVITATION_TTL_SECS)
       (Host ''invitation TTL must be between 1 and 900 seconds'')) (\<lambda>_.
     bind_res (ensure_that (length (ap_viewers snapshot) < MAX_ENROLLED_VIEWERS)
       (Host ''authorization enrollment map is full'')) (\<lambda>_.
     bind_res (ensure_that (peer \<notin> ev_peer ` set (ap_viewers snapshot)) (Host ''Portal peer is already enrolled'')) (\<lambda>_.
     case checked_add now ttl_seconds of
       None \<Rightarrow> Inl (Host ''invitation expiry overflow'')
     | Some expires \<Rightarrow>
         lift_proto (invitation_claims_new (ax_crypto ax) host peer now expires (ap_epoch snapshot) nonce grants))))))"

definition is_peer :: "externals \<Rightarrow> endpoint_id \<Rightarrow> enrollment \<Rightarrow> bool" where
  "is_peer ax remote e \<longleftrightarrow> ax_parse ax (en_peer_node_id e) = Some remote"

definition admit_enrolled :: "externals \<Rightarrow> endpoint_id \<Rightarrow> authorization_state \<Rightarrow> authorized_viewer host" where
  "admit_enrolled ax remote st =
     (case filter (is_peer ax remote) (az_enrollments st) of
        [] \<Rightarrow> Inl (Host ''Portal peer is not enrolled'')
      | e # _ \<Rightarrow> Inr \<lparr>av_handle = en_handle e, av_grants = en_grants e,
          av_authorization_revision = en_authorization_revision e, av_committed_revision = az_committed_revision st\<rparr>)"

text \<open>The checks on an invitation, in the order of the source.\<close>

definition check_invitation ::
  "endpoint_id \<Rightarrow> endpoint_id \<Rightarrow> u64 \<Rightarrow> authorization_state \<Rightarrow> invitation_claims \<Rightarrow> unit host" where
  "check_invitation host remote now st claims =
     bind_res (ensure_that (ic_host_node_id claims = host) (Host ''invitation belongs to a different Sigil host'')) (\<lambda>_.
     bind_res (ensure_that (ic_intended_peer_id claims = remote)
       (Host ''invitation is bound to a different Portal peer'')) (\<lambda>_.
     bind_res (ensure_that (ic_enrollment_epoch claims = az_enrollment_epoch st)
       (Host ''invitation enrollment epoch is stale'')) (\<lambda>_.
     bind_res (ensure_that (ic_issued_at_unix claims \<le> saturating_add now INVITATION_CLOCK_SKEW_SECS)
       (Host ''invitation was issued too far in the future'')) (\<lambda>_.
     bind_res (ensure_that (now \<le> ic_expires_at_unix claims) (Host ''invitation has expired'')) (\<lambda>_.
     bind_res (ensure_that (grants_contains (ic_grants claims) GRANT_VIEW)
       (Host ''invitation does not grant view permission'')) (\<lambda>_.
     bind_res (ensure_that (ic_nonce claims \<notin> ci_nonce ` set (az_consumed_invitations st))
       (Host ''invitation has already been consumed'')) (\<lambda>_.
     ensure_that (length (az_consumed_invitations st) < MAX_CONSUMED_INVITATIONS)
       (Host ''authorization replay ledger is full''))))))))"

definition enroll :: "externals \<Rightarrow> endpoint_id \<Rightarrow> u64 \<Rightarrow> invitation_claims \<Rightarrow> u64 \<Rightarrow> string \<Rightarrow> authorization_state \<Rightarrow> authorization_state" where
  "enroll ax remote now claims revision handle st =
     push_audit \<lparr>au_revision = revision, au_occurred_at_unix = now, au_action = SA_Enrolled, au_handle = handle,
         au_previous_grants = None, au_current_grants = Some (ic_grants claims)\<rparr>
       (st\<lparr>az_enrollments := az_enrollments st @ [\<lparr>en_peer_node_id = ax_show ax remote, en_handle = handle,
             en_grants = ic_grants claims, en_enrolled_at_unix = now, en_authorization_revision = revision\<rparr>],
           az_consumed_invitations := az_consumed_invitations st @
             [\<lparr>ci_nonce = ic_nonce claims, ci_expires_at_unix = ic_expires_at_unix claims\<rparr>],
           az_committed_revision := revision\<rparr>)"

definition redeem_invitation ::
  "externals \<Rightarrow> u64 option list \<Rightarrow> endpoint_id \<Rightarrow> endpoint_id \<Rightarrow> string \<Rightarrow> u64 \<Rightarrow> authorization_state \<Rightarrow>
   (authorization_state \<times> authorized_viewer) host" where
  "redeem_invitation ax draws host remote token now st =
     bind_res (ensure_that (filter (is_peer ax remote) (az_enrollments st) = [])
       (Host ''an invitation cannot be used after enrollment: Portal peer is already enrolled'')) (\<lambda>_.
     bind_res (ensure_that (length (az_enrollments st) < MAX_ENROLLED_VIEWERS)
       (Host ''authorization enrollment map is full'')) (\<lambda>_.
     bind_res (lift_proto (invitation_decode (ax_crypto ax) token)) (\<lambda>invitation.
     bind_res (check_invitation host remote now st (si_claims invitation)) (\<lambda>_.
     bind_res (next_revision st) (\<lambda>revision.
     bind_res (random_viewer_handle draws (az_enrollments st)) (\<lambda>handle.
     Inr (enroll ax remote now (si_claims invitation) revision handle st,
          \<lparr>av_handle = handle, av_grants = ic_grants (si_claims invitation), av_authorization_revision = revision,
           av_committed_revision = revision\<rparr>)))))))"

text \<open>The candidate, whether it has to be written, and the answer.\<close>

definition authorize_candidate ::
  "externals \<Rightarrow> u64 option list \<Rightarrow> endpoint_id \<Rightarrow> endpoint_id \<Rightarrow> string option \<Rightarrow> u64 \<Rightarrow> authorization_state \<Rightarrow>
   (authorization_state \<times> bool \<times> authorized_viewer) host" where
  "authorize_candidate ax draws host remote invitation_token now st =
     (case prune_expired now st of (pruned, changed) \<Rightarrow>
       (case invitation_token of
          None \<Rightarrow> bind_res (admit_enrolled ax remote pruned) (\<lambda>v. Inr (pruned, changed, v))
        | Some token \<Rightarrow> bind_res (redeem_invitation ax draws host remote token now pruned) (\<lambda>(st', v). Inr (st', True, v))))"

fun index_of_handle :: "string \<Rightarrow> enrollment list \<Rightarrow> nat option" where
  "index_of_handle handle [] = None"
| "index_of_handle handle (e # es) =
     (if en_handle e = handle then Some 0 else map_option Suc (index_of_handle handle es))"

definition remove_nth :: "nat \<Rightarrow> 'a list \<Rightarrow> 'a list" where
  "remove_nth i xs = take i xs @ drop (Suc i) xs"

definition mutation_of ::
  "externals \<Rightarrow> enrollment \<Rightarrow> invitation_grants option \<Rightarrow> u64 \<Rightarrow> authorization_mutation host" where
  "mutation_of ax previous current revision =
     (case ax_parse ax (en_peer_node_id previous) of
        None \<Rightarrow> Inl (Host ''invalid endpoint id'')
      | Some peer \<Rightarrow> Inr \<lparr>am_handle = en_handle previous, am_peer = peer, am_previous_grants = en_grants previous,
          am_current_grants = current, am_authorization_revision = revision, am_committed_revision = revision\<rparr>)"

definition revoke_candidate :: "string \<Rightarrow> u64 \<Rightarrow> authorization_state \<Rightarrow> (authorization_state \<times> enrollment \<times> u64) host" where
  "revoke_candidate handle now st =
     (case index_of_handle handle (az_enrollments st) of
        None \<Rightarrow> Inl (Host ''viewer handle is not enrolled'')
      | Some i \<Rightarrow>
        let removed = az_enrollments st ! i; st1 = st\<lparr>az_enrollments := remove_nth i (az_enrollments st)\<rparr> in
        bind_res (next_revision st1) (\<lambda>revision.
        let st2 = fst (prune_expired now (st1\<lparr>az_committed_revision := revision\<rparr>)) in
        Inr (push_audit \<lparr>au_revision = revision, au_occurred_at_unix = now, au_action = SA_Revoked,
               au_handle = en_handle removed, au_previous_grants = Some (en_grants removed), au_current_grants = None\<rparr> st2,
             removed, revision)))"

definition replace_candidate ::
  "string \<Rightarrow> invitation_grants option \<Rightarrow> u64 \<Rightarrow> authorization_state \<Rightarrow> (authorization_state \<times> enrollment \<times> u64) host" where
  "replace_candidate handle grants now st =
     (case index_of_handle handle (az_enrollments st) of
        None \<Rightarrow> Inl (Host ''viewer handle is not enrolled'')
      | Some i \<Rightarrow>
        let previous = az_enrollments st ! i in
        bind_res (ensure_that (grants \<noteq> Some (en_grants previous)) (Host ''viewer already has the requested grants'')) (\<lambda>_.
        bind_res (next_revision st) (\<lambda>revision.
        let st1 = st\<lparr>az_enrollments := (case grants of
                       Some g \<Rightarrow> (az_enrollments st)[i := previous\<lparr>en_grants := g, en_authorization_revision := revision\<rparr>]
                     | None \<Rightarrow> remove_nth i (az_enrollments st))\<rparr>;
            st2 = fst (prune_expired now (st1\<lparr>az_committed_revision := revision\<rparr>)) in
        Inr (push_audit \<lparr>au_revision = revision, au_occurred_at_unix = now,
               au_action = (if grants \<noteq> None then SA_GrantsReplaced else SA_Revoked),
               au_handle = en_handle previous, au_previous_grants = Some (en_grants previous), au_current_grants = grants\<rparr> st2,
             previous, revision))))"

fun audit_reset :: "u64 \<Rightarrow> u64 \<Rightarrow> enrollment list \<Rightarrow> authorization_state \<Rightarrow> authorization_state" where
  "audit_reset revision now [] st = st"
| "audit_reset revision now (e # es) st =
     audit_reset revision now es (push_audit \<lparr>au_revision = revision, au_occurred_at_unix = now, au_action = SA_ResetAll,
       au_handle = en_handle e, au_previous_grants = Some (en_grants e), au_current_grants = None\<rparr> st)"

definition reset_candidate :: "u64 \<Rightarrow> authorization_state \<Rightarrow> authorization_state host" where
  "reset_candidate now st =
     (let removed = az_enrollments st; st0 = st\<lparr>az_enrollments := []\<rparr> in
      case checked_add (az_enrollment_epoch st0) 1 of
        None \<Rightarrow> Inl (Host ''authorization epoch exhausted'')
      | Some epoch \<Rightarrow>
        let st1 = fst (prune_expired now (st0\<lparr>az_enrollment_epoch := epoch\<rparr>)) in
        bind_res (next_revision st1) (\<lambda>revision.
        Inr (audit_reset revision now removed (st1\<lparr>az_committed_revision := revision\<rparr>))))"


section \<open>Files\<close>

text \<open>
  What the process finds under a path: nothing, something it cannot open (a symbolic link is refused
  by \<open>O_NOFOLLOW\<close>), or an open file with its type, mode, owner and content.
\<close>

record stored_file =
  sf_regular :: bool
  sf_mode :: u32
  sf_owner :: nat
  sf_bytes :: bytes

datatype dir_entry = Missing | Unopenable | Opened stored_file

datatype dir_kind = Dir_Missing | Dir_Symlink | Dir_Not_A_Directory | Dir_Present u32 nat

record state_directory =
  sd_kind :: dir_kind
  sd_state :: dir_entry
  sd_legacy :: dir_entry
  sd_lock :: dir_entry

text \<open>
  How writing a document can fail: before the rename, which leaves the old file, or after it, when
  the directory cannot be synced.
\<close>

datatype write_fault = No_Fault | Fault_Before_Rename | Fault_After_Rename

definition private_mode :: "u32 \<Rightarrow> bool" where "private_mode mode \<longleftrightarrow> mode AND 63 = 0"

definition validate_secure_file :: "externals \<Rightarrow> stored_file \<Rightarrow> unit host" where
  "validate_secure_file ax f =
     bind_res (ensure_that (sf_regular f) (Host ''not a regular file'')) (\<lambda>_.
     bind_res (ensure_that (private_mode (sf_mode f)) (Host ''accessible by group or others'')) (\<lambda>_.
     ensure_that (sf_owner f = ax_euid ax) (Host ''has the wrong owner'')))"

definition validate_directory :: "externals \<Rightarrow> dir_kind \<Rightarrow> unit host" where
  "validate_directory ax kind =
     (case kind of
        Dir_Present mode owner \<Rightarrow>
          bind_res (ensure_that (private_mode mode)
            (Host ''authorization state directory is accessible by group or others'')) (\<lambda>_.
          ensure_that (owner = ax_euid ax) (Host ''authorization state directory has the wrong owner''))
      | Dir_Symlink \<Rightarrow> Inl (Host ''authorization state directory is a symlink'')
      | _ \<Rightarrow> Inl (Host ''authorization state path is not a directory''))"

definition ensure_state_directory :: "externals \<Rightarrow> state_directory \<Rightarrow> state_directory \<times> unit host" where
  "ensure_state_directory ax sd =
     (if sd_kind sd = Dir_Missing then (sd\<lparr>sd_kind := Dir_Present 448 (ax_euid ax)\<rparr>, Inr ())
      else (sd, validate_directory ax (sd_kind sd)))"

definition open_lock :: "externals \<Rightarrow> state_directory \<Rightarrow> state_directory \<times> unit host" where
  "open_lock ax sd =
     (case sd_lock sd of
        Missing \<Rightarrow> (sd\<lparr>sd_lock := Opened \<lparr>sf_regular = True, sf_mode = 384, sf_owner = ax_euid ax, sf_bytes = []\<rparr>\<rparr>, Inr ())
      | Unopenable \<Rightarrow> (sd, Inl (Host ''opening authorization lock''))
      | Opened f \<Rightarrow> (sd, validate_secure_file ax f))"

definition read_document :: "externals \<Rightarrow> stored_file \<Rightarrow> bytes host" where
  "read_document ax f =
     bind_res (validate_secure_file ax f) (\<lambda>_.
     bind_res (ensure_that (length (sf_bytes f) \<le> MAX_STATE_FILE_LEN)
       (Host ''authorization state exceeds its fixed size bound'')) (\<lambda>_.
     bind_res (ensure_that (sf_bytes f \<noteq> []) (Host ''authorization state is empty'')) (\<lambda>_. Inr (sf_bytes f))))"

text \<open>\<open>load_state\<close>: the document, or the legacy one converted, or \<open>None\<close> where there is none.\<close>

definition load_existing ::
  "externals \<Rightarrow> u64 option list \<Rightarrow> endpoint_id \<Rightarrow> state_directory \<Rightarrow> (authorization_state \<times> bool) option host" where
  "load_existing ax draws host sd =
     (case sd_state sd of
        Opened f \<Rightarrow> bind_res (read_document ax f) (\<lambda>bs.
          (case ax_read ax bs of
             None \<Rightarrow> Inl (Host ''parsing authorization state'') | Some st \<Rightarrow> Inr (Some (st, False))))
      | Unopenable \<Rightarrow> Inl (Host ''opening authorization state'')
      | Missing \<Rightarrow>
        (case sd_legacy sd of
           Missing \<Rightarrow> Inr None
         | Unopenable \<Rightarrow> Inl (Host ''opening legacy authorization state'')
         | Opened f \<Rightarrow> bind_res (read_document ax f) (\<lambda>bs.
             (case ax_read_legacy ax bs of
                None \<Rightarrow> Inl (Host ''parsing legacy authorization state'')
              | Some legacy \<Rightarrow> bind_res (from_legacy ax draws host legacy) (\<lambda>st. Inr (Some (st, True)))))))"

definition load_state ::
  "externals \<Rightarrow> u64 option list \<Rightarrow> endpoint_id \<Rightarrow> state_directory \<Rightarrow> (authorization_state \<times> bool) host" where
  "load_state ax draws host sd =
     bind_res (load_existing ax draws host sd) (\<lambda>r.
     case r of None \<Rightarrow> Inr (state_empty ax host, False) | Some p \<Rightarrow> Inr p)"

definition write_state ::
  "externals \<Rightarrow> write_fault \<Rightarrow> endpoint_id \<Rightarrow> authorization_state \<Rightarrow> state_directory \<Rightarrow> state_directory \<times> unit host" where
  "write_state ax fault host st sd =
     (case state_validate ax host st of
        Inl e \<Rightarrow> (sd, Inl e)
      | Inr _ \<Rightarrow>
        if MAX_STATE_FILE_LEN < length (ax_document ax st)
        then (sd, Inl (Host ''authorization state exceeds its fixed size bound''))
        else
          let renamed = sd\<lparr>sd_state := Opened \<lparr>sf_regular = True, sf_mode = 384, sf_owner = ax_euid ax,
                              sf_bytes = ax_document ax st @ [10]\<rparr>\<rparr> in
          (case fault of
             No_Fault \<Rightarrow> (renamed, Inr ())
           | Fault_Before_Rename \<Rightarrow> (sd, Inl (Host ''writing authorization state''))
           | Fault_After_Rename \<Rightarrow> (renamed, Inl (Host ''syncing authorization state directory''))))"

definition remove_legacy_state :: "externals \<Rightarrow> state_directory \<Rightarrow> state_directory \<times> unit host" where
  "remove_legacy_state ax sd =
     (case sd_legacy sd of
        Missing \<Rightarrow> (sd, Inr ())
      | Unopenable \<Rightarrow> (sd, Inl (Host ''legacy authorization state is not a regular file''))
      | Opened f \<Rightarrow>
          if \<not> sf_regular f then (sd, Inl (Host ''legacy authorization state is not a regular file''))
          else if \<not> (sf_owner f = ax_euid ax \<and> private_mode (sf_mode f))
          then (sd, Inl (Host ''legacy authorization state has unsafe ownership or permissions''))
          else (sd\<lparr>sd_legacy := Missing\<rparr>, Inr ()))"

section \<open>The store\<close>

record authorization_store =
  ss_host :: endpoint_id
  ss_memory :: authorization_state
  ss_directory :: state_directory

text \<open>\<open>lock_free\<close> tells whether the lifecycle lease could be taken within its timeout.\<close>

definition finish_open ::
  "externals \<Rightarrow> write_fault \<Rightarrow> endpoint_id \<Rightarrow> authorization_state \<Rightarrow> bool \<Rightarrow> state_directory \<Rightarrow>
   state_directory \<times> authorization_store host" where
  "finish_open ax fault host st migrated sd =
     bind_op (sd, state_validate ax host st) (\<lambda>sd _.
     bind_op (if migrated then bind_op (write_state ax fault host st sd) (\<lambda>sd _. remove_legacy_state ax sd) else (sd, Inr ()))
       (\<lambda>sd _. (sd, Inr \<lparr>ss_host = host, ss_memory = st, ss_directory = sd\<rparr>)))"

definition store_open ::
  "externals \<Rightarrow> u64 option list \<Rightarrow> write_fault \<Rightarrow> bool \<Rightarrow> endpoint_id \<Rightarrow> state_directory \<Rightarrow>
   state_directory \<times> authorization_store host" where
  "store_open ax draws fault lock_free host sd =
     bind_op (ensure_state_directory ax sd) (\<lambda>sd _.
     bind_op (open_lock ax sd) (\<lambda>sd _.
     bind_op (sd, ensure_that lock_free (Host ''authorization writer is busy'')) (\<lambda>sd _.
     bind_op (sd, load_state ax draws host sd) (\<lambda>sd (st, migrated).
     finish_open ax fault host st migrated sd))))"

definition store_commit ::
  "externals \<Rightarrow> write_fault \<Rightarrow> authorization_state \<Rightarrow> authorization_store \<Rightarrow> authorization_store \<times> unit host" where
  "store_commit ax fault candidate store =
     (case write_state ax fault (ss_host store) candidate (ss_directory store) of
        (sd, Inl e) \<Rightarrow> (store\<lparr>ss_directory := sd\<rparr>, Inl e)
      | (sd, Inr _) \<Rightarrow> (store\<lparr>ss_directory := sd, ss_memory := candidate\<rparr>, Inr ()))"

definition store_authorize ::
  "externals \<Rightarrow> u64 option list \<Rightarrow> write_fault \<Rightarrow> endpoint_id \<Rightarrow> string option \<Rightarrow> u64 \<Rightarrow> authorization_store \<Rightarrow>
   authorization_store \<times> authorized_viewer host" where
  "store_authorize ax draws fault remote invitation_token now store =
     bind_op (store, state_validate ax (ss_host store) (ss_memory store)) (\<lambda>store _.
     bind_op (store, authorize_candidate ax draws (ss_host store) remote invitation_token now (ss_memory store))
       (\<lambda>store (candidate, changed, viewer).
     if changed then bind_op (store_commit ax fault candidate store) (\<lambda>store _. (store, Inr viewer))
     else (store, Inr viewer)))"

definition store_reset ::
  "externals \<Rightarrow> write_fault \<Rightarrow> u64 \<Rightarrow> authorization_store \<Rightarrow> authorization_store \<times> revocation_outcome host" where
  "store_reset ax fault now store =
     bind_op (store, state_validate ax (ss_host store) (ss_memory store)) (\<lambda>store _.
     bind_op (store, reset_candidate now (ss_memory store)) (\<lambda>store candidate.
     let before = ss_memory store in
     bind_op (store_commit ax fault candidate store) (\<lambda>store _.
     (store, Inr \<lparr>ro_had_enrollment = (az_enrollments before \<noteq> []), ro_previous_epoch = az_enrollment_epoch before,
        ro_current_epoch = az_enrollment_epoch (ss_memory store)\<rparr>))))"

definition store_list_viewers :: "externals \<Rightarrow> authorization_store \<Rightarrow> authorization_snapshot host" where
  "store_list_viewers ax store =
     bind_res (state_validate ax (ss_host store) (ss_memory store)) (\<lambda>_. snapshot_from_state ax (ss_memory store))"

definition store_revoke ::
  "externals \<Rightarrow> write_fault \<Rightarrow> string \<Rightarrow> u64 \<Rightarrow> authorization_store \<Rightarrow> authorization_store \<times> authorization_mutation host" where
  "store_revoke ax fault handle now store =
     bind_op (store, validate_viewer_handle handle) (\<lambda>store _.
     bind_op (store, state_validate ax (ss_host store) (ss_memory store)) (\<lambda>store _.
     bind_op (store, revoke_candidate handle now (ss_memory store)) (\<lambda>store (candidate, removed, revision).
     bind_op (store_commit ax fault candidate store) (\<lambda>store _.
     (store, mutation_of ax removed None revision)))))"

definition store_replace ::
  "externals \<Rightarrow> write_fault \<Rightarrow> string \<Rightarrow> invitation_grants option \<Rightarrow> u64 \<Rightarrow> authorization_store \<Rightarrow>
   authorization_store \<times> authorization_mutation host" where
  "store_replace ax fault handle grants now store =
     bind_op (store, validate_viewer_handle handle) (\<lambda>store _.
     bind_op (store, case grants of None \<Rightarrow> Inr ()
         | Some g \<Rightarrow> bind_res (lift_proto (grants_validate g)) (\<lambda>_.
             ensure_that (grants_contains g GRANT_VIEW) (Host ''a persisted viewer grant must include view permission'')))
       (\<lambda>store _.
     bind_op (store, state_validate ax (ss_host store) (ss_memory store)) (\<lambda>store _.
     bind_op (store, replace_candidate handle grants now (ss_memory store)) (\<lambda>store (candidate, previous, revision).
     bind_op (store_commit ax fault candidate store) (\<lambda>store _.
     (store, mutation_of ax previous grants revision))))))"

text \<open>Reading the document without the lease, as the command line does while the service runs.\<close>

definition empty_snapshot :: authorization_snapshot where
  "empty_snapshot = \<lparr>ap_epoch = 1, ap_peer = None, ap_grants = None, ap_enrolled_at_unix = None,
     ap_committed_revision = 1, ap_viewers = []\<rparr>"

definition inspect_existing ::
  "externals \<Rightarrow> u64 option list \<Rightarrow> endpoint_id \<Rightarrow> state_directory \<Rightarrow> (authorization_snapshot \<times> bool) host" where
  "inspect_existing ax draws host sd =
     (if sd_kind sd = Dir_Missing then Inr (empty_snapshot, False)
      else bind_res (validate_directory ax (sd_kind sd)) (\<lambda>_.
        bind_res (load_existing ax draws host sd) (\<lambda>r.
        case r of
          None \<Rightarrow> Inr (empty_snapshot, False)
        | Some (st, _) \<Rightarrow>
          bind_res (state_validate ax host st) (\<lambda>_.
          bind_res (snapshot_from_state ax st) (\<lambda>snapshot. Inr (snapshot, True))))))"

section \<open>Policies\<close>

datatype authorization_policy = Required authorization_store | TestPatternProof | DevelopmentBypass

definition development_viewer_handle :: "externals \<Rightarrow> endpoint_id \<Rightarrow> string" where
  "development_viewer_handle ax remote =
     (let digest = ax_sha256 ax (ascii_bytes ''goq-development-viewer-v1'' @ [0] @ remote) in
      ''viewer-'' @ concat (map (\<lambda>b. hex_digits 2 (unat b)) (take VIEWER_HANDLE_RANDOM_BYTES digest)))"

definition policy_authorize ::
  "externals \<Rightarrow> u64 option list \<Rightarrow> write_fault \<Rightarrow> endpoint_id \<Rightarrow> string option \<Rightarrow> u64 \<Rightarrow> authorization_policy \<Rightarrow>
   authorization_policy \<times> authorized_viewer host" where
  "policy_authorize ax draws fault remote invitation_token now policy =
     (case policy of
        Required store \<Rightarrow>
          (case store_authorize ax draws fault remote invitation_token now store of (store', r) \<Rightarrow> (Required store', r))
      | _ \<Rightarrow> (policy, bind_res (ensure_that (invitation_token = None)
            (Host ''unrestricted development modes do not accept invitations'')) (\<lambda>_.
          Inr \<lparr>av_handle = development_viewer_handle ax remote, av_grants = GRANT_ALL,
               av_authorization_revision = 1, av_committed_revision = 1\<rparr>)))"

definition grant_names :: "invitation_grants \<Rightarrow> string" where
  "grant_names grants =
     (case (grants_contains grants GRANT_POINTER_KEYBOARD, grants_contains grants GRANT_GAMEPAD) of
        (False, False) \<Rightarrow> ''view''
      | (True, False) \<Rightarrow> ''view,pointer-keyboard''
      | (False, True) \<Rightarrow> ''view,gamepad''
      | (True, True) \<Rightarrow> ''view,pointer-keyboard,gamepad'')"

end
