(* ===== verification/Authorization_Invariant.thy ===== *)
theory Authorization_Invariant
  imports Authorization_Store
begin

text \<open>
  What a valid authorization document is, stated without the order of the checks, and that every
  candidate the store computes from a valid document is valid again.
\<close>

section \<open>Valid documents\<close>

definition handle_ok :: "string \<Rightarrow> bool" where
  "handle_ok handle \<longleftrightarrow> validate_viewer_handle handle = Inr ()"

definition grants_ok :: "invitation_grants \<Rightarrow> bool" where
  "grants_ok g \<longleftrightarrow> grants_validate g = Inr ()"

definition enrollment_ok :: "externals \<Rightarrow> u64 \<Rightarrow> enrollment \<Rightarrow> bool" where
  "enrollment_ok ax revision e \<longleftrightarrow> ax_parse ax (en_peer_node_id e) \<noteq> None \<and> handle_ok (en_handle e) \<and>
     grants_ok (en_grants e) \<and> grants_contains (en_grants e) GRANT_VIEW \<and>
     en_authorization_revision e \<noteq> 0 \<and> en_authorization_revision e \<le> revision"

definition audit_ok :: "u64 \<Rightarrow> security_audit_entry \<Rightarrow> bool" where
  "audit_ok revision a \<longleftrightarrow> au_revision a \<noteq> 0 \<and> au_revision a \<le> revision \<and> handle_ok (au_handle a) \<and>
     (\<forall>g. au_previous_grants a = Some g \<longrightarrow> grants_ok g) \<and> (\<forall>g. au_current_grants a = Some g \<longrightarrow> grants_ok g)"

definition enrollments_ok :: "externals \<Rightarrow> u64 \<Rightarrow> enrollment list \<Rightarrow> bool" where
  "enrollments_ok ax revision es \<longleftrightarrow> (\<forall>e \<in> set es. enrollment_ok ax revision e) \<and>
     distinct (map (\<lambda>e. ax_parse ax (en_peer_node_id e)) es) \<and> distinct (map en_handle es)"

definition consumed_ok :: "consumed_invitation list \<Rightarrow> bool" where
  "consumed_ok cs \<longleftrightarrow> replicate 32 0 \<notin> ci_nonce ` set cs \<and> distinct (map ci_nonce cs)"

definition audits_ok :: "u64 \<Rightarrow> security_audit_entry list \<Rightarrow> bool" where
  "audits_ok revision as \<longleftrightarrow> (\<forall>a \<in> set as. audit_ok revision a) \<and> sorted (map (unat \<circ> au_revision) as)"

definition state_ok :: "externals \<Rightarrow> endpoint_id \<Rightarrow> authorization_state \<Rightarrow> bool" where
  "state_ok ax host st \<longleftrightarrow> az_version st = STATE_VERSION \<and> ax_parse ax (az_host_node_id st) = Some host \<and>
     az_enrollment_epoch st \<noteq> 0 \<and> az_committed_revision st \<noteq> 0 \<and>
     length (az_enrollments st) \<le> MAX_ENROLLED_VIEWERS \<and>
     length (az_consumed_invitations st) \<le> MAX_CONSUMED_INVITATIONS \<and>
     length (az_security_audit st) \<le> MAX_SECURITY_AUDIT_ENTRIES \<and>
     enrollments_ok ax (az_committed_revision st) (az_enrollments st) \<and>
     consumed_ok (az_consumed_invitations st) \<and> audits_ok (az_committed_revision st) (az_security_audit st)"

lemma validate_enrollments_iff:
  "validate_enrollments ax revision peers handles es = Inr () \<longleftrightarrow> enrollments_ok ax revision es \<and>
     (\<forall>e \<in> set es. \<forall>p \<in> peers. ax_parse ax (en_peer_node_id e) \<noteq> Some p) \<and> (\<forall>e \<in> set es. en_handle e \<notin> handles)"
proof (induction es arbitrary: peers handles)
  case Nil
  then show ?case by (simp add: enrollments_ok_def)
next
  case (Cons e es)
  show ?case
  proof (cases "ax_parse ax (en_peer_node_id e)")
    case None
    then show ?thesis by (auto simp: enrollments_ok_def enrollment_ok_def)
  next
    case (Some p)
    have b: "bind_res m (\<lambda>_. n) = Inr () \<longleftrightarrow> m = Inr () \<and> n = Inr ()" for m n :: "unit host"
      by (cases m) auto
    show ?thesis
      unfolding validate_enrollments.simps Some option.case b Cons ensure_that_eq_Inr lift_proto_eq_Inr
      by (auto simp: enrollments_ok_def enrollment_ok_def handle_ok_def grants_ok_def Some image_iff)
  qed
qed

lemma validate_consumed_iff:
  "validate_consumed earlier cs = Inr () \<longleftrightarrow> consumed_ok cs \<and> ci_nonce ` set cs \<inter> earlier = {}"
proof (induction cs arbitrary: earlier)
  case Nil
  then show ?case by (simp add: consumed_ok_def)
next
  case (Cons c cs)
  show ?case
    unfolding validate_consumed.simps bind_ensure_eq_Inr Cons by (auto simp: consumed_ok_def)
qed

lemma validate_grants_option_iff: "validate_grants_option g = Inr () \<longleftrightarrow> (\<forall>x. g = Some x \<longrightarrow> grants_ok x)"
  by (cases g) (simp_all add: validate_grants_option_def grants_ok_def)

lemma validate_audit_iff:
  "validate_audit revision low as = Inr () \<longleftrightarrow> audits_ok revision as \<and> (\<forall>a \<in> set as. low \<le> au_revision a)"
proof (induction as arbitrary: low)
  case Nil
  then show ?case by (simp add: audits_ok_def)
next
  case (Cons a as)
  have b: "bind_res m (\<lambda>_. n) = Inr () \<longleftrightarrow> m = Inr () \<and> n = Inr ()" for m n :: "unit host"
    by (cases m) auto
  show ?case
    unfolding validate_audit.simps b Cons ensure_that_eq_Inr validate_grants_option_iff
    by (auto simp: audits_ok_def audit_ok_def handle_ok_def word_le_nat_alt)
qed

lemma state_validate_iff: "state_validate ax host st = Inr () \<longleftrightarrow> state_ok ax host st"
proof -
  have b: "bind_res m (\<lambda>_. n) = Inr () \<longleftrightarrow> m = Inr () \<and> n = Inr ()" for m n :: "unit host"
    by (cases m) auto
  show ?thesis
    unfolding state_validate_def b ensure_that_eq_Inr validate_enrollments_iff validate_consumed_iff validate_audit_iff
      state_ok_def by auto
qed


section \<open>Handles\<close>

lemma length_hex_digits [simp]: "length (hex_digits k n) = k"
  by (induction k arbitrary: n) simp_all

lemma hex_digits_chars: "list_all handle_char (hex_digits k n)"
proof (induction k arbitrary: n)
  case (Suc k)
  have "n mod 16 \<in> set [0..<16]" by simp
  moreover have "\<forall>i \<in> set [0..<16]. handle_char (hex_digit i)" by code_simp
  moreover have "hex_digit n = hex_digit (n mod 16)" by (simp add: hex_digit_def)
  ultimately have "handle_char (hex_digit n)" by metis
  with Suc show ?case by simp
qed simp

lemma viewer_handle_ok: "handle_ok (viewer_handle random)"
  using hex_digits_chars [of 16 "unat random"]
  by (simp add: handle_ok_def validate_viewer_handle_def viewer_handle_def VIEWER_HANDLE_RANDOM_BYTES_def)

lemma draw_handle_fresh: "draw_handle k draws existing = Inr h \<Longrightarrow> h \<notin> set existing \<and> handle_ok h"
  by (induction k draws existing rule: draw_handle.induct) (auto simp: viewer_handle_ok split: if_splits)

lemma random_viewer_handle_fresh:
  "random_viewer_handle draws es = Inr h \<Longrightarrow> h \<notin> en_handle ` set es \<and> handle_ok h"
  using draw_handle_fresh [of 16 draws "map en_handle es" h] by (simp add: random_viewer_handle_def)

section \<open>Building blocks keep validity\<close>

lemma next_revision_Inr:
  "next_revision st = Inr r \<longleftrightarrow> checked_add (az_committed_revision st) 1 = Some r"
  by (auto simp: next_revision_def split: option.splits)

lemma next_revision_grows:
  "next_revision st = Inr r \<Longrightarrow> az_committed_revision st < r \<and> r \<noteq> 0"
  using checked_add_1_less [of "az_committed_revision st" r] by (simp add: next_revision_Inr)

lemma enrollments_ok_mono: "enrollments_ok ax r es \<Longrightarrow> r \<le> r' \<Longrightarrow> enrollments_ok ax r' es"
  by (auto simp: enrollments_ok_def enrollment_ok_def)

lemma audits_ok_mono: "audits_ok r as \<Longrightarrow> r \<le> r' \<Longrightarrow> audits_ok r' as"
  by (auto simp: audits_ok_def audit_ok_def)

lemma state_ok_bump:
  "state_ok ax host st \<Longrightarrow> az_committed_revision st \<le> r \<Longrightarrow> r \<noteq> 0 \<Longrightarrow> state_ok ax host (st\<lparr>az_committed_revision := r\<rparr>)"
  by (auto simp: state_ok_def intro: enrollments_ok_mono audits_ok_mono)

lemma consumed_ok_filter: "consumed_ok cs \<Longrightarrow> consumed_ok (filter P cs)"
  by (auto simp: consumed_ok_def distinct_map_filter)

lemma prune_expired_ok: "state_ok ax host st \<Longrightarrow> state_ok ax host (fst (prune_expired now st))"
  by (auto simp: state_ok_def prune_expired_def Let_def consumed_ok_filter intro: le_trans [OF length_filter_le])

lemma prune_expired_frame [simp]:
  "az_enrollments (fst (prune_expired now st)) = az_enrollments st"
  "az_committed_revision (fst (prune_expired now st)) = az_committed_revision st"
  "az_enrollment_epoch (fst (prune_expired now st)) = az_enrollment_epoch st"
  by (simp_all add: prune_expired_def Let_def)

lemma push_audit_frame [simp]:
  "az_enrollments (push_audit a st) = az_enrollments st"
  "az_committed_revision (push_audit a st) = az_committed_revision st"
  "az_enrollment_epoch (push_audit a st) = az_enrollment_epoch st"
  "az_consumed_invitations (push_audit a st) = az_consumed_invitations st"
  by (simp_all add: push_audit_def)

lemma audits_ok_push:
  assumes "audits_ok r as" "audit_ok r a" "au_revision a = r" "set bs \<subseteq> set as" "bs = as \<or> bs = tl as"
  shows "audits_ok r (bs @ [a])"
proof -
  have "sorted (map (unat \<circ> au_revision) bs)"
    using assms(1,5) by (auto simp: audits_ok_def map_tl sorted_tl)
  moreover have "unat (au_revision b) \<le> unat r" if "b \<in> set bs" for b
    using that assms(1,4) by (auto simp: audits_ok_def audit_ok_def word_le_nat_alt)
  ultimately show ?thesis using assms by (auto simp: audits_ok_def sorted_append)
qed

lemma push_audit_ok:
  assumes "state_ok ax host st" "audit_ok (az_committed_revision st) a" "au_revision a = az_committed_revision st"
  shows "state_ok ax host (push_audit a st)"
proof -
  let ?bs = "if length (az_security_audit st) = MAX_SECURITY_AUDIT_ENTRIES then tl (az_security_audit st) else az_security_audit st"
  have "set ?bs \<subseteq> set (az_security_audit st)" by (cases "az_security_audit st") auto
  then have "audits_ok (az_committed_revision st) (?bs @ [a])"
    using assms by (intro audits_ok_push [of _ "az_security_audit st"]) (auto simp: state_ok_def)
  moreover have "length (?bs @ [a]) \<le> MAX_SECURITY_AUDIT_ENTRIES"
    using assms(1) by (auto simp: state_ok_def MAX_SECURITY_AUDIT_ENTRIES_def)
  ultimately show ?thesis using assms(1) by (simp add: state_ok_def push_audit_def)
qed

lemma state_ok_drop_enrollments:
  assumes "state_ok ax host st" "enrollments_ok ax (az_committed_revision st) es" "length es \<le> length (az_enrollments st)"
  shows "state_ok ax host (st\<lparr>az_enrollments := es\<rparr>)"
  using assms by (auto simp: state_ok_def)

lemma index_of_handle_Some:
  "index_of_handle handle es = Some i \<Longrightarrow> i < length es \<and> en_handle (es ! i) = handle"
  by (induction es arbitrary: i) (auto split: if_splits)

lemma set_remove_nth: "set (remove_nth i xs) \<subseteq> set xs"
  by (auto simp: remove_nth_def dest: in_set_takeD in_set_dropD)

lemma length_remove_nth: "i < length xs \<Longrightarrow> length (remove_nth i xs) = length xs - 1"
  by (auto simp: remove_nth_def)

lemma map_remove_nth: "map f (remove_nth i xs) = remove_nth i (map f xs)"
  by (simp add: remove_nth_def take_map drop_map)

lemma distinct_remove_nth: "distinct xs \<Longrightarrow> distinct (remove_nth i xs)"
proof -
  assume d: "distinct xs"
  have "set (take i xs) \<inter> set (drop (Suc i) xs) = {}"
    using d set_take_disj_set_drop_if_distinct [of xs i "Suc i"] by simp
  then show ?thesis using d by (simp add: remove_nth_def)
qed

lemma enrollments_ok_remove: "enrollments_ok ax r es \<Longrightarrow> enrollments_ok ax r (remove_nth i es)"
  using set_remove_nth [of i es] by (auto simp: enrollments_ok_def map_remove_nth distinct_remove_nth)

lemma enrollments_ok_update:
  assumes "enrollments_ok ax r es" "i < length es" "enrollment_ok ax r e"
    "en_peer_node_id e = en_peer_node_id (es ! i)" "en_handle e = en_handle (es ! i)"
  shows "enrollments_ok ax r (es[i := e])"
proof -
  have "map (\<lambda>e. ax_parse ax (en_peer_node_id e)) (es[i := e]) = map (\<lambda>e. ax_parse ax (en_peer_node_id e)) es"
    "map en_handle (es[i := e]) = map en_handle es"
    using assms(2,4,5) by (simp_all add: map_update list_update_same_conv)
  then show ?thesis using assms(1,3) set_update_subset_insert [of es i e] by (auto simp: enrollments_ok_def)
qed

section \<open>The empty document\<close>

lemma state_empty_ok: "externals_ok ax \<Longrightarrow> state_ok ax host (state_empty ax host)"
  by (simp add: state_ok_def state_empty_def externals_ok_def enrollments_ok_def consumed_ok_def audits_ok_def)


section \<open>Candidates are valid\<close>

lemma filter_is_peer_Nil: "filter (is_peer ax remote) es = [] \<longleftrightarrow> (\<forall>e \<in> set es. ax_parse ax (en_peer_node_id e) \<noteq> Some remote)"
  by (auto simp: filter_empty_conv is_peer_def)

lemma decoded_claims_valid:
  assumes "invitation_decode c token = Inr si"
  shows "invitation_claims_validate c (si_claims si) = Inr ()"
proof -
  have "invitation_verify c si = Inr ()"
    using assms unfolding invitation_decode_def Let_def
    by (auto simp: bind_res_eq_Inr split: if_splits option.splits)
  then show ?thesis by (auto simp: invitation_verify_def bind_res_eq_Inr)
qed

lemma enroll_ok:
  assumes ok: "state_ok ax host st" and x: "externals_ok ax" and r: "next_revision st = Inr r"
    and room: "length (az_enrollments st) < MAX_ENROLLED_VIEWERS" "length (az_consumed_invitations st) < MAX_CONSUMED_INVITATIONS"
    and new: "filter (is_peer ax remote) (az_enrollments st) = []" "ic_nonce cl \<notin> ci_nonce ` set (az_consumed_invitations st)"
    and cl: "invitation_claims_validate c cl = Inr ()" "grants_contains (ic_grants cl) GRANT_VIEW"
    and h: "h \<notin> en_handle ` set (az_enrollments st)" "handle_ok h"
  shows "state_ok ax host (enroll ax remote now cl r h st)"
proof -
  note gr = next_revision_grows [OF r]
  have parse: "ax_parse ax (ax_show ax remote) = Some remote" using x by (simp add: externals_ok_def)
  have claims: "grants_ok (ic_grants cl)" "ic_nonce cl \<noteq> replicate 32 0"
    using cl(1) unfolding invitation_claims_validate_def grants_ok_def
    by (auto simp: bind_res_eq_Inr split: if_splits)
  let ?e = "\<lparr>en_peer_node_id = ax_show ax remote, en_handle = h, en_grants = ic_grants cl,
             en_enrolled_at_unix = now, en_authorization_revision = r\<rparr>"
  let ?c = "\<lparr>ci_nonce = ic_nonce cl, ci_expires_at_unix = ic_expires_at_unix cl\<rparr>"
  let ?st = "st\<lparr>az_enrollments := az_enrollments st @ [?e],
                az_consumed_invitations := az_consumed_invitations st @ [?c], az_committed_revision := r\<rparr>"
  have "enrollments_ok ax r (az_enrollments st)"
    using ok gr by (auto simp: state_ok_def intro: enrollments_ok_mono)
  then have "enrollments_ok ax r (az_enrollments st @ [?e])"
    using new(1) h claims(1) cl(2) gr by (auto simp: enrollments_ok_def enrollment_ok_def parse filter_is_peer_Nil)
  moreover have "consumed_ok (az_consumed_invitations st @ [?c])"
    using ok new(2) claims(2) by (auto simp: state_ok_def consumed_ok_def)
  moreover have "audits_ok r (az_security_audit st)"
    using ok gr by (auto simp: state_ok_def intro: audits_ok_mono)
  ultimately have "state_ok ax host ?st" using ok room gr by (simp add: state_ok_def)
  then show ?thesis
    unfolding enroll_def by (rule push_audit_ok) (use gr h claims in \<open>simp_all add: audit_ok_def\<close>)
qed

lemma redeem_Inr:
  assumes "redeem_invitation ax draws host remote token now st = Inr (st', v)"
  obtains si r h where "invitation_decode (ax_crypto ax) token = Inr si" "next_revision st = Inr r"
    "random_viewer_handle draws (az_enrollments st) = Inr h" "check_invitation host remote now st (si_claims si) = Inr ()"
    "filter (is_peer ax remote) (az_enrollments st) = []" "length (az_enrollments st) < MAX_ENROLLED_VIEWERS"
    "st' = enroll ax remote now (si_claims si) r h st"
    "v = \<lparr>av_handle = h, av_grants = ic_grants (si_claims si), av_authorization_revision = r, av_committed_revision = r\<rparr>"
  using assms unfolding redeem_invitation_def by (auto simp: bind_res_eq_Inr)

lemma check_invitation_iff:
  "check_invitation host remote now st cl = Inr () \<longleftrightarrow> ic_host_node_id cl = host \<and> ic_intended_peer_id cl = remote \<and>
     ic_enrollment_epoch cl = az_enrollment_epoch st \<and> ic_issued_at_unix cl \<le> saturating_add now INVITATION_CLOCK_SKEW_SECS \<and>
     now \<le> ic_expires_at_unix cl \<and> grants_contains (ic_grants cl) GRANT_VIEW \<and>
     ic_nonce cl \<notin> ci_nonce ` set (az_consumed_invitations st) \<and> length (az_consumed_invitations st) < MAX_CONSUMED_INVITATIONS"
  by (simp add: check_invitation_def)

lemma authorize_candidate_ok:
  assumes ok: "state_ok ax host st" and x: "externals_ok ax"
    and a: "authorize_candidate ax draws host remote token now st = Inr (st', changed, v)"
  shows "state_ok ax host st'"
proof -
  obtain p ch where p: "prune_expired now st = (p, ch)" by (metis prod.exhaust)
  have pok: "state_ok ax host p" using prune_expired_ok [OF ok, of now] by (simp add: p)
  show ?thesis
  proof (cases token)
    case None
    then show ?thesis using a pok by (auto simp: authorize_candidate_def p bind_res_eq_Inr)
  next
    case (Some t)
    then have "redeem_invitation ax draws host remote t now p = Inr (st', v)"
      using a by (auto simp: authorize_candidate_def p bind_res_eq_Inr)
    then show ?thesis
    proof (rule redeem_Inr)
      fix si r h
      assume s: "invitation_decode (ax_crypto ax) t = Inr si" "next_revision p = Inr r"
        "random_viewer_handle draws (az_enrollments p) = Inr h" "check_invitation host remote now p (si_claims si) = Inr ()"
        "filter (is_peer ax remote) (az_enrollments p) = []" "length (az_enrollments p) < MAX_ENROLLED_VIEWERS"
        "st' = enroll ax remote now (si_claims si) r h p"
      note c = s(4) [unfolded check_invitation_iff]
      show "state_ok ax host st'"
        unfolding s(7) using c random_viewer_handle_fresh [OF s(3)]
        by (intro enroll_ok [OF pok x s(2,6) _ s(5) _ decoded_claims_valid [OF s(1)]]) auto
    qed
  qed
qed

lemma revoke_candidate_Inr:
  assumes "revoke_candidate handle now st = Inr (st', e, r)"
  obtains i where "index_of_handle handle (az_enrollments st) = Some i" "e = az_enrollments st ! i"
    "next_revision st = Inr r"
    "st' = push_audit \<lparr>au_revision = r, au_occurred_at_unix = now, au_action = SA_Revoked, au_handle = en_handle e,
        au_previous_grants = Some (en_grants e), au_current_grants = None\<rparr>
      (fst (prune_expired now (st\<lparr>az_enrollments := remove_nth i (az_enrollments st), az_committed_revision := r\<rparr>)))"
  using assms unfolding revoke_candidate_def Let_def next_revision_def by (auto simp: bind_res_eq_Inr split: option.splits)

lemma enrollment_grants_ok: "state_ok ax host st \<Longrightarrow> e \<in> set (az_enrollments st) \<Longrightarrow> grants_ok (en_grants e) \<and> handle_ok (en_handle e)"
  by (auto simp: state_ok_def enrollments_ok_def enrollment_ok_def)

lemma revoke_candidate_ok:
  assumes ok: "state_ok ax host st" and v: "revoke_candidate handle now st = Inr (st', e, r)"
  shows "state_ok ax host st'"
  using v
proof (rule revoke_candidate_Inr)
  fix i
  assume i: "index_of_handle handle (az_enrollments st) = Some i" "e = az_enrollments st ! i" "next_revision st = Inr r"
    "st' = push_audit \<lparr>au_revision = r, au_occurred_at_unix = now, au_action = SA_Revoked, au_handle = en_handle e,
        au_previous_grants = Some (en_grants e), au_current_grants = None\<rparr>
      (fst (prune_expired now (st\<lparr>az_enrollments := remove_nth i (az_enrollments st), az_committed_revision := r\<rparr>)))"
  note l = index_of_handle_Some [OF i(1)] and gr = next_revision_grows [OF i(3)]
  have "state_ok ax host (st\<lparr>az_committed_revision := r\<rparr>)" using ok gr by (intro state_ok_bump) auto
  moreover have "enrollments_ok ax r (remove_nth i (az_enrollments st))"
    using ok gr by (intro enrollments_ok_remove) (auto simp: state_ok_def intro: enrollments_ok_mono)
  moreover have "length (remove_nth i (az_enrollments st)) \<le> length (az_enrollments st)" using l by (simp add: length_remove_nth)
  ultimately have "state_ok ax host (st\<lparr>az_enrollments := remove_nth i (az_enrollments st), az_committed_revision := r\<rparr>)"
    by (auto simp: state_ok_def)
  then show "state_ok ax host st'"
    unfolding i(4) using enrollment_grants_ok [OF ok, of e] l gr
    by (intro push_audit_ok prune_expired_ok) (auto simp: audit_ok_def i(2))
qed


lemma replace_candidate_Inr:
  assumes "replace_candidate handle g now st = Inr (st', e, r)"
  obtains i where "index_of_handle handle (az_enrollments st) = Some i" "e = az_enrollments st ! i"
    "next_revision st = Inr r" "g \<noteq> Some (en_grants e)"
    "st' = push_audit \<lparr>au_revision = r, au_occurred_at_unix = now,
        au_action = (if g \<noteq> None then SA_GrantsReplaced else SA_Revoked), au_handle = en_handle e,
        au_previous_grants = Some (en_grants e), au_current_grants = g\<rparr>
      (fst (prune_expired now (st\<lparr>az_enrollments := (case g of
          Some g \<Rightarrow> (az_enrollments st)[i := e\<lparr>en_grants := g, en_authorization_revision := r\<rparr>]
        | None \<Rightarrow> remove_nth i (az_enrollments st)), az_committed_revision := r\<rparr>)))"
  using assms unfolding replace_candidate_def Let_def by (auto simp: bind_res_eq_Inr split: option.splits)

lemma replace_candidate_ok:
  assumes ok: "state_ok ax host st" and v: "replace_candidate handle g now st = Inr (st', e, r)"
    and g: "\<And>x. g = Some x \<Longrightarrow> grants_ok x \<and> grants_contains x GRANT_VIEW"
  shows "state_ok ax host st'"
  using v
proof (rule replace_candidate_Inr)
  fix i
  let ?es = "case g of Some g \<Rightarrow> (az_enrollments st)[i := e\<lparr>en_grants := g, en_authorization_revision := r\<rparr>]
        | None \<Rightarrow> remove_nth i (az_enrollments st)"
  assume i: "index_of_handle handle (az_enrollments st) = Some i" "e = az_enrollments st ! i" "next_revision st = Inr r"
    "st' = push_audit \<lparr>au_revision = r, au_occurred_at_unix = now,
        au_action = (if g \<noteq> None then SA_GrantsReplaced else SA_Revoked), au_handle = en_handle e,
        au_previous_grants = Some (en_grants e), au_current_grants = g\<rparr>
      (fst (prune_expired now (st\<lparr>az_enrollments := ?es, az_committed_revision := r\<rparr>)))"
  note l = index_of_handle_Some [OF i(1)] and gr = next_revision_grows [OF i(3)]
  have mono: "enrollments_ok ax r (az_enrollments st)"
    using ok gr by (auto simp: state_ok_def intro: enrollments_ok_mono)
  have es: "enrollments_ok ax r ?es \<and> length ?es \<le> length (az_enrollments st)"
  proof (cases g)
    case None
    then show ?thesis using mono l by (simp add: enrollments_ok_remove length_remove_nth)
  next
    case (Some x)
    have "enrollment_ok ax r e" using mono l by (simp add: i(2) enrollments_ok_def)
    then have "enrollment_ok ax r (e\<lparr>en_grants := x, en_authorization_revision := r\<rparr>)"
      using g [OF Some] gr by (simp add: enrollment_ok_def)
    then show ?thesis
      using enrollments_ok_update [OF mono, of i "e\<lparr>en_grants := x, en_authorization_revision := r\<rparr>"] l
      by (simp add: Some i(2))
  qed
  have "state_ok ax host (st\<lparr>az_committed_revision := r\<rparr>)" using ok gr by (intro state_ok_bump) auto
  with es have "state_ok ax host (st\<lparr>az_enrollments := ?es, az_committed_revision := r\<rparr>)"
    by (auto simp: state_ok_def)
  then show "state_ok ax host st'"
    unfolding i(4) using enrollment_grants_ok [OF ok, of e] l gr g
    by (intro push_audit_ok prune_expired_ok) (auto simp: audit_ok_def i(2))
qed

lemma audit_reset_ok:
  assumes "state_ok ax host st" "az_committed_revision st = r" "\<forall>e \<in> set es. grants_ok (en_grants e) \<and> handle_ok (en_handle e)"
  shows "state_ok ax host (audit_reset r now es st)"
  using assms
proof (induction es arbitrary: st)
  case (Cons e es)
  have "r \<noteq> 0" using Cons.prems(1,2) by (auto simp: state_ok_def)
  then have "state_ok ax host (push_audit \<lparr>au_revision = r, au_occurred_at_unix = now, au_action = SA_ResetAll,
       au_handle = en_handle e, au_previous_grants = Some (en_grants e), au_current_grants = None\<rparr> st)"
    using Cons.prems by (intro push_audit_ok) (auto simp: audit_ok_def)
  then show ?case using Cons by simp
qed simp

lemma audit_reset_frame [simp]:
  "az_enrollments (audit_reset r now es st) = az_enrollments st"
  "az_committed_revision (audit_reset r now es st) = az_committed_revision st"
  "az_enrollment_epoch (audit_reset r now es st) = az_enrollment_epoch st"
  "az_consumed_invitations (audit_reset r now es st) = az_consumed_invitations st"
  by (induction es arbitrary: st) simp_all

lemma reset_candidate_Inr:
  assumes "reset_candidate now st = Inr st'"
  obtains epoch r where "checked_add (az_enrollment_epoch st) 1 = Some epoch" "next_revision st = Inr r"
    "st' = audit_reset r now (az_enrollments st)
      ((fst (prune_expired now (st\<lparr>az_enrollments := [], az_enrollment_epoch := epoch\<rparr>)))\<lparr>az_committed_revision := r\<rparr>)"
  using assms unfolding reset_candidate_def Let_def next_revision_def by (auto split: option.splits)

lemma reset_candidate_ok:
  assumes ok: "state_ok ax host st" and v: "reset_candidate now st = Inr st'"
  shows "state_ok ax host st'"
  using v
proof (rule reset_candidate_Inr)
  fix epoch r
  assume i: "checked_add (az_enrollment_epoch st) 1 = Some epoch" "next_revision st = Inr r"
    "st' = audit_reset r now (az_enrollments st)
      ((fst (prune_expired now (st\<lparr>az_enrollments := [], az_enrollment_epoch := epoch\<rparr>)))\<lparr>az_committed_revision := r\<rparr>)"
  note gr = next_revision_grows [OF i(2)]
  have "state_ok ax host (st\<lparr>az_enrollments := [], az_enrollment_epoch := epoch\<rparr>)"
    using ok checked_add_1_less [OF i(1)] by (simp add: state_ok_def enrollments_ok_def)
  from prune_expired_ok [OF this, of now]
  have "state_ok ax host ((fst (prune_expired now (st\<lparr>az_enrollments := [], az_enrollment_epoch := epoch\<rparr>)))\<lparr>az_committed_revision := r\<rparr>)"
    using gr by (intro state_ok_bump) auto
  then show "state_ok ax host st'"
    unfolding i(3) using enrollment_grants_ok [OF ok] by (intro audit_reset_ok) auto
qed

end
