(* ===== verification/Authorization_Runs.thy ===== *)
theory Authorization_Runs
  imports Authorization_Invariant
begin

text \<open>
  Whole histories of the authorization store: requests, administration, failed writes and restarts
  of the process. A restart reads the document back from disk; what every candidate keeps and the
  disk knows therefore survives it.
\<close>

section \<open>Histories\<close>

datatype store_event =
    SE_Authorize "u64 option list" write_fault endpoint_id "string option" u64
  | SE_Reset write_fault u64
  | SE_Revoke write_fault string u64
  | SE_Replace write_fault string "invitation_grants option" u64
  | SE_Restart "u64 option list" write_fault bool

datatype store_outcome =
    SO_Authorized "authorized_viewer host"
  | SO_Reset "revocation_outcome host"
  | SO_Mutation "authorization_mutation host"
  | SO_Started "unit host"
  | SO_Down

text \<open>The process either serves with an open store or has stopped and left its directory.\<close>

datatype process = Serving authorization_store | Stopped state_directory

fun process_directory :: "process \<Rightarrow> state_directory" where
  "process_directory (Serving s) = ss_directory s"
| "process_directory (Stopped sd) = sd"

fun store_step :: "externals \<Rightarrow> endpoint_id \<Rightarrow> store_event \<Rightarrow> process \<Rightarrow> process \<times> store_outcome" where
  "store_step ax host (SE_Restart draws fault lock_free) p =
     (case store_open ax draws fault lock_free host (process_directory p) of
        (sd, Inr s) \<Rightarrow> (Serving s, SO_Started (Inr ())) | (sd, Inl e) \<Rightarrow> (Stopped sd, SO_Started (Inl e)))"
| "store_step ax host (SE_Authorize draws fault remote token now) (Serving s) =
     map_prod Serving SO_Authorized (store_authorize ax draws fault remote token now s)"
| "store_step ax host (SE_Reset fault now) (Serving s) = map_prod Serving SO_Reset (store_reset ax fault now s)"
| "store_step ax host (SE_Revoke fault handle now) (Serving s) =
     map_prod Serving SO_Mutation (store_revoke ax fault handle now s)"
| "store_step ax host (SE_Replace fault handle grants now) (Serving s) =
     map_prod Serving SO_Mutation (store_replace ax fault handle grants now s)"
| "store_step ax host e (Stopped sd) = (Stopped sd, SO_Down)"

fun store_run :: "externals \<Rightarrow> endpoint_id \<Rightarrow> store_event list \<Rightarrow> process \<Rightarrow> (store_event \<times> store_outcome) list \<times> process" where
  "store_run ax host [] p = ([], p)"
| "store_run ax host (e # es) p =
     (case store_step ax host e p of (p', r) \<Rightarrow> (case store_run ax host es p' of (rs, q) \<Rightarrow> ((e, r) # rs, q)))"

lemma store_run_append:
  "store_run ax host (es @ fs) p =
     (case store_run ax host es p of (rs, q) \<Rightarrow> (case store_run ax host fs q of (ss, t) \<Rightarrow> (rs @ ss, t)))"
  by (induction es arbitrary: p) (simp_all split: prod.splits)

fun event_time :: "store_event \<Rightarrow> u64 option" where
  "event_time (SE_Authorize draws fault remote token now) = Some now"
| "event_time (SE_Reset fault now) = Some now"
| "event_time (SE_Revoke fault handle now) = Some now"
| "event_time (SE_Replace fault handle grants now) = Some now"
| "event_time (SE_Restart draws fault lock_free) = None"

section \<open>The candidate of an event\<close>

definition view_grants :: "invitation_grants option \<Rightarrow> bool" where
  "view_grants g \<longleftrightarrow> (\<forall>x. g = Some x \<longrightarrow> grants_ok x \<and> grants_contains x GRANT_VIEW)"

fun event_candidate :: "externals \<Rightarrow> endpoint_id \<Rightarrow> store_event \<Rightarrow> authorization_state \<Rightarrow> authorization_state option" where
  "event_candidate ax host (SE_Authorize draws fault remote token now) st =
     (case authorize_candidate ax draws host remote token now st of Inr (st', changed, v) \<Rightarrow> Some st' | Inl e \<Rightarrow> None)"
| "event_candidate ax host (SE_Reset fault now) st = (case reset_candidate now st of Inr st' \<Rightarrow> Some st' | Inl e \<Rightarrow> None)"
| "event_candidate ax host (SE_Revoke fault handle now) st =
     (case revoke_candidate handle now st of Inr (st', e, r) \<Rightarrow> Some st' | Inl e \<Rightarrow> None)"
| "event_candidate ax host (SE_Replace fault handle grants now) st =
     (if view_grants grants
      then case replace_candidate handle grants now st of Inr (st', e, r) \<Rightarrow> Some st' | Inl e \<Rightarrow> None else None)"
| "event_candidate ax host (SE_Restart draws fault lock_free) st = None"

lemma event_candidate_ok:
  assumes "state_ok ax host st" "externals_ok ax" "event_candidate ax host e st = Some st'"
  shows "state_ok ax host st'"
  using assms authorize_candidate_ok [OF assms(1,2)] revoke_candidate_ok [OF assms(1)] reset_candidate_ok [OF assms(1)]
    replace_candidate_ok [OF assms(1)]
  by (cases e) (auto simp: view_grants_def split: sum.splits prod.splits if_splits)

text \<open>The directory after a document was put in place.\<close>

definition saved_directory :: "externals \<Rightarrow> authorization_state \<Rightarrow> state_directory \<Rightarrow> state_directory" where
  "saved_directory ax st sd = sd\<lparr>sd_state := Opened \<lparr>sf_regular = True, sf_mode = 384, sf_owner = ax_euid ax,
     sf_bytes = ax_document ax st @ [10]\<rparr>\<rparr>"

lemma write_state_cases:
  assumes "write_state ax fault host st sd = (sd', r)"
  shows "sd' = sd \<and> (\<exists>e. r = Inl e) \<or> sd' = saved_directory ax st sd \<and> state_validate ax host st = Inr ()"
proof (cases "state_validate ax host st")
  case (Inl e)
  then have "(sd', r) = (sd, Inl e)" using assms by (simp add: write_state_def)
  then show ?thesis by simp
next
  case (Inr u)
  then show ?thesis
    using assms by (cases fault) (auto simp: write_state_def saved_directory_def Let_def split: if_splits)
qed

lemma store_commit_cases:
  assumes "store_commit ax fault st store = (store', r)"
  shows "r = Inr () \<and> store' = store\<lparr>ss_directory := saved_directory ax st (ss_directory store), ss_memory := st\<rparr> \<or>
    (\<exists>e. r = Inl e \<and> (store' = store \<or> store' = store\<lparr>ss_directory := saved_directory ax st (ss_directory store)\<rparr>))"
proof -
  obtain sd q where w: "write_state ax fault (ss_host store) st (ss_directory store) = (sd, q)" by (metis prod.exhaust)
  show ?thesis using write_state_cases [OF w] assms by (cases q) (auto simp: store_commit_def w)
qed

text \<open>
  An event on an open store either leaves it, or commits its candidate: then memory and disk both
  hold the candidate, or the write failed and memory is as before.
\<close>

definition commit_effect :: "externals \<Rightarrow> authorization_store \<Rightarrow> authorization_state option \<Rightarrow> authorization_store \<Rightarrow> bool \<Rightarrow> bool" where
  "commit_effect ax s cand s' succeeded \<longleftrightarrow>
     s' = s \<or>
     (\<exists>st. cand = Some st \<and>
        (s' = s\<lparr>ss_directory := saved_directory ax st (ss_directory s), ss_memory := st\<rparr> \<and> succeeded \<or>
         s' = s\<lparr>ss_directory := saved_directory ax st (ss_directory s)\<rparr> \<and> \<not> succeeded))"

fun outcome_ok :: "store_outcome \<Rightarrow> bool" where
  "outcome_ok (SO_Authorized r) = is_ok r"
| "outcome_ok (SO_Reset r) = is_ok r"
| "outcome_ok (SO_Mutation r) = is_ok r"
| "outcome_ok (SO_Started r) = is_ok r"
| "outcome_ok SO_Down = False"


lemma commit_effectI:
  assumes "store_commit ax fault st s = (s', r)" "cand = Some st" "b \<longleftrightarrow> is_ok r"
  shows "commit_effect ax s cand s' b"
  using store_commit_cases [OF assms(1)] assms(2,3) by (auto simp: commit_effect_def)

lemma committed:
  assumes "op = bind_op (store_commit ax fault st s) (\<lambda>s _. (s, Inr (f s)))" "op = (s', r)" "store_commit ax fault st s = (s1, q)"
  shows "s' = s1" "is_ok r = is_ok q"
  using assms by (cases q; auto)+

lemma authorize_effect:
  assumes "store_authorize ax draws fault remote token now s = (s', r)" "state_validate ax (ss_host s) (ss_memory s) = Inr ()"
  shows "commit_effect ax s (event_candidate ax (ss_host s) (SE_Authorize draws fault remote token now) (ss_memory s)) s' (is_ok r)"
proof (cases "authorize_candidate ax draws (ss_host s) remote token now (ss_memory s)")
  case (Inl e)
  then show ?thesis using assms by (simp add: store_authorize_def commit_effect_def)
next
  case (Inr c)
  obtain st' changed v where c: "c = (st', changed, v)" by (metis prod.exhaust)
  obtain s1 q where q: "store_commit ax fault st' s = (s1, q)" by (metis prod.exhaust)
  show ?thesis
  proof (cases changed)
    case False
    then show ?thesis using assms Inr by (simp add: store_authorize_def commit_effect_def c)
  next
    case True
    have "store_authorize ax draws fault remote token now s = bind_op (store_commit ax fault st' s) (\<lambda>s _. (s, Inr v))"
      by (simp add: store_authorize_def assms(2) Inr c True)
    then have "s' = s1" "is_ok r = is_ok q" by (rule committed [OF _ assms(1) q])+
    then show ?thesis using commit_effectI [OF q] Inr by (simp add: c)
  qed
qed

lemma reset_effect:
  assumes "store_reset ax fault now s = (s', r)" "state_validate ax (ss_host s) (ss_memory s) = Inr ()"
  shows "commit_effect ax s (event_candidate ax (ss_host s) (SE_Reset fault now) (ss_memory s)) s' (is_ok r)"
proof (cases "reset_candidate now (ss_memory s)")
  case (Inl e)
  then show ?thesis using assms by (simp add: store_reset_def commit_effect_def)
next
  case (Inr st')
  obtain s1 q where q: "store_commit ax fault st' s = (s1, q)" by (metis prod.exhaust)
  have "store_reset ax fault now s = bind_op (store_commit ax fault st' s) (\<lambda>s1 _.
      (s1, Inr \<lparr>ro_had_enrollment = (az_enrollments (ss_memory s) \<noteq> []), ro_previous_epoch = az_enrollment_epoch (ss_memory s),
        ro_current_epoch = az_enrollment_epoch (ss_memory s1)\<rparr>))"
    by (simp add: store_reset_def assms(2) Inr Let_def)
  then have "s' = s1" "is_ok r = is_ok q" by (rule committed [OF _ assms(1) q])+
  then show ?thesis using commit_effectI [OF q] Inr by simp
qed

lemma mutation_of_Inr:
  assumes "state_ok ax host st" "e \<in> set (az_enrollments st)"
  obtains p where "ax_parse ax (en_peer_node_id e) = Some p" "mutation_of ax e g r = Inr \<lparr>am_handle = en_handle e, am_peer = p,
    am_previous_grants = en_grants e, am_current_grants = g, am_authorization_revision = r, am_committed_revision = r\<rparr>"
proof -
  obtain p where "ax_parse ax (en_peer_node_id e) = Some p"
    using assms by (auto simp: state_ok_def enrollments_ok_def enrollment_ok_def)
  then show thesis by (rule that) (simp add: mutation_of_def \<open>ax_parse ax (en_peer_node_id e) = Some p\<close>)
qed

lemma revoke_effect:
  assumes "store_revoke ax fault handle now s = (s', r)" "state_validate ax (ss_host s) (ss_memory s) = Inr ()"
  shows "commit_effect ax s (event_candidate ax (ss_host s) (SE_Revoke fault handle now) (ss_memory s)) s' (is_ok r)"
proof (cases "validate_viewer_handle handle = Inr () \<and> is_ok (revoke_candidate handle now (ss_memory s))")
  case False
  then have "s' = s"
    using assms by (cases "validate_viewer_handle handle"; cases "revoke_candidate handle now (ss_memory s)")
      (simp_all add: store_revoke_def)
  then show ?thesis by (simp add: commit_effect_def)
next
  case True
  then obtain st' e rev where c: "revoke_candidate handle now (ss_memory s) = Inr (st', e, rev)"
    by (metis is_ok_iff prod.exhaust)
  have "e \<in> set (az_enrollments (ss_memory s))"
    using revoke_candidate_Inr [OF c] index_of_handle_Some nth_mem by metis
  then obtain p where m: "mutation_of ax e None rev = Inr p"
    using mutation_of_Inr assms(2) unfolding state_validate_iff by metis
  obtain s1 q where q: "store_commit ax fault st' s = (s1, q)" by (metis prod.exhaust)
  have "store_revoke ax fault handle now s = bind_op (store_commit ax fault st' s) (\<lambda>s _. (s, Inr p))"
    by (simp add: store_revoke_def assms(2) c True m)
  then have "s' = s1" "is_ok r = is_ok q" by (rule committed [OF _ assms(1) q])+
  then show ?thesis using commit_effectI [OF q] c by simp
qed

lemma replace_effect:
  assumes "store_replace ax fault handle g now s = (s', r)" "state_validate ax (ss_host s) (ss_memory s) = Inr ()"
  shows "commit_effect ax s (event_candidate ax (ss_host s) (SE_Replace fault handle g now) (ss_memory s)) s' (is_ok r)"
proof -
  let ?check = "case g of None \<Rightarrow> Inr () | Some g \<Rightarrow> bind_res (lift_proto (grants_validate g)) (\<lambda>_.
             ensure_that (grants_contains g GRANT_VIEW) (Host ''a persisted viewer grant must include view permission''))"
  have vg: "view_grants g \<longleftrightarrow> ?check = Inr ()"
    by (cases g) (auto simp: view_grants_def grants_ok_def bind_res_eq_Inr)
  show ?thesis
  proof (cases "validate_viewer_handle handle = Inr () \<and> view_grants g \<and> is_ok (replace_candidate handle g now (ss_memory s))")
    case False
    have "s' = s"
    proof (cases "validate_viewer_handle handle")
      case (Inl e)
      then show ?thesis using assms by (simp add: store_replace_def)
    next
      case (Inr u)
      then show ?thesis using assms False vg
        by (cases ?check; cases "replace_candidate handle g now (ss_memory s)") (simp_all add: store_replace_def)
    qed
    then show ?thesis by (simp add: commit_effect_def)
  next
    case True
    then obtain st' e rev where c: "replace_candidate handle g now (ss_memory s) = Inr (st', e, rev)"
      by (metis is_ok_iff prod.exhaust)
    have "e \<in> set (az_enrollments (ss_memory s))"
      using replace_candidate_Inr [OF c] index_of_handle_Some nth_mem by metis
    then obtain p where m: "mutation_of ax e g rev = Inr p"
      using mutation_of_Inr assms(2) unfolding state_validate_iff by metis
    obtain s1 q where q: "store_commit ax fault st' s = (s1, q)" by (metis prod.exhaust)
    have "validate_viewer_handle handle = Inr ()" "?check = Inr ()" using True vg by simp_all
    then have "store_replace ax fault handle g now s = bind_op (store_commit ax fault st' s) (\<lambda>s _. (s, Inr p))"
      unfolding store_replace_def by (simp add: assms(2) c m)
    then have "s' = s1" "is_ok r = is_ok q" by (rule committed [OF _ assms(1) q])+
    then show ?thesis using commit_effectI [OF q] c True by simp
  qed
qed


section \<open>What every reachable process satisfies\<close>

definition directory_healthy :: "externals \<Rightarrow> state_directory \<Rightarrow> bool" where
  "directory_healthy ax sd \<longleftrightarrow> sd_kind sd \<noteq> Dir_Missing \<and> validate_directory ax (sd_kind sd) = Inr () \<and>
     (\<exists>f. sd_lock sd = Opened f \<and> validate_secure_file ax f = Inr ())"

fun process_ok :: "externals \<Rightarrow> endpoint_id \<Rightarrow> process \<Rightarrow> bool" where
  "process_ok ax host (Serving s) \<longleftrightarrow> ss_host s = host \<and> state_ok ax host (ss_memory s) \<and> directory_healthy ax (ss_directory s)"
| "process_ok ax host (Stopped sd) \<longleftrightarrow> True"

text \<open>A fact \<open>Q\<close> about documents that both memory and disk know.\<close>

definition disk_holds :: "externals \<Rightarrow> (authorization_state \<Rightarrow> bool) \<Rightarrow> state_directory \<Rightarrow> bool" where
  "disk_holds ax Q sd \<longleftrightarrow> (\<exists>f st. sd_state sd = Opened f \<and> ax_read ax (sf_bytes f) = Some st \<and> Q st)"

fun process_holds :: "externals \<Rightarrow> (authorization_state \<Rightarrow> bool) \<Rightarrow> process \<Rightarrow> bool" where
  "process_holds ax Q (Serving s) \<longleftrightarrow> Q (ss_memory s) \<and> disk_holds ax Q (ss_directory s)"
| "process_holds ax Q (Stopped sd) \<longleftrightarrow> disk_holds ax Q sd"

lemma process_holds_mono: "process_holds ax Q p \<Longrightarrow> (\<And>st. Q st \<Longrightarrow> R st) \<Longrightarrow> process_holds ax R p"
  by (cases p) (auto simp: disk_holds_def)

lemma process_holds_directory: "process_holds ax Q p \<Longrightarrow> disk_holds ax Q (process_directory p)"
  by (cases p) simp_all

lemma saved_directory_simps [simp]:
  "sd_kind (saved_directory ax st sd) = sd_kind sd" "sd_lock (saved_directory ax st sd) = sd_lock sd"
  "sd_legacy (saved_directory ax st sd) = sd_legacy sd"
  "directory_healthy ax (saved_directory ax st sd) = directory_healthy ax sd"
  "externals_ok ax \<Longrightarrow> disk_holds ax Q (saved_directory ax st sd) = Q st"
  by (simp_all add: saved_directory_def directory_healthy_def disk_holds_def externals_ok_def)

lemma write_state_frame:
  "write_state ax fault host st sd = (sd', r) \<Longrightarrow> sd_kind sd' = sd_kind sd \<and> sd_lock sd' = sd_lock sd"
  using write_state_cases [of ax fault host st sd sd' r] by auto

lemma remove_legacy_frame:
  "remove_legacy_state ax sd = (sd', r) \<Longrightarrow> sd_kind sd' = sd_kind sd \<and> sd_lock sd' = sd_lock sd \<and> sd_state sd' = sd_state sd"
  by (auto simp: remove_legacy_state_def split: dir_entry.splits if_splits)

text \<open>Opening, step by step; \<open>open_prepared\<close> is the directory with its lock.\<close>

lemma bind_op_Inr_cases:
  "bind_op m f = (s', Inr y) \<Longrightarrow> (\<exists>s x. m = (s, Inr x) \<and> f s x = (s', Inr y))"
  by (cases m; cases "snd m") (auto simp: bind_op_def)

lemma ensure_state_directory_Inr:
  "ensure_state_directory ax sd = (sd', Inr ()) \<Longrightarrow>
     sd_state sd' = sd_state sd \<and> sd_legacy sd' = sd_legacy sd \<and> sd_lock sd' = sd_lock sd \<and>
     sd_kind sd' \<noteq> Dir_Missing \<and> validate_directory ax (sd_kind sd') = Inr ()"
  by (auto simp: ensure_state_directory_def validate_directory_def private_mode_def split: if_splits)

lemma open_lock_Inr:
  "open_lock ax sd = (sd', Inr ()) \<Longrightarrow>
     sd_state sd' = sd_state sd \<and> sd_legacy sd' = sd_legacy sd \<and> sd_kind sd' = sd_kind sd \<and>
     (\<exists>f. sd_lock sd' = Opened f \<and> validate_secure_file ax f = Inr ())"
  by (auto simp: open_lock_def validate_secure_file_def private_mode_def split: dir_entry.splits)

lemma finish_open_Inr:
  assumes "finish_open ax fault host st m sd = (sd', Inr s)"
  shows "s = \<lparr>ss_host = host, ss_memory = st, ss_directory = sd'\<rparr> \<and> state_ok ax host st \<and>
    sd_kind sd' = sd_kind sd \<and> sd_lock sd' = sd_lock sd \<and> (\<not> m \<longrightarrow> sd_state sd' = sd_state sd)"
proof (cases "state_validate ax host st")
  case (Inl e)
  then show ?thesis using assms by (simp add: finish_open_def)
next
  case (Inr u)
  then have ok: "state_ok ax host st" by (simp add: state_validate_iff)
  show ?thesis
  proof (cases m)
    case False
    then show ?thesis using assms Inr ok by (auto simp: finish_open_def)
  next
    case True
    obtain sd1 r1 where w: "write_state ax fault host st sd = (sd1, r1)" by (metis prod.exhaust)
    obtain sd2 r2 where l: "remove_legacy_state ax sd1 = (sd2, r2)" by (metis prod.exhaust)
    show ?thesis
      using assms Inr ok True write_state_frame [OF w] remove_legacy_frame [OF l]
      by (cases r1; cases r2) (simp_all add: finish_open_def w l)
  qed
qed

lemma store_open_Inr:
  assumes "store_open ax draws fault lock_free host sd = (sd', Inr s)"
  shows "ss_host s = host \<and> ss_directory s = sd' \<and> state_ok ax host (ss_memory s) \<and> directory_healthy ax sd' \<and>
    (\<exists>migrated. load_state ax draws host sd = Inr (ss_memory s, migrated) \<and> (\<not> migrated \<longrightarrow> sd_state sd' = sd_state sd))"
proof -
  obtain sd1 r1 where 1: "ensure_state_directory ax sd = (sd1, r1)" by (metis prod.exhaust)
  obtain sd2 r2 where 2: "open_lock ax sd1 = (sd2, r2)" by (metis prod.exhaust)
  have ok: "r1 = Inr ()" "r2 = Inr ()" lock_free
    using assms by (cases r1; cases r2; simp add: store_open_def 1 2 ensure_that_def split: if_splits)+
  obtain st m where 3: "load_state ax draws host sd2 = Inr (st, m)"
    using assms ok by (cases "load_state ax draws host sd2") (auto simp: store_open_def 1 2)
  have "finish_open ax fault host st m sd2 = (sd', Inr s)" using assms ok 3 by (simp add: store_open_def 1 2)
  note f = finish_open_Inr [OF this]
  note e1 = ensure_state_directory_Inr [OF 1 [unfolded ok(1)]] and e2 = open_lock_Inr [OF 2 [unfolded ok(2)]]
  have "sd_state sd2 = sd_state sd" "sd_legacy sd2 = sd_legacy sd" using e1 e2 by simp_all
  then have "load_state ax draws host sd2 = load_state ax draws host sd" by (simp only: load_state_def load_existing_def)
  with 3 have l: "load_state ax draws host sd = Inr (st, m)" by simp
  have "directory_healthy ax sd'" using f e1 e2 by (auto simp: directory_healthy_def)
  then show ?thesis using l f e1 e2 by simp
qed

lemma store_open_holds:
  assumes o: "store_open ax draws fault lock_free host sd = (sd', Inr s)" and q: "disk_holds ax Q sd"
  shows "Q (ss_memory s) \<and> disk_holds ax Q sd'"
proof -
  obtain f st where f: "sd_state sd = Opened f" "ax_read ax (sf_bytes f) = Some st" "Q st"
    using q by (auto simp: disk_holds_def)
  have l: "load_state ax draws host sd = Inr (st', m) \<Longrightarrow> st' = st \<and> \<not> m" for st' m
    using f(1,2) by (auto simp: load_state_def load_existing_def read_document_def bind_res_eq_Inr split: option.splits)
  from store_open_Inr [OF o] l show ?thesis using f by (auto simp: disk_holds_def)
qed

lemma store_open_directory_holds:
  assumes o: "store_open ax draws fault lock_free host sd = (sd', Inl e)" and q: "disk_holds ax Q sd"
  shows "disk_holds ax Q sd'"
proof -
  obtain sd1 r1 where 1: "ensure_state_directory ax sd = (sd1, r1)" by (metis prod.exhaust)
  obtain sd2 r2 where 2: "open_lock ax sd1 = (sd2, r2)" by (metis prod.exhaust)
  have s: "sd_state sd1 = sd_state sd" "sd_state sd2 = sd_state sd1"
    using 1 2 by (auto simp: ensure_state_directory_def open_lock_def split: if_splits dir_entry.splits)
  obtain f st where f: "sd_state sd = Opened f" "ax_read ax (sf_bytes f) = Some st" "Q st"
    using q by (auto simp: disk_holds_def)
  have l: "load_state ax draws host sd2 = Inr (st', m) \<Longrightarrow> \<not> m" for st' m
    using f(1,2) s by (auto simp: load_state_def load_existing_def read_document_def bind_res_eq_Inr split: option.splits)
  have fin: "finish_open ax fault host st' False sd2 = (sd', Inl e) \<Longrightarrow> sd' = sd2" for st'
    by (cases "state_validate ax host st'") (simp_all add: finish_open_def)
  have "sd_state sd' = sd_state sd"
  proof (cases r1)
    case (Inl a)
    then show ?thesis using o s(1) by (simp add: store_open_def 1)
  next
    case r1: (Inr a)
    show ?thesis
    proof (cases r2)
      case (Inl b)
      then show ?thesis using o s r1 by (simp add: store_open_def 1 2)
    next
      case r2: (Inr b)
      show ?thesis
      proof (cases "lock_free \<and> is_ok (load_state ax draws host sd2)")
        case False
        then show ?thesis using o s r1 r2
          by (cases "load_state ax draws host sd2") (auto simp: store_open_def 1 2 ensure_that_def split: if_splits)
      next
        case True
        then obtain st' m where m: "load_state ax draws host sd2 = Inr (st', m)" by (metis is_ok_iff prod.exhaust)
        from fin [of st'] l [OF m] show ?thesis using o s r1 r2 True m by (simp add: store_open_def 1 2)
      qed
    qed
  qed
  then show ?thesis using q by (simp add: disk_holds_def)
qed


section \<open>Steps\<close>

lemma store_step_effect:
  assumes "store_step ax host e (Serving s) = (p', out)" "process_ok ax host (Serving s)" "\<nexists>d f l. e = SE_Restart d f l"
  obtains s' where "p' = Serving s'" "commit_effect ax s (event_candidate ax host e (ss_memory s)) s' (outcome_ok out)"
proof -
  have h: "ss_host s = host" "state_validate ax (ss_host s) (ss_memory s) = Inr ()"
    using assms(2) by (simp_all add: state_validate_iff)
  show thesis
  proof (cases e)
    case (SE_Authorize draws fault remote token now)
    obtain s' r where r: "store_authorize ax draws fault remote token now s = (s', r)" by (metis prod.exhaust)
    from authorize_effect [OF r h(2)] show thesis using assms(1) by (intro that) (auto simp: SE_Authorize r h(1))
  next
    case (SE_Reset fault now)
    obtain s' r where r: "store_reset ax fault now s = (s', r)" by (metis prod.exhaust)
    from reset_effect [OF r h(2)] show thesis using assms(1) by (intro that) (auto simp: SE_Reset r h(1))
  next
    case (SE_Revoke fault handle now)
    obtain s' r where r: "store_revoke ax fault handle now s = (s', r)" by (metis prod.exhaust)
    from revoke_effect [OF r h(2)] show thesis using assms(1) by (intro that) (auto simp: SE_Revoke r h(1))
  next
    case (SE_Replace fault handle g now)
    obtain s' r where r: "store_replace ax fault handle g now s = (s', r)" by (metis prod.exhaust)
    from replace_effect [OF r h(2)] show thesis using assms(1) by (intro that) (auto simp: SE_Replace r h(1))
  qed (use assms(3) in blast)
qed

lemma commit_effect_frame:
  "commit_effect ax s cand s' b \<Longrightarrow> ss_host s' = ss_host s \<and> directory_healthy ax (ss_directory s') = directory_healthy ax (ss_directory s)"
  by (auto simp: commit_effect_def)

lemma store_step_ok:
  assumes "externals_ok ax" "process_ok ax host p" "store_step ax host e p = (p', out)"
  shows "process_ok ax host p'"
proof (cases "\<exists>d f l. e = SE_Restart d f l")
  case True
  then obtain d f l where e: "e = SE_Restart d f l" by blast
  obtain sd r where o: "store_open ax d f l host (process_directory p) = (sd, r)" by (metis prod.exhaust)
  show ?thesis using assms(3) o store_open_Inr [of ax d f l host "process_directory p" sd] by (cases r) (auto simp: e)
next
  case False
  show ?thesis
  proof (cases p)
    case (Stopped sd)
    then show ?thesis using assms(3) False by (cases e) auto
  next
    case (Serving s)
    obtain s' where s: "p' = Serving s'" "commit_effect ax s (event_candidate ax host e (ss_memory s)) s' (outcome_ok out)"
      by (rule store_step_effect [OF assms(3) [unfolded Serving] assms(2) [unfolded Serving] False])
    have "state_ok ax host (ss_memory s')"
      using s(2) assms(2) event_candidate_ok [OF _ assms(1), of host "ss_memory s" e]
      by (auto simp: Serving commit_effect_def)
    then show ?thesis using commit_effect_frame [OF s(2)] assms(2) by (simp add: Serving s(1))
  qed
qed

text \<open>What an event's candidate keeps, the process keeps; an open or failed restart keeps the disk.\<close>

lemma store_step_holds:
  assumes x: "externals_ok ax" and ok: "process_ok ax host p" and s: "store_step ax host e p = (p', out)"
    and q: "process_holds ax Q p" and keep: "\<And>st st'. Q st \<Longrightarrow> event_candidate ax host e st = Some st' \<Longrightarrow> Q st'"
  shows "process_holds ax Q p'"
proof (cases "\<exists>d f l. e = SE_Restart d f l")
  case True
  then obtain d f l where e: "e = SE_Restart d f l" by blast
  obtain sd r where o: "store_open ax d f l host (process_directory p) = (sd, r)" by (metis prod.exhaust)
  note d = process_holds_directory [OF q]
  show ?thesis
  proof (cases r)
    case (Inl err)
    then show ?thesis using s o store_open_directory_holds [OF o [unfolded Inl] d] by (auto simp: e)
  next
    case (Inr s0)
    then show ?thesis using s o store_open_holds [OF o [unfolded Inr] d] store_open_Inr [OF o [unfolded Inr]] by (auto simp: e)
  qed
next
  case False
  show ?thesis
  proof (cases p)
    case (Stopped sd)
    then show ?thesis using s q False by (cases e) auto
  next
    case (Serving s0)
    obtain s' where s': "p' = Serving s'" "commit_effect ax s0 (event_candidate ax host e (ss_memory s0)) s' (outcome_ok out)"
      by (rule store_step_effect [OF s [unfolded Serving] ok [unfolded Serving] False])
    then show ?thesis
      using q keep [of "ss_memory s0"] x by (auto simp: Serving s'(1) commit_effect_def)
  qed
qed

text \<open>A successful event that has a candidate leaves it in memory and on disk, if it wrote.\<close>

lemma store_step_success:
  assumes "externals_ok ax" "process_ok ax host (Serving s)" "store_step ax host e (Serving s) = (Serving s', out)" "\<nexists>d f l. e = SE_Restart d f l"
    and "event_candidate ax host e (ss_memory s) = Some st" "outcome_ok out" "s' \<noteq> s"
  shows "ss_memory s' = st \<and> disk_holds ax (\<lambda>x. x = st) (ss_directory s')"
proof -
  obtain t where "Serving s' = Serving t" "commit_effect ax s (event_candidate ax host e (ss_memory s)) t (outcome_ok out)"
    by (rule store_step_effect [OF assms(3,2,4)])
  then show ?thesis using assms by (auto simp: commit_effect_def)
qed

end
