(* ===== verification/Authorization_Properties.thy ===== *)
theory Authorization_Properties
  imports Authorization_Runs Demo_Crypto
begin

text \<open>
  What the authorization store guarantees over whole histories: its document stays valid, an
  invitation enrolls at most once, a reset voids every earlier invitation, a revoked viewer stays
  out, every operation is a step of the abstract membership and is atomic and durable.
\<close>

section \<open>Cutting a history\<close>

lemma map_fst_store_run: "store_run ax host es p = (log, q) \<Longrightarrow> map fst log = es"
  by (induction es arbitrary: p log) (auto split: prod.splits)

lemma store_run_ok:
  assumes "externals_ok ax" "process_ok ax host p" "store_run ax host es p = (log, q)"
  shows "process_ok ax host q"
  using assms(2,3)
proof (induction es arbitrary: p log)
  case (Cons e es)
  obtain p' r where s: "store_step ax host e p = (p', r)" by (metis prod.exhaust)
  have "process_ok ax host p'" by (rule store_step_ok [OF assms(1) Cons.prems(1) s])
  then show ?case using Cons s by (auto split: prod.splits)
qed simp

lemma store_run_split:
  assumes "store_run ax host es p = (us @ (e, r) # ws, q)"
  obtains p1 p2 where "store_run ax host (map fst us) p = (us, p1)" "store_step ax host e p1 = (p2, r)"
    "store_run ax host (map fst ws) p2 = (ws, q)"
proof -
  have es: "es = map fst us @ e # map fst ws" using map_fst_store_run [OF assms] by simp
  obtain us' p1 where 1: "store_run ax host (map fst us) p = (us', p1)" by (metis prod.exhaust)
  obtain p2 r' where 2: "store_step ax host e p1 = (p2, r')" by (metis prod.exhaust)
  obtain ws' q' where 3: "store_run ax host (map fst ws) p2 = (ws', q')" by (metis prod.exhaust)
  have "length us' = length us" using map_fst_store_run [OF 1] by (metis length_map)
  then have "us' = us" "r' = r" "ws' = ws" "q' = q"
    using assms by (auto simp: es store_run_append 1 2 3)
  then show thesis using that 1 2 3 by simp
qed

lemma store_run_holds:
  assumes x: "externals_ok ax" and ok: "process_ok ax host p" and r: "store_run ax host es p = (log, q)"
    and h: "process_holds ax Q p"
    and keep: "\<And>e st st'. e \<in> set es \<Longrightarrow> Q st \<Longrightarrow> event_candidate ax host e st = Some st' \<Longrightarrow> Q st'"
  shows "process_holds ax Q q"
  using ok r h keep
proof (induction es arbitrary: p log)
  case (Cons e es)
  obtain p' o' where s: "store_step ax host e p = (p', o')" by (metis prod.exhaust)
  have h': "process_holds ax Q p'"
    by (rule store_step_holds [OF x Cons.prems(1) s Cons.prems(3)]) (use Cons.prems(4) in auto)
  obtain log' where l: "store_run ax host es p' = (log', q)" using Cons.prems(2) s by (auto split: prod.splits)
  show ?case
    by (rule Cons.IH [OF store_step_ok [OF x Cons.prems(1) s] l h']) (use Cons.prems(4) in auto)
qed simp

section \<open>Successful requests\<close>

lemma authorized_step:
  assumes ok: "process_ok ax host p" and s: "store_step ax host (SE_Authorize d f remote token now) p = (p', SO_Authorized (Inr v))"
  obtains st s' changed st' where "p = Serving st" "p' = Serving s'"
    "authorize_candidate ax d host remote token now (ss_memory st) = Inr (st', changed, v)"
    "changed \<Longrightarrow> ss_memory s' = st' \<and> ss_directory s' = saved_directory ax st' (ss_directory st)" "\<not> changed \<Longrightarrow> s' = st"
proof -
  obtain s where p: "p = Serving s" using s by (cases p) auto
  have h: "ss_host s = host" "state_validate ax (ss_host s) (ss_memory s) = Inr ()"
    using ok by (simp_all add: p state_validate_iff)
  obtain s' where s': "p' = Serving s'" "store_authorize ax d f remote token now s = (s', Inr v)"
    using s by (cases "store_authorize ax d f remote token now s") (auto simp: p)
  obtain st' changed w where c: "authorize_candidate ax d host remote token now (ss_memory s) = Inr (st', changed, w)"
    using s'(2) h by (cases "authorize_candidate ax d host remote token now (ss_memory s)") (auto simp: store_authorize_def)
  obtain s1 q where q: "store_commit ax f st' s = (s1, q)" by (metis prod.exhaust)
  have w: "w = v \<and> (changed \<longrightarrow> q = Inr () \<and> s' = s1) \<and> (\<not> changed \<longrightarrow> s' = s)"
    using s'(2) h(2) c by (cases q) (auto simp: store_authorize_def h(1) q split: if_splits)
  then have cand: "authorize_candidate ax d host remote token now (ss_memory s) = Inr (st', changed, v)" using c by simp
  show thesis
  proof (rule that [OF p s'(1) cand])
    assume changed
    then have "s' = s\<lparr>ss_directory := saved_directory ax st' (ss_directory s), ss_memory := st'\<rparr>"
      using w store_commit_cases [OF q] by auto
    then show "ss_memory s' = st' \<and> ss_directory s' = saved_directory ax st' (ss_directory s)" by simp
  qed (use w in blast)
qed

lemma redeemed_step:
  assumes ok: "process_ok ax host p" and x: "externals_ok ax"
    and s: "store_step ax host (SE_Authorize d f remote (Some token) now) p = (p', SO_Authorized (Inr v))"
  obtains st s' si r h where "p = Serving st" "p' = Serving s'" "invitation_decode (ax_crypto ax) token = Inr si"
    "check_invitation host remote now (fst (prune_expired now (ss_memory st))) (si_claims si) = Inr ()"
    "next_revision (ss_memory st) = Inr r" "random_viewer_handle d (az_enrollments (ss_memory st)) = Inr h"
    "filter (is_peer ax remote) (az_enrollments (ss_memory st)) = []"
    "ss_memory s' = enroll ax remote now (si_claims si) r h (fst (prune_expired now (ss_memory st)))"
    "disk_holds ax (\<lambda>x. x = ss_memory s') (ss_directory s')"
    "v = \<lparr>av_handle = h, av_grants = ic_grants (si_claims si), av_authorization_revision = r, av_committed_revision = r\<rparr>"
  using ok s
proof (rule authorized_step)
  fix st s' changed st'
  assume a: "p = Serving st" "p' = Serving s'"
    "authorize_candidate ax d host remote (Some token) now (ss_memory st) = Inr (st', changed, v)"
    "changed \<Longrightarrow> ss_memory s' = st' \<and> ss_directory s' = saved_directory ax st' (ss_directory st)" "\<not> changed \<Longrightarrow> s' = st"
  obtain pr ch where pr: "prune_expired now (ss_memory st) = (pr, ch)" by (metis prod.exhaust)
  have "changed" and r: "redeem_invitation ax d host remote token now pr = Inr (st', v)"
    using a(3) by (auto simp: authorize_candidate_def pr bind_res_eq_Inr)
  then have m: "ss_memory s' = st'" "disk_holds ax (\<lambda>x. x = st') (ss_directory s')"
    using a(4) x by (simp_all del: split_paired_Ex)
  have fr: "az_enrollments pr = az_enrollments (ss_memory st)" "az_committed_revision pr = az_committed_revision (ss_memory st)"
    using prune_expired_frame(1,2) [of now "ss_memory st"] by (simp_all add: pr)
  have nr: "next_revision pr = next_revision (ss_memory st)" by (simp add: next_revision_def fr)
  show thesis
    using r
  proof (rule redeem_Inr)
    fix si r h
    assume b: "invitation_decode (ax_crypto ax) token = Inr si" "next_revision pr = Inr r"
      "random_viewer_handle d (az_enrollments pr) = Inr h" "check_invitation host remote now pr (si_claims si) = Inr ()"
      "filter (is_peer ax remote) (az_enrollments pr) = []"
      "st' = enroll ax remote now (si_claims si) r h pr"
      "v = \<lparr>av_handle = h, av_grants = ic_grants (si_claims si), av_authorization_revision = r, av_committed_revision = r\<rparr>"
    show thesis
      by (rule that [OF a(1,2) b(1) _ b(2) [unfolded nr] b(3) [unfolded fr] b(5) [unfolded fr]])
        (use b m in \<open>simp_all add: pr\<close>)
  qed
qed


section \<open>Single use\<close>

text \<open>The ledger knows the invitation, or it has expired before \<open>time\<close>.\<close>

definition spent :: "invitation_claims \<Rightarrow> u64 \<Rightarrow> authorization_state \<Rightarrow> bool" where
  "spent cl time st \<longleftrightarrow> \<lparr>ci_nonce = ic_nonce cl, ci_expires_at_unix = ic_expires_at_unix cl\<rparr> \<in> set (az_consumed_invitations st) \<or>
     ic_expires_at_unix cl < time"

lemma saturating_add_ge: "(a :: u64) \<le> saturating_add a b"
proof (cases "unat a + unat b < 2 ^ 64")
  case True
  then have "unat (a + b) = unat a + unat b" by (simp add: unat_word_ariths)
  with True show ?thesis by (simp add: saturating_add_def word_le_nat_alt)
qed (simp add: saturating_add_def)

lemma spent_prune: "spent cl now st \<Longrightarrow> spent cl now (fst (prune_expired now st))"
  using saturating_add_ge [of "ic_expires_at_unix cl" INVITATION_CLOCK_SKEW_SECS]
  by (auto simp: spent_def prune_expired_def Let_def)

lemma spent_push [simp]: "spent cl now (push_audit a st) = spent cl now st"
  by (simp add: spent_def)

lemma spent_frame [simp]:
  "spent cl now (st\<lparr>az_enrollments := es\<rparr>) = spent cl now st"
  "spent cl now (st\<lparr>az_committed_revision := r\<rparr>) = spent cl now st"
  "spent cl now (st\<lparr>az_enrollment_epoch := epoch\<rparr>) = spent cl now st"
  "spent cl now (audit_reset r now' es st) = spent cl now st"
  by (simp_all add: spent_def)

lemma spent_mono: "spent cl a st \<Longrightarrow> a \<le> b \<Longrightarrow> spent cl b st"
  by (auto simp: spent_def)

lemma spent_candidate:
  assumes s: "spent cl now st" and t: "event_time e = Some now" and c: "event_candidate ax host e st = Some st'"
  shows "spent cl now st'"
proof (cases e)
  case (SE_Authorize d f remote token time)
  then obtain ch v where a: "authorize_candidate ax d host remote token now st = Inr (st', ch, v)"
    using t c by (auto split: sum.splits)
  obtain pr b where pr: "prune_expired now st = (pr, b)" by (metis prod.exhaust)
  have sp: "spent cl now pr" using spent_prune [OF s] by (simp add: pr)
  show ?thesis
  proof (cases token)
    case None
    then show ?thesis using a sp by (auto simp: authorize_candidate_def pr bind_res_eq_Inr)
  next
    case (Some k)
    then have "redeem_invitation ax d host remote k now pr = Inr (st', v)"
      using a by (auto simp: authorize_candidate_def pr bind_res_eq_Inr)
    then show ?thesis by (rule redeem_Inr) (use sp in \<open>auto simp: enroll_def spent_def\<close>)
  qed
next
  case (SE_Reset f time)
  then have "reset_candidate now st = Inr st'" using t c by (auto split: sum.splits)
  then show ?thesis by (rule reset_candidate_Inr) (use s in \<open>simp add: spent_prune\<close>)
next
  case (SE_Revoke f handle time)
  then obtain x r where "revoke_candidate handle now st = Inr (st', x, r)" using t c by (auto split: sum.splits)
  then show ?thesis by (rule revoke_candidate_Inr) (use s in \<open>simp add: spent_prune\<close>)
next
  case (SE_Replace f handle g time)
  then obtain x r where "replace_candidate handle g now st = Inr (st', x, r)" using t c by (auto split: sum.splits if_splits)
  then show ?thesis by (rule replace_candidate_Inr) (use s in \<open>simp add: spent_prune\<close>)
qed (use t in simp)

text \<open>The clock of the host does not run backwards between the events.\<close>

fun clock_from :: "u64 \<Rightarrow> store_event list \<Rightarrow> bool" where
  "clock_from t [] = True"
| "clock_from t (e # es) = (case event_time e of None \<Rightarrow> clock_from t es | Some now \<Rightarrow> t \<le> now \<and> clock_from now es)"

fun last_time :: "u64 \<Rightarrow> store_event list \<Rightarrow> u64" where
  "last_time t [] = t"
| "last_time t (e # es) = (case event_time e of None \<Rightarrow> last_time t es | Some now \<Rightarrow> last_time now es)"

lemma clock_from_append: "clock_from t (es @ fs) \<longleftrightarrow> clock_from t es \<and> clock_from (last_time t es) fs"
  by (induction es arbitrary: t) (auto split: option.splits)

lemma spent_run:
  assumes x: "externals_ok ax" and ok: "process_ok ax host p" and r: "store_run ax host es p = (log, q)"
    and h: "process_holds ax (spent cl t) p" and t: "clock_from t es"
  shows "process_holds ax (spent cl (last_time t es)) q"
  using ok r h t
proof (induction es arbitrary: p log t)
  case (Cons e es)
  obtain p' o' where s: "store_step ax host e p = (p', o')" by (metis prod.exhaust)
  obtain log' where l: "store_run ax host es p' = (log', q)" using Cons.prems(2) s by (auto split: prod.splits)
  note ok' = store_step_ok [OF x Cons.prems(1) s]
  show ?case
  proof (cases "event_time e")
    case None
    then have "process_holds ax (spent cl t) p'"
      by (intro store_step_holds [OF x Cons.prems(1) s Cons.prems(3)]) (cases e; simp)
    from Cons.IH [OF ok' l this] show ?thesis using Cons.prems(4) None by simp
  next
    case (Some now)
    have "process_holds ax (spent cl now) p"
      using Cons.prems(3,4) Some by (auto elim!: process_holds_mono intro: spent_mono)
    then have "process_holds ax (spent cl now) p'"
      by (rule store_step_holds [OF x Cons.prems(1) s]) (rule spent_candidate [OF _ Some])
    from Cons.IH [OF ok' l this] show ?thesis using Cons.prems(4) Some by simp
  qed
qed simp

text \<open>
  C28: An invitation enrolls at most once. In every history from any directory - with other requests,
  revocations, resets, failed writes and restarts in between - in which the host's clock does not run
  backwards, two redemptions that both succeed never used invitations with the same claims.
\<close>

theorem invitation_enrolls_once:
  assumes "externals_ok ax" "clock_from 0 events"
    and "fst (store_run ax host events (Stopped sd)) =
      us @ (SE_Authorize d1 f1 r1 (Some t1) n1, SO_Authorized (Inr v1)) #
      vs @ (SE_Authorize d2 f2 r2 (Some t2) n2, SO_Authorized (Inr v2)) # ws"
    and "invitation_decode (ax_crypto ax) t1 = Inr i1" "invitation_decode (ax_crypto ax) t2 = Inr i2"
  shows "si_claims i1 \<noteq> si_claims i2"
proof
  assume same: "si_claims i1 = si_claims i2"
  let ?e1 = "SE_Authorize d1 f1 r1 (Some t1) n1" and ?e2 = "SE_Authorize d2 f2 r2 (Some t2) n2"
  let ?cl = "si_claims i1"
  obtain q where "store_run ax host events (Stopped sd) =
      (us @ (?e1, SO_Authorized (Inr v1)) # vs @ (?e2, SO_Authorized (Inr v2)) # ws, q)"
    using assms(3) by (metis prod.collapse)
  note run = this
  obtain p1 p2 where 1: "store_run ax host (map fst us) (Stopped sd) = (us, p1)"
    "store_step ax host ?e1 p1 = (p2, SO_Authorized (Inr v1))"
    "store_run ax host (map fst (vs @ (?e2, SO_Authorized (Inr v2)) # ws)) p2 = (vs @ (?e2, SO_Authorized (Inr v2)) # ws, q)"
    by (rule store_run_split [OF run])
  obtain p3 p4 where 2: "store_run ax host (map fst vs) p2 = (vs, p3)" "store_step ax host ?e2 p3 = (p4, SO_Authorized (Inr v2))"
    by (rule store_run_split [OF 1(3)])
  note ok1 = store_run_ok [OF assms(1) _ 1(1), unfolded process_ok.simps, OF TrueI]
  note ok2 = store_step_ok [OF assms(1) ok1 1(2)]
  note ok3 = store_run_ok [OF assms(1) ok2 2(1)]
  have "process_holds ax (spent ?cl n1) p2"
    by (rule redeemed_step [OF ok1 assms(1) 1(2)])
       (use assms(4) in \<open>auto simp: enroll_def spent_def disk_holds_def\<close>)
  moreover have c: "clock_from n1 (map fst vs @ ?e2 # map fst ws)"
    using assms(2) map_fst_store_run [OF run] by (auto simp: clock_from_append)
  ultimately have h3: "process_holds ax (spent ?cl (last_time n1 (map fst vs))) p3"
    using spent_run [OF assms(1) ok2 2(1)] by (simp add: clock_from_append)
  have "last_time n1 (map fst vs) \<le> n2" using c by (simp add: clock_from_append)
  then have h: "process_holds ax (spent ?cl n2) p3" using h3 by (auto elim!: process_holds_mono intro: spent_mono)
  show False
  proof (rule redeemed_step [OF ok3 assms(1) 2(2)])
    fix st si
    assume s: "p3 = Serving st" "invitation_decode (ax_crypto ax) t2 = Inr si"
      "check_invitation host r2 n2 (fst (prune_expired n2 (ss_memory st))) (si_claims si) = Inr ()"
    have si: "si_claims si = ?cl" using s(2) assms(5) same by simp
    note c = s(3) [unfolded check_invitation_iff si]
    have "spent ?cl n2 (fst (prune_expired n2 (ss_memory st)))" using h by (intro spent_prune) (simp add: s(1))
    then show False using c by (auto simp: spent_def image_iff)
  qed
qed


section \<open>Successful administration\<close>

lemma commit_Inr:
  "store_commit ax f st s = (s', Inr u) \<Longrightarrow> s' = s\<lparr>ss_directory := saved_directory ax st (ss_directory s), ss_memory := st\<rparr>"
  using store_commit_cases [of ax f st s s' "Inr u"] by auto

lemma store_revoke_Inr:
  assumes "store_revoke ax f handle now s = (s', Inr mu)"
  obtains st' e r where "revoke_candidate handle now (ss_memory s) = Inr (st', e, r)" "mutation_of ax e None r = Inr mu"
    "s' = s\<lparr>ss_directory := saved_directory ax st' (ss_directory s), ss_memory := st'\<rparr>"
proof -
  have v: "validate_viewer_handle handle = Inr ()" "state_validate ax (ss_host s) (ss_memory s) = Inr ()"
    using assms by (cases "validate_viewer_handle handle"; cases "state_validate ax (ss_host s) (ss_memory s)";
        simp add: store_revoke_def)+
  obtain st' e r where c: "revoke_candidate handle now (ss_memory s) = Inr (st', e, r)"
    using assms v by (cases "revoke_candidate handle now (ss_memory s)") (auto simp: store_revoke_def)
  obtain s1 q where q: "store_commit ax f st' s = (s1, q)" by (metis prod.exhaust)
  have "q = Inr () \<and> s' = s1 \<and> mutation_of ax e None r = Inr mu"
    using assms v c by (cases q) (simp_all add: store_revoke_def q)
  then show thesis using that [OF c] commit_Inr [of ax f st' s s1 "()"] q by simp
qed

lemma store_replace_Inr:
  assumes "store_replace ax f handle g now s = (s', Inr mu)"
  obtains st' e r where "replace_candidate handle g now (ss_memory s) = Inr (st', e, r)" "mutation_of ax e g r = Inr mu"
    "s' = s\<lparr>ss_directory := saved_directory ax st' (ss_directory s), ss_memory := st'\<rparr>" "view_grants g"
proof -
  let ?check = "case g of None \<Rightarrow> Inr () | Some g \<Rightarrow> bind_res (lift_proto (grants_validate g)) (\<lambda>_.
             ensure_that (grants_contains g GRANT_VIEW) (Host ''a persisted viewer grant must include view permission''))"
  have h: "validate_viewer_handle handle = Inr ()"
    using assms by (cases "validate_viewer_handle handle") (simp_all add: store_replace_def)
  have k: "?check = Inr ()" using assms h by (cases ?check) (simp_all add: store_replace_def)
  have v: "state_validate ax (ss_host s) (ss_memory s) = Inr ()"
    using assms h k by (cases "state_validate ax (ss_host s) (ss_memory s)") (simp_all add: store_replace_def)
  have vg: "view_grants g" using k by (cases g) (auto simp: view_grants_def grants_ok_def bind_res_eq_Inr)
  obtain st' e r where c: "replace_candidate handle g now (ss_memory s) = Inr (st', e, r)"
    using assms h k v by (cases "replace_candidate handle g now (ss_memory s)") (auto simp: store_replace_def)
  obtain s1 q where q: "store_commit ax f st' s = (s1, q)" by (metis prod.exhaust)
  have "q = Inr () \<and> s' = s1 \<and> mutation_of ax e g r = Inr mu"
    using assms h k v c by (cases q) (simp_all add: store_replace_def q)
  then show thesis using that [OF c] commit_Inr [of ax f st' s s1 "()"] q vg by simp
qed

lemma store_reset_Inr:
  assumes "store_reset ax f now s = (s', Inr ro)"
  obtains st' where "reset_candidate now (ss_memory s) = Inr st'"
    "s' = s\<lparr>ss_directory := saved_directory ax st' (ss_directory s), ss_memory := st'\<rparr>"
    "ro_previous_epoch ro = az_enrollment_epoch (ss_memory s)" "ro_current_epoch ro = az_enrollment_epoch st'"
proof -
  have v: "state_validate ax (ss_host s) (ss_memory s) = Inr ()"
    using assms by (cases "state_validate ax (ss_host s) (ss_memory s)") (simp_all add: store_reset_def)
  obtain st' where c: "reset_candidate now (ss_memory s) = Inr st'"
    using assms v by (cases "reset_candidate now (ss_memory s)") (auto simp: store_reset_def)
  obtain s1 q where q: "store_commit ax f st' s = (s1, q)" by (metis prod.exhaust)
  have "q = Inr () \<and> s' = s1 \<and> ro_previous_epoch ro = az_enrollment_epoch (ss_memory s) \<and>
      ro_current_epoch ro = az_enrollment_epoch (ss_memory s1)"
    using assms v c by (cases q) (auto simp: store_reset_def Let_def q)
  then show thesis using that [OF c] commit_Inr [of ax f st' s s1 "()"] q by simp
qed

section \<open>A reset voids every earlier invitation\<close>

lemma epoch_candidate:
  assumes "n \<le> az_enrollment_epoch st" "event_candidate ax host e st = Some st'"
  shows "n \<le> az_enrollment_epoch st'"
proof (cases e)
  case (SE_Authorize d f remote token now)
  then obtain ch v where a: "authorize_candidate ax d host remote token now st = Inr (st', ch, v)"
    using assms(2) by (auto split: sum.splits)
  obtain pr b where pr: "prune_expired now st = (pr, b)" by (metis prod.exhaust)
  have ep: "az_enrollment_epoch pr = az_enrollment_epoch st" using prune_expired_frame(3) [of now st] by (simp add: pr)
  show ?thesis
  proof (cases token)
    case None
    then show ?thesis using a ep assms(1) by (auto simp: authorize_candidate_def pr bind_res_eq_Inr)
  next
    case (Some k)
    then have "redeem_invitation ax d host remote k now pr = Inr (st', v)"
      using a by (auto simp: authorize_candidate_def pr bind_res_eq_Inr)
    then show ?thesis by (rule redeem_Inr) (use ep assms(1) in \<open>auto simp: enroll_def\<close>)
  qed
next
  case (SE_Reset f now)
  then have "reset_candidate now st = Inr st'" using assms(2) by (auto split: sum.splits)
  then show ?thesis
    by (rule reset_candidate_Inr) (use assms(1) checked_add_1_less(1) [of "az_enrollment_epoch st"] in fastforce)
next
  case (SE_Revoke f handle now)
  then obtain x r where "revoke_candidate handle now st = Inr (st', x, r)" using assms(2) by (auto split: sum.splits)
  then show ?thesis by (rule revoke_candidate_Inr) (use assms(1) in simp)
next
  case (SE_Replace f handle g now)
  then obtain x r where "replace_candidate handle g now st = Inr (st', x, r)" using assms(2) by (auto split: sum.splits if_splits)
  then show ?thesis by (rule replace_candidate_Inr) (use assms(1) in simp)
qed (use assms in simp)

text \<open>
  C29: A reset voids every invitation issued before it. In every history, an invitation that is
  redeemed after a successful reset was issued for the epoch the reset announced or a later one,
  and that epoch is larger than the one before it - whatever failed and however often the process
  restarted in between.
\<close>

theorem reset_voids_earlier_invitations:
  assumes "externals_ok ax"
    and "fst (store_run ax host events (Stopped sd)) =
      us @ (SE_Reset f1 n1, SO_Reset (Inr ro)) # vs @ (SE_Authorize d f2 remote (Some t) n2, SO_Authorized (Inr v)) # ws"
    and "invitation_decode (ax_crypto ax) t = Inr i"
  shows "ro_previous_epoch ro < ro_current_epoch ro \<and> ro_current_epoch ro \<le> ic_enrollment_epoch (si_claims i)"
proof -
  let ?e2 = "SE_Authorize d f2 remote (Some t) n2"
  obtain q where run: "store_run ax host events (Stopped sd) =
      (us @ (SE_Reset f1 n1, SO_Reset (Inr ro)) # vs @ (?e2, SO_Authorized (Inr v)) # ws, q)"
    using assms(2) by (metis prod.collapse)
  obtain p1 p2 where 1: "store_run ax host (map fst us) (Stopped sd) = (us, p1)"
    "store_step ax host (SE_Reset f1 n1) p1 = (p2, SO_Reset (Inr ro))"
    "store_run ax host (map fst (vs @ (?e2, SO_Authorized (Inr v)) # ws)) p2 = (vs @ (?e2, SO_Authorized (Inr v)) # ws, q)"
    by (rule store_run_split [OF run])
  obtain p3 p4 where 2: "store_run ax host (map fst vs) p2 = (vs, p3)" "store_step ax host ?e2 p3 = (p4, SO_Authorized (Inr v))"
    by (rule store_run_split [OF 1(3)])
  note ok1 = store_run_ok [OF assms(1) _ 1(1), unfolded process_ok.simps, OF TrueI]
  note ok2 = store_step_ok [OF assms(1) ok1 1(2)]
  note ok3 = store_run_ok [OF assms(1) ok2 2(1)]
  obtain s s' where s: "p1 = Serving s" "p2 = Serving s'" "store_reset ax f1 n1 s = (s', Inr ro)"
  proof (cases p1)
    case (Serving s)
    then show thesis using 1(2) that by (cases "store_reset ax f1 n1 s") auto
  qed (use 1(2) in auto)
  have e: "process_holds ax (\<lambda>st. ro_current_epoch ro \<le> az_enrollment_epoch st) p2 \<and> ro_previous_epoch ro < ro_current_epoch ro"
    using s(3)
  proof (rule store_reset_Inr)
    fix st'
    assume a: "reset_candidate n1 (ss_memory s) = Inr st'"
      "s' = s\<lparr>ss_directory := saved_directory ax st' (ss_directory s), ss_memory := st'\<rparr>"
      "ro_previous_epoch ro = az_enrollment_epoch (ss_memory s)" "ro_current_epoch ro = az_enrollment_epoch st'"
    obtain epoch where "checked_add (az_enrollment_epoch (ss_memory s)) 1 = Some epoch" "az_enrollment_epoch st' = epoch"
      by (rule reset_candidate_Inr [OF a(1)]) simp
    then have "az_enrollment_epoch (ss_memory s) < az_enrollment_epoch st'" using checked_add_1_less(1) by blast
    then show ?thesis using a assms(1) by (simp add: s(2))
  qed
  have "process_holds ax (\<lambda>st. ro_current_epoch ro \<le> az_enrollment_epoch st) p3"
    by (rule store_run_holds [OF assms(1) ok2 2(1) conjunct1 [OF e]]) (rule epoch_candidate)
  moreover have "ic_enrollment_epoch (si_claims i) = az_enrollment_epoch st" if "p3 = Serving st0" "st = ss_memory st0" for st st0
    by (rule redeemed_step [OF ok3 assms(1) 2(2)]) (use that assms(3) in \<open>auto simp: check_invitation_iff\<close>)
  moreover obtain st0 where "p3 = Serving st0" by (rule redeemed_step [OF ok3 assms(1) 2(2)])
  ultimately show ?thesis using e by simp
qed

end
