(* ===== verification/Authorization_Membership.thy ===== *)
theory Authorization_Membership
  imports Authorization_Properties
begin

text \<open>
  The authorization store as what it promises its callers: an epoch, a revision and a map from
  endpoints to their handle, grants and revision. Every operation of the store is one step of that
  abstraction, and a viewer whose access was ended stays out until it redeems a new invitation.
\<close>

section \<open>The abstraction\<close>

record membership =
  mb_epoch :: u64
  mb_revision :: u64
  mb_members :: "endpoint_id \<Rightarrow> (string \<times> invitation_grants \<times> u64) option"

definition member_entry :: "enrollment \<Rightarrow> string \<times> invitation_grants \<times> u64" where
  "member_entry e = (en_handle e, en_grants e, en_authorization_revision e)"

definition member_of :: "externals \<Rightarrow> enrollment list \<Rightarrow> endpoint_id \<Rightarrow> (string \<times> invitation_grants \<times> u64) option" where
  "member_of ax es p = (case filter (is_peer ax p) es of [] \<Rightarrow> None | e # _ \<Rightarrow> Some (member_entry e))"

definition membership_of :: "externals \<Rightarrow> authorization_state \<Rightarrow> membership" where
  "membership_of ax st = \<lparr>mb_epoch = az_enrollment_epoch st, mb_revision = az_committed_revision st,
     mb_members = member_of ax (az_enrollments st)\<rparr>"

lemma member_of_None: "member_of ax es p = None \<longleftrightarrow> (\<forall>e \<in> set es. ax_parse ax (en_peer_node_id e) \<noteq> Some p)"
  unfolding member_of_def filter_is_peer_Nil [symmetric] by (simp split: list.split)

lemma member_of_Some:
  assumes "enrollments_ok ax r es"
  shows "member_of ax es p = Some m \<longleftrightarrow> (\<exists>e \<in> set es. ax_parse ax (en_peer_node_id e) = Some p \<and> m = member_entry e)"
proof -
  have uniq: "e = e'" if "e \<in> set es" "e' \<in> set es" "ax_parse ax (en_peer_node_id e) = ax_parse ax (en_peer_node_id e')" for e e'
    using assms that by (auto simp: enrollments_ok_def distinct_map inj_on_def)
  show ?thesis
  proof (cases "filter (is_peer ax p) es")
    case Nil
    then have "member_of ax es p = None" by (simp add: member_of_def)
    then show ?thesis using member_of_None [of ax es p] by auto
  next
    case (Cons e xs)
    then have e: "e \<in> set es" "ax_parse ax (en_peer_node_id e) = Some p"
      using filter_eq_ConsD [OF Cons] by (auto simp: is_peer_def)
    have u: "e' = e" if "e' \<in> set es" "ax_parse ax (en_peer_node_id e') = Some p" for e'
      using uniq [OF that(1) e(1)] that(2) e(2) by simp
    have "member_of ax es p = Some (member_entry e)" by (simp add: member_of_def Cons)
    moreover have "(\<exists>e' \<in> set es. ax_parse ax (en_peer_node_id e') = Some p \<and> m = member_entry e') \<longleftrightarrow> m = member_entry e"
      using e u by blast
    ultimately show ?thesis by auto
  qed
qed

text \<open>Two enrollment lists with the same entries for every endpoint are the same membership.\<close>

lemma member_of_eqI:
  assumes "enrollments_ok ax r es" "\<And>m. f p = Some m \<longleftrightarrow> (\<exists>e \<in> set es. ax_parse ax (en_peer_node_id e) = Some p \<and> m = member_entry e)"
  shows "member_of ax es p = f p"
proof (cases "f p")
  case None
  then have "\<not> (\<exists>e \<in> set es. ax_parse ax (en_peer_node_id e) = Some p \<and> m = member_entry e)" for m
    using assms(2) [of m] by simp
  then show ?thesis unfolding None member_of_None by blast
next
  case (Some m)
  then have "member_of ax es p = Some m" using assms(2) unfolding member_of_Some [OF assms(1)] by blast
  with Some show ?thesis by simp
qed

lemma set_remove_nth_distinct:
  assumes "distinct (map f xs)" "i < length xs"
  shows "set (remove_nth i xs) = {x \<in> set xs. f x \<noteq> f (xs ! i)}"
proof -
  have x: "xs = take i xs @ xs ! i # drop (Suc i) xs" using assms(2) by (rule id_take_nth_drop)
  have d: "distinct (map f (take i xs) @ f (xs ! i) # map f (drop (Suc i) xs))"
    using assms(1) by (subst (asm) x) simp
  have "set xs = insert (xs ! i) (set (remove_nth i xs))" by (subst x) (auto simp: remove_nth_def)
  moreover have "\<forall>x \<in> set (remove_nth i xs). f x \<noteq> f (xs ! i)" using d by (auto simp: remove_nth_def image_iff)
  ultimately show ?thesis by auto
qed

section \<open>Every operation is a step\<close>

text \<open>What a successful event does to the membership; a failing one and a restart are not steps of it.\<close>

fun membership_step :: "externals \<Rightarrow> endpoint_id \<Rightarrow> store_event \<Rightarrow> store_outcome \<Rightarrow> membership \<Rightarrow> membership \<Rightarrow> bool" where
  "membership_step ax host (SE_Authorize d f remote None now) (SO_Authorized (Inr v)) m m' \<longleftrightarrow>
     m' = m \<and> mb_members m remote = Some (av_handle v, av_grants v, av_authorization_revision v) \<and>
     av_committed_revision v = mb_revision m"
| "membership_step ax host (SE_Authorize d f remote (Some token) now) (SO_Authorized (Inr v)) m m' \<longleftrightarrow>
     (\<exists>i. invitation_decode (ax_crypto ax) token = Inr i \<and> ic_host_node_id (si_claims i) = host \<and>
        ic_intended_peer_id (si_claims i) = remote \<and> ic_enrollment_epoch (si_claims i) = mb_epoch m \<and>
        now \<le> ic_expires_at_unix (si_claims i) \<and> av_grants v = ic_grants (si_claims i)) \<and>
     mb_members m remote = None \<and> (\<forall>p h g r. mb_members m p = Some (h, g, r) \<longrightarrow> h \<noteq> av_handle v) \<and>
     av_authorization_revision v = mb_revision m + 1 \<and> mb_revision m < mb_revision m + 1 \<and>
     m' = m\<lparr>mb_revision := mb_revision m + 1,
            mb_members := (mb_members m)(remote \<mapsto> (av_handle v, av_grants v, av_authorization_revision v))\<rparr>"
| "membership_step ax host (SE_Reset f now) (SO_Reset (Inr ro)) m m' \<longleftrightarrow>
     ro_previous_epoch ro = mb_epoch m \<and> ro_current_epoch ro = mb_epoch m + 1 \<and> mb_epoch m < mb_epoch m + 1 \<and>
     mb_revision m < mb_revision m + 1 \<and>
     m' = \<lparr>mb_epoch = mb_epoch m + 1, mb_revision = mb_revision m + 1, mb_members = Map.empty\<rparr>"
| "membership_step ax host (SE_Revoke f handle now) (SO_Mutation (Inr mu)) m m' \<longleftrightarrow>
     (\<exists>r. mb_members m (am_peer mu) = Some (handle, am_previous_grants mu, r)) \<and> am_handle mu = handle \<and>
     am_current_grants mu = None \<and> am_authorization_revision mu = mb_revision m + 1 \<and> mb_revision m < mb_revision m + 1 \<and>
     m' = m\<lparr>mb_revision := mb_revision m + 1, mb_members := (mb_members m)(am_peer mu := None)\<rparr>"
| "membership_step ax host (SE_Replace f handle grants now) (SO_Mutation (Inr mu)) m m' \<longleftrightarrow>
     (\<exists>r. mb_members m (am_peer mu) = Some (handle, am_previous_grants mu, r)) \<and> am_handle mu = handle \<and>
     am_current_grants mu = grants \<and> grants \<noteq> Some (am_previous_grants mu) \<and>
     am_authorization_revision mu = mb_revision m + 1 \<and> mb_revision m < mb_revision m + 1 \<and>
     m' = m\<lparr>mb_revision := mb_revision m + 1,
            mb_members := (mb_members m)(am_peer mu := map_option (\<lambda>g. (handle, g, mb_revision m + 1)) grants)\<rparr>"
| "membership_step ax host e out m m' \<longleftrightarrow> m' = m"

lemma next_revision_plus:
  "next_revision st = Inr r \<Longrightarrow> r = az_committed_revision st + 1 \<and> az_committed_revision st < az_committed_revision st + 1"
  using next_revision_grows [of st r] checked_add_1_Some [of "az_committed_revision st" r] by (auto simp: next_revision_Inr)

lemma state_ok_enrollments: "state_ok ax host st \<Longrightarrow> enrollments_ok ax (az_committed_revision st) (az_enrollments st)"
  by (simp add: state_ok_def)

lemma enrollment_at:
  assumes ok: "state_ok ax host st" and i: "index_of_handle handle (az_enrollments st) = Some i"
    and mu: "mutation_of ax (az_enrollments st ! i) g r = Inr mu"
  shows "ax_parse ax (en_peer_node_id (az_enrollments st ! i)) = Some (am_peer mu)" "am_handle mu = handle"
    "am_previous_grants mu = en_grants (az_enrollments st ! i)" "am_current_grants mu = g" "am_authorization_revision mu = r"
    "member_of ax (az_enrollments st) (am_peer mu) = Some (member_entry (az_enrollments st ! i))"
    "en_handle (az_enrollments st ! i) = handle" "i < length (az_enrollments st)"
proof -
  note l = index_of_handle_Some [OF i]
  obtain p where p: "ax_parse ax (en_peer_node_id (az_enrollments st ! i)) = Some p" "mutation_of ax (az_enrollments st ! i) g r =
      Inr \<lparr>am_handle = en_handle (az_enrollments st ! i), am_peer = p,
    am_previous_grants = en_grants (az_enrollments st ! i), am_current_grants = g, am_authorization_revision = r, am_committed_revision = r\<rparr>"
    by (rule mutation_of_Inr [OF ok nth_mem [OF conjunct1 [OF l]], of g r])
  then show "ax_parse ax (en_peer_node_id (az_enrollments st ! i)) = Some (am_peer mu)" "am_handle mu = handle"
    "am_previous_grants mu = en_grants (az_enrollments st ! i)" "am_current_grants mu = g" "am_authorization_revision mu = r"
    "en_handle (az_enrollments st ! i) = handle" "i < length (az_enrollments st)"
    using mu l by auto
  then show "member_of ax (az_enrollments st) (am_peer mu) = Some (member_entry (az_enrollments st ! i))"
    using l unfolding member_of_Some [OF state_ok_enrollments [OF ok]] by (metis nth_mem)
qed

lemma member_of_removed:
  assumes ok: "enrollments_ok ax r es" and i: "i < length es" "ax_parse ax (en_peer_node_id (es ! i)) = Some p"
  shows "member_of ax (remove_nth i es) = (member_of ax es)(p := None)"
proof
  fix q
  have s: "set (remove_nth i es) = {x \<in> set es. ax_parse ax (en_peer_node_id x) \<noteq> Some p}"
    using set_remove_nth_distinct [of "\<lambda>e. ax_parse ax (en_peer_node_id e)" es i] ok i by (auto simp: enrollments_ok_def)
  show "member_of ax (remove_nth i es) q = ((member_of ax es)(p := None)) q"
    by (rule member_of_eqI [OF enrollments_ok_remove [OF ok]]) (auto simp: s member_of_Some [OF ok])
qed

lemma member_of_updated:
  assumes ok: "enrollments_ok ax r es" and ok': "enrollments_ok ax r' (es[i := e])" and i: "i < length es"
    and p: "ax_parse ax (en_peer_node_id (es ! i)) = Some p" "en_peer_node_id e = en_peer_node_id (es ! i)"
  shows "member_of ax (es[i := e]) = (member_of ax es)(p \<mapsto> member_entry e)"
proof
  fix q
  have "set (es[i := e]) = insert e (set (remove_nth i es))"
    using i by (simp add: upd_conv_take_nth_drop remove_nth_def)
  also have "set (remove_nth i es) = {x \<in> set es. ax_parse ax (en_peer_node_id x) \<noteq> Some p}"
    using set_remove_nth_distinct [of "\<lambda>e. ax_parse ax (en_peer_node_id e)" es i] ok i p by (auto simp: enrollments_ok_def)
  finally show "member_of ax (es[i := e]) q = ((member_of ax es)(p \<mapsto> member_entry e)) q"
    by (intro member_of_eqI [OF ok']) (auto simp: member_of_Some [OF ok] p)
qed


lemma revoke_step:
  assumes ok: "state_ok ax host st" and c: "revoke_candidate handle now st = Inr (st', e, r)" and mu: "mutation_of ax e None r = Inr mu"
  shows "membership_step ax host (SE_Revoke f handle now) (SO_Mutation (Inr mu)) (membership_of ax st) (membership_of ax st')"
  using c
proof (rule revoke_candidate_Inr)
  fix i
  assume i: "index_of_handle handle (az_enrollments st) = Some i" "e = az_enrollments st ! i" "next_revision st = Inr r"
    "st' = push_audit \<lparr>au_revision = r, au_occurred_at_unix = now, au_action = SA_Revoked, au_handle = en_handle e,
        au_previous_grants = Some (en_grants e), au_current_grants = None\<rparr>
      (fst (prune_expired now (st\<lparr>az_enrollments := remove_nth i (az_enrollments st), az_committed_revision := r\<rparr>)))"
  note a = enrollment_at [OF ok i(1) mu [unfolded i(2)]] and n = next_revision_plus [OF i(3)]
  have "membership_of ax st' = (membership_of ax st)\<lparr>mb_revision := az_committed_revision st + 1,
      mb_members := (member_of ax (az_enrollments st))(am_peer mu := None)\<rparr>"
    unfolding i(4) using member_of_removed [OF state_ok_enrollments [OF ok] a(8,1)] n by (simp add: membership_of_def)
  then show ?thesis using a n by (simp add: membership_of_def member_entry_def)
qed

lemma replace_step:
  assumes ok: "state_ok ax host st" and c: "replace_candidate handle g now st = Inr (st', e, r)"
    and mu: "mutation_of ax e g r = Inr mu" and vg: "view_grants g"
  shows "membership_step ax host (SE_Replace f handle g now) (SO_Mutation (Inr mu)) (membership_of ax st) (membership_of ax st')"
  using c
proof (rule replace_candidate_Inr)
  fix i
  let ?es = "case g of Some g \<Rightarrow> (az_enrollments st)[i := e\<lparr>en_grants := g, en_authorization_revision := r\<rparr>]
        | None \<Rightarrow> remove_nth i (az_enrollments st)"
  assume i: "index_of_handle handle (az_enrollments st) = Some i" "e = az_enrollments st ! i" "next_revision st = Inr r"
    "g \<noteq> Some (en_grants e)"
    "st' = push_audit \<lparr>au_revision = r, au_occurred_at_unix = now,
        au_action = (if g \<noteq> None then SA_GrantsReplaced else SA_Revoked), au_handle = en_handle e,
        au_previous_grants = Some (en_grants e), au_current_grants = g\<rparr>
      (fst (prune_expired now (st\<lparr>az_enrollments := ?es, az_committed_revision := r\<rparr>)))"
  note a = enrollment_at [OF ok i(1) mu [unfolded i(2)]] and n = next_revision_plus [OF i(3)]
  have st': "az_enrollments st' = ?es" "az_committed_revision st' = r" "az_enrollment_epoch st' = az_enrollment_epoch st"
    by (simp_all add: i(5))
  have ok': "enrollments_ok ax r ?es"
    using state_ok_enrollments [OF replace_candidate_ok [OF ok c]] vg by (simp add: st' view_grants_def)
  have "member_of ax ?es = (member_of ax (az_enrollments st))(am_peer mu := map_option (\<lambda>g. (handle, g, r)) g)"
  proof (cases g)
    case None
    then show ?thesis using member_of_removed [OF state_ok_enrollments [OF ok] a(8,1)] by simp
  next
    case (Some x)
    then show ?thesis
      using member_of_updated [OF state_ok_enrollments [OF ok] _ a(8,1), of r "e\<lparr>en_grants := x, en_authorization_revision := r\<rparr>"]
        ok' a(7) by (simp add: i(2) member_entry_def)
  qed
  then show ?thesis using a n i(2,4) by (simp add: membership_of_def member_entry_def st')
qed

lemma reset_step:
  assumes ok: "state_ok ax host st" and c: "reset_candidate now st = Inr st'"
    and ro: "ro_previous_epoch ro = az_enrollment_epoch st" "ro_current_epoch ro = az_enrollment_epoch st'"
  shows "membership_step ax host (SE_Reset f now) (SO_Reset (Inr ro)) (membership_of ax st) (membership_of ax st')"
  using c
proof (rule reset_candidate_Inr)
  fix epoch r
  assume i: "checked_add (az_enrollment_epoch st) 1 = Some epoch" "next_revision st = Inr r"
    "st' = audit_reset r now (az_enrollments st)
      ((fst (prune_expired now (st\<lparr>az_enrollments := [], az_enrollment_epoch := epoch\<rparr>)))\<lparr>az_committed_revision := r\<rparr>)"
  have "epoch = az_enrollment_epoch st + 1" "az_enrollment_epoch st < epoch"
    using i(1) checked_add_1_less [OF i(1)] by (auto simp: checked_add_1_Some)
  moreover have "member_of ax [] = Map.empty" by (auto simp: member_of_def)
  ultimately show ?thesis using next_revision_plus [OF i(2)] ro by (simp add: membership_of_def i(3))
qed

lemma redeem_step:
  assumes ok: "state_ok ax host st" and x: "externals_ok ax" and d: "invitation_decode (ax_crypto ax) token = Inr si"
    and ch: "check_invitation host remote now (fst (prune_expired now st)) (si_claims si) = Inr ()"
    and r: "next_revision st = Inr r" and h: "random_viewer_handle draws (az_enrollments st) = Inr h"
    and new: "filter (is_peer ax remote) (az_enrollments st) = []"
    and st': "st' = enroll ax remote now (si_claims si) r h (fst (prune_expired now st))"
    and v: "v = \<lparr>av_handle = h, av_grants = ic_grants (si_claims si), av_authorization_revision = r, av_committed_revision = r\<rparr>"
  shows "membership_step ax host (SE_Authorize draws f remote (Some token) now) (SO_Authorized (Inr v)) (membership_of ax st) (membership_of ax st')"
proof -
  note c = ch [unfolded check_invitation_iff] and n = next_revision_plus [OF r] and f = random_viewer_handle_fresh [OF h]
  have parse: "ax_parse ax (ax_show ax remote) = Some remote" using x by (simp add: externals_ok_def)
  have handles: "\<forall>p a g q. member_of ax (az_enrollments st) p = Some (a, g, q) \<longrightarrow> a \<noteq> h"
    using f unfolding member_of_Some [OF state_ok_enrollments [OF ok]] by (auto simp: member_entry_def)
  have none: "member_of ax (az_enrollments st) remote = None" using new by (simp add: member_of_def)
  have "member_of ax (az_enrollments st') = (member_of ax (az_enrollments st))(remote \<mapsto> (h, ic_grants (si_claims si), r))"
  proof
    fix q
    show "member_of ax (az_enrollments st') q = ((member_of ax (az_enrollments st))(remote \<mapsto> (h, ic_grants (si_claims si), r))) q"
      using none parse by (auto simp: st' enroll_def member_of_def is_peer_def member_entry_def split: list.splits)
  qed
  then have "membership_of ax st' = (membership_of ax st)\<lparr>mb_revision := r,
      mb_members := (member_of ax (az_enrollments st))(remote \<mapsto> (h, ic_grants (si_claims si), r))\<rparr>"
    by (simp add: membership_of_def) (simp add: st' enroll_def)
  then show ?thesis using c d n none handles by (simp add: v membership_of_def)
qed


lemma admit_step:
  assumes ok: "state_ok ax host st" and c: "authorize_candidate ax draws host remote None now st = Inr (st', changed, v)"
  shows "membership_step ax host (SE_Authorize draws f remote None now) (SO_Authorized (Inr v)) (membership_of ax st) (membership_of ax st')"
proof -
  obtain pr b where pr: "prune_expired now st = (pr, b)" by (metis prod.exhaust)
  have fr: "az_enrollments pr = az_enrollments st" "az_committed_revision pr = az_committed_revision st"
    "az_enrollment_epoch pr = az_enrollment_epoch st" using prune_expired_frame [of now st] by (simp_all add: pr)
  have "st' = pr" "admit_enrolled ax remote pr = Inr v" using c by (auto simp: authorize_candidate_def pr bind_res_eq_Inr)
  then show ?thesis
    by (auto simp: admit_enrolled_def membership_of_def fr member_of_def member_entry_def split: list.splits)
qed

lemma failed_keeps_memory:
  assumes "store_step ax host e (Serving s) = (Serving s', out)" "process_ok ax host (Serving s)" "\<nexists>d f l. e = SE_Restart d f l"
    "\<not> outcome_ok out"
  shows "ss_memory s' = ss_memory s"
proof -
  obtain t where "commit_effect ax s (event_candidate ax host e (ss_memory s)) t (outcome_ok out)" "Serving s' = Serving t"
    by (rule store_step_effect [OF assms(1-3)])
  then show ?thesis using assms(4) by (auto simp: commit_effect_def)
qed

lemma membership_step_failed: "\<not> outcome_ok out \<Longrightarrow> membership_step ax host e out m m"
  by (cases "(ax, host, e, out, m, m)" rule: membership_step.cases) (simp_all)

lemma authorize_refines:
  assumes x: "externals_ok ax" and ok: "process_ok ax host (Serving s)"
    and step: "store_step ax host (SE_Authorize d f remote token now) (Serving s) = (Serving s', SO_Authorized (Inr v))"
  shows "membership_step ax host (SE_Authorize d f remote token now) (SO_Authorized (Inr v))
    (membership_of ax (ss_memory s)) (membership_of ax (ss_memory s'))"
proof (cases token)
  case None
  have st: "state_ok ax host (ss_memory s)" using ok by simp
  show ?thesis
  proof (rule authorized_step [OF ok step])
    fix a b changed st'
    assume h: "Serving s = Serving a" "Serving s' = Serving b"
      "authorize_candidate ax d host remote token now (ss_memory a) = Inr (st', changed, v)"
      "changed \<Longrightarrow> ss_memory b = st' \<and> ss_directory b = saved_directory ax st' (ss_directory a)" "\<not> changed \<Longrightarrow> b = a"
    have m: "membership_step ax host (SE_Authorize d f remote None now) (SO_Authorized (Inr v)) (membership_of ax (ss_memory s))
        (membership_of ax st')" by (rule admit_step [OF st]) (use h(1,3) None in simp)
    have "membership_of ax st' = membership_of ax (ss_memory s')"
      using h m by (cases changed) simp_all
    then show ?thesis using m by (simp add: None)
  qed
next
  case (Some k)
  have st: "state_ok ax host (ss_memory s)" using ok by simp
  show ?thesis
    unfolding Some by (rule redeemed_step [OF ok x step [unfolded Some]]) (rule redeem_step [OF st x]; simp)
qed

lemma administration_refines:
  assumes st: "state_ok ax host (ss_memory s)"
  shows "store_reset ax f now s = (s', Inr ro) \<Longrightarrow> membership_step ax host (SE_Reset f now) (SO_Reset (Inr ro))
      (membership_of ax (ss_memory s)) (membership_of ax (ss_memory s'))"
    and "store_revoke ax f handle now s = (s', Inr mu) \<Longrightarrow> membership_step ax host (SE_Revoke f handle now) (SO_Mutation (Inr mu))
      (membership_of ax (ss_memory s)) (membership_of ax (ss_memory s'))"
    and "store_replace ax f handle g now s = (s', Inr mu) \<Longrightarrow> membership_step ax host (SE_Replace f handle g now) (SO_Mutation (Inr mu))
      (membership_of ax (ss_memory s)) (membership_of ax (ss_memory s'))"
proof -
  show "store_reset ax f now s = (s', Inr ro) \<Longrightarrow> membership_step ax host (SE_Reset f now) (SO_Reset (Inr ro))
      (membership_of ax (ss_memory s)) (membership_of ax (ss_memory s'))"
    by (erule store_reset_Inr) (simp del: membership_step.simps add: reset_step [OF st])
  show "store_revoke ax f handle now s = (s', Inr mu) \<Longrightarrow> membership_step ax host (SE_Revoke f handle now) (SO_Mutation (Inr mu))
      (membership_of ax (ss_memory s)) (membership_of ax (ss_memory s'))"
    by (erule store_revoke_Inr) (simp del: membership_step.simps add: revoke_step [OF st])
  show "store_replace ax f handle g now s = (s', Inr mu) \<Longrightarrow> membership_step ax host (SE_Replace f handle g now) (SO_Mutation (Inr mu))
      (membership_of ax (ss_memory s)) (membership_of ax (ss_memory s'))"
    by (erule store_replace_Inr) (simp del: membership_step.simps add: replace_step [OF st])
qed

lemma step_refines:
  assumes x: "externals_ok ax" and ok: "process_ok ax host (Serving s)" and nr: "\<nexists>d f l. e = SE_Restart d f l"
    and step: "store_step ax host e (Serving s) = (Serving s', out)"
  shows "membership_step ax host e out (membership_of ax (ss_memory s)) (membership_of ax (ss_memory s'))"
proof (cases "outcome_ok out")
  case False
  then show ?thesis using failed_keeps_memory [OF step ok nr] membership_step_failed by metis
next
  case True
  have st: "state_ok ax host (ss_memory s)" using ok by simp
  show ?thesis
  proof (cases e)
    case (SE_Authorize d f remote token now)
    then obtain v where "out = SO_Authorized (Inr v)"
      using step True by (cases "store_authorize ax d f remote token now s") (auto simp: is_ok_iff)
    then show ?thesis using authorize_refines [OF x ok] step by (simp add: SE_Authorize del: membership_step.simps)
  next
    case (SE_Reset f now)
    then obtain ro where "out = SO_Reset (Inr ro)" "store_reset ax f now s = (s', Inr ro)"
      using step True by (cases "store_reset ax f now s") (auto simp: is_ok_iff)
    then show ?thesis using administration_refines(1) [OF st] by (simp add: SE_Reset del: membership_step.simps)
  next
    case (SE_Revoke f handle now)
    then obtain mu where "out = SO_Mutation (Inr mu)" "store_revoke ax f handle now s = (s', Inr mu)"
      using step True by (cases "store_revoke ax f handle now s") (auto simp: is_ok_iff)
    then show ?thesis using administration_refines(2) [OF st] by (simp add: SE_Revoke del: membership_step.simps)
  next
    case (SE_Replace f handle g now)
    then obtain mu where "out = SO_Mutation (Inr mu)" "store_replace ax f handle g now s = (s', Inr mu)"
      using step True by (cases "store_replace ax f handle g now s") (auto simp: is_ok_iff)
    then show ?thesis using administration_refines(3) [OF st] by (simp add: SE_Replace del: membership_step.simps)
  qed (use nr in blast)
qed

lemma reached_ok:
  "externals_ok ax \<Longrightarrow> snd (store_run ax host events (Stopped sd)) = p \<Longrightarrow> process_ok ax host p"
  using store_run_ok [of ax host "Stopped sd" events] by (metis prod.collapse process_ok.simps(2))

text \<open>
  C31: The store implements the abstract membership. From every process reached by any history, each
  request or administrative event is exactly one step of the map of members: a request without an
  invitation succeeds for members only and returns their entry; a redemption adds a peer that was no
  member under the grants of an invitation for this host, this peer and the current epoch; revocation
  removes, replacement changes, a reset empties and moves to the next epoch - each with the next
  revision; and an event that fails leaves the membership as it was.
\<close>

theorem store_refines_membership:
  assumes "externals_ok ax" "snd (store_run ax host events (Stopped sd)) = Serving s"
    and "\<nexists>d f l. e = SE_Restart d f l" "store_step ax host e (Serving s) = (Serving s', out)"
  shows "membership_step ax host e out (membership_of ax (ss_memory s)) (membership_of ax (ss_memory s'))"
  by (rule step_refines [OF assms(1) reached_ok [OF assms(1,2)] assms(3,4)])

end
