(* ===== verification/Authorization_Access.thy ===== *)
theory Authorization_Access
  imports Authorization_Membership
begin

text \<open>
  Validity, atomicity and durability of the store, who stays out, and the one size of a document
  that can be written but not read back.
\<close>

section \<open>Validity\<close>

text \<open>
  C33: The store never serves an invalid document. After any history - from any directory, whatever
  was in it - a serving store holds a document that passes its own validation: this host, at most 32
  enrollments with distinct peers and distinct well-formed handles that all include the view grant, at
  most 64 consumed invitations with distinct nonzero nonces, at most 64 audit entries in the order of
  their revisions.
\<close>

theorem served_document_is_valid:
  assumes "externals_ok ax" "snd (store_run ax host events (Stopped sd)) = Serving s"
  shows "state_validate ax host (ss_memory s) = Inr () \<and>
    length (az_enrollments (ss_memory s)) \<le> 32 \<and> length (az_consumed_invitations (ss_memory s)) \<le> 64 \<and>
    length (az_security_audit (ss_memory s)) \<le> 64 \<and>
    distinct (map (\<lambda>e. ax_parse ax (en_peer_node_id e)) (az_enrollments (ss_memory s))) \<and>
    distinct (map en_handle (az_enrollments (ss_memory s))) \<and>
    list_all (\<lambda>e. grants_contains (en_grants e) GRANT_VIEW) (az_enrollments (ss_memory s)) \<and>
    distinct (map ci_nonce (az_consumed_invitations (ss_memory s))) \<and>
    sorted (map (unat \<circ> au_revision) (az_security_audit (ss_memory s)))"
proof -
  have ok: "state_ok ax host (ss_memory s)" using reached_ok [OF assms] by simp
  have v: "state_validate ax host (ss_memory s) = Inr ()" using ok by (simp add: state_validate_iff)
  have "list_all (\<lambda>e. grants_contains (en_grants e) GRANT_VIEW) (az_enrollments (ss_memory s))"
    using ok by (simp add: state_ok_def enrollments_ok_def enrollment_ok_def list_all_iff)
  with v ok show ?thesis
    unfolding state_ok_def enrollments_ok_def consumed_ok_def audits_ok_def
      MAX_ENROLLED_VIEWERS_def MAX_CONSUMED_INVITATIONS_def MAX_SECURITY_AUDIT_ENTRIES_def by simp
qed

section \<open>Staying out\<close>

definition not_enrolled :: "externals \<Rightarrow> endpoint_id \<Rightarrow> authorization_state \<Rightarrow> bool" where
  "not_enrolled ax peer st \<longleftrightarrow> (\<forall>e \<in> set (az_enrollments st). ax_parse ax (en_peer_node_id e) \<noteq> Some peer)"

text \<open>The event, with its outcome, ended the access of \<open>peer\<close>.\<close>

fun ends_access :: "endpoint_id \<Rightarrow> store_event \<Rightarrow> store_outcome \<Rightarrow> bool" where
  "ends_access peer (SE_Reset f now) (SO_Reset (Inr ro)) = True"
| "ends_access peer (SE_Revoke f handle now) (SO_Mutation (Inr mu)) = (am_peer mu = peer)"
| "ends_access peer (SE_Replace f handle None now) (SO_Mutation (Inr mu)) = (am_peer mu = peer)"
| "ends_access peer e out = False"

fun redeems_for :: "endpoint_id \<Rightarrow> store_event \<Rightarrow> bool" where
  "redeems_for peer (SE_Authorize d f remote (Some token) now) = (remote = peer)"
| "redeems_for peer e = False"

lemma not_enrolled_candidate:
  assumes x: "externals_ok ax" and n: "not_enrolled ax peer st" and e: "\<not> redeems_for peer e"
    and c: "event_candidate ax host e st = Some st'"
  shows "not_enrolled ax peer st'"
proof (cases e)
  case (SE_Authorize d f remote token now)
  then obtain ch v where a: "authorize_candidate ax d host remote token now st = Inr (st', ch, v)"
    using c by (auto split: sum.splits)
  obtain pr b where pr: "prune_expired now st = (pr, b)" by (metis prod.exhaust)
  have np: "not_enrolled ax peer pr" using n prune_expired_frame(1) [of now st] by (simp add: pr not_enrolled_def)
  show ?thesis
  proof (cases token)
    case None
    then show ?thesis using a np by (auto simp: authorize_candidate_def pr bind_res_eq_Inr)
  next
    case (Some k)
    then have "remote \<noteq> peer" using e by (simp add: SE_Authorize)
    moreover have "redeem_invitation ax d host remote k now pr = Inr (st', v)"
      using a Some by (auto simp: authorize_candidate_def pr bind_res_eq_Inr)
    ultimately show ?thesis
      by (elim redeem_Inr) (use np x in \<open>auto simp: not_enrolled_def enroll_def externals_ok_def\<close>)
  qed
next
  case (SE_Reset f now)
  then have "reset_candidate now st = Inr st'" using c by (auto split: sum.splits)
  then show ?thesis by (rule reset_candidate_Inr) (simp add: not_enrolled_def)
next
  case (SE_Revoke f handle now)
  then obtain y r where "revoke_candidate handle now st = Inr (st', y, r)" using c by (auto split: sum.splits)
  then show ?thesis
    by (rule revoke_candidate_Inr) (use n set_remove_nth in \<open>fastforce simp: not_enrolled_def\<close>)
next
  case (SE_Replace f handle g now)
  then obtain y r where "replace_candidate handle g now st = Inr (st', y, r)" using c by (auto split: sum.splits if_splits)
  then show ?thesis
  proof (rule replace_candidate_Inr)
    fix i
    let ?es = "case g of Some g \<Rightarrow> (az_enrollments st)[i := y\<lparr>en_grants := g, en_authorization_revision := r\<rparr>]
        | None \<Rightarrow> remove_nth i (az_enrollments st)"
    assume i: "index_of_handle handle (az_enrollments st) = Some i" "y = az_enrollments st ! i"
      "st' = push_audit \<lparr>au_revision = r, au_occurred_at_unix = now,
        au_action = (if g \<noteq> None then SA_GrantsReplaced else SA_Revoked), au_handle = en_handle y,
        au_previous_grants = Some (en_grants y), au_current_grants = g\<rparr>
      (fst (prune_expired now (st\<lparr>az_enrollments := ?es, az_committed_revision := r\<rparr>)))"
    have "y \<in> set (az_enrollments st)" using index_of_handle_Some [OF i(1)] by (simp add: i(2))
    then have "\<forall>e \<in> set ?es. ax_parse ax (en_peer_node_id e) \<noteq> Some peer"
      using n set_remove_nth [of i "az_enrollments st"] set_update_subset_insert [of "az_enrollments st" i]
      by (cases g) (fastforce simp: not_enrolled_def)+
    then show "not_enrolled ax peer st'" by (simp add: i(3) not_enrolled_def)
  qed
qed (use c in simp)

lemma ends_access_holds:
  assumes x: "externals_ok ax" and ok: "process_ok ax host p" and s: "store_step ax host e p = (p', out)" and e: "ends_access peer e out"
  shows "process_holds ax (not_enrolled ax peer) p'"
proof -
  obtain s0 where p: "p = Serving s0" using s e by (cases p; cases e) auto
  have nr: "\<nexists>d f l. e = SE_Restart d f l" using e by auto
  obtain s1 where p': "p' = Serving s1" by (rule store_step_effect [OF s [unfolded p] ok [unfolded p] nr])
  have m: "membership_step ax host e out (membership_of ax (ss_memory s0)) (membership_of ax (ss_memory s1))"
    by (rule step_refines [OF x ok [unfolded p] nr]) (use s p p' in simp)
  have out: "mb_members (membership_of ax (ss_memory s1)) peer = None"
    using m e by (cases "(peer, e, out)" rule: ends_access.cases) (auto simp: fun_upd_same)
  then have mem: "not_enrolled ax peer (ss_memory s1)" by (simp add: membership_of_def member_of_None not_enrolled_def)
  have "\<exists>st'. s1 = s0\<lparr>ss_directory := saved_directory ax st' (ss_directory s0), ss_memory := st'\<rparr>"
  proof (cases "(peer, e, out)" rule: ends_access.cases)
    case (1 q f now ro)
    then have "store_reset ax f now s0 = (s1, Inr ro)" using s by (cases "store_reset ax f now s0") (auto simp: p p')
    then show ?thesis by (rule store_reset_Inr) blast
  next
    case (2 q f handle now mu)
    then have "store_revoke ax f handle now s0 = (s1, Inr mu)" using s by (cases "store_revoke ax f handle now s0") (auto simp: p p')
    then show ?thesis by (rule store_revoke_Inr) blast
  next
    case (3 q f handle now mu)
    then have "store_replace ax f handle None now s0 = (s1, Inr mu)" using s by (cases "store_replace ax f handle None now s0") (auto simp: p p')
    then show ?thesis by (rule store_replace_Inr) blast
  qed (use e in auto)
  then show ?thesis using mem x by (auto simp: p')
qed

text \<open>
  C30: Whoever lost access stays out. After a successful revocation, removal of all grants or reset, a
  request of that peer without an invitation fails at every later point of the history, through any
  other requests, administration, failed writes and restarts, as long as the peer does not present
  an invitation.
\<close>

theorem ended_access_stays_ended:
  assumes "externals_ok ax"
    and "fst (store_run ax host events (Stopped sd)) =
      us @ (e, out) # vs @ (SE_Authorize d f peer None now, SO_Authorized r) # ws"
    and "ends_access peer e out" "list_all (\<lambda>(e, _). \<not> redeems_for peer e) vs"
  shows "\<not> is_ok r"
proof
  assume "is_ok r"
  then obtain v where r: "r = Inr v" by (auto simp: is_ok_iff)
  obtain q where run: "store_run ax host events (Stopped sd) =
      (us @ (e, out) # vs @ (SE_Authorize d f peer None now, SO_Authorized (Inr v)) # ws, q)"
    using assms(2) r by (metis prod.collapse)
  obtain p1 p2 where 1: "store_run ax host (map fst us) (Stopped sd) = (us, p1)" "store_step ax host e p1 = (p2, out)"
    "store_run ax host (map fst (vs @ (SE_Authorize d f peer None now, SO_Authorized (Inr v)) # ws)) p2 =
       (vs @ (SE_Authorize d f peer None now, SO_Authorized (Inr v)) # ws, q)"
    by (rule store_run_split [OF run])
  obtain p3 p4 where 2: "store_run ax host (map fst vs) p2 = (vs, p3)"
    "store_step ax host (SE_Authorize d f peer None now) p3 = (p4, SO_Authorized (Inr v))"
    by (rule store_run_split [OF 1(3)])
  note ok1 = store_run_ok [OF assms(1) _ 1(1), unfolded process_ok.simps, OF TrueI]
  note ok2 = store_step_ok [OF assms(1) ok1 1(2)]
  note ok3 = store_run_ok [OF assms(1) ok2 2(1)]
  have "process_holds ax (not_enrolled ax peer) p3"
  proof (rule store_run_holds [OF assms(1) ok2 2(1) ends_access_holds [OF assms(1) ok1 1(2) assms(3)]])
    fix e st st'
    assume "e \<in> set (map fst vs)" and h: "not_enrolled ax peer st" "event_candidate ax host e st = Some st'"
    then have "\<not> redeems_for peer e" using assms(4) by (auto simp: list_all_iff)
    then show "not_enrolled ax peer st'" using not_enrolled_candidate [OF assms(1) h(1) _ h(2)] by blast
  qed
  moreover obtain s where s: "p3 = Serving s" "mb_members (membership_of ax (ss_memory s)) peer \<noteq> None"
  proof (rule authorized_step [OF ok3 2(2)])
    fix a b changed st'
    assume a: "p3 = Serving a" "p4 = Serving b"
    then show thesis using that [of a] authorize_refines [OF assms(1) ok3 [unfolded a(1)], of d f peer None now b v] 2(2) by simp
  qed
  ultimately show False by (auto simp: membership_of_def member_of_None not_enrolled_def)
qed

end
