(* ===== verification/Authorization_Durability.thy ===== *)
theory Authorization_Durability
  imports Authorization_Access
begin

text \<open>
  What an administrator and a redeeming portal can rely on: a refused request changes nothing in
  memory, an acknowledged change is what the next process reads from the disk. The only documents
  that are written but cannot be read back are those of exactly the maximal size.
\<close>

section \<open>Reading back\<close>

lemma saved_is_loaded:
  assumes "externals_ok ax" "length (ax_document ax st) < MAX_STATE_FILE_LEN"
  shows "load_state ax draws host (saved_directory ax st sd) = Inr (st, False)"
proof -
  have "ax_document ax st \<noteq> []" "ax_read ax (ax_document ax st @ [10]) = Some st" using assms(1) by (simp_all add: externals_ok_def)
  then show ?thesis
    using assms(2) by (simp add: load_state_def load_existing_def saved_directory_def read_document_def validate_secure_file_def
        private_mode_def)
qed

lemma healthy_open:
  assumes "directory_healthy ax sd"
  shows "store_open ax draws fault True host sd =
    bind_op (sd, load_state ax draws host sd) (\<lambda>sd (st, migrated). finish_open ax fault host st migrated sd)"
proof -
  obtain f where f: "sd_lock sd = Opened f" "validate_secure_file ax f = Inr ()" using assms by (auto simp: directory_healthy_def)
  have "ensure_state_directory ax sd = (sd, Inr ())" using assms by (simp add: ensure_state_directory_def directory_healthy_def)
  moreover have "open_lock ax sd = (sd, Inr ())" by (simp add: open_lock_def f)
  ultimately show ?thesis by (simp add: store_open_def ensure_that_def)
qed

lemma saved_reopens:
  assumes "externals_ok ax" "directory_healthy ax sd" "state_ok ax host st" "length (ax_document ax st) < MAX_STATE_FILE_LEN"
  shows "store_open ax draws fault True host (saved_directory ax st sd) =
    (saved_directory ax st sd, Inr \<lparr>ss_host = host, ss_memory = st, ss_directory = saved_directory ax st sd\<rparr>)"
  using assms(2,3) healthy_open [of ax "saved_directory ax st sd" draws fault host] saved_is_loaded [OF assms(1,4)]
  by (simp add: finish_open_def state_validate_iff [THEN iffD2])

section \<open>Refusals and acknowledgements\<close>

lemma step_durable:
  assumes x: "externals_ok ax" and ok: "process_ok ax host (Serving s)"
    and nr: "\<nexists>d f l. e = SE_Restart d f l" and s: "store_step ax host e (Serving s) = (Serving s', out)"
  shows "\<not> outcome_ok out \<Longrightarrow> ss_memory s' = ss_memory s"
    and "outcome_ok out \<Longrightarrow> s' \<noteq> s \<Longrightarrow> length (ax_document ax (ss_memory s')) < MAX_STATE_FILE_LEN \<Longrightarrow>
      store_open ax draws fault True host (ss_directory s') = (ss_directory s', Inr s')"
proof -
  obtain t where "Serving s' = Serving t" "commit_effect ax s (event_candidate ax host e (ss_memory s)) t (outcome_ok out)"
    by (rule store_step_effect [OF s ok nr])
  then have c: "commit_effect ax s (event_candidate ax host e (ss_memory s)) s' (outcome_ok out)" by simp
  show "ss_memory s' = ss_memory s" if "\<not> outcome_ok out" using c that by (auto simp: commit_effect_def)
  assume w: "outcome_ok out" "s' \<noteq> s" "length (ax_document ax (ss_memory s')) < MAX_STATE_FILE_LEN"
  then obtain st where st: "event_candidate ax host e (ss_memory s) = Some st"
    "s' = s\<lparr>ss_directory := saved_directory ax st (ss_directory s), ss_memory := st\<rparr>"
    using c by (auto simp: commit_effect_def)
  have h: "ss_host s = host" "directory_healthy ax (ss_directory s)" "state_ok ax host (ss_memory s)" using ok by simp_all
  have "s' = \<lparr>ss_host = host, ss_memory = st, ss_directory = saved_directory ax st (ss_directory s)\<rparr>" by (simp add: st(2) h(1))
  then show "store_open ax draws fault True host (ss_directory s') = (ss_directory s', Inr s')"
    using saved_reopens [OF x h(2) event_candidate_ok [OF h(3) x st(1)]] w(3) by simp
qed

text \<open>
  C32: A refused request leaves the document in memory as it was, at whatever point it failed. An
  acknowledged change is durable: opening the directory again, in a new process and with any random
  numbers, gives exactly the document the store holds in memory - for every document below the
  64 KiB bound of the file.
\<close>

theorem acknowledged_changes_are_durable:
  assumes "externals_ok ax" "snd (store_run ax host events (Stopped sd)) = Serving s"
    and "\<nexists>d f l. e = SE_Restart d f l" "store_step ax host e (Serving s) = (Serving s', out)"
  shows "(\<not> outcome_ok out \<longrightarrow> ss_memory s' = ss_memory s) \<and>
    (outcome_ok out \<and> s' \<noteq> s \<and> length (ax_document ax (ss_memory s')) < MAX_STATE_FILE_LEN \<longrightarrow>
      store_open ax draws fault True host (ss_directory s') = (ss_directory s', Inr s'))"
  using step_durable [OF assms(1) reached_ok [OF assms(1,2)] assms(3,4)] by blast

section \<open>The boundary\<close>

text \<open>
  The bound is checked before the line break is appended, so a document of exactly 64 KiB is
  written and acknowledged, and then refused by the next start of the host.
\<close>

lemma largest_document_cannot_be_read_back:
  assumes "state_ok ax host st" "length (ax_document ax st) = MAX_STATE_FILE_LEN"
  shows "write_state ax No_Fault host st sd = (saved_directory ax st sd, Inr ())"
    "load_state ax draws host (saved_directory ax st sd) = Inl (Host ''authorization state exceeds its fixed size bound'')"
  using assms by (simp_all add: write_state_def saved_directory_def state_validate_iff [THEN iffD2] load_state_def
      load_existing_def read_document_def validate_secure_file_def private_mode_def Let_def ensure_that_def)

end
