(* ===== verification/Demo_Store.thy ===== *)
theory Demo_Store
  imports Authorization_State Demo_Crypto
begin

text \<open>
  An instance of the \<open>externals\<close> parameter of the authorization store, so that the properties which
  assume its laws can be applied: endpoint ids as text character by character, and a document format
  that writes every field in order and every list with its length in unary.
\<close>

section \<open>Parsers\<close>

type_synonym 'a reader = "bytes \<Rightarrow> ('a \<times> bytes) option"

definition reads_back :: "('a \<Rightarrow> bytes) \<Rightarrow> 'a reader \<Rightarrow> bool" where
  "reads_back w r \<longleftrightarrow> (\<forall>x rest. r (w x @ rest) = Some (x, rest))"

definition toy_map :: "('a \<Rightarrow> 'b) \<Rightarrow> 'a reader \<Rightarrow> 'b reader" where
  "toy_map f r bs = map_option (map_prod f id) (r bs)"

definition toy_then :: "'a reader \<Rightarrow> 'b reader \<Rightarrow> ('a \<times> 'b) reader" where
  "toy_then r q bs = (case r bs of None \<Rightarrow> None | Some (x, rest) \<Rightarrow> toy_map (Pair x) q rest)"

definition toy_pair :: "('a \<Rightarrow> bytes) \<Rightarrow> ('b \<Rightarrow> bytes) \<Rightarrow> 'a \<times> 'b \<Rightarrow> bytes" where
  "toy_pair v w = (\<lambda>(x, y). v x @ w y)"

definition toy_word :: "'w::len word reader" where
  "toy_word bs = (let n = LENGTH('w) div 8 in if length bs < n then None else Some (from_be_bytes (take n bs), drop n bs))"

definition byte_char :: "u8 \<Rightarrow> char" where "byte_char b = char_of (unat b)"
definition char_byte :: "char \<Rightarrow> u8" where "char_byte c = of_nat (of_char c)"

lemma byte_char_byte [simp]: "byte_char (char_byte c) = c" "char_byte (byte_char b) = b"
proof -
  have "of_char c < (256 :: nat)" by simp
  then have "unat (of_nat (of_char c) :: u8) = of_char c" by (simp add: unat_of_nat)
  then show "byte_char (char_byte c) = c" by (simp add: byte_char_def char_byte_def)
  have "unat b < 256" using unat_lt2p [of b] by simp
  then show "char_byte (byte_char b) = b" by (simp add: byte_char_def char_byte_def of_char_of)
qed

definition toy_char :: "char reader" where
  "toy_char bs = (case bs of [] \<Rightarrow> None | b # rest \<Rightarrow> Some (byte_char b, rest))"

fun toy_times :: "nat \<Rightarrow> 'a reader \<Rightarrow> 'a list reader" where
  "toy_times 0 r bs = Some ([], bs)"
| "toy_times (Suc n) r bs = (case r bs of None \<Rightarrow> None | Some (x, rest) \<Rightarrow> toy_map (Cons x) (toy_times n r) rest)"

definition toy_write_list :: "('a \<Rightarrow> bytes) \<Rightarrow> 'a list \<Rightarrow> bytes" where
  "toy_write_list w xs = replicate (length xs) 1 @ 0 # concat (map w xs)"

definition toy_list :: "'a reader \<Rightarrow> 'a list reader" where
  "toy_list r bs = (let n = length (takeWhile (\<lambda>b. b = 1) bs) in toy_times n r (drop (Suc n) bs))"

definition option_list :: "'a option \<Rightarrow> 'a list" where
  "option_list m = (case m of None \<Rightarrow> [] | Some x \<Rightarrow> [x])"

definition list_option :: "'a list \<Rightarrow> 'a option" where
  "list_option xs = (case xs of [] \<Rightarrow> None | x # _ \<Rightarrow> Some x)"

lemma list_option_list [simp]: "list_option (option_list m) = m"
  by (simp add: list_option_def option_list_def split: option.split)

lemma reads_map: "reads_back w r \<Longrightarrow> (\<And>x. f (g x) = x) \<Longrightarrow> reads_back (\<lambda>x. w (g x)) (toy_map f r)"
  by (simp add: reads_back_def toy_map_def)

lemma reads_pair: "reads_back v r \<Longrightarrow> reads_back w q \<Longrightarrow> reads_back (toy_pair v w) (toy_then r q)"
  by (auto simp: reads_back_def toy_then_def toy_map_def toy_pair_def split: prod.splits)

lemma reads_words: "reads_back to_be_bytes (toy_word :: u8 reader)" "reads_back to_be_bytes (toy_word :: u16 reader)"
  "reads_back to_be_bytes (toy_word :: u64 reader)"
  by (simp_all add: reads_back_def toy_word_def)

lemma reads_char: "reads_back (\<lambda>c. [char_byte c]) toy_char"
  by (simp add: reads_back_def toy_char_def)

lemma reads_times: "reads_back w r \<Longrightarrow> toy_times (length xs) r (concat (map w xs) @ rest) = Some (xs, rest)"
  by (induction xs) (simp_all add: reads_back_def toy_map_def)

lemma reads_list: "reads_back w r \<Longrightarrow> reads_back (toy_write_list w) (toy_list r)"
proof -
  assume r: "reads_back w r"
  have t: "takeWhile (\<lambda>b. b = 1) (replicate n 1 @ 0 # ys) = replicate n (1 :: u8)" for n ys
    by (induction n) simp_all
  show ?thesis
    using reads_times [OF r] by (simp add: reads_back_def toy_write_list_def toy_list_def t Let_def)
qed

lemma reads_option: "reads_back w r \<Longrightarrow> reads_back (\<lambda>m. toy_write_list w (option_list m)) (toy_map list_option (toy_list r))"
  by (rule reads_map [OF reads_list]) simp_all

section \<open>The document\<close>

definition toy_text :: "string \<Rightarrow> bytes" where "toy_text = toy_write_list (\<lambda>c. [char_byte c])"
definition toy_read_text :: "string reader" where "toy_read_text = toy_list toy_char"

definition toy_grant :: "invitation_grants \<Rightarrow> bytes" where "toy_grant g = to_be_bytes (grant_bits g)"
definition toy_read_grant :: "invitation_grants reader" where "toy_read_grant = toy_map InvitationGrants toy_word"

definition toy_grants :: "invitation_grants option \<Rightarrow> bytes" where "toy_grants g = toy_write_list toy_grant (option_list g)"
definition toy_read_grants :: "invitation_grants option reader" where
  "toy_read_grants = toy_map list_option (toy_list toy_read_grant)"

definition toy_enrollment :: "enrollment \<Rightarrow> bytes" where
  "toy_enrollment e = toy_pair toy_text (toy_pair toy_text (toy_pair toy_grant (toy_pair to_be_bytes to_be_bytes)))
     (en_peer_node_id e, en_handle e, en_grants e, en_enrolled_at_unix e, en_authorization_revision e)"

definition toy_read_enrollment :: "enrollment reader" where
  "toy_read_enrollment = toy_map (\<lambda>(p, h, g, t, r). \<lparr>en_peer_node_id = p, en_handle = h, en_grants = g,
       en_enrolled_at_unix = t, en_authorization_revision = r\<rparr>)
     (toy_then toy_read_text (toy_then toy_read_text (toy_then toy_read_grant (toy_then toy_word toy_word))))"

definition toy_consumed :: "consumed_invitation \<Rightarrow> bytes" where
  "toy_consumed c = toy_pair (toy_write_list to_be_bytes) to_be_bytes (ci_nonce c, ci_expires_at_unix c)"

definition toy_read_consumed :: "consumed_invitation reader" where
  "toy_read_consumed = toy_map (\<lambda>(n, t). \<lparr>ci_nonce = n, ci_expires_at_unix = t\<rparr>) (toy_then (toy_list toy_word) toy_word)"

definition action_byte :: "security_audit_action \<Rightarrow> u8" where
  "action_byte a = (case a of SA_Enrolled \<Rightarrow> 0 | SA_GrantsReplaced \<Rightarrow> 1 | SA_Revoked \<Rightarrow> 2 | SA_ResetAll \<Rightarrow> 3 | SA_MigratedV1 \<Rightarrow> 4)"

definition byte_action :: "u8 \<Rightarrow> security_audit_action" where
  "byte_action b = (if b = 0 then SA_Enrolled else if b = 1 then SA_GrantsReplaced else if b = 2 then SA_Revoked
     else if b = 3 then SA_ResetAll else SA_MigratedV1)"

lemma byte_action_byte [simp]: "byte_action (action_byte a) = a"
  by (cases a) (simp_all add: byte_action_def action_byte_def)

definition toy_audit :: "security_audit_entry \<Rightarrow> bytes" where
  "toy_audit a = toy_pair to_be_bytes (toy_pair to_be_bytes (toy_pair (\<lambda>x. to_be_bytes (action_byte x))
       (toy_pair toy_text (toy_pair toy_grants toy_grants))))
     (au_revision a, au_occurred_at_unix a, au_action a, au_handle a, au_previous_grants a, au_current_grants a)"

definition toy_read_audit :: "security_audit_entry reader" where
  "toy_read_audit = toy_map (\<lambda>(r, t, x, h, p, c). \<lparr>au_revision = r, au_occurred_at_unix = t, au_action = x, au_handle = h,
       au_previous_grants = p, au_current_grants = c\<rparr>)
     (toy_then toy_word (toy_then toy_word (toy_then (toy_map byte_action toy_word)
       (toy_then toy_read_text (toy_then toy_read_grants toy_read_grants)))))"

definition toy_state :: "authorization_state \<Rightarrow> bytes" where
  "toy_state st = toy_pair to_be_bytes (toy_pair toy_text (toy_pair to_be_bytes (toy_pair to_be_bytes
       (toy_pair (toy_write_list toy_enrollment) (toy_pair (toy_write_list toy_consumed) (toy_write_list toy_audit))))))
     (az_version st, az_host_node_id st, az_enrollment_epoch st, az_committed_revision st, az_enrollments st,
      az_consumed_invitations st, az_security_audit st)"

definition toy_read_state :: "authorization_state reader" where
  "toy_read_state = toy_map (\<lambda>(v, h, e, r, es, cs, as). \<lparr>az_version = v, az_host_node_id = h, az_enrollment_epoch = e,
       az_committed_revision = r, az_enrollments = es, az_consumed_invitations = cs, az_security_audit = as\<rparr>)
     (toy_then toy_word (toy_then toy_read_text (toy_then toy_word (toy_then toy_word
       (toy_then (toy_list toy_read_enrollment) (toy_then (toy_list toy_read_consumed) (toy_list toy_read_audit)))))))"

lemma reads_texts: "reads_back toy_text toy_read_text" "reads_back toy_grant toy_read_grant" "reads_back toy_grants toy_read_grants"
proof -
  show "reads_back toy_text toy_read_text" unfolding toy_text_def toy_read_text_def by (rule reads_list [OF reads_char])
  show g: "reads_back toy_grant toy_read_grant"
    unfolding toy_grant_def [abs_def] toy_read_grant_def by (rule reads_map [OF reads_words(1)]) simp
  show "reads_back toy_grants toy_read_grants"
    unfolding toy_grants_def [abs_def] toy_read_grants_def by (rule reads_option [OF g])
qed

lemma reads_entries: "reads_back toy_enrollment toy_read_enrollment" "reads_back toy_consumed toy_read_consumed"
  "reads_back toy_audit toy_read_audit"
  unfolding toy_enrollment_def [abs_def] toy_read_enrollment_def toy_consumed_def [abs_def] toy_read_consumed_def
    toy_audit_def [abs_def] toy_read_audit_def
  by (intro reads_map [where w = "toy_pair _ _"] reads_map [where w = to_be_bytes] reads_pair reads_list reads_words reads_texts; simp)+

lemma reads_state: "reads_back toy_state toy_read_state"
  unfolding toy_state_def [abs_def] toy_read_state_def
  by (intro reads_map [where w = "toy_pair _ _"] reads_pair reads_list reads_words reads_texts reads_entries) simp

definition toy_externals :: externals where
  "toy_externals = \<lparr>ax_show = map byte_char, ax_parse = (\<lambda>s. Some (map char_byte s)), ax_document = toy_state,
     ax_read = (\<lambda>bs. case toy_read_state bs of Some (st, rest) \<Rightarrow> (if rest = [10] then Some st else None) | None \<Rightarrow> None),
     ax_read_legacy = (\<lambda>bs. None), ax_crypto = toy_crypto, ax_sha256 = toy_digest, ax_euid = 1000\<rparr>"

lemma toy_state_nonempty: "toy_state st \<noteq> []"
  by (simp add: toy_state_def toy_pair_def toy_text_def toy_write_list_def)

lemma toy_externals_ok: "externals_ok toy_externals"
  using reads_state toy_state_nonempty
  by (auto simp: externals_ok_def toy_externals_def reads_back_def comp_def)

text \<open>The size of a document.\<close>

lemma length_toy_list [simp]: "length (toy_write_list w xs) = length xs + 1 + (\<Sum>x \<leftarrow> xs. length (w x))"
  by (simp add: toy_write_list_def length_concat comp_def)

lemma length_toy_pair [simp]: "length (toy_pair v w (x, y)) = length (v x) + length (w y)"
  by (simp add: toy_pair_def)

lemma length_toy_text [simp]: "length (toy_text s) = 2 * length s + 1"
  by (simp add: toy_text_def sum_list_triv)

lemma length_toy_parts [simp]: "length (toy_grant g) = 1" "length (toy_grants h) \<le> 3"
  by (simp_all add: toy_grant_def toy_grants_def option_list_def split: option.split)

end
