(* ===== verification/Authorization_Demo.thy ===== *)
theory Authorization_Demo
  imports Authorization_Durability Demo_Store Token_Properties
begin

text \<open>
  A history of the store on concrete inputs: a portal redeems an invitation, the host resets, the
  portal redeems a second invitation of the new epoch, reconnects without one, is revoked and is then
  turned away. The properties of the store are applied to it.
\<close>

section \<open>The history\<close>

definition demo_peer :: endpoint_id where "demo_peer = replicate 32 9"

definition demo_claims :: "u64 \<Rightarrow> u8 \<Rightarrow> invitation_claims" where
  "demo_claims epoch n = (demo_invitation epoch)\<lparr>ic_nonce := replicate 32 n\<rparr>"

definition demo_signed :: "u64 \<Rightarrow> u8 \<Rightarrow> signed_invitation" where
  "demo_signed epoch n = \<lparr>si_claims = demo_claims epoch n,
     si_signature = toy_sign demo_key (invitation_signing_message (demo_claims epoch n))\<rparr>"

definition demo_token :: "u64 \<Rightarrow> u8 \<Rightarrow> string" where
  "demo_token epoch n = invitation_encode toy_crypto (demo_signed epoch n)"

definition demo_missing :: state_directory where
  "demo_missing = \<lparr>sd_kind = Dir_Missing, sd_state = Missing, sd_legacy = Missing, sd_lock = Missing\<rparr>"

definition demo_enrolled :: "u64 \<Rightarrow> u64 \<Rightarrow> u64 \<Rightarrow> enrollment" where
  "demo_enrolled random now revision = \<lparr>en_peer_node_id = ax_show toy_externals demo_peer, en_handle = viewer_handle random,
     en_grants = GRANT_VIEW, en_enrolled_at_unix = now, en_authorization_revision = revision\<rparr>"

definition demo_entry :: "u64 \<Rightarrow> u64 \<Rightarrow> security_audit_action \<Rightarrow> u64 \<Rightarrow> bool \<Rightarrow> bool \<Rightarrow> security_audit_entry" where
  "demo_entry revision now action random before after = \<lparr>au_revision = revision, au_occurred_at_unix = now, au_action = action,
     au_handle = viewer_handle random, au_previous_grants = (if before then Some GRANT_VIEW else None),
     au_current_grants = (if after then Some GRANT_VIEW else None)\<rparr>"

definition demo_ledger :: "u8 \<Rightarrow> consumed_invitation" where
  "demo_ledger n = \<lparr>ci_nonce = replicate 32 n, ci_expires_at_unix = 1300\<rparr>"

definition demo_start :: authorization_state where "demo_start = state_empty toy_externals demo_key"

definition demo_first :: authorization_state where
  "demo_first = demo_start\<lparr>az_committed_revision := 2, az_enrollments := [demo_enrolled 5 1100 2],
     az_consumed_invitations := [demo_ledger 1], az_security_audit := [demo_entry 2 1100 SA_Enrolled 5 False True]\<rparr>"

definition demo_reset :: authorization_state where
  "demo_reset = demo_start\<lparr>az_enrollment_epoch := 2, az_committed_revision := 3, az_consumed_invitations := [demo_ledger 1],
     az_security_audit := [demo_entry 2 1100 SA_Enrolled 5 False True, demo_entry 3 1110 SA_ResetAll 5 True False]\<rparr>"

definition demo_second :: authorization_state where
  "demo_second = demo_reset\<lparr>az_committed_revision := 4, az_enrollments := [demo_enrolled 6 1120 4],
     az_consumed_invitations := [demo_ledger 1, demo_ledger 2],
     az_security_audit := [demo_entry 2 1100 SA_Enrolled 5 False True, demo_entry 3 1110 SA_ResetAll 5 True False,
       demo_entry 4 1120 SA_Enrolled 6 False True]\<rparr>"

definition demo_revoked :: authorization_state where
  "demo_revoked = demo_second\<lparr>az_committed_revision := 5, az_enrollments := [],
     az_security_audit := [demo_entry 2 1100 SA_Enrolled 5 False True, demo_entry 3 1110 SA_ResetAll 5 True False,
       demo_entry 4 1120 SA_Enrolled 6 False True, demo_entry 5 1140 SA_Revoked 6 True False]\<rparr>"

definition demo_store :: "authorization_state \<Rightarrow> state_directory \<Rightarrow> authorization_store" where
  "demo_store st sd = \<lparr>ss_host = demo_key, ss_memory = st, ss_directory = sd\<rparr>"

definition demo_open :: state_directory where
  "demo_open = \<lparr>sd_kind = Dir_Present 448 1000, sd_state = Missing, sd_legacy = Missing,
     sd_lock = Opened \<lparr>sf_regular = True, sf_mode = 384, sf_owner = 1000, sf_bytes = []\<rparr>\<rparr>"

definition demo_store_viewer :: "u64 \<Rightarrow> u64 \<Rightarrow> authorized_viewer" where
  "demo_store_viewer random revision = \<lparr>av_handle = viewer_handle random, av_grants = GRANT_VIEW,
     av_authorization_revision = revision, av_committed_revision = revision\<rparr>"

section \<open>Its steps\<close>

lemma demo_view [simp]: "grants_validate GRANT_VIEW = Inr ()" "grants_contains GRANT_VIEW GRANT_VIEW"
  by code_simp+

lemma demo_decode: "n \<noteq> 0 \<Longrightarrow> epoch \<noteq> 0 \<Longrightarrow> invitation_decode toy_crypto (demo_token epoch n) = Inr (demo_signed epoch n)"
proof -
  assume n: "n \<noteq> 0" "epoch \<noteq> 0"
  have typed: "invitation_claims_typed (si_claims (demo_signed epoch n))"
    using demo_typed(1) [of epoch] by (simp add: demo_signed_def demo_claims_def invitation_claims_typed_def)
  have "replicate 32 n \<noteq> replicate 32 0" using n(1) by (simp add: replicate_eq_replicate)
  then have i: "invitation_issue toy_crypto (demo_claims epoch n) demo_key = Inr (demo_signed epoch n)"
    using n(2) by (simp add: invitation_issue_def invitation_claims_validate_def demo_claims_def demo_invitation_def toy_crypto_def
        demo_signed_def demo_key_def MAX_INVITATION_TTL_SECS_def)
  have "length demo_key = 32" by (simp add: demo_key_def)
  note v = invitation_issue_verified [OF toy_crypto_ok this i]
  show "invitation_decode toy_crypto (demo_token epoch n) = Inr (demo_signed epoch n)"
    unfolding demo_token_def by (rule invitation_decode_encode [OF toy_crypto_ok typed v(3,1)])
qed

lemma length_viewer_handle [simp]: "length (viewer_handle random) = 23"
  by (simp add: viewer_handle_def VIEWER_HANDLE_RANDOM_BYTES_def)

lemmas demo_states = demo_start_def state_empty_def demo_first_def demo_reset_def demo_second_def demo_revoked_def

lemma demo_sizes: "st \<in> {demo_start, demo_first, demo_reset, demo_second, demo_revoked} \<Longrightarrow>
  length (ax_document toy_externals st) < MAX_STATE_FILE_LEN"
  by (auto simp: demo_states toy_externals_def toy_state_def toy_enrollment_def toy_consumed_def toy_audit_def demo_enrolled_def
      demo_ledger_def demo_entry_def MAX_STATE_FILE_LEN_def toy_grants_def option_list_def demo_key_def demo_peer_def sum_list_triv)


text \<open>A candidate of a valid document that fits the file is committed.\<close>

lemma commit_succeeds:
  assumes "state_ok ax host st" "length (ax_document ax st) < MAX_STATE_FILE_LEN" "ss_host s = host"
  shows "store_commit ax No_Fault st s = (s\<lparr>ss_directory := saved_directory ax st (ss_directory s), ss_memory := st\<rparr>, Inr ())"
  using assms by (simp add: store_commit_def write_state_def state_validate_iff [THEN iffD2] saved_directory_def Let_def)

lemma demo_host [simp]: "ss_host (demo_store st sd) = demo_key" "ss_memory (demo_store st sd) = st"
  "ss_directory (demo_store st sd) = sd"
  by (simp_all add: demo_store_def)

lemma demo_externals [simp]: "ax_crypto toy_externals = toy_crypto" "ax_parse toy_externals (ax_show toy_externals i) = Some i"
  "ax_euid toy_externals = 1000"
  using toy_externals_ok by (simp_all add: externals_ok_def) (simp_all add: toy_externals_def)

lemma first_draw: "viewer_handle r \<notin> en_handle ` set es \<Longrightarrow> random_viewer_handle (Some r # draws) es = Inr (viewer_handle r)"
  using draw_handle.simps(4) [of 15 r draws "map en_handle es"] by (simp add: random_viewer_handle_def)

lemma demo_unexpired: "saturating_add 1300 INVITATION_CLOCK_SKEW_SECS \<ge> (1150 :: u64)"
  "saturating_add 1300 INVITATION_CLOCK_SKEW_SECS \<ge> (1140 :: u64)"
  "saturating_add 1300 INVITATION_CLOCK_SKEW_SECS \<ge> (1130 :: u64)"
  "saturating_add 1300 INVITATION_CLOCK_SKEW_SECS \<ge> (1120 :: u64)"
  "saturating_add 1300 INVITATION_CLOCK_SKEW_SECS \<ge> (1110 :: u64)"
  "1000 \<le> saturating_add (1100 :: u64) INVITATION_CLOCK_SKEW_SECS"
  "1000 \<le> saturating_add (1120 :: u64) INVITATION_CLOCK_SKEW_SECS"
  by (rule order.trans [OF _ saturating_add_ge], simp)+

lemma demo_revisions: "checked_add (1 :: u64) 1 = Some 2" "checked_add (2 :: u64) 1 = Some 3" "checked_add (3 :: u64) 1 = Some 4"
  "checked_add (4 :: u64) 1 = Some 5"
  by (simp_all add: checked_add_def)

lemma demo_checked: "check_invitation demo_key demo_peer 1100 demo_start (demo_claims 1 1) = Inr ()"
  "check_invitation demo_key demo_peer 1120 demo_reset (demo_claims 2 2) = Inr ()"
proof -
  have "replicate 32 (2 :: u8) \<noteq> replicate 32 1" by (simp add: replicate_eq_replicate)
  then show "check_invitation demo_key demo_peer 1100 demo_start (demo_claims 1 1) = Inr ()"
    "check_invitation demo_key demo_peer 1120 demo_reset (demo_claims 2 2) = Inr ()"
    using demo_unexpired
    by (simp_all add: check_invitation_iff demo_claims_def demo_invitation_def demo_peer_def demo_states demo_ledger_def
        MAX_CONSUMED_INVITATIONS_def)
qed

lemma demo_pruned: "prune_expired 1100 demo_start = (demo_start, False)" "prune_expired 1120 demo_reset = (demo_reset, False)"
  "prune_expired 1130 demo_second = (demo_second, False)" "prune_expired 1150 demo_revoked = (demo_revoked, False)"
  using demo_unexpired by (simp_all add: prune_expired_def demo_states demo_ledger_def Let_def)

lemma redeem_eq:
  assumes "filter (is_peer ax remote) (az_enrollments st) = []" "length (az_enrollments st) < MAX_ENROLLED_VIEWERS"
    "invitation_decode (ax_crypto ax) token = Inr i" "check_invitation host remote now st (si_claims i) = Inr ()"
    "next_revision st = Inr r" "random_viewer_handle draws (az_enrollments st) = Inr h" "prune_expired now st = (st, False)"
  shows "authorize_candidate ax draws host remote (Some token) now st = Inr (enroll ax remote now (si_claims i) r h st, True,
    \<lparr>av_handle = h, av_grants = ic_grants (si_claims i), av_authorization_revision = r, av_committed_revision = r\<rparr>)"
  using assms by (simp add: authorize_candidate_def redeem_invitation_def)

lemma demo_enrolls: "enroll toy_externals demo_peer 1100 (demo_claims 1 1) 2 (viewer_handle 5) demo_start = demo_first"
  "enroll toy_externals demo_peer 1120 (demo_claims 2 2) 4 (viewer_handle 6) demo_reset = demo_second"
  by (simp_all add: enroll_def push_audit_def demo_states demo_enrolled_def demo_entry_def demo_ledger_def demo_claims_def
      demo_invitation_def MAX_SECURITY_AUDIT_ENTRIES_def)

lemma demo_redeems:
  "authorize_candidate toy_externals [Some 5] demo_key demo_peer (Some (demo_token 1 1)) 1100 demo_start =
     Inr (demo_first, True, demo_store_viewer 5 2)"
  "authorize_candidate toy_externals [Some 6] demo_key demo_peer (Some (demo_token 2 2)) 1120 demo_reset =
     Inr (demo_second, True, demo_store_viewer 6 4)"
proof -
  have c: "si_claims (demo_signed e n) = demo_claims e n" "ic_grants (demo_claims e n) = GRANT_VIEW" for e n
    by (simp_all add: demo_signed_def demo_claims_def demo_invitation_def)
  have e: "az_enrollments demo_start = []" "az_enrollments demo_reset = []" "next_revision demo_start = Inr 2"
    "next_revision demo_reset = Inr 4"
    using demo_revisions by (simp_all add: demo_states next_revision_def)
  show "authorize_candidate toy_externals [Some 5] demo_key demo_peer (Some (demo_token 1 1)) 1100 demo_start =
     Inr (demo_first, True, demo_store_viewer 5 2)"
    by (subst redeem_eq [of _ _ _ _ "demo_signed 1 1" _ _ 2 _ "viewer_handle 5"])
      (simp_all add: e c demo_decode demo_checked first_draw demo_pruned demo_enrolls demo_store_viewer_def MAX_ENROLLED_VIEWERS_def)
  show "authorize_candidate toy_externals [Some 6] demo_key demo_peer (Some (demo_token 2 2)) 1120 demo_reset =
     Inr (demo_second, True, demo_store_viewer 6 4)"
    by (subst redeem_eq [of _ _ _ _ "demo_signed 2 2" _ _ 4 _ "viewer_handle 6"])
      (simp_all add: e c demo_decode demo_checked first_draw demo_pruned demo_enrolls demo_store_viewer_def MAX_ENROLLED_VIEWERS_def)
qed

lemma demo_resets: "reset_candidate 1110 demo_first = Inr demo_reset"
  using demo_unexpired demo_revisions
  by (simp add: reset_candidate_def prune_expired_def next_revision_def demo_states demo_ledger_def push_audit_def demo_entry_def
      demo_enrolled_def MAX_SECURITY_AUDIT_ENTRIES_def Let_def)

lemma demo_admits:
  "authorize_candidate toy_externals [] demo_key demo_peer None 1130 demo_second = Inr (demo_second, False, demo_store_viewer 6 4)"
  "authorize_candidate toy_externals [] demo_key demo_peer None 1150 demo_revoked = Inl (Host ''Portal peer is not enrolled'')"
  by (simp_all add: authorize_candidate_def demo_pruned) (simp_all add: admit_enrolled_def is_peer_def demo_states demo_enrolled_def demo_store_viewer_def)

lemma demo_revokes: "revoke_candidate (viewer_handle 6) 1140 demo_second = Inr (demo_revoked, demo_enrolled 6 1120 4, 5)"
  using demo_unexpired demo_revisions
  by (simp add: revoke_candidate_def prune_expired_def next_revision_def demo_states demo_ledger_def push_audit_def demo_entry_def
      demo_enrolled_def MAX_SECURITY_AUDIT_ENTRIES_def remove_nth_def Let_def)


lemma demo_ok: "state_ok toy_externals demo_key demo_start" "state_ok toy_externals demo_key demo_first"
  "state_ok toy_externals demo_key demo_reset" "state_ok toy_externals demo_key demo_second"
  "state_ok toy_externals demo_key demo_revoked"
proof -
  note ok = event_candidate_ok [OF _ toy_externals_ok, of demo_key]
  show 0: "state_ok toy_externals demo_key demo_start" unfolding demo_start_def by (rule state_empty_ok [OF toy_externals_ok])
  show 1: "state_ok toy_externals demo_key demo_first"
    by (rule ok [OF 0, of "SE_Authorize [Some 5] No_Fault demo_peer (Some (demo_token 1 1)) 1100"]) (simp add: demo_redeems)
  show 2: "state_ok toy_externals demo_key demo_reset"
    by (rule ok [OF 1, of "SE_Reset No_Fault 1110"]) (simp add: demo_resets)
  show 3: "state_ok toy_externals demo_key demo_second"
    by (rule ok [OF 2, of "SE_Authorize [Some 6] No_Fault demo_peer (Some (demo_token 2 2)) 1120"]) (simp add: demo_redeems)
  show "state_ok toy_externals demo_key demo_revoked"
    by (rule ok [OF 3, of "SE_Revoke No_Fault (viewer_handle 6) 1140"]) (simp add: demo_revokes)
qed

section \<open>The run\<close>

text \<open>The process that serves \<open>st\<close> from memory and from disk.\<close>

definition demo_serving :: "authorization_state \<Rightarrow> process" where
  "demo_serving st = Serving (demo_store st (saved_directory toy_externals st demo_open))"

definition demo_store_revocation :: authorization_mutation where
  "demo_store_revocation = \<lparr>am_handle = viewer_handle 6, am_peer = demo_peer, am_previous_grants = GRANT_VIEW,
     am_current_grants = None, am_authorization_revision = 5, am_committed_revision = 5\<rparr>"

lemma demo_commits:
  assumes "state_ok toy_externals demo_key st" "st \<in> {demo_first, demo_reset, demo_second, demo_revoked}"
  shows "store_commit toy_externals No_Fault st (demo_store a demo_open) = (demo_store st (saved_directory toy_externals st demo_open), Inr ())"
    "store_commit toy_externals No_Fault st (demo_store a (saved_directory toy_externals b demo_open)) =
      (demo_store st (saved_directory toy_externals st demo_open), Inr ())"
  using commit_succeeds [OF assms(1), of "demo_store a demo_open"] demo_sizes [of st] assms(2)
    commit_succeeds [OF assms(1), of "demo_store a (saved_directory toy_externals b demo_open)"]
  by (auto simp: demo_store_def saved_directory_def)

lemma demo_valid [simp]: "state_validate toy_externals demo_key demo_start = Inr ()"
  "state_validate toy_externals demo_key demo_first = Inr ()" "state_validate toy_externals demo_key demo_reset = Inr ()"
  "state_validate toy_externals demo_key demo_second = Inr ()" "state_validate toy_externals demo_key demo_revoked = Inr ()"
  using demo_ok by (simp_all add: state_validate_iff)

lemma demo_store_steps:
  "store_step toy_externals demo_key (SE_Restart [] No_Fault True) (Stopped demo_missing) =
     (Serving (demo_store demo_start demo_open), SO_Started (Inr ()))"
  "store_step toy_externals demo_key (SE_Authorize [Some 5] No_Fault demo_peer (Some (demo_token 1 1)) 1100)
     (Serving (demo_store demo_start demo_open)) = (demo_serving demo_first, SO_Authorized (Inr (demo_store_viewer 5 2)))"
  "store_step toy_externals demo_key (SE_Reset No_Fault 1110) (demo_serving demo_first) =
     (demo_serving demo_reset, SO_Reset (Inr \<lparr>ro_had_enrollment = True, ro_previous_epoch = 1, ro_current_epoch = 2\<rparr>))"
  "store_step toy_externals demo_key (SE_Authorize [Some 6] No_Fault demo_peer (Some (demo_token 2 2)) 1120) (demo_serving demo_reset) =
     (demo_serving demo_second, SO_Authorized (Inr (demo_store_viewer 6 4)))"
  "store_step toy_externals demo_key (SE_Authorize [] No_Fault demo_peer None 1130) (demo_serving demo_second) =
     (demo_serving demo_second, SO_Authorized (Inr (demo_store_viewer 6 4)))"
  "store_step toy_externals demo_key (SE_Revoke No_Fault (viewer_handle 6) 1140) (demo_serving demo_second) =
     (demo_serving demo_revoked, SO_Mutation (Inr demo_store_revocation))"
  "store_step toy_externals demo_key (SE_Authorize [] No_Fault demo_peer None 1150) (demo_serving demo_revoked) =
     (demo_serving demo_revoked, SO_Authorized (Inl (Host ''Portal peer is not enrolled'')))"
proof -
  show "store_step toy_externals demo_key (SE_Restart [] No_Fault True) (Stopped demo_missing) =
     (Serving (demo_store demo_start demo_open), SO_Started (Inr ()))"
    by (simp add: store_open_def ensure_state_directory_def demo_missing_def open_lock_def load_state_def load_existing_def
        finish_open_def demo_start_def [symmetric] demo_store_def demo_open_def ensure_that_def)
  show "store_step toy_externals demo_key (SE_Authorize [Some 5] No_Fault demo_peer (Some (demo_token 1 1)) 1100)
     (Serving (demo_store demo_start demo_open)) = (demo_serving demo_first, SO_Authorized (Inr (demo_store_viewer 5 2)))"
    by (simp add: store_authorize_def demo_redeems demo_commits [OF demo_ok(2)] demo_serving_def)
  have e: "az_enrollments demo_first \<noteq> []" "az_enrollment_epoch demo_first = 1" "az_enrollment_epoch demo_reset = 2"
    by (simp_all add: demo_states)
  then show "store_step toy_externals demo_key (SE_Reset No_Fault 1110) (demo_serving demo_first) =
     (demo_serving demo_reset, SO_Reset (Inr \<lparr>ro_had_enrollment = True, ro_previous_epoch = 1, ro_current_epoch = 2\<rparr>))"
    by (simp add: store_reset_def demo_resets demo_commits [OF demo_ok(3)] demo_serving_def Let_def)
  show "store_step toy_externals demo_key (SE_Authorize [Some 6] No_Fault demo_peer (Some (demo_token 2 2)) 1120) (demo_serving demo_reset) =
     (demo_serving demo_second, SO_Authorized (Inr (demo_store_viewer 6 4)))"
    by (simp add: store_authorize_def demo_redeems demo_commits [OF demo_ok(4)] demo_serving_def)
  show "store_step toy_externals demo_key (SE_Authorize [] No_Fault demo_peer None 1130) (demo_serving demo_second) =
     (demo_serving demo_second, SO_Authorized (Inr (demo_store_viewer 6 4)))"
    by (simp add: store_authorize_def demo_admits demo_serving_def)
  show "store_step toy_externals demo_key (SE_Authorize [] No_Fault demo_peer None 1150) (demo_serving demo_revoked) =
     (demo_serving demo_revoked, SO_Authorized (Inl (Host ''Portal peer is not enrolled'')))"
    by (simp add: store_authorize_def demo_admits demo_serving_def)
  have "mutation_of toy_externals (demo_enrolled 6 1120 4) None 5 = Inr demo_store_revocation"
    by (simp add: mutation_of_def demo_enrolled_def demo_store_revocation_def)
  then show "store_step toy_externals demo_key (SE_Revoke No_Fault (viewer_handle 6) 1140) (demo_serving demo_second) =
     (demo_serving demo_revoked, SO_Mutation (Inr demo_store_revocation))"
    using viewer_handle_ok by (simp add: store_revoke_def demo_revokes demo_commits [OF demo_ok(5)] demo_serving_def handle_ok_def)
qed

definition demo_log :: "(store_event \<times> store_outcome) list" where
  "demo_log = [(SE_Restart [] No_Fault True, SO_Started (Inr ())),
     (SE_Authorize [Some 5] No_Fault demo_peer (Some (demo_token 1 1)) 1100, SO_Authorized (Inr (demo_store_viewer 5 2))),
     (SE_Reset No_Fault 1110, SO_Reset (Inr \<lparr>ro_had_enrollment = True, ro_previous_epoch = 1, ro_current_epoch = 2\<rparr>)),
     (SE_Authorize [Some 6] No_Fault demo_peer (Some (demo_token 2 2)) 1120, SO_Authorized (Inr (demo_store_viewer 6 4))),
     (SE_Authorize [] No_Fault demo_peer None 1130, SO_Authorized (Inr (demo_store_viewer 6 4))),
     (SE_Revoke No_Fault (viewer_handle 6) 1140, SO_Mutation (Inr demo_store_revocation)),
     (SE_Authorize [] No_Fault demo_peer None 1150, SO_Authorized (Inl (Host ''Portal peer is not enrolled'')))]"

lemma demo_store_run: "store_run toy_externals demo_key (map fst demo_log) (Stopped demo_missing) = (demo_log, demo_serving demo_revoked)"
  unfolding demo_log_def by (simp only: list.map fst_conv store_run.simps demo_store_steps prod.case)


section \<open>The properties on this run\<close>

lemma demo_log_split: "fst (store_run toy_externals demo_key (map fst demo_log) (Stopped demo_missing)) =
    take 1 demo_log @
    (SE_Authorize [Some 5] No_Fault demo_peer (Some (demo_token 1 1)) 1100, SO_Authorized (Inr (demo_store_viewer 5 2))) #
    [(SE_Reset No_Fault 1110, SO_Reset (Inr \<lparr>ro_had_enrollment = True, ro_previous_epoch = 1, ro_current_epoch = 2\<rparr>))] @
    (SE_Authorize [Some 6] No_Fault demo_peer (Some (demo_token 2 2)) 1120, SO_Authorized (Inr (demo_store_viewer 6 4))) # drop 4 demo_log"
  "fst (store_run toy_externals demo_key (map fst demo_log) (Stopped demo_missing)) =
    take 2 demo_log @
    (SE_Reset No_Fault 1110, SO_Reset (Inr \<lparr>ro_had_enrollment = True, ro_previous_epoch = 1, ro_current_epoch = 2\<rparr>)) # [] @
    (SE_Authorize [Some 6] No_Fault demo_peer (Some (demo_token 2 2)) 1120, SO_Authorized (Inr (demo_store_viewer 6 4))) # drop 4 demo_log"
  "fst (store_run toy_externals demo_key (map fst demo_log) (Stopped demo_missing)) =
    take 5 demo_log @ (SE_Revoke No_Fault (viewer_handle 6) 1140, SO_Mutation (Inr demo_store_revocation)) # [] @
    (SE_Authorize [] No_Fault demo_peer None 1150, SO_Authorized (Inl (Host ''Portal peer is not enrolled''))) # []"
  unfolding demo_store_run fst_conv by (simp_all add: demo_log_def)

theorem invitation_enrolls_once_witness:
  "fst (store_run toy_externals demo_key (map fst demo_log) (Stopped demo_missing)) = demo_log \<and>
   si_claims (demo_signed 1 1) \<noteq> si_claims (demo_signed 2 2)"
proof -
  have "clock_from 0 (map fst demo_log)" by (simp add: demo_log_def)
  from invitation_enrolls_once [OF toy_externals_ok this demo_log_split(1), of "demo_signed 1 1" "demo_signed 2 2"]
  show ?thesis by (simp add: demo_decode demo_store_run)
qed

theorem reset_voids_earlier_invitations_witness:
  "fst (store_run toy_externals demo_key (map fst demo_log) (Stopped demo_missing)) = demo_log \<and>
   (1 :: u64) < 2 \<and> 2 \<le> ic_enrollment_epoch (si_claims (demo_signed 2 2))"
  using reset_voids_earlier_invitations [OF toy_externals_ok demo_log_split(2), of "demo_signed 2 2"]
  by (simp add: demo_decode demo_store_run)

lemma demo_reaches: "snd (store_run toy_externals demo_key (map fst demo_log) (Stopped demo_missing)) =
    Serving (demo_store demo_revoked (saved_directory toy_externals demo_revoked demo_open))"
  by (simp add: demo_store_run demo_serving_def)

lemma demo_reaches_start: "snd (store_run toy_externals demo_key (map fst (take 1 demo_log)) (Stopped demo_missing)) =
    Serving (demo_store demo_start demo_open)"
proof -
  have "take 1 demo_log = [(SE_Restart [] No_Fault True, SO_Started (Inr ()))]" by (simp add: demo_log_def)
  then show ?thesis by (simp only: list.map fst_conv store_run.simps demo_store_steps(1) prod.case snd_conv)
qed

theorem served_document_is_valid_witness:
  "state_validate toy_externals demo_key demo_revoked = Inr () \<and> length (az_security_audit demo_revoked) \<le> 64 \<and>
   distinct (map ci_nonce (az_consumed_invitations demo_revoked))"
  using served_document_is_valid [OF toy_externals_ok demo_reaches] by (simp only: demo_host)

theorem ended_access_stays_ended_witness:
  "\<not> is_ok (Inl (Host ''Portal peer is not enrolled'') :: authorized_viewer host) \<and>
   fst (store_run toy_externals demo_key (map fst demo_log) (Stopped demo_missing)) = demo_log"
  using ended_access_stays_ended [OF toy_externals_ok demo_log_split(3)] by (simp add: demo_store_run demo_store_revocation_def)

theorem store_refines_membership_witness:
  "membership_step toy_externals demo_key (SE_Authorize [Some 5] No_Fault demo_peer (Some (demo_token 1 1)) 1100)
     (SO_Authorized (Inr (demo_store_viewer 5 2))) (membership_of toy_externals demo_start) (membership_of toy_externals demo_first)"
  using store_refines_membership [OF toy_externals_ok demo_reaches_start _ demo_store_steps(2) [unfolded demo_serving_def]] by simp

theorem acknowledged_changes_are_durable_witness:
  "store_open toy_externals [] No_Fault True demo_key (saved_directory toy_externals demo_first demo_open) =
     (saved_directory toy_externals demo_first demo_open, Inr (demo_store demo_first (saved_directory toy_externals demo_first demo_open)))"
proof -
  have "demo_store demo_first (saved_directory toy_externals demo_first demo_open) \<noteq> demo_store demo_start demo_open"
    by (simp add: demo_store_def demo_states)
  then show ?thesis
    using acknowledged_changes_are_durable [OF toy_externals_ok demo_reaches_start _ demo_store_steps(2) [unfolded demo_serving_def], of "[]" No_Fault]
      demo_sizes [of demo_first] by simp
qed

end
