(* ===== verification/Media_Catalog.thy ===== *)
theory Media_Catalog
  imports Media_Auth Rate_Window
begin

text \<open>
  The catalog of a broadcast (\<open>crates/sigil-protocol/src/moq_catalog.rs\<close>): the immutable document
  that tells a viewer the tracks, their formats and, in version 2, the certificate of the generation.
  The host builds and publishes it (\<open>crates/sigil-host/src/moq_catalog.rs\<close>), Portal reads it and
  selects its tracks (\<open>src-tauri/src/media/moq_catalog.rs\<close>).

  The standard part of the document, \<open>hang::Catalog\<close>, belongs to another crate: it is the type
  parameter, and its default value an argument. JSON text is an argument of the functions that use it.
\<close>

section \<open>Documents\<close>

definition MOQ_CATALOG_EXTENSION_VERSION_V1 :: u16 where "MOQ_CATALOG_EXTENSION_VERSION_V1 = 1"
definition MOQ_CATALOG_EXTENSION_VERSION_V2 :: u16 where "MOQ_CATALOG_EXTENSION_VERSION_V2 = 2"
definition MAX_MOQ_CATALOG_BYTES :: nat where "MAX_MOQ_CATALOG_BYTES = 4 * 1024"
definition MOQ_MEDIA_OBJECT_FORMAT_V1 :: string where "MOQ_MEDIA_OBJECT_FORMAT_V1 = ''sigil/media-frame/1''"
definition MOQ_AUTHENTICATED_MEDIA_OBJECT_FORMAT_V1 :: string where
  "MOQ_AUTHENTICATED_MEDIA_OBJECT_FORMAT_V1 = ''sigil/authenticated-media-object/1''"
definition MOQ_GOP_GROUP_FORMAT_V1 :: string where "MOQ_GOP_GROUP_FORMAT_V1 = ''sigil/moq-gop/1''"
definition MOQ_AUDIO_OBJECT_FORMAT_V1 :: string where "MOQ_AUDIO_OBJECT_FORMAT_V1 = ''sigil/audio-packet/1''"
definition MOQ_AUDIO_GROUP_FORMAT_V1 :: string where "MOQ_AUDIO_GROUP_FORMAT_V1 = ''sigil/moq-audio-group/1''"
definition MOQ_VIDEO_TRACK_PRIORITY :: u8 where "MOQ_VIDEO_TRACK_PRIORITY = - 1"
definition MOQ_AUDIO_TRACK_PRIORITY :: u8 where "MOQ_AUDIO_TRACK_PRIORITY = - 1 - 1"
definition MOQ_VIDEO_H264_TRACK :: string where "MOQ_VIDEO_H264_TRACK = ''video/h264''"
definition MOQ_AUDIO_OPUS_TRACK :: string where "MOQ_AUDIO_OPUS_TRACK = ''audio/opus''"

definition auth_mode_label :: "media_auth_mode \<Rightarrow> string" where
  "auth_mode_label mode = (case mode of Ed25519 \<Rightarrow> ''ed25519-v1'')"

record moq_track_descriptor =
  td_name :: string
  td_priority :: u8

record moq_video_catalog_v1 =
  vc1_track :: moq_track_descriptor
  vc1_codec :: string
  vc1_object_format :: string
  vc1_group_format :: string

record moq_catalog_extension_v1 =
  ce1_version :: u16
  ce1_video :: moq_video_catalog_v1

record moq_track_authentication =
  ta_mode :: string
  ta_object_format :: string
  ta_generation_certificate :: string

record moq_video_catalog_v2 =
  vc2_track :: moq_track_descriptor
  vc2_codec :: string
  vc2_payload_format :: string
  vc2_group_format :: string
  vc2_authentication :: moq_track_authentication

record moq_audio_catalog_v2 =
  ac2_track :: moq_track_descriptor
  ac2_codec :: string
  ac2_sample_rate :: u32
  ac2_channels :: u8
  ac2_frame_samples :: u16
  ac2_payload_format :: string
  ac2_group_format :: string
  ac2_authentication :: moq_track_authentication

record moq_catalog_extension_v2 =
  ce2_version :: u16
  ce2_generation_id :: u64
  ce2_video :: moq_video_catalog_v2
  ce2_audio :: "moq_audio_catalog_v2 option"

record 'h goq_catalog_document =
  gd1_media :: 'h
  gd1_goq :: moq_catalog_extension_v1

record 'h goq_catalog_document_v2 =
  gd2_media :: 'h
  gd2_goq :: moq_catalog_extension_v2

section \<open>Version 1\<close>

definition extension_v1_video_h264 :: moq_catalog_extension_v1 where
  "extension_v1_video_h264 = \<lparr>ce1_version = MOQ_CATALOG_EXTENSION_VERSION_V1,
     ce1_video = \<lparr>vc1_track = \<lparr>td_name = MOQ_VIDEO_H264_TRACK, td_priority = MOQ_VIDEO_TRACK_PRIORITY\<rparr>, vc1_codec = ''h264'',
       vc1_object_format = MOQ_MEDIA_OBJECT_FORMAT_V1, vc1_group_format = MOQ_GOP_GROUP_FORMAT_V1\<rparr>\<rparr>"

definition extension_v1_validate :: "moq_catalog_extension_v1 \<Rightarrow> unit proto" where
  "extension_v1_validate e =
     (if ce1_version e \<noteq> MOQ_CATALOG_EXTENSION_VERSION_V1
      then invalid ''Goq MoQ catalog extension'' ''unsupported extension version''
      else if td_name (vc1_track (ce1_video e)) \<noteq> MOQ_VIDEO_H264_TRACK
      then invalid ''Goq MoQ catalog extension'' ''unexpected video track name''
      else if td_priority (vc1_track (ce1_video e)) \<noteq> MOQ_VIDEO_TRACK_PRIORITY
      then invalid ''Goq MoQ catalog extension'' ''unexpected video track priority''
      else if vc1_codec (ce1_video e) \<noteq> ''h264''
      then invalid ''Goq MoQ catalog extension'' ''unsupported video codec''
      else if vc1_object_format (ce1_video e) \<noteq> MOQ_MEDIA_OBJECT_FORMAT_V1
      then invalid ''Goq MoQ catalog extension'' ''unsupported media object format''
      else if vc1_group_format (ce1_video e) \<noteq> MOQ_GOP_GROUP_FORMAT_V1
      then invalid ''Goq MoQ catalog extension'' ''unsupported GOP group format''
      else Inr ())"

definition document_v1_video_h264 :: "'h \<Rightarrow> 'h goq_catalog_document" where
  "document_v1_video_h264 hang_default = \<lparr>gd1_media = hang_default, gd1_goq = extension_v1_video_h264\<rparr>"

definition document_v1_validate :: "'h \<Rightarrow> 'h goq_catalog_document \<Rightarrow> unit proto" where
  "document_v1_validate hang_default d =
     (if gd1_media d \<noteq> hang_default
      then invalid ''Goq MoQ catalog document''
        ''catalog must not advertise a standard Hang rendition for enveloped media''
      else extension_v1_validate (gd1_goq d))"

section \<open>Version 2\<close>

definition invalid_v2 :: "string \<Rightarrow> 'a proto" where
  "invalid_v2 reason = invalid ''Goq MoQ catalog extension v2'' reason"

definition track_authentication :: "crypto \<Rightarrow> signed_certificate \<Rightarrow> moq_track_authentication" where
  "track_authentication c certificate = \<lparr>ta_mode = auth_mode_label Ed25519,
     ta_object_format = MOQ_AUTHENTICATED_MEDIA_OBJECT_FORMAT_V1,
     ta_generation_certificate = certificate_encode c certificate\<rparr>"

definition audio_contract :: "moq_audio_catalog_v2 \<Rightarrow> string \<Rightarrow> bool" where
  "audio_contract a video_certificate \<longleftrightarrow>
     td_name (ac2_track a) = MOQ_AUDIO_OPUS_TRACK \<and> td_priority (ac2_track a) = MOQ_AUDIO_TRACK_PRIORITY \<and>
     ac2_codec a = ''opus'' \<and> ac2_sample_rate a = OPUS_SAMPLE_RATE \<and> ac2_channels a = OPUS_CHANNELS \<and>
     ac2_frame_samples a = OPUS_FRAME_SAMPLES \<and> ac2_payload_format a = MOQ_AUDIO_OBJECT_FORMAT_V1 \<and>
     ac2_group_format a = MOQ_AUDIO_GROUP_FORMAT_V1 \<and> ta_mode (ac2_authentication a) = auth_mode_label Ed25519 \<and>
     ta_object_format (ac2_authentication a) = MOQ_AUTHENTICATED_MEDIA_OBJECT_FORMAT_V1 \<and>
     ta_generation_certificate (ac2_authentication a) = video_certificate"

definition extension_v2_validate :: "crypto \<Rightarrow> moq_catalog_extension_v2 \<Rightarrow> signed_certificate proto" where
  "extension_v2_validate c e =
     (let v = ce2_video e; auth = vc2_authentication v in
      if ce2_version e \<noteq> MOQ_CATALOG_EXTENSION_VERSION_V2 \<or> ce2_generation_id e = 0
      then invalid_v2 ''unsupported extension version or zero generation''
      else if td_name (vc2_track v) \<noteq> MOQ_VIDEO_H264_TRACK \<or> td_priority (vc2_track v) \<noteq> MOQ_VIDEO_TRACK_PRIORITY \<or>
        vc2_codec v \<noteq> ''h264'' \<or> vc2_payload_format v \<noteq> MOQ_MEDIA_OBJECT_FORMAT_V1 \<or>
        vc2_group_format v \<noteq> MOQ_GOP_GROUP_FORMAT_V1
      then invalid_v2 ''video track contract does not match authenticated H.264''
      else if ta_mode auth \<noteq> auth_mode_label Ed25519 \<or>
        ta_object_format auth \<noteq> MOQ_AUTHENTICATED_MEDIA_OBJECT_FORMAT_V1 \<or>
        take (length MEDIA_GENERATION_CERTIFICATE_TOKEN_PREFIX) (ta_generation_certificate auth)
          \<noteq> MEDIA_GENERATION_CERTIFICATE_TOKEN_PREFIX
      then invalid_v2 ''unknown or malformed media authentication contract''
      else if case ce2_audio e of None \<Rightarrow> False | Some a \<Rightarrow> \<not> audio_contract a (ta_generation_certificate auth)
      then invalid_v2 ''audio track contract does not match authenticated Opus''
      else bind_res (certificate_decode c (ta_generation_certificate auth)) (\<lambda>certificate.
        if gc_generation_id (cert_claims certificate) \<noteq> ce2_generation_id e \<or>
          gc_authentication_mode (cert_claims certificate) \<noteq> Ed25519
        then invalid_v2 ''generation certificate does not match the catalog generation''
        else Inr certificate))"

definition extension_v2_video_h264 :: "crypto \<Rightarrow> u64 \<Rightarrow> signed_certificate \<Rightarrow> moq_catalog_extension_v2 proto" where
  "extension_v2_video_h264 c generation_id certificate =
     (let extension = \<lparr>ce2_version = MOQ_CATALOG_EXTENSION_VERSION_V2, ce2_generation_id = generation_id,
        ce2_video = \<lparr>vc2_track = \<lparr>td_name = MOQ_VIDEO_H264_TRACK, td_priority = MOQ_VIDEO_TRACK_PRIORITY\<rparr>, vc2_codec = ''h264'',
          vc2_payload_format = MOQ_MEDIA_OBJECT_FORMAT_V1, vc2_group_format = MOQ_GOP_GROUP_FORMAT_V1,
          vc2_authentication = track_authentication c certificate\<rparr>,
        ce2_audio = None\<rparr> in
      bind_res (extension_v2_validate c extension) (\<lambda>_. Inr extension))"

definition extension_v2_video_h264_opus :: "crypto \<Rightarrow> u64 \<Rightarrow> signed_certificate \<Rightarrow> moq_catalog_extension_v2 proto" where
  "extension_v2_video_h264_opus c generation_id certificate =
     bind_res (extension_v2_video_h264 c generation_id certificate) (\<lambda>video.
     let extension = video\<lparr>ce2_audio := Some \<lparr>ac2_track = \<lparr>td_name = MOQ_AUDIO_OPUS_TRACK, td_priority = MOQ_AUDIO_TRACK_PRIORITY\<rparr>,
          ac2_codec = ''opus'', ac2_sample_rate = OPUS_SAMPLE_RATE, ac2_channels = OPUS_CHANNELS,
          ac2_frame_samples = OPUS_FRAME_SAMPLES, ac2_payload_format = MOQ_AUDIO_OBJECT_FORMAT_V1,
          ac2_group_format = MOQ_AUDIO_GROUP_FORMAT_V1, ac2_authentication = track_authentication c certificate\<rparr>\<rparr> in
     bind_res (extension_v2_validate c extension) (\<lambda>_. Inr extension))"

definition document_v2_video_h264 :: "crypto \<Rightarrow> 'h \<Rightarrow> u64 \<Rightarrow> signed_certificate \<Rightarrow> 'h goq_catalog_document_v2 proto" where
  "document_v2_video_h264 c hang_default generation_id certificate =
     bind_res (extension_v2_video_h264 c generation_id certificate) (\<lambda>e. Inr \<lparr>gd2_media = hang_default, gd2_goq = e\<rparr>)"

definition document_v2_video_h264_opus :: "crypto \<Rightarrow> 'h \<Rightarrow> u64 \<Rightarrow> signed_certificate \<Rightarrow> 'h goq_catalog_document_v2 proto" where
  "document_v2_video_h264_opus c hang_default generation_id certificate =
     bind_res (extension_v2_video_h264_opus c generation_id certificate) (\<lambda>e. Inr \<lparr>gd2_media = hang_default, gd2_goq = e\<rparr>)"

definition document_v2_validate :: "crypto \<Rightarrow> 'h \<Rightarrow> 'h goq_catalog_document_v2 \<Rightarrow> signed_certificate proto" where
  "document_v2_validate c hang_default d =
     (if gd2_media d \<noteq> hang_default
      then invalid ''Goq MoQ catalog document v2''
        ''catalog must not advertise a standard Hang rendition for enveloped media''
      else extension_v2_validate c (gd2_goq d))"

section \<open>The host publishes\<close>

text \<open>
  \<open>to_json\<close> is the serializer, with its failure; \<open>producer\<close> tells what creating the catalog track and
  writing the group return. The value is the document a subscriber of \<open>catalog.json\<close> reads.
\<close>

record catalog_producer =
  cp_create_track :: "unit host"
  cp_update :: "unit host"

definition publish_goq_catalog ::
  "'h \<Rightarrow> ('h goq_catalog_document \<Rightarrow> bytes host) \<Rightarrow> catalog_producer \<Rightarrow> 'h goq_catalog_document host" where
  "publish_goq_catalog hang_default to_json producer =
     bind_res (cp_create_track producer) (\<lambda>_.
     let document = document_v1_video_h264 hang_default in
     bind_res (lift_proto (document_v1_validate hang_default document)) (\<lambda>_.
     bind_res (to_json document) (\<lambda>snapshot.
     bind_res (ensure_that (length snapshot \<le> MAX_MOQ_CATALOG_BYTES) (Host ''Goq catalog snapshot exceeds its bound'')) (\<lambda>_.
     bind_res (cp_update producer) (\<lambda>_. Inr document)))))"

definition publish_goq_catalog_v2 ::
  "crypto \<Rightarrow> 'h \<Rightarrow> ('h goq_catalog_document_v2 \<Rightarrow> bytes host) \<Rightarrow> catalog_producer \<Rightarrow> u64 \<Rightarrow> signed_certificate \<Rightarrow> bool \<Rightarrow>
   'h goq_catalog_document_v2 host" where
  "publish_goq_catalog_v2 c hang_default to_json producer generation_id certificate audio_enabled =
     bind_res (cp_create_track producer) (\<lambda>_.
     bind_res (lift_proto (if audio_enabled then document_v2_video_h264_opus c hang_default generation_id certificate
       else document_v2_video_h264 c hang_default generation_id certificate)) (\<lambda>document.
     bind_res (lift_proto (document_v2_validate c hang_default document)) (\<lambda>_.
     bind_res (to_json document) (\<lambda>snapshot.
     bind_res (ensure_that (length snapshot \<le> MAX_MOQ_CATALOG_BYTES)
       (Host ''authenticated Goq catalog snapshot exceeds its bound'')) (\<lambda>_.
     bind_res (cp_update producer) (\<lambda>_. Inr document))))))"

section \<open>Portal selects\<close>

datatype moq_catalog_mode = GoqV2Authenticated | GoqV1 | AbsentStaticTrackCompat

definition catalog_mode_label :: "moq_catalog_mode \<Rightarrow> string" where
  "catalog_mode_label mode = (case mode of GoqV2Authenticated \<Rightarrow> ''goq-v2-authenticated'' | GoqV1 \<Rightarrow> ''goq-v1''
     | AbsentStaticTrackCompat \<Rightarrow> ''absent-static-track-compat'')"

record moq_catalog_selection =
  cs_track :: string
  cs_audio_track :: "string option"
  cs_mode :: moq_catalog_mode
  cs_certificate :: "signed_certificate option"

text \<open>
  What the broadcast of a peer does: which tracks can be subscribed, and what reading the first group
  of the catalog track gives - a timeout, \<open>NotFound\<close>, another error, the end of the track, or a group
  with its sequence number and its frames, \<open>Inl\<close> where reading them fails or times out.
\<close>

datatype subscription = Subscribed | Track_Not_Found | Track_Failed

datatype catalog_read =
    Read_Timeout
  | Read_Not_Found
  | Read_Failed
  | Read_Ended
  | Read_Group u64 "string + bytes list"

record broadcast_consumer =
  bs_track :: "string \<Rightarrow> subscription"
  bs_catalog_track :: subscription
  bs_catalog :: catalog_read

definition read_catalog_snapshot :: "catalog_read \<Rightarrow> string + bytes" where
  "read_catalog_snapshot r =
     (case r of
        Read_Timeout \<Rightarrow> Inl ''Timed out waiting for Goq catalog snapshot''
      | Read_Not_Found \<Rightarrow> Inl ''catalog-not-found''
      | Read_Failed \<Rightarrow> Inl ''Failed to read Goq catalog snapshot''
      | Read_Ended \<Rightarrow> Inl ''Goq catalog track ended before its snapshot''
      | Read_Group sequence frames \<Rightarrow>
          if sequence \<noteq> 0 then Inl ''Goq catalog snapshot must be immutable group 0''
          else (case frames of
            Inl e \<Rightarrow> Inl e
          | Inr [frame] \<Rightarrow>
              if MAX_MOQ_CATALOG_BYTES < length frame then Inl ''Goq catalog snapshot exceeds its bound'' else Inr frame
          | Inr _ \<Rightarrow> Inl ''Goq catalog snapshot group must contain exactly one frame''))"

definition subscribe_to :: "broadcast_consumer \<Rightarrow> string \<Rightarrow> string \<Rightarrow> string + string" where
  "subscribe_to b name what = (if bs_track b name = Subscribed then Inr name else Inl what)"

definition subscribe_static_video_track :: "broadcast_consumer \<Rightarrow> string + moq_catalog_selection" where
  "subscribe_static_video_track b =
     bind_res (subscribe_to b MOQ_VIDEO_H264_TRACK ''Failed to subscribe to static MoQ H.264 compatibility track'') (\<lambda>track.
     Inr \<lparr>cs_track = track, cs_audio_track = None, cs_mode = AbsentStaticTrackCompat, cs_certificate = None\<rparr>)"

definition proto_text :: "string \<Rightarrow> 'a proto \<Rightarrow> string + 'a" where
  "proto_text what r = (case r of Inl e \<Rightarrow> Inl what | Inr x \<Rightarrow> Inr x)"

definition subscribe_goq_video_track ::
  "'h \<Rightarrow> (bytes \<Rightarrow> 'h goq_catalog_document option) \<Rightarrow> broadcast_consumer \<Rightarrow> string + moq_catalog_selection" where
  "subscribe_goq_video_track hang_default of_json b =
     (case bs_catalog_track b of
        Track_Not_Found \<Rightarrow> subscribe_static_video_track b
      | Track_Failed \<Rightarrow> Inl ''Failed to subscribe to catalog.json track''
      | Subscribed \<Rightarrow>
        (case read_catalog_snapshot (bs_catalog b) of
           Inl e \<Rightarrow> if e = ''catalog-not-found'' then subscribe_static_video_track b else Inl e
         | Inr snapshot \<Rightarrow>
           (case of_json snapshot of
              None \<Rightarrow> Inl ''Failed to decode Goq catalog snapshot''
            | Some document \<Rightarrow>
              bind_res (proto_text ''Invalid Goq catalog'' (document_v1_validate hang_default document)) (\<lambda>_.
              bind_res (subscribe_to b (td_name (vc1_track (ce1_video (gd1_goq document))))
                ''Failed to subscribe to catalog-selected Goq video track'') (\<lambda>track.
              Inr \<lparr>cs_track = track, cs_audio_track = None, cs_mode = GoqV1, cs_certificate = None\<rparr>)))))"

definition subscribe_authenticated_goq_video_track ::
  "crypto \<Rightarrow> 'h \<Rightarrow> (bytes \<Rightarrow> 'h goq_catalog_document_v2 option) \<Rightarrow> broadcast_consumer \<Rightarrow> bytes \<Rightarrow> u64 \<Rightarrow> u64 \<Rightarrow>
   string + moq_catalog_selection" where
  "subscribe_authenticated_goq_video_track c hang_default of_json b expected_host expected_generation now_unix =
     bind_res (if bs_catalog_track b = Subscribed then Inr () else Inl ''Authenticated v2 media requires catalog.json'') (\<lambda>_.
     bind_res (read_catalog_snapshot (bs_catalog b)) (\<lambda>snapshot.
     case of_json snapshot of
       None \<Rightarrow> Inl ''Failed to decode authenticated Goq catalog''
     | Some document \<Rightarrow>
       bind_res (proto_text ''Invalid authenticated Goq catalog'' (document_v2_validate c hang_default document)) (\<lambda>certificate.
       bind_res (proto_text ''Invalid media generation certificate''
         (certificate_verify_binding c certificate expected_host expected_generation now_unix)) (\<lambda>_.
       bind_res (subscribe_to b (td_name (vc2_track (ce2_video (gd2_goq document))))
         ''Failed to subscribe to authenticated Goq video track'') (\<lambda>track.
       bind_res (case ce2_audio (gd2_goq document) of
           None \<Rightarrow> Inr None
         | Some audio \<Rightarrow> bind_res (subscribe_to b (td_name (ac2_track audio))
             ''Failed to subscribe to authenticated Goq audio track'') (\<lambda>name. Inr (Some name))) (\<lambda>audio_track.
       Inr \<lparr>cs_track = track, cs_audio_track = audio_track, cs_mode = GoqV2Authenticated, cs_certificate = Some certificate\<rparr>))))))"

end
