(* ===== verification/Generation_Manager.thy ===== *)
theory Generation_Manager
  imports Media_Catalog "HOL-Library.Multiset"
begin

text \<open>
  The shared media generation (\<open>crates/sigil-host/src/server/generation.rs\<close>): the first viewer's
  control task starts the one capture, encoder and broadcast, further viewers lease it, and the last
  release stops it. Every part of \<open>acquire\<close> and \<open>release\<close> between two awaits holds the lock and is one
  function here; the tasks that are between those parts are a multiset of phases, and a step moves
  one of them.
\<close>

section \<open>A generation\<close>

record 'h generation_shared =
  gs_generation_id :: u64
  gs_broadcast_name :: string
  gs_certificate :: signed_certificate
  gs_audio_enabled :: bool
  gs_catalog :: "'h goq_catalog_document_v2"

text \<open>What the system gives a start: the outcome of everything that is not this program's computation.\<close>

record start_inputs =
  gi_source :: "unit host"
  gi_generation_secret :: "bytes host"
  gi_issued_at_unix :: "u64 host"
  gi_video_track :: "unit host"
  gi_audio_track :: "unit host"
  gi_producer :: catalog_producer
  gi_adaptive :: "unit host"
  gi_audio_source :: "unit host"

text \<open>\<open>getrandom\<close> fills an array of 32 bytes.\<close>

definition inputs_typed :: "start_inputs \<Rightarrow> bool" where
  "inputs_typed inputs \<longleftrightarrow> (case gi_generation_secret inputs of Inr key \<Rightarrow> length key = 32 | Inl e \<Rightarrow> True)"

text \<open>What does not change between starts: the cryptography, the JSON crate, the host's key, the configuration.\<close>

record 'h generation_environment =
  ge_crypto :: crypto
  ge_hang_default :: 'h
  ge_to_json :: "'h goq_catalog_document_v2 \<Rightarrow> bytes host"
  ge_host_secret :: bytes
  ge_audio :: bool

definition CERTIFICATE_LIFETIME_SECS :: u64 where "CERTIFICATE_LIFETIME_SECS = 60 * 60"

definition generation_start :: "'h generation_environment \<Rightarrow> start_inputs \<Rightarrow> u64 \<Rightarrow> 'h generation_shared host" where
  "generation_start env inputs generation_id =
     bind_res (gi_source inputs) (\<lambda>_.
     bind_res (gi_generation_secret inputs) (\<lambda>generation_secret.
     bind_res (gi_issued_at_unix inputs) (\<lambda>issued_at_unix.
     bind_res (lift_proto (certify (ge_crypto env) generation_secret (public_key_of (ge_crypto env) (ge_host_secret env))
       (ge_host_secret env) generation_id issued_at_unix (saturating_add issued_at_unix CERTIFICATE_LIFETIME_SECS))) (\<lambda>certificate.
     bind_res (gi_video_track inputs) (\<lambda>_.
     bind_res (if ge_audio env then gi_audio_track inputs else Inr ()) (\<lambda>_.
     bind_res (publish_goq_catalog_v2 (ge_crypto env) (ge_hang_default env) (ge_to_json env) (gi_producer inputs)
       generation_id certificate (ge_audio env)) (\<lambda>catalog.
     bind_res (lift_proto (media_generation_moq_broadcast_name generation_id)) (\<lambda>broadcast_name.
     bind_res (gi_adaptive inputs) (\<lambda>_.
     bind_res (if ge_audio env then gi_audio_source inputs else Inr ()) (\<lambda>_.
     Inr \<lparr>gs_generation_id = generation_id, gs_broadcast_name = broadcast_name, gs_certificate = certificate,
          gs_audio_enabled = ge_audio env, gs_catalog = catalog\<rparr>))))))))))"

section \<open>The manager\<close>

datatype media_generation_lifecycle = Idle | Starting | Active | Stopping

text \<open>\<open>mg_broadcasts\<close> are the generations whose broadcast can still be subscribed.\<close>

record 'h media_generation_manager =
  mg_next_generation_id :: u64
  mg_lifecycle :: media_generation_lifecycle
  mg_active :: "'h generation_shared option"
  mg_leases :: u64
  mg_starts :: u64
  mg_stops :: u64
  mg_recovering_viewers :: nat
  mg_broadcasts :: "u64 list"

definition manager_new :: "'h media_generation_manager" where
  "manager_new = \<lparr>mg_next_generation_id = 0, mg_lifecycle = Idle, mg_active = None, mg_leases = 0, mg_starts = 0,
     mg_stops = 0, mg_recovering_viewers = 0, mg_broadcasts = []\<rparr>"

datatype 'h acquire_progress =
    Acquire_Ready "'h generation_shared"
  | Acquire_Start u64
  | Acquire_Wait
  | Acquire_Failed host_error

definition acquire_enter :: "'h media_generation_manager \<Rightarrow> 'h media_generation_manager \<times> 'h acquire_progress" where
  "acquire_enter m =
     (case mg_lifecycle m of
        Active \<Rightarrow>
          (case checked_add (mg_leases m) 1 of
             None \<Rightarrow> (m, Acquire_Failed (Host ''media generation lease count overflowed''))
           | Some leases \<Rightarrow>
             (m\<lparr>mg_leases := leases\<rparr>,
              case mg_active m of None \<Rightarrow> Acquire_Failed (Host ''active generation has no resources'')
              | Some shared \<Rightarrow> Acquire_Ready shared))
      | Idle \<Rightarrow>
          (m\<lparr>mg_lifecycle := Starting, mg_next_generation_id := mg_next_generation_id m + 1\<rparr>,
           case checked_add (mg_next_generation_id m) 1 of
             None \<Rightarrow> Acquire_Failed (Host ''media generation id overflowed'')
           | Some generation_id \<Rightarrow> Acquire_Start generation_id)
      | _ \<Rightarrow> (m, Acquire_Wait))"

definition acquire_finish ::
  "'h generation_shared host \<Rightarrow> 'h media_generation_manager \<Rightarrow> 'h media_generation_manager \<times> 'h generation_shared host" where
  "acquire_finish result m =
     (case result of
        Inr shared \<Rightarrow>
          (m\<lparr>mg_active := Some shared, mg_leases := 1, mg_lifecycle := Active, mg_starts := mg_starts m + 1,
             mg_broadcasts := gs_generation_id shared # mg_broadcasts m\<rparr>, Inr shared)
      | Inl e \<Rightarrow> (m\<lparr>mg_lifecycle := Idle\<rparr>, Inl e))"

text \<open>\<open>release_enter\<close> returns the generation that has to be stopped, if it was the last lease.\<close>

definition release_enter ::
  "u64 \<Rightarrow> 'h media_generation_manager \<Rightarrow> 'h media_generation_manager \<times> 'h generation_shared option" where
  "release_enter generation_id m =
     (if mg_lifecycle m \<noteq> Active \<or> map_option gs_generation_id (mg_active m) \<noteq> Some generation_id then (m, None)
      else
        let m1 = m\<lparr>mg_leases := saturating_sub (mg_leases m) 1\<rparr> in
        if mg_leases m1 \<noteq> 0 then (m1, None)
        else (m1\<lparr>mg_lifecycle := Stopping, mg_active := None\<rparr>, mg_active m1))"

text \<open>\<open>ActiveGeneration::stop\<close>: the broadcast closes first, the tasks and sources are awaited after it.\<close>

definition close_broadcast :: "u64 \<Rightarrow> 'h media_generation_manager \<Rightarrow> 'h media_generation_manager" where
  "close_broadcast generation_id m = m\<lparr>mg_broadcasts := filter (\<lambda>i. i \<noteq> generation_id) (mg_broadcasts m)\<rparr>"

definition release_finish :: "'h media_generation_manager \<Rightarrow> 'h media_generation_manager" where
  "release_finish m = m\<lparr>mg_stops := mg_stops m + 1, mg_recovering_viewers := 0, mg_lifecycle := Idle\<rparr>"

definition shared_consumer :: "'h generation_shared \<Rightarrow> 'h media_generation_manager \<Rightarrow> string host" where
  "shared_consumer shared m =
     (if gs_generation_id shared \<in> set (mg_broadcasts m) then Inr (gs_broadcast_name shared)
      else Inl (Host ''media generation broadcast is stopping''))"

definition manager_adaptive :: "u64 \<Rightarrow> 'h media_generation_manager \<Rightarrow> 'h generation_shared host" where
  "manager_adaptive generation_id m =
     (case mg_active m of
        Some shared \<Rightarrow> if mg_lifecycle m = Active \<and> gs_generation_id shared = generation_id then Inr shared
          else Inl (Host ''feedback does not match the active media generation'')
      | None \<Rightarrow> Inl (Host ''feedback does not match the active media generation''))"

section \<open>Tasks\<close>

text \<open>
  Where a task is: about to run \<open>acquire\<close>'s loop body, waiting for a notification, inside
  \<open>ActiveGeneration::start\<close>, holding a lease, or in the two parts of stopping. A lease that is
  dropped releases in a spawned task, which is the same step.
\<close>

datatype 'h phase =
    Acquiring
  | Waiting
  | Starting_Generation u64
  | Holding "'h generation_shared"
  | Closing "'h generation_shared"
  | Reaping u64

text \<open>\<open>notify_waiters\<close> wakes every task that waits.\<close>

fun woken :: "'h phase \<Rightarrow> 'h phase" where
  "woken Waiting = Acquiring"
| "woken p = p"

definition notify_waiters :: "'h phase multiset \<Rightarrow> 'h phase multiset" where
  "notify_waiters T = image_mset woken T"

fun after_acquire :: "'h acquire_progress \<Rightarrow> 'h phase multiset" where
  "after_acquire (Acquire_Ready shared) = {#Holding shared#}"
| "after_acquire (Acquire_Start generation_id) = {#Starting_Generation generation_id#}"
| "after_acquire Acquire_Wait = {#Waiting#}"
| "after_acquire (Acquire_Failed e) = {#}"

type_synonym 'h generation_tasks = "'h media_generation_manager \<times> 'h phase multiset"

text \<open>
  The last premise of \<open>Enter\<close> leaves out the start with number \<open>2^64\<close>. A task between two awaits is
  not cancelled: the handlers that call \<open>acquire\<close> and \<open>release\<close> end with the process.
\<close>

inductive manager_step :: "'h generation_environment \<Rightarrow> 'h generation_tasks \<Rightarrow> 'h generation_tasks \<Rightarrow> bool"
  for env :: "'h generation_environment" where
  Arrive: "manager_step env (m, T) (m, add_mset Acquiring T)"
| Enter: "acquire_enter m = (m', progress) \<Longrightarrow> mg_next_generation_id m \<noteq> - 1 \<Longrightarrow>
    manager_step env (m, add_mset Acquiring T) (m', after_acquire progress + T)"
| Finish: "acquire_finish (generation_start env inputs generation_id) m = (m', result) \<Longrightarrow> inputs_typed inputs \<Longrightarrow>
    manager_step env (m, add_mset (Starting_Generation generation_id) T)
      (m', (case result of Inr shared \<Rightarrow> {#Holding shared#} | Inl e \<Rightarrow> {#}) + notify_waiters T)"
| Release: "release_enter (gs_generation_id shared) m = (m', stopped) \<Longrightarrow>
    manager_step env (m, add_mset (Holding shared) T) (m', (case stopped of None \<Rightarrow> {#} | Some s \<Rightarrow> {#Closing s#}) + T)"
| Close: "manager_step env (m, add_mset (Closing shared) T)
    (close_broadcast (gs_generation_id shared) m, add_mset (Reaping (gs_generation_id shared)) T)"
| Reap: "manager_step env (m, add_mset (Reaping generation_id) T) (release_finish m, notify_waiters T)"

definition manager_reachable :: "'h generation_environment \<Rightarrow> 'h generation_tasks \<Rightarrow> bool" where
  "manager_reachable env s \<longleftrightarrow> (manager_step env)\<^sup>*\<^sup>* (manager_new, {#}) s"

end
