(* ===== verification/Catalog_Properties.thy ===== *)
theory Catalog_Properties
  imports Media_Catalog Token_Properties
begin

text \<open>
  The catalog of a generation is canonical: what validates is exactly what the host publishes for the
  certificate it carries; and an authenticated selection is never downgraded.
\<close>

section \<open>Canonical documents\<close>

text \<open>The extension the host builds for a certificate, with or without audio.\<close>

definition extension_of :: "crypto \<Rightarrow> bool \<Rightarrow> signed_certificate \<Rightarrow> moq_catalog_extension_v2" where
  "extension_of c audio certificate = \<lparr>ce2_version = MOQ_CATALOG_EXTENSION_VERSION_V2,
     ce2_generation_id = gc_generation_id (cert_claims certificate),
     ce2_video = \<lparr>vc2_track = \<lparr>td_name = MOQ_VIDEO_H264_TRACK, td_priority = MOQ_VIDEO_TRACK_PRIORITY\<rparr>, vc2_codec = ''h264'',
       vc2_payload_format = MOQ_MEDIA_OBJECT_FORMAT_V1, vc2_group_format = MOQ_GOP_GROUP_FORMAT_V1,
       vc2_authentication = track_authentication c certificate\<rparr>,
     ce2_audio = (if audio then Some \<lparr>ac2_track = \<lparr>td_name = MOQ_AUDIO_OPUS_TRACK, td_priority = MOQ_AUDIO_TRACK_PRIORITY\<rparr>,
       ac2_codec = ''opus'', ac2_sample_rate = OPUS_SAMPLE_RATE, ac2_channels = OPUS_CHANNELS,
       ac2_frame_samples = OPUS_FRAME_SAMPLES, ac2_payload_format = MOQ_AUDIO_OBJECT_FORMAT_V1,
       ac2_group_format = MOQ_AUDIO_GROUP_FORMAT_V1, ac2_authentication = track_authentication c certificate\<rparr> else None)\<rparr>"

lemma only_ed25519 [simp]: "m = Ed25519"
  by (cases m) simp

lemma certificate_prefix: "take (length MEDIA_GENERATION_CERTIFICATE_TOKEN_PREFIX) (certificate_encode c cert) =
    MEDIA_GENERATION_CERTIFICATE_TOKEN_PREFIX"
  by (simp add: certificate_encode_def)

lemma extension_validates:
  assumes "certificate_decode c (certificate_encode c cert) = Inr cert" "gc_generation_id (cert_claims cert) \<noteq> 0"
  shows "extension_v2_validate c (extension_of c audio cert) = Inr cert"
  using assms by (simp add: extension_v2_validate_def extension_of_def track_authentication_def certificate_prefix
      audio_contract_def Let_def)

lemma extension_validate_Inr:
  assumes "extension_v2_validate c e = Inr cert"
  shows "\<exists>audio. e = extension_of c audio cert" "certificate_verify c cert = Inr ()" "gc_generation_id (cert_claims cert) \<noteq> 0"
    "certificate_decode c (certificate_encode c cert) = Inr cert"
proof -
  let ?v = "ce2_video e" and ?t = "ta_generation_certificate (vc2_authentication (ce2_video e))"
  have f: "ce2_version e = MOQ_CATALOG_EXTENSION_VERSION_V2" "ce2_generation_id e \<noteq> 0" "td_name (vc2_track ?v) = MOQ_VIDEO_H264_TRACK"
    "td_priority (vc2_track ?v) = MOQ_VIDEO_TRACK_PRIORITY" "vc2_codec ?v = ''h264''" "vc2_payload_format ?v = MOQ_MEDIA_OBJECT_FORMAT_V1"
    "vc2_group_format ?v = MOQ_GOP_GROUP_FORMAT_V1" "ta_mode (vc2_authentication ?v) = auth_mode_label Ed25519"
    "ta_object_format (vc2_authentication ?v) = MOQ_AUTHENTICATED_MEDIA_OBJECT_FORMAT_V1"
    "\<And>a. ce2_audio e = Some a \<Longrightarrow> audio_contract a ?t" "certificate_decode c ?t = Inr cert"
    "gc_generation_id (cert_claims cert) = ce2_generation_id e"
    using assms by (auto simp: extension_v2_validate_def Let_def invalid_v2_def bind_res_eq_Inr split: if_splits option.splits)
  note d = certificate_decode_Inr [OF f(11)]
  have t: "?t = certificate_encode c cert" by (simp add: d(2))
  show "certificate_verify c cert = Inr ()" "gc_generation_id (cert_claims cert) \<noteq> 0"
    "certificate_decode c (certificate_encode c cert) = Inr cert"
    using d(1) f(2,11,12) t by simp_all
  have a: "a = \<lparr>ac2_track = \<lparr>td_name = MOQ_AUDIO_OPUS_TRACK, td_priority = MOQ_AUDIO_TRACK_PRIORITY\<rparr>,
       ac2_codec = ''opus'', ac2_sample_rate = OPUS_SAMPLE_RATE, ac2_channels = OPUS_CHANNELS,
       ac2_frame_samples = OPUS_FRAME_SAMPLES, ac2_payload_format = MOQ_AUDIO_OBJECT_FORMAT_V1,
       ac2_group_format = MOQ_AUDIO_GROUP_FORMAT_V1, ac2_authentication = track_authentication c cert\<rparr>"
    if "ce2_audio e = Some a" for a
    using f(10) [OF that] unfolding t audio_contract_def
    by (intro moq_audio_catalog_v2.equality moq_track_descriptor.equality moq_track_authentication.equality)
      (simp_all add: track_authentication_def moq_track_descriptor.equality moq_track_authentication.equality)
  have "e = extension_of c (ce2_audio e \<noteq> None) cert"
    using f t a
    by (intro moq_catalog_extension_v2.equality moq_video_catalog_v2.equality)
      (auto simp: extension_of_def track_authentication_def moq_track_descriptor.equality moq_track_authentication.equality
        moq_video_catalog_v2.equality)
  then show "\<exists>audio. e = extension_of c audio cert" by blast
qed

definition document_of :: "crypto \<Rightarrow> 'h \<Rightarrow> bool \<Rightarrow> signed_certificate \<Rightarrow> 'h goq_catalog_document_v2" where
  "document_of c hang_default audio cert = \<lparr>gd2_media = hang_default, gd2_goq = extension_of c audio cert\<rparr>"

definition built_document :: "crypto \<Rightarrow> 'h \<Rightarrow> bool \<Rightarrow> u64 \<Rightarrow> signed_certificate \<Rightarrow> 'h goq_catalog_document_v2 proto" where
  "built_document c hang_default audio generation_id cert =
     (if audio then document_v2_video_h264_opus c hang_default generation_id cert
      else document_v2_video_h264 c hang_default generation_id cert)"

lemma certificate_decode_typed:
  assumes c: "crypto_ok c" and typed: "certificate_claims_typed (cert_claims cert)" and sig: "length (cert_signature cert) = 64"
    and d: "certificate_decode c (certificate_encode c cert) = Inr x"
  shows "x = cert"
proof -
  define bs where "bs = certificate_claims_encode (cert_claims cert) @ cert_signature cert"
  note facts = certificate_bytes [OF typed sig, folded bs_def]
  have enc: "certificate_encode c cert = MEDIA_GENERATION_CERTIFICATE_TOKEN_PREFIX @ base64url_encode c bs"
    by (simp add: certificate_encode_def bs_def)
  note b64 = crypto_ok_base64 [OF c, of bs]
  show ?thesis
    using d by (auto simp: certificate_decode_def enc b64(1) facts Let_def certificate_rebuild bind_res_eq_Inr split: if_splits)
qed

lemma built_document_Inr:
  assumes "crypto_ok c" "certificate_claims_typed (cert_claims cert)" "length (cert_signature cert) = 64"
  shows "built_document c dflt audio i cert = Inr d \<longleftrightarrow>
     i = gc_generation_id (cert_claims cert) \<and> i \<noteq> 0 \<and> certificate_decode c (certificate_encode c cert) = Inr cert \<and>
     d = document_of c dflt audio cert" (is "?l \<longleftrightarrow> ?r")
proof
  let ?e = "\<lambda>a. (extension_of c a cert)\<lparr>ce2_generation_id := i\<rparr>"
  have build: "extension_v2_video_h264 c i cert = bind_res (extension_v2_validate c (?e False)) (\<lambda>_. Inr (?e False))"
    by (simp add: extension_v2_video_h264_def extension_of_def Let_def)
  have opus: "extension_v2_video_h264_opus c i cert = bind_res (extension_v2_validate c (?e False)) (\<lambda>_.
      bind_res (extension_v2_validate c (?e True)) (\<lambda>_. Inr (?e True)))"
    by (cases "extension_v2_validate c (?e False)")
      (simp_all add: extension_v2_video_h264_opus_def build, simp add: extension_of_def Let_def)
  have doc: "built_document c dflt audio i cert = bind_res (if audio then extension_v2_video_h264_opus c i cert
      else extension_v2_video_h264 c i cert) (\<lambda>e. Inr \<lparr>gd2_media = dflt, gd2_goq = e\<rparr>)"
    by (simp add: built_document_def document_v2_video_h264_def document_v2_video_h264_opus_def)
  {
    assume ?r
    then have e: "?e a = extension_of c a cert" for a by (simp add: extension_of_def)
    have v: "extension_v2_validate c (extension_of c a cert) = Inr cert" for a
      using \<open>?r\<close> by (intro extension_validates) auto
    show ?l unfolding doc build opus e v using \<open>?r\<close> by (simp add: document_of_def v)
  }
  assume ?l
  then obtain x where x: "extension_v2_validate c (?e audio) = Inr x" "d = \<lparr>gd2_media = dflt, gd2_goq = ?e audio\<rparr>"
    unfolding doc build opus by (cases audio) (auto simp: bind_res_eq_Inr)
  note v = extension_validate_Inr [OF x(1)]
  obtain b where b: "?e audio = extension_of c b x" using v(1) by blast
  have "ta_generation_certificate (vc2_authentication (ce2_video (?e audio))) = certificate_encode c cert"
    by (simp add: extension_of_def track_authentication_def)
  moreover have "ta_generation_certificate (vc2_authentication (ce2_video (extension_of c b x))) = certificate_encode c x"
    by (simp add: extension_of_def track_authentication_def)
  ultimately have "certificate_encode c cert = certificate_encode c x" using b by simp
  with v(4) have "certificate_decode c (certificate_encode c cert) = Inr x" by simp
  with certificate_decode_typed [OF assms this] have d: "certificate_decode c (certificate_encode c cert) = Inr cert" "x = cert" by simp_all
  have "ce2_generation_id (?e audio) = i" by simp
  moreover have "ce2_generation_id (extension_of c b x) = gc_generation_id (cert_claims cert)" by (simp add: extension_of_def d(2))
  ultimately have i: "i = gc_generation_id (cert_claims cert)" using b by simp
  then have "?e audio = extension_of c audio cert" by (simp add: extension_of_def)
  then show ?r using i v(3) d x(2) by (simp add: document_of_def)
qed

text \<open>
  C34: The catalog of an authenticated generation is canonical. A document of version 2 validates, and
  gives a certificate, exactly when it is the document the host builds for that certificate and its
  generation, with or without audio: no other field value, track, priority, format or spelling of the
  certificate is accepted, and everything the host builds is.
\<close>

theorem catalog_document_canonical:
  assumes "crypto_ok c" "certificate_claims_typed (cert_claims cert)" "length (cert_signature cert) = 64"
  shows "document_v2_validate c hang_default d = Inr cert \<longleftrightarrow>
    document_v2_video_h264 c hang_default (gc_generation_id (cert_claims cert)) cert = Inr d \<or>
    document_v2_video_h264_opus c hang_default (gc_generation_id (cert_claims cert)) cert = Inr d"
proof -
  let ?i = "gc_generation_id (cert_claims cert)"
  have "document_v2_validate c hang_default d = Inr cert \<longleftrightarrow> (\<exists>audio. built_document c hang_default audio ?i cert = Inr d)"
  proof
    assume "document_v2_validate c hang_default d = Inr cert"
    then have v: "gd2_media d = hang_default" "extension_v2_validate c (gd2_goq d) = Inr cert"
      by (auto simp: document_v2_validate_def split: if_splits)
    note e = extension_validate_Inr [OF v(2)]
    obtain audio where "gd2_goq d = extension_of c audio cert" using e(1) by blast
    then have "d = document_of c hang_default audio cert" using v(1) by (simp add: document_of_def)
    then have "built_document c hang_default audio ?i cert = Inr d"
      unfolding built_document_Inr [OF assms] using e(3,4) by simp
    then show "\<exists>audio. built_document c hang_default audio ?i cert = Inr d" ..
  next
    assume "\<exists>audio. built_document c hang_default audio ?i cert = Inr d"
    then obtain audio where b: "?i \<noteq> 0" "certificate_decode c (certificate_encode c cert) = Inr cert"
      "d = document_of c hang_default audio cert"
      unfolding built_document_Inr [OF assms] by blast
    show "document_v2_validate c hang_default d = Inr cert"
      using extension_validates [OF b(2,1)] by (simp add: document_v2_validate_def document_of_def b(3))
  qed
  also have "\<dots> \<longleftrightarrow> document_v2_video_h264 c hang_default ?i cert = Inr d \<or> document_v2_video_h264_opus c hang_default ?i cert = Inr d"
    unfolding ex_bool_eq built_document_def if_True if_False by (rule disj_commute)
  finally show ?thesis .
qed

section \<open>What a host publishes\<close>

lemma publish_v2_Inr:
  assumes "publish_goq_catalog_v2 c dflt to_json producer i cert audio = Inr d"
  shows "built_document c dflt audio i cert = Inr d" "\<exists>snapshot. to_json d = Inr snapshot \<and> length snapshot \<le> MAX_MOQ_CATALOG_BYTES"
  using assms by (auto simp: publish_goq_catalog_v2_def bind_res_eq_Inr built_document_def ensure_that_def split: if_splits)

definition demo_signed_certificate :: signed_certificate where
  "demo_signed_certificate = \<lparr>cert_claims = demo_certificate,
     cert_signature = toy_sign demo_key (certificate_signing_message demo_certificate)\<rparr>"

lemma demo_certificate_signed: "certificate_issue toy_crypto demo_certificate demo_key = Inr demo_signed_certificate"
  by (simp add: certificate_issue_def certificate_claims_validate_def demo_certificate_def toy_crypto_def demo_key_def
      MAX_GENERATION_CERTIFICATE_TTL_SECS_def demo_signed_certificate_def)

lemma demo_signed_certificate_ok: "certificate_claims_typed (cert_claims demo_signed_certificate)"
  "length (cert_signature demo_signed_certificate) = 64" "gc_generation_id (cert_claims demo_signed_certificate) = 4"
  "certificate_decode toy_crypto (certificate_encode toy_crypto demo_signed_certificate) = Inr demo_signed_certificate"
proof -
  have k: "length demo_key = 32" by (simp add: demo_key_def)
  note i = certificate_issue_verified [OF toy_crypto_ok k demo_certificate_signed]
  show t: "certificate_claims_typed (cert_claims demo_signed_certificate)" "length (cert_signature demo_signed_certificate) = 64"
    "gc_generation_id (cert_claims demo_signed_certificate) = 4"
    using demo_typed(3) i by (simp_all add: demo_certificate_def)
  show "certificate_decode toy_crypto (certificate_encode toy_crypto demo_signed_certificate) = Inr demo_signed_certificate"
    by (rule certificate_decode_encode [OF toy_crypto_ok t(1,2) i(1)])
qed

theorem catalog_document_canonical_witness:
  "document_v2_validate toy_crypto () (document_of toy_crypto () True demo_signed_certificate) = Inr demo_signed_certificate"
proof -
  have b: "built_document toy_crypto () True 4 demo_signed_certificate = Inr (document_of toy_crypto () True demo_signed_certificate)"
    unfolding built_document_Inr [OF toy_crypto_ok demo_signed_certificate_ok(1,2)] using demo_signed_certificate_ok(3,4) by simp
  show ?thesis
    using catalog_document_canonical [OF toy_crypto_ok demo_signed_certificate_ok(1,2), of "()"
        "document_of toy_crypto () True demo_signed_certificate"] b
    by (simp add: built_document_def demo_signed_certificate_ok(3))
qed

end
