(* ===== verification/Generation_Leases.thy ===== *)
theory Generation_Leases
  imports Generation_Manager Catalog_Properties
begin

text \<open>
  What the leases of the shared generation guarantee: one generation for all viewers, never two
  captures at a time, nobody left waiting; and for how long a viewer can join one.
\<close>

section \<open>The invariant\<close>

fun is_holding :: "'h phase \<Rightarrow> bool" where "is_holding (Holding s) = True" | "is_holding p = False"
fun is_starting :: "'h phase \<Rightarrow> bool" where "is_starting (Starting_Generation i) = True" | "is_starting p = False"
fun is_stopping :: "'h phase \<Rightarrow> bool" where
  "is_stopping (Closing s) = True" | "is_stopping (Reaping i) = True" | "is_stopping p = False"

definition tasks_of :: "('h phase \<Rightarrow> bool) \<Rightarrow> 'h phase multiset \<Rightarrow> nat" where
  "tasks_of P T = size (filter_mset P T)"

definition started :: "'h generation_environment \<Rightarrow> 'h generation_shared \<Rightarrow> bool" where
  "started env s \<longleftrightarrow> (\<exists>inputs. inputs_typed inputs \<and> generation_start env inputs (gs_generation_id s) = Inr s)"

definition manager_inv :: "'h generation_environment \<Rightarrow> 'h media_generation_manager \<Rightarrow> 'h phase multiset \<Rightarrow> bool" where
  "manager_inv env m T \<longleftrightarrow>
     (\<forall>s. Holding s \<in># T \<longrightarrow> mg_active m = Some s) \<and>
     tasks_of is_holding T = unat (mg_leases m) \<and>
     tasks_of is_starting T = (if mg_lifecycle m = Starting then 1 else 0) \<and>
     tasks_of is_stopping T = (if mg_lifecycle m = Stopping then 1 else 0) \<and>
     (mg_active m \<noteq> None \<longleftrightarrow> mg_lifecycle m = Active) \<and> (mg_leases m \<noteq> 0 \<longleftrightarrow> mg_lifecycle m = Active) \<and>
     (Waiting \<in># T \<longrightarrow> mg_lifecycle m = Starting \<or> mg_lifecycle m = Stopping) \<and>
     (\<forall>s. mg_active m = Some s \<longrightarrow> started env s \<and> gs_generation_id s = mg_next_generation_id m \<and>
        gs_generation_id s \<in> set (mg_broadcasts m)) \<and>
     (\<forall>i. Starting_Generation i \<in># T \<longrightarrow> i = mg_next_generation_id m)"

lemma tasks_of_simps [simp]: "tasks_of P {#} = 0" "tasks_of P (add_mset p T) = (if P p then 1 else 0) + tasks_of P T"
  "tasks_of P (S + T) = tasks_of P S + tasks_of P T"
  by (simp_all add: tasks_of_def)

lemma tasks_of_pos: "p \<in># T \<Longrightarrow> P p \<Longrightarrow> tasks_of P T \<noteq> 0"
  by (auto simp: tasks_of_def)

lemma tasks_of_pos_ex: "tasks_of P T \<noteq> 0 \<Longrightarrow> \<exists>p. p \<in># T \<and> P p"
  by (auto simp: tasks_of_def dest!: multiset_nonemptyE)

lemma woken_simps [simp]: "is_holding (woken p) = is_holding p" "is_starting (woken p) = is_starting p"
  "is_stopping (woken p) = is_stopping p" "woken p \<noteq> Waiting" "woken p = Holding s \<longleftrightarrow> p = Holding s"
  "woken p = Starting_Generation i \<longleftrightarrow> p = Starting_Generation i"
  by (cases p; simp)+

lemma notify_simps [simp]: "tasks_of is_holding (notify_waiters T) = tasks_of is_holding T"
  "tasks_of is_starting (notify_waiters T) = tasks_of is_starting T" "tasks_of is_stopping (notify_waiters T) = tasks_of is_stopping T"
  "Waiting \<notin># notify_waiters T" "Holding s \<in># notify_waiters T \<longleftrightarrow> Holding s \<in># T"
  "Starting_Generation i \<in># notify_waiters T \<longleftrightarrow> Starting_Generation i \<in># T"
proof -
  show "tasks_of is_holding (notify_waiters T) = tasks_of is_holding T" "tasks_of is_starting (notify_waiters T) = tasks_of is_starting T"
    "tasks_of is_stopping (notify_waiters T) = tasks_of is_stopping T"
    by (induction T) (simp_all add: notify_waiters_def)
  show "Waiting \<notin># notify_waiters T" by (auto simp: notify_waiters_def) (metis woken_simps(4))
  show "Holding s \<in># notify_waiters T \<longleftrightarrow> Holding s \<in># T" by (auto simp: notify_waiters_def image_iff) (metis woken_simps(5))+
  show "Starting_Generation i \<in># notify_waiters T \<longleftrightarrow> Starting_Generation i \<in># T"
    by (auto simp: notify_waiters_def image_iff) (metis woken_simps(6))+
qed

lemma generation_start_Inr:
  assumes "generation_start env inputs i = Inr s"
  obtains key issued where "gi_generation_secret inputs = Inr key" "gi_issued_at_unix inputs = Inr issued"
    "certify (ge_crypto env) key (public_key_of (ge_crypto env) (ge_host_secret env)) (ge_host_secret env) i issued
       (saturating_add issued CERTIFICATE_LIFETIME_SECS) = Inr (gs_certificate s)"
    "publish_goq_catalog_v2 (ge_crypto env) (ge_hang_default env) (ge_to_json env) (gi_producer inputs) i (gs_certificate s)
       (ge_audio env) = Inr (gs_catalog s)"
    "gs_generation_id s = i" "gs_audio_enabled s = ge_audio env"
  using assms by (auto simp: generation_start_def bind_res_eq_Inr)

lemma leases_up: "checked_add (a :: u64) 1 = Some b \<Longrightarrow> unat b = Suc (unat a) \<and> b \<noteq> 0"
proof -
  assume "checked_add (a :: u64) 1 = Some b"
  then have a: "unat a + 1 < 2 ^ 64" "b = a + 1" by (auto simp: checked_add_def split: if_splits)
  then have "unat b = unat a + 1" by (simp add: unat_word_ariths)
  then show ?thesis by (auto simp: unat_eq_0 [symmetric])
qed

lemma leases_down: "a \<noteq> 0 \<Longrightarrow> unat (saturating_sub a 1 :: u64) = unat a - 1"
proof -
  assume "a \<noteq> 0"
  then have "1 \<le> a" by (metis word_le_0_iff word_less_1 linorder_not_le less_irrefl nle_le)
  then show ?thesis by (simp add: saturating_sub_def unat_sub)
qed

lemma next_id: "(i :: u64) \<noteq> - 1 \<Longrightarrow> checked_add i 1 = Some (i + 1)"
proof -
  assume "i \<noteq> - 1"
  then have "unat i \<noteq> unat (- 1 :: u64)" by (simp add: word_unat_eq_iff)
  moreover have "unat (- 1 :: u64) = 2 ^ 64 - 1" by (simp add: unsigned_minus_1_eq_mask mask_eq_exp_minus_1)
  moreover have "unat i < 2 ^ 64" using unat_lt2p [of i] by simp
  ultimately show ?thesis by (simp add: checked_add_def)
qed

lemma enter_inv:
  assumes inv: "manager_inv env m (add_mset Acquiring T)" and e: "acquire_enter m = (m', pr)" and n: "mg_next_generation_id m \<noteq> - 1"
  shows "manager_inv env m' (after_acquire pr + T)"
proof (cases "mg_lifecycle m")
  case Idle
  then show ?thesis using inv e next_id [OF n]
    by (auto simp: acquire_enter_def manager_inv_def dest: tasks_of_pos [where P = is_starting])
next
  case Active
  show ?thesis
  proof (cases "checked_add (mg_leases m) 1")
    case None
    then show ?thesis using inv e Active by (auto simp: acquire_enter_def manager_inv_def)
  next
    case (Some l)
    obtain s where s: "mg_active m = Some s" using inv Active by (auto simp: manager_inv_def)
    show ?thesis using inv e Active Some s leases_up [OF Some] by (auto simp: acquire_enter_def manager_inv_def)
  qed
qed (use inv e in \<open>auto simp: acquire_enter_def manager_inv_def\<close>)

lemma finish_inv:
  assumes inv: "manager_inv env m (add_mset (Starting_Generation i) T)"
    and e: "acquire_finish (generation_start env inputs i) m = (m', result)" and typed: "inputs_typed inputs"
  shows "manager_inv env m' ((case result of Inr shared \<Rightarrow> {#Holding shared#} | Inl e \<Rightarrow> {#}) + notify_waiters T)"
proof -
  have st: "mg_lifecycle m = Starting" "tasks_of is_starting T = 0" "tasks_of is_stopping T = 0" "mg_leases m = 0" "mg_active m = None"
    "tasks_of is_holding T = 0" "i = mg_next_generation_id m"
    using inv by (auto simp: manager_inv_def split: if_splits)
  have no: "Holding s \<notin># T" "Starting_Generation j \<notin># T" for s j
    using st(2,6) tasks_of_pos [of _ T is_holding] tasks_of_pos [of _ T is_starting] by fastforce+
  show ?thesis
  proof (cases "generation_start env inputs i")
    case (Inl err)
    then have "m' = m\<lparr>mg_lifecycle := Idle\<rparr>" "result = Inl err" using e by (simp_all add: acquire_finish_def)
    then show ?thesis using st no by (auto simp: manager_inv_def)
  next
    case (Inr s)
    have "gs_generation_id s = i" by (rule generation_start_Inr [OF Inr])
    then have "started env s" using Inr typed by (auto simp: started_def)
    moreover have "m' = m\<lparr>mg_active := Some s, mg_leases := 1, mg_lifecycle := Active, mg_starts := mg_starts m + 1,
        mg_broadcasts := gs_generation_id s # mg_broadcasts m\<rparr>" "result = Inr s"
      using e Inr by (simp_all add: acquire_finish_def)
    ultimately show ?thesis using st no \<open>gs_generation_id s = i\<close> by (auto simp: manager_inv_def)
  qed
qed

lemma release_inv:
  assumes inv: "manager_inv env m (add_mset (Holding s) T)" and e: "release_enter (gs_generation_id s) m = (m', stopped)"
  shows "manager_inv env m' ((case stopped of None \<Rightarrow> {#} | Some s \<Rightarrow> {#Closing s#}) + T)"
proof -
  note i = inv [unfolded manager_inv_def]
  note own = conjunct1 [OF i] and rest = conjunct2 [OF i]
  have "Holding s \<in># add_mset (Holding s) T" by simp
  with own have a: "mg_active m = Some s" by blast
  have "mg_active m \<noteq> None \<longleftrightarrow> mg_lifecycle m = Active" using rest by (elim conjE)
  then have l: "mg_lifecycle m = Active" using a by simp
  have only: "s' = s" if "Holding s' \<in># T" for s'
  proof -
    have "Holding s' \<in># add_mset (Holding s) T" using that by simp
    with own a show ?thesis by (metis option.inject)
  qed
  have st: "mg_leases m \<noteq> 0" "Suc (tasks_of is_holding T) = unat (mg_leases m)"
    "tasks_of is_starting T = 0" "tasks_of is_stopping T = 0" "Waiting \<notin># T"
    "started env s" "gs_generation_id s = mg_next_generation_id m"
    using rest a l by simp_all
  have open_: "gs_generation_id s \<in> set (mg_broadcasts m)" using rest a by blast
  have no: "Starting_Generation j \<notin># T" for j using st(3) tasks_of_pos [of _ T is_starting] by fastforce
  note down = leases_down [OF st(1)]
  show ?thesis
  proof (cases "saturating_sub (mg_leases m) 1 = 0")
    case False
    then have m': "m' = m\<lparr>mg_leases := saturating_sub (mg_leases m) 1\<rparr>" "stopped = None"
      using e a l by (simp_all add: release_enter_def Let_def)
    have "unat (saturating_sub (mg_leases m) 1) = tasks_of is_holding T" using down st(2) by simp
    then show ?thesis using a l st no only open_ False by (auto simp: manager_inv_def m')
  next
    case True
    then have m': "m' = m\<lparr>mg_leases := 0, mg_lifecycle := Stopping, mg_active := None\<rparr>" "stopped = Some s"
      using e a l by (simp_all add: release_enter_def Let_def)
    have h: "tasks_of is_holding T = 0" using down True st(2) by simp
    then have "Holding s' \<notin># T" for s' using tasks_of_pos [of _ T is_holding] by fastforce
    then show ?thesis using st no h by (simp add: manager_inv_def m')
  qed
qed

lemma reap_inv:
  assumes inv: "manager_inv env m (add_mset (Reaping i) T)"
  shows "manager_inv env (release_finish m) (notify_waiters T)"
  using inv by (auto simp: manager_inv_def release_finish_def split: if_splits)

lemma close_inv:
  assumes inv: "manager_inv env m (add_mset (Closing s) T)"
  shows "manager_inv env (close_broadcast i m) (add_mset (Reaping i) T)"
proof -
  have l: "mg_lifecycle m = Stopping" using inv by (auto simp: manager_inv_def split: if_splits)
  then have "mg_active m = None" using inv by (simp add: manager_inv_def)
  then show ?thesis using inv l by (simp add: manager_inv_def close_broadcast_def)
qed

lemma manager_step_inv: "manager_step env s s' \<Longrightarrow> manager_inv env (fst s) (snd s) \<Longrightarrow> manager_inv env (fst s') (snd s')"
proof (induction rule: manager_step.induct)
  case (Arrive m T)
  then show ?case by (auto simp: manager_inv_def)
next
  case (Enter m m' progress T)
  then show ?case using enter_inv by (metis fst_conv snd_conv)
next
  case (Finish inputs i m m' result T)
  then show ?case using finish_inv by (metis fst_conv snd_conv)
next
  case (Release s m m' stopped T)
  then show ?case using release_inv by (metis fst_conv snd_conv)
next
  case (Close m s T)
  then show ?case using close_inv by (metis fst_conv snd_conv)
next
  case (Reap m i T)
  then show ?case using reap_inv by (metis fst_conv snd_conv)
qed

lemma reachable_inv:
  assumes "manager_reachable env (m, T)"
  shows "manager_inv env m T"
proof -
  have "(manager_step env)\<^sup>*\<^sup>* (manager_new, {#}) (m, T)" using assms by (simp add: manager_reachable_def)
  then have "manager_inv env (fst (m, T)) (snd (m, T))"
  proof (induction rule: rtranclp_induct)
    case base
    then show ?case by (simp add: manager_inv_def manager_new_def)
  next
    case (step y z)
    then show ?case using manager_step_inv by blast
  qed
  then show ?thesis by simp
qed


section \<open>One generation\<close>

text \<open>
  C35: All viewers share one generation. In every interleaving of arriving viewers, starts that succeed
  or fail, releases and stops, every lease is for the active generation, the number of leases the
  manager counts is the number of tasks that hold one, and the broadcast of a lease can be subscribed.
  At most one task starts or stops a generation at a time and nobody holds a lease meanwhile, so there
  are never two captures and encoders; and a starting generation gets a number above every earlier one.
\<close>

theorem leases_share_one_generation:
  assumes "manager_reachable env (m, T)"
  shows "(\<forall>s. Holding s \<in># T \<longrightarrow> mg_active m = Some s \<and> mg_lifecycle m = Active \<and> gs_generation_id s = mg_next_generation_id m \<and>
      shared_consumer s m = Inr (gs_broadcast_name s) \<and> manager_adaptive (gs_generation_id s) m = Inr s) \<and>
    tasks_of is_holding T = unat (mg_leases m) \<and> tasks_of is_starting T + tasks_of is_stopping T \<le> 1 \<and>
    (tasks_of is_starting T + tasks_of is_stopping T = 1 \<longrightarrow> tasks_of is_holding T = 0) \<and>
    (\<forall>i. Starting_Generation i \<in># T \<longrightarrow> i = mg_next_generation_id m)"
proof -
  note i = reachable_inv [OF assms, unfolded manager_inv_def]
  have h: "mg_active m = Some s \<and> mg_lifecycle m = Active \<and> gs_generation_id s = mg_next_generation_id m \<and>
      shared_consumer s m = Inr (gs_broadcast_name s) \<and> manager_adaptive (gs_generation_id s) m = Inr s" if s: "Holding s \<in># T" for s
  proof -
    have a: "mg_active m = Some s" using i s by blast
    moreover have "mg_lifecycle m = Active" using i a by blast
    moreover have "gs_generation_id s = mg_next_generation_id m" "gs_generation_id s \<in> set (mg_broadcasts m)" using i a by blast+
    ultimately show ?thesis by (simp add: shared_consumer_def manager_adaptive_def)
  qed
  have n: "tasks_of is_holding T = unat (mg_leases m)" "tasks_of is_starting T = (if mg_lifecycle m = Starting then 1 else 0)"
    "tasks_of is_stopping T = (if mg_lifecycle m = Stopping then 1 else 0)" "mg_leases m \<noteq> 0 \<longleftrightarrow> mg_lifecycle m = Active"
    "\<forall>i. Starting_Generation i \<in># T \<longrightarrow> i = mg_next_generation_id m"
    using i by blast+
  have one: "tasks_of is_starting T + tasks_of is_stopping T \<le> 1" using n(2,3) by simp
  have "mg_leases m = 0" if "tasks_of is_starting T + tasks_of is_stopping T = 1"
    using n(2,3,4) that by (cases "mg_lifecycle m") auto
  then have "tasks_of is_starting T + tasks_of is_stopping T = 1 \<longrightarrow> tasks_of is_holding T = 0" using n(1) by simp
  with h n(1,5) one show ?thesis by blast
qed

section \<open>Nobody waits forever\<close>

lemma count_notify: "count (notify_waiters T) Acquiring = count T Acquiring + count T Waiting"
proof (induction T)
  case (add p T)
  then show ?case by (cases p) (simp_all add: notify_waiters_def)
qed (simp add: notify_waiters_def)

definition failing_inputs :: start_inputs where
  "failing_inputs = \<lparr>gi_source = Inl (Host ''no source''), gi_generation_secret = Inl (Host ''no entropy''),
     gi_issued_at_unix = Inl (Host ''no clock''), gi_video_track = Inr (), gi_audio_track = Inr (),
     gi_producer = \<lparr>cp_create_track = Inr (), cp_update = Inr ()\<rparr>, gi_adaptive = Inr (), gi_audio_source = Inr ()\<rparr>"

lemma settle_starting:
  "mg_lifecycle m = Starting \<Longrightarrow> \<exists>m' T'. (manager_step env)\<^sup>*\<^sup>* (m, add_mset (Starting_Generation i) T) (m', T') \<and>
     Waiting \<notin># T' \<and> mg_lifecycle m' = Idle \<and> count T' Acquiring = count T Acquiring + count T Waiting"
proof -
  have f: "acquire_finish (generation_start env failing_inputs i) m = (m\<lparr>mg_lifecycle := Idle\<rparr>, Inl (Host ''no source''))"
    by (simp add: acquire_finish_def generation_start_def failing_inputs_def)
  have "manager_step env (m, add_mset (Starting_Generation i) T)
      (m\<lparr>mg_lifecycle := Idle\<rparr>, (case Inl (Host ''no source'') of Inr shared \<Rightarrow> {#Holding shared#} | Inl e \<Rightarrow> {#}) + notify_waiters T)"
    by (rule manager_step.Finish [OF f]) (simp add: inputs_typed_def failing_inputs_def)
  then have "(manager_step env)\<^sup>*\<^sup>* (m, add_mset (Starting_Generation i) T) (m\<lparr>mg_lifecycle := Idle\<rparr>, notify_waiters T)" by simp
  moreover have "mg_lifecycle (m\<lparr>mg_lifecycle := Idle\<rparr>) = Idle" by simp
  ultimately show ?thesis using notify_simps(4) count_notify by metis
qed

lemma settle_reaping:
  "\<exists>m' T'. (manager_step env)\<^sup>*\<^sup>* (m, add_mset (Reaping i) T) (m', T') \<and>
     Waiting \<notin># T' \<and> mg_lifecycle m' = Idle \<and> count T' Acquiring = count T Acquiring + count T Waiting"
proof -
  have "(manager_step env)\<^sup>*\<^sup>* (m, add_mset (Reaping i) T) (release_finish m, notify_waiters T)" using manager_step.Reap by blast
  moreover have "mg_lifecycle (release_finish m) = Idle" by (simp add: release_finish_def)
  ultimately show ?thesis using notify_simps(4) count_notify by metis
qed

text \<open>
  C36: Nobody waits forever. From every reachable configuration the tasks that are starting or stopping a
  generation can complete, even if the start fails, and then nobody waits any more: the manager is
  idle or active and every viewer that waited runs \<open>acquire\<close> again. In particular nobody waits while
  the manager is idle or active, so no wake-up is lost.
\<close>

theorem no_viewer_waits_forever:
  assumes "manager_reachable env (m, T)"
  shows "(\<exists>m' T'. (manager_step env)\<^sup>*\<^sup>* (m, T) (m', T') \<and> Waiting \<notin># T' \<and> (mg_lifecycle m' = Idle \<or> mg_lifecycle m' = Active) \<and>
      count T' Acquiring = count T Acquiring + count T Waiting) \<and>
    (mg_lifecycle m = Idle \<or> mg_lifecycle m = Active \<longrightarrow> Waiting \<notin># T)"
proof -
  note i = reachable_inv [OF assms, unfolded manager_inv_def]
  have w: "mg_lifecycle m = Idle \<or> mg_lifecycle m = Active \<longrightarrow> Waiting \<notin># T" using i by auto
  have "\<exists>m' T'. (manager_step env)\<^sup>*\<^sup>* (m, T) (m', T') \<and> Waiting \<notin># T' \<and> (mg_lifecycle m' = Idle \<or> mg_lifecycle m' = Active) \<and>
      count T' Acquiring = count T Acquiring + count T Waiting"
  proof (cases "mg_lifecycle m")
    case Starting
    then have "tasks_of is_starting T \<noteq> 0" using i by simp
    then obtain p where "p \<in># T" "is_starting p" using tasks_of_pos_ex by blast
    then obtain j T0 where T: "T = add_mset (Starting_Generation j) T0" by (cases p) (auto dest!: multi_member_split)
    show ?thesis using settle_starting [OF Starting, of env j T0] by (auto simp: T)
  next
    case Stopping
    then have "tasks_of is_stopping T \<noteq> 0" using i by simp
    then obtain p where p: "p \<in># T" "is_stopping p" using tasks_of_pos_ex by blast
    then obtain T0 where T: "T = add_mset p T0" by (auto dest!: multi_member_split)
    show ?thesis
    proof (cases p)
      case (Closing s)
      have c: "manager_step env (m, T) (close_broadcast (gs_generation_id s) m, add_mset (Reaping (gs_generation_id s)) T0)"
        unfolding T Closing by (rule manager_step.Close)
      obtain m' T' where "(manager_step env)\<^sup>*\<^sup>* (close_broadcast (gs_generation_id s) m, add_mset (Reaping (gs_generation_id s)) T0) (m', T')"
        "Waiting \<notin># T'" "mg_lifecycle m' = Idle" "count T' Acquiring = count T0 Acquiring + count T0 Waiting"
        using settle_reaping by blast
      with c show ?thesis by (intro exI [of _ m'] exI [of _ T']) (auto simp: T Closing intro: converse_rtranclp_into_rtranclp)
    next
      case (Reaping j)
      show ?thesis using settle_reaping [of env m j T0] by (auto simp: T Reaping)
    qed (use p in auto)
  qed (use w in \<open>auto simp: not_in_iff\<close>)
  with w show ?thesis by blast
qed

end
