(* ===== verification/Generation_Joining.thy ===== *)
theory Generation_Joining
  imports Generation_Leases
begin

text \<open>
  Joining a running generation: the lease a later viewer gets, the catalog it reads and the
  certificate in it. The certificate is issued once, when the generation starts, for one hour.
\<close>

section \<open>What a start leaves behind\<close>

definition public_keys_32 :: "crypto \<Rightarrow> bool" where
  "public_keys_32 c \<longleftrightarrow> (\<forall>sk. length sk = 32 \<longrightarrow> length (public_key_of c sk) = 32)"

lemma certify_typed:
  assumes "crypto_ok c" "public_keys_32 c" "length gsk = 32" "length hsk = 32"
    "certify c gsk (public_key_of c hsk) hsk gen issued expires = Inr cert"
  shows "certificate_claims_typed (cert_claims cert)" "length (cert_signature cert) = 64"
    "gc_host_node_id (cert_claims cert) = public_key_of c hsk" "gc_generation_id (cert_claims cert) = gen"
    "gc_issued_at_unix (cert_claims cert) = issued" "gc_expires_at_unix (cert_claims cert) = expires"
    "certificate_verify c cert = Inr ()"
proof -
  let ?cl = "\<lparr>gc_host_node_id = public_key_of c hsk, gc_generation_id = gen, gc_generation_signing_key = public_key_of c gsk,
    gc_issued_at_unix = issued, gc_expires_at_unix = expires, gc_authentication_mode = Ed25519\<rparr>"
  have i: "certificate_issue c ?cl hsk = Inr cert"
    using assms(5) by (auto simp: certify_def certificate_claims_new_def Let_def bind_res_eq_Inr)
  note v = certificate_issue_verified [OF assms(1,4) i]
  show "certificate_claims_typed (cert_claims cert)" using assms(2-4) by (simp add: v(2) certificate_claims_typed_def public_keys_32_def)
  show "length (cert_signature cert) = 64" "gc_host_node_id (cert_claims cert) = public_key_of c hsk"
    "gc_generation_id (cert_claims cert) = gen" "gc_issued_at_unix (cert_claims cert) = issued"
    "gc_expires_at_unix (cert_claims cert) = expires" "certificate_verify c cert = Inr ()"
    using v by simp_all
qed

lemma started_catalog:
  assumes "crypto_ok (ge_crypto env)" "public_keys_32 (ge_crypto env)" "length (ge_host_secret env) = 32" "started env s"
  shows "document_v2_validate (ge_crypto env) (ge_hang_default env) (gs_catalog s) = Inr (gs_certificate s)"
    "gs_catalog s = document_of (ge_crypto env) (ge_hang_default env) (ge_audio env) (gs_certificate s)"
    "certificate_verify (ge_crypto env) (gs_certificate s) = Inr ()"
    "gc_host_node_id (cert_claims (gs_certificate s)) = public_key_of (ge_crypto env) (ge_host_secret env)"
    "gc_generation_id (cert_claims (gs_certificate s)) = gs_generation_id s"
    "gc_expires_at_unix (cert_claims (gs_certificate s)) =
       saturating_add (gc_issued_at_unix (cert_claims (gs_certificate s))) CERTIFICATE_LIFETIME_SECS"
proof -
  let ?c = "ge_crypto env"
  obtain inputs where i: "inputs_typed inputs" "generation_start env inputs (gs_generation_id s) = Inr s"
    using assms(4) by (auto simp: started_def)
  obtain key issued where k: "gi_generation_secret inputs = Inr key"
    "certify ?c key (public_key_of ?c (ge_host_secret env)) (ge_host_secret env) (gs_generation_id s) issued
       (saturating_add issued CERTIFICATE_LIFETIME_SECS) = Inr (gs_certificate s)"
    "publish_goq_catalog_v2 ?c (ge_hang_default env) (ge_to_json env) (gi_producer inputs) (gs_generation_id s) (gs_certificate s)
       (ge_audio env) = Inr (gs_catalog s)"
    by (rule generation_start_Inr [OF i(2)])
  have "length key = 32" using i(1) k(1) by (simp add: inputs_typed_def)
  note t = certify_typed [OF assms(1,2) this assms(3) k(2)]
  note b = publish_v2_Inr(1) [OF k(3), unfolded built_document_Inr [OF assms(1) t(1,2)]]
  then have e: "extension_v2_validate ?c (extension_of ?c (ge_audio env) (gs_certificate s)) = Inr (gs_certificate s)"
    by (intro extension_validates) auto
  show "gs_catalog s = document_of ?c (ge_hang_default env) (ge_audio env) (gs_certificate s)" using b by blast
  then show "document_v2_validate ?c (ge_hang_default env) (gs_catalog s) = Inr (gs_certificate s)"
    using e by (simp add: document_v2_validate_def document_of_def)
  show "certificate_verify ?c (gs_certificate s) = Inr ()"
    "gc_host_node_id (cert_claims (gs_certificate s)) = public_key_of ?c (ge_host_secret env)"
    "gc_generation_id (cert_claims (gs_certificate s)) = gs_generation_id s"
    "gc_expires_at_unix (cert_claims (gs_certificate s)) =
       saturating_add (gc_issued_at_unix (cert_claims (gs_certificate s))) CERTIFICATE_LIFETIME_SECS"
    using t by simp_all
qed

text \<open>A broadcast that serves the snapshot of a generation and its tracks.\<close>

definition serves :: "broadcast_consumer \<Rightarrow> bytes \<Rightarrow> bool" where
  "serves b snapshot \<longleftrightarrow> bs_catalog_track b = Subscribed \<and> bs_track b MOQ_VIDEO_H264_TRACK = Subscribed \<and>
     bs_track b MOQ_AUDIO_OPUS_TRACK = Subscribed \<and> bs_catalog b = Read_Group 0 (Inr [snapshot]) \<and>
     length snapshot \<le> MAX_MOQ_CATALOG_BYTES"

lemma selection_ok:
  assumes "serves b snapshot" "of_json snapshot = Some (document_of c dflt audio cert)"
    and "document_v2_validate c dflt (document_of c dflt audio cert) = Inr cert"
  shows "is_ok (subscribe_authenticated_goq_video_track c dflt of_json b host gen now) \<longleftrightarrow>
    certificate_verify_binding c cert host gen now = Inr ()"
proof -
  have r: "read_catalog_snapshot (bs_catalog b) = Inr snapshot" using assms(1) by (simp add: serves_def read_catalog_snapshot_def)
  have t: "bs_catalog_track b = Subscribed" "bs_track b MOQ_VIDEO_H264_TRACK = Subscribed" "bs_track b MOQ_AUDIO_OPUS_TRACK = Subscribed"
    using assms(1) by (simp_all add: serves_def)
  have d: "td_name (vc2_track (ce2_video (gd2_goq (document_of c dflt audio cert)))) = MOQ_VIDEO_H264_TRACK"
    "case ce2_audio (gd2_goq (document_of c dflt audio cert)) of None \<Rightarrow> True | Some a \<Rightarrow> td_name (ac2_track a) = MOQ_AUDIO_OPUS_TRACK"
    by (simp_all add: document_of_def extension_of_def)
  show ?thesis
    unfolding subscribe_authenticated_goq_video_track_def r
    using d by (cases "certificate_verify_binding c cert host gen now")
      (simp_all add: t assms(2,3) proto_text_def subscribe_to_def, auto simp: t subscribe_to_def split: option.splits)
qed

section \<open>One hour\<close>

text \<open>
  C37: A running generation can be joined for one hour after its start, and not later. Whatever happened
  before, a viewer that is given a lease of the active generation, and whose Portal reads the catalog
  the host published for it, selects its tracks exactly at the times from the start of the generation
  to one hour after it - although the generation goes on as long as anyone holds a lease, and the
  manager keeps handing out leases of it.
\<close>

theorem viewers_join_for_one_hour:
  assumes "crypto_ok (ge_crypto env)" "public_keys_32 (ge_crypto env)" "length (ge_host_secret env) = 32"
    and "manager_reachable env (m, add_mset Acquiring T)" "acquire_enter m = (m', Acquire_Ready s)"
    and "serves b snapshot" "of_json snapshot = Some (gs_catalog s)"
  shows "is_ok (subscribe_authenticated_goq_video_track (ge_crypto env) (ge_hang_default env) of_json b
      (public_key_of (ge_crypto env) (ge_host_secret env)) (gs_generation_id s) now) \<longleftrightarrow>
    gc_issued_at_unix (cert_claims (gs_certificate s)) \<le> now \<and>
    now \<le> saturating_add (gc_issued_at_unix (cert_claims (gs_certificate s))) (60 * 60)"
proof -
  have "mg_active m = Some s" using assms(5) by (auto simp: acquire_enter_def split: media_generation_lifecycle.splits option.splits)
  then have "started env s" using reachable_inv [OF assms(4), unfolded manager_inv_def] by blast
  note c = started_catalog [OF assms(1-3) this]
  have v: "certificate_verify_binding (ge_crypto env) (gs_certificate s) (public_key_of (ge_crypto env) (ge_host_secret env))
      (gs_generation_id s) now = Inr () \<longleftrightarrow> gc_issued_at_unix (cert_claims (gs_certificate s)) \<le> now \<and>
      now \<le> saturating_add (gc_issued_at_unix (cert_claims (gs_certificate s))) CERTIFICATE_LIFETIME_SECS"
    by (auto simp: certificate_verify_binding_def c Let_def)
  have j: "of_json snapshot = Some (document_of (ge_crypto env) (ge_hang_default env) (ge_audio env) (gs_certificate s))"
    using assms(7) c(2) by simp
  have d: "document_v2_validate (ge_crypto env) (ge_hang_default env)
      (document_of (ge_crypto env) (ge_hang_default env) (ge_audio env) (gs_certificate s)) = Inr (gs_certificate s)"
    using c(1,2) by simp
  from selection_ok [where of_json = of_json and snapshot = snapshot and b = b and audio = "ge_audio env" and cert = "gs_certificate s", OF assms(6) j d] v
  show ?thesis by (simp add: CERTIFICATE_LIFETIME_SECS_def)
qed

section \<open>A concrete generation\<close>

definition demo_environment :: "unit generation_environment" where
  "demo_environment = \<lparr>ge_crypto = toy_crypto, ge_hang_default = (), ge_to_json = (\<lambda>d. Inr [1]), ge_host_secret = demo_key, ge_audio = True\<rparr>"

definition demo_inputs :: start_inputs where
  "demo_inputs = \<lparr>gi_source = Inr (), gi_generation_secret = Inr (replicate 32 5), gi_issued_at_unix = Inr 1000,
     gi_video_track = Inr (), gi_audio_track = Inr (), gi_producer = \<lparr>cp_create_track = Inr (), cp_update = Inr ()\<rparr>,
     gi_adaptive = Inr (), gi_audio_source = Inr ()\<rparr>"

lemma demo_hour: "saturating_add (1000 :: u64) CERTIFICATE_LIFETIME_SECS = 4600"
  by (simp add: saturating_add_def CERTIFICATE_LIFETIME_SECS_def)

lemma demo_started: "\<exists>s. generation_start demo_environment demo_inputs 1 = Inr s \<and> gs_generation_id s = 1 \<and>
    gc_issued_at_unix (cert_claims (gs_certificate s)) = 1000"
proof -
  obtain cert where cert: "certify toy_crypto (replicate 32 5) demo_key demo_key 1 1000 4600 = Inr cert"
    by (simp add: certify_def certificate_claims_new_def certificate_claims_validate_def certificate_issue_def toy_crypto_def
        demo_key_def MAX_GENERATION_CERTIFICATE_TTL_SECS_def Let_def)
  have k: "public_keys_32 toy_crypto" "length demo_key = 32" "public_key_of toy_crypto demo_key = demo_key"
    by (simp_all add: public_keys_32_def toy_crypto_def demo_key_def)
  have "certify toy_crypto (replicate 32 5) (public_key_of toy_crypto demo_key) demo_key 1 1000 4600 = Inr cert"
    using cert by (simp add: k(3))
  note t = certify_typed [OF toy_crypto_ok k(1) _ k(2) this]
  have t': "certificate_claims_typed (cert_claims cert)" "length (cert_signature cert) = 64" "gc_generation_id (cert_claims cert) = 1"
    "gc_issued_at_unix (cert_claims cert) = 1000" "certificate_verify toy_crypto cert = Inr ()"
    using t by simp_all
  note d = certificate_decode_encode [OF toy_crypto_ok t'(1,2,5)]
  have b: "built_document toy_crypto () True 1 cert = Inr (document_of toy_crypto () True cert)"
    unfolding built_document_Inr [OF toy_crypto_ok t'(1,2)] using t'(3) d by simp
  have "document_v2_validate toy_crypto () (document_of toy_crypto () True cert) = Inr cert"
    using extension_validates [OF d] t'(3) by (simp add: document_v2_validate_def document_of_def)
  then have "publish_goq_catalog_v2 toy_crypto () (\<lambda>d. Inr [1]) \<lparr>cp_create_track = Inr (), cp_update = Inr ()\<rparr> 1 cert True =
      Inr (document_of toy_crypto () True cert)"
    using b by (simp add: publish_goq_catalog_v2_def built_document_def ensure_that_def MAX_MOQ_CATALOG_BYTES_def)
  then show ?thesis
    by (simp add: generation_start_def demo_environment_def demo_inputs_def k(3) demo_hour cert media_generation_moq_broadcast_name_def
        t'(4))
qed


text \<open>A first viewer starts the generation and holds it while a second one waits and a third arrives.\<close>

definition demo_manager :: "unit generation_shared \<Rightarrow> unit media_generation_manager" where
  "demo_manager s = \<lparr>mg_next_generation_id = 1, mg_lifecycle = Active, mg_active = Some s, mg_leases = 1, mg_starts = 1,
     mg_stops = 0, mg_recovering_viewers = 0, mg_broadcasts = [1]\<rparr>"

definition demo_starting :: "unit media_generation_manager" where
  "demo_starting = manager_new\<lparr>mg_lifecycle := Starting, mg_next_generation_id := 1\<rparr>"

lemma demo_waiting: "manager_reachable demo_environment (demo_starting, {#Starting_Generation 1, Waiting#})"
proof -
  note step = rtranclp.rtrancl_into_rtrancl [of "manager_step demo_environment" "(manager_new, {#})"]
  have 1: "acquire_enter (manager_new :: unit media_generation_manager) = (demo_starting, Acquire_Start 1)"
    by (simp add: acquire_enter_def manager_new_def demo_starting_def checked_add_def)
  have 2: "acquire_enter demo_starting = (demo_starting, Acquire_Wait)"
    by (simp add: acquire_enter_def manager_new_def demo_starting_def)
  have "(manager_step demo_environment)\<^sup>*\<^sup>* (manager_new, {#}) (manager_new, {#})" by simp
  from step [OF this manager_step.Arrive] have a: "(manager_step demo_environment)\<^sup>*\<^sup>* (manager_new, {#}) (manager_new, {#Acquiring#})" .
  have "manager_step demo_environment (manager_new, add_mset Acquiring {#}) (demo_starting, after_acquire (Acquire_Start 1) + {#})"
    by (rule manager_step.Enter [OF 1]) (simp add: manager_new_def)
  then have "manager_step demo_environment (manager_new, {#Acquiring#}) (demo_starting, {#Starting_Generation 1#})" by simp
  from step [OF step [OF a this] manager_step.Arrive]
  have b: "(manager_step demo_environment)\<^sup>*\<^sup>* (manager_new, {#}) (demo_starting, add_mset Acquiring {#Starting_Generation 1#})" .
  have "manager_step demo_environment (demo_starting, add_mset Acquiring {#Starting_Generation 1#})
      (demo_starting, after_acquire Acquire_Wait + {#Starting_Generation 1#})"
    by (rule manager_step.Enter [OF 2]) (simp add: demo_starting_def)
  from step [OF b this] show ?thesis by (simp add: manager_reachable_def add_mset_commute)
qed

lemma demo_joined: "\<exists>s. manager_reachable demo_environment (demo_manager s, {#Acquiring, Acquiring, Holding s#}) \<and>
    gs_generation_id s = 1 \<and> gc_issued_at_unix (cert_claims (gs_certificate s)) = 1000"
proof -
  note step = rtranclp.rtrancl_into_rtrancl [of "manager_step demo_environment" "(manager_new, {#})"]
  obtain s where s: "generation_start demo_environment demo_inputs 1 = Inr s" "gs_generation_id s = 1"
    "gc_issued_at_unix (cert_claims (gs_certificate s)) = 1000"
    using demo_started by blast
  have f: "acquire_finish (generation_start demo_environment demo_inputs 1) demo_starting = (demo_manager s, Inr s)"
    by (simp add: acquire_finish_def s(1,2) demo_starting_def manager_new_def demo_manager_def)
  have typed: "inputs_typed demo_inputs" by (simp add: inputs_typed_def demo_inputs_def)
  have "manager_step demo_environment (demo_starting, add_mset (Starting_Generation 1) {#Waiting#})
      (demo_manager s, (case (Inr s :: unit generation_shared host) of Inr shared \<Rightarrow> {#Holding shared#} | Inl e \<Rightarrow> {#}) + notify_waiters {#Waiting#})"
    by (rule manager_step.Finish [OF f typed])
  then have "manager_step demo_environment (demo_starting, {#Starting_Generation 1, Waiting#}) (demo_manager s, {#Acquiring, Holding s#})"
    by (simp add: notify_waiters_def add_mset_commute)
  from step [OF demo_waiting [unfolded manager_reachable_def] this] have "(manager_step demo_environment)\<^sup>*\<^sup>* (manager_new, {#}) (demo_manager s, {#Acquiring, Holding s#})" .
  from step [OF this manager_step.Arrive] show ?thesis using s by (auto simp: manager_reachable_def)
qed

theorem leases_share_one_generation_witness:
  "\<exists>s :: unit generation_shared. tasks_of is_holding {#Acquiring, Acquiring, Holding s#} = unat (mg_leases (demo_manager s)) \<and>
     shared_consumer s (demo_manager s) = Inr (gs_broadcast_name s)"
proof -
  obtain s where r: "manager_reachable demo_environment (demo_manager s, {#Acquiring, Acquiring, Holding s#})" using demo_joined by blast
  show ?thesis using leases_share_one_generation [OF r] by (intro exI [of _ s]) simp
qed

theorem no_viewer_waits_forever_witness:
  "\<exists>m T. (manager_step demo_environment)\<^sup>*\<^sup>* (demo_starting, {#Starting_Generation 1, Waiting#}) (m, T) \<and> Waiting \<notin># T \<and>
     count T Acquiring = 1"
  using no_viewer_waits_forever [OF demo_waiting] by auto

theorem viewers_join_for_one_hour_witness:
  "\<exists>(s :: unit generation_shared) b. is_ok (subscribe_authenticated_goq_video_track toy_crypto () (\<lambda>x. Some (gs_catalog s)) b demo_key 1 4600) \<and>
     \<not> is_ok (subscribe_authenticated_goq_video_track toy_crypto () (\<lambda>x. Some (gs_catalog s)) b demo_key 1 4601)"
proof -
  obtain s where s: "manager_reachable demo_environment (demo_manager s, {#Acquiring, Acquiring, Holding s#})"
    "gs_generation_id s = 1" "gc_issued_at_unix (cert_claims (gs_certificate s)) = 1000"
    using demo_joined by blast
  let ?b = "\<lparr>bs_track = (\<lambda>x. Subscribed), bs_catalog_track = Subscribed, bs_catalog = Read_Group 0 (Inr [[1]])\<rparr>"
  have k: "crypto_ok (ge_crypto demo_environment)" "public_keys_32 (ge_crypto demo_environment)"
    "length (ge_host_secret demo_environment) = 32"
    using toy_crypto_ok by (simp_all add: demo_environment_def public_keys_32_def toy_crypto_def demo_key_def)
  have e: "ge_crypto demo_environment = toy_crypto" "ge_host_secret demo_environment = demo_key"
    "public_key_of toy_crypto demo_key = demo_key" "ge_hang_default demo_environment = ()"
    by (simp_all add: demo_environment_def toy_crypto_def)
  have a: "acquire_enter (demo_manager s) = ((demo_manager s)\<lparr>mg_leases := 2\<rparr>, Acquire_Ready s)"
    by (simp add: acquire_enter_def demo_manager_def checked_add_def)
  have b: "serves ?b [1]" by (simp add: serves_def MAX_MOQ_CATALOG_BYTES_def)
  have hour: "saturating_add (1000 :: u64) 3600 = 4600" by (simp add: saturating_add_def)
  note j = viewers_join_for_one_hour [OF k s(1) a b, of "\<lambda>x. Some (gs_catalog s)"]
  have now: "is_ok (subscribe_authenticated_goq_video_track toy_crypto () (\<lambda>x. Some (gs_catalog s)) ?b demo_key 1 now) \<longleftrightarrow>
      1000 \<le> now \<and> now \<le> 4600" for now
    using j [of now] by (simp add: e s(2,3) hour)
  have "is_ok (subscribe_authenticated_goq_video_track toy_crypto () (\<lambda>x. Some (gs_catalog s)) ?b demo_key 1 4600) \<and>
     \<not> is_ok (subscribe_authenticated_goq_video_track toy_crypto () (\<lambda>x. Some (gs_catalog s)) ?b demo_key 1 4601)"
    unfolding now by simp
  then show ?thesis by blast
qed

end
