(* ===== verification/Annexb.thy ===== *)
theory Annexb
  imports Rate_Window
begin

text \<open>
  Cutting the encoder's byte stream into access units (\<open>crates/sigil-host/src/source/annexb.rs\<close>). The
  encoder process writes H.264 in Annex B form; every access unit begins with an access unit
  delimiter (AUD), a start code \<open>0 0 1\<close> or \<open>0 0 0 1\<close> followed by a NAL header of type 9. The pipe
  delivers the stream in chunks of any size.

  The parser's \<open>loop\<close> is a \<open>partial_function\<close>: that it returns is a theorem.
\<close>

section \<open>Finding a delimiter\<close>

definition MAX_ENCODE_BUFFER :: nat where "MAX_ENCODE_BUFFER = 16 * 1024 * 1024"

definition window :: "bytes \<Rightarrow> nat \<Rightarrow> nat \<Rightarrow> bytes" where
  "window data i n = take n (drop i data)"

text \<open>The offset of the NAL header of a start code at \<open>index\<close>; \<open>index + 4 \<le> length data\<close> where it is used.\<close>

definition nal_offset :: "bytes \<Rightarrow> nat \<Rightarrow> nat option" where
  "nal_offset data index =
     (if window data index 4 = [0, 0, 0, 1] then Some (index + 4)
      else if window data index 3 = [0, 0, 1] then Some (index + 3) else None)"

definition is_aud :: "bytes \<Rightarrow> nat \<Rightarrow> bool" where
  "is_aud data index =
     (case nal_offset data index of None \<Rightarrow> False
      | Some offset \<Rightarrow> offset < length data \<and> data ! offset AND 31 = 9)"

text \<open>What the scan found, and where it has to resume.\<close>

function find_h264_aud :: "bytes \<Rightarrow> nat \<Rightarrow> nat option \<times> nat" where
  "find_h264_aud data index =
     (if length data < index + 4 then (None, index)
      else if window data index 4 = [0, 0, 0, 1] \<and> index + 4 = length data then (None, index)
      else if is_aud data index then (Some index, index)
      else find_h264_aud data (index + 1))"
  by pat_completeness auto
termination by (relation "measure (\<lambda>(data, index). length data - index)") auto

declare find_h264_aud.simps [simp del]

section \<open>The parser\<close>

record access_unit_parser =
  ab_buffer :: bytes
  ab_next_aud_scan :: nat
  ab_has_access_unit_start :: bool

definition parser_default :: access_unit_parser where
  "parser_default = \<lparr>ab_buffer = [], ab_next_aud_scan = 0, ab_has_access_unit_start = False\<rparr>"

partial_function (option) push_loop :: "access_unit_parser \<Rightarrow> bytes list \<Rightarrow> (access_unit_parser \<times> bytes list) option" where
  "push_loop p frames =
     (case find_h264_aud (ab_buffer p) (ab_next_aud_scan p) of
        (None, resume_at) \<Rightarrow> Some (p\<lparr>ab_next_aud_scan := resume_at\<rparr>, frames)
      | (Some aud, _) \<Rightarrow>
        if \<not> ab_has_access_unit_start p
        then push_loop (p\<lparr>ab_buffer := drop aud (ab_buffer p), ab_has_access_unit_start := True, ab_next_aud_scan := 4\<rparr>) frames
        else push_loop (p\<lparr>ab_buffer := drop aud (ab_buffer p), ab_next_aud_scan := 4\<rparr>)
          (if take aud (ab_buffer p) = [] then frames else frames @ [take aud (ab_buffer p)]))"

definition push :: "bytes \<Rightarrow> access_unit_parser \<Rightarrow> (access_unit_parser \<times> bytes list host) option" where
  "push bs p =
     (if bs = [] then Some (p, Inr [])
      else if MAX_ENCODE_BUFFER < length (ab_buffer p) + length bs
      then Some (p, Inl (Host ''encoded stream exceeded its bound without a frame boundary''))
      else map_option (map_prod id Inr) (push_loop (p\<lparr>ab_buffer := ab_buffer p @ bs\<rparr>) []))"

text \<open>Chunk after chunk, until one is refused.\<close>

fun push_all :: "bytes list \<Rightarrow> access_unit_parser \<Rightarrow> (access_unit_parser \<times> bytes list host) option" where
  "push_all [] p = Some (p, Inr [])"
| "push_all (chunk # chunks) p =
     (case push chunk p of
        None \<Rightarrow> None
      | Some (p', Inl e) \<Rightarrow> Some (p', Inl e)
      | Some (p', Inr frames) \<Rightarrow>
        (case push_all chunks p' of
           Some (q, Inr later) \<Rightarrow> Some (q, Inr (frames @ later))
         | r \<Rightarrow> r))"

end
