(* ===== verification/Annexb_Properties.thy ===== *)
theory Annexb_Properties
  imports Annexb
begin

text \<open>
  The access unit parser returns on every input, does not depend on how the stream is cut into
  chunks, and cuts it into access units without losing a byte.
\<close>

section \<open>The scan\<close>

text \<open>Enough bytes are there to decide whether a delimiter begins at \<open>i\<close>.\<close>

definition decided :: "bytes \<Rightarrow> nat \<Rightarrow> bool" where
  "decided data i \<longleftrightarrow> i + 4 \<le> length data \<and> \<not> (window data i 4 = [0, 0, 0, 1] \<and> i + 4 = length data)"

definition clear :: "bytes \<Rightarrow> nat \<Rightarrow> nat \<Rightarrow> bool" where
  "clear data s r \<longleftrightarrow> (\<forall>i. s \<le> i \<and> i < r \<longrightarrow> decided data i \<and> \<not> is_aud data i)"

lemma clear_empty [simp]: "r \<le> s \<Longrightarrow> clear data s r"
  unfolding clear_def by auto

lemma find_step: "find_h264_aud data i =
    (if \<not> decided data i then (None, i) else if is_aud data i then (Some i, i) else find_h264_aud data (Suc i))"
  by (subst find_h264_aud.simps) (auto simp: decided_def)

lemma find_result:
  "find_h264_aud data s = (found, r) \<Longrightarrow> s \<le> r \<and> clear data s r \<and>
     (case found of None \<Rightarrow> \<not> decided data r | Some a \<Rightarrow> a = r \<and> decided data a \<and> is_aud data a)"
proof (induction data s rule: find_h264_aud.induct)
  case (1 data s)
  show ?case
  proof (cases "decided data s \<and> \<not> is_aud data s")
    case True
    then have "find_h264_aud data (s + 1) = (found, r)" using 1(2) by (subst (asm) find_step) simp
    moreover have "\<not> length data < s + 4" "\<not> (window data s 4 = [0, 0, 0, 1] \<and> s + 4 = length data)"
      using True by (auto simp: decided_def)
    ultimately have "s + 1 \<le> r \<and> clear data (s + 1) r \<and>
      (case found of None \<Rightarrow> \<not> decided data r | Some a \<Rightarrow> a = r \<and> decided data a \<and> is_aud data a)"
      using 1(1) True by blast
    moreover have "clear data s r" if "clear data (s + 1) r"
      unfolding clear_def
    proof (intro allI impI)
      fix i
      assume "s \<le> i \<and> i < r"
      then show "decided data i \<and> \<not> is_aud data i" using that True by (cases "i = s") (auto simp: clear_def)
    qed
    ultimately show ?thesis by auto
  next
    case False
    then show ?thesis using 1(2) by (subst (asm) find_step) (auto simp: clear_def split: if_splits)
  qed
qed

lemma find_clear: "clear data s r \<Longrightarrow> s \<le> r \<Longrightarrow> find_h264_aud data s = find_h264_aud data r"
proof (induction "r - s" arbitrary: s)
  case (Suc n)
  then have "decided data s \<and> \<not> is_aud data s" by (auto simp: clear_def)
  then have "find_h264_aud data s = find_h264_aud data (Suc s)" by (subst find_step) simp
  also have "\<dots> = find_h264_aud data r" using Suc by (intro Suc.hyps(1)) (auto simp: clear_def)
  finally show ?case .
qed simp

lemma window_append: "i + n \<le> length data \<Longrightarrow> window (data @ m) i n = window data i n"
  by (simp add: window_def)

lemma window_drop: "window (drop a data) i n = window data (a + i) n"
  by (simp add: window_def add.commute)

lemma decided_append:
  assumes "decided data i"
  shows "decided (data @ m) i" "is_aud (data @ m) i = is_aud data i"
proof -
  have l: "i + 4 \<le> length data" "window data i 4 = [0, 0, 0, 1] \<Longrightarrow> i + 4 < length data"
    using assms by (auto simp: decided_def)
  have w: "window (data @ m) i 4 = window data i 4" "window (data @ m) i 3 = window data i 3"
    using l(1) by (simp_all add: window_append)
  show "decided (data @ m) i" using l by (auto simp: decided_def w)
  show "is_aud (data @ m) i = is_aud data i"
    using l by (auto simp: is_aud_def nal_offset_def w nth_append)
qed

lemma clear_append: "clear data s r \<Longrightarrow> clear (data @ m) s r"
  by (auto simp: clear_def decided_append)

lemma aud_drop: "a \<le> length data \<Longrightarrow> is_aud (drop a data) i = is_aud data (a + i)"
  by (auto simp: is_aud_def nal_offset_def window_drop algebra_simps)

lemma decided_drop: "a \<le> length data \<Longrightarrow> decided (drop a data) i = decided data (a + i)"
  by (auto simp: decided_def window_drop)

section \<open>The loop returns\<close>

definition parser_measure :: "access_unit_parser \<Rightarrow> nat" where
  "parser_measure p = length (ab_buffer p) + (if ab_has_access_unit_start p then 0 else 1) + (if ab_next_aud_scan p < 4 then 1 else 0)"

lemma found_bounds: "find_h264_aud data s = (Some a, r) \<Longrightarrow> s \<le> a \<and> a + 4 \<le> length data"
  using find_result [of data s "Some a" r] by (auto simp: decided_def)

lemma loop_result: "\<exists>q fs. \<forall>frames. push_loop p frames = Some (q, frames @ fs)"
proof (induction p rule: measure_induct_rule [of parser_measure])
  case (less p)
  let ?f = "find_h264_aud (ab_buffer p) (ab_next_aud_scan p)"
  show ?case
  proof (cases "fst ?f")
    case None
    then obtain r where "?f = (None, r)" by (metis prod.collapse)
    then show ?thesis by (subst push_loop.simps) simp
  next
    case (Some a)
    then obtain r where f: "?f = (Some a, r)" by (metis prod.collapse)
    note b = found_bounds [OF f]
    show ?thesis
    proof (cases "ab_has_access_unit_start p")
      case False
      let ?p = "p\<lparr>ab_buffer := drop a (ab_buffer p), ab_has_access_unit_start := True, ab_next_aud_scan := 4\<rparr>"
      have "parser_measure ?p < parser_measure p" using False b by (simp add: parser_measure_def)
      from less [OF this] show ?thesis by (subst push_loop.simps) (simp add: f False)
    next
      case True
      let ?p = "p\<lparr>ab_buffer := drop a (ab_buffer p), ab_next_aud_scan := 4\<rparr>"
      have "parser_measure ?p < parser_measure p" using True b by (auto simp: parser_measure_def)
      from less [OF this] obtain q fs where "\<forall>frames. push_loop ?p frames = Some (q, frames @ fs)" by blast
      then show ?thesis
        by (intro exI [of _ q] exI [of _ "(if take a (ab_buffer p) = [] then [] else [take a (ab_buffer p)]) @ fs"])
          (subst push_loop.simps, simp add: f True)
    qed
  qed
qed

definition loop_run :: "access_unit_parser \<Rightarrow> access_unit_parser \<times> bytes list" where
  "loop_run p = the (push_loop p [])"

lemma push_loop_run: "push_loop p frames = Some (fst (loop_run p), frames @ snd (loop_run p))"
proof -
  obtain q fs where q: "\<forall>frames. push_loop p frames = Some (q, frames @ fs)" using loop_result by blast
  then have "loop_run p = (q, fs)" by (simp add: loop_run_def)
  then show ?thesis using q by simp
qed

text \<open>
  C38: The parser returns on every input, from every state: its loop ends, because every round but the
  first shortens the buffer, and it answers with the frames and its new state, or refuses the chunk
  before it is appended.
\<close>

theorem push_returns:
  "(\<exists>q frames. push bs p = Some (q, Inr frames)) \<or> (\<exists>e. push bs p = Some (p, Inl e) \<and> MAX_ENCODE_BUFFER < length (ab_buffer p) + length bs)"
  by (auto simp: push_def push_loop_run map_prod_def split_beta)

lemma run_None: "find_h264_aud (ab_buffer p) (ab_next_aud_scan p) = (None, r) \<Longrightarrow> loop_run p = (p\<lparr>ab_next_aud_scan := r\<rparr>, [])"
  unfolding loop_run_def by (subst push_loop.simps) simp

lemma run_first:
  "find_h264_aud (ab_buffer p) (ab_next_aud_scan p) = (Some a, r) \<Longrightarrow> \<not> ab_has_access_unit_start p \<Longrightarrow>
   loop_run p = loop_run (p\<lparr>ab_buffer := drop a (ab_buffer p), ab_has_access_unit_start := True, ab_next_aud_scan := 4\<rparr>)"
  unfolding loop_run_def by (subst push_loop.simps) simp

lemma run_next:
  "find_h264_aud (ab_buffer p) (ab_next_aud_scan p) = (Some a, r) \<Longrightarrow> ab_has_access_unit_start p \<Longrightarrow>
   loop_run p = (let p' = p\<lparr>ab_buffer := drop a (ab_buffer p), ab_next_aud_scan := 4\<rparr> in
     (fst (loop_run p'), (if take a (ab_buffer p) = [] then [] else [take a (ab_buffer p)]) @ snd (loop_run p')))"
  unfolding loop_run_def [of p] by (subst push_loop.simps) (simp add: push_loop_run Let_def)

lemma run_rescan:
  assumes "find_h264_aud (ab_buffer p) (ab_next_aud_scan p) = find_h264_aud (ab_buffer p) r"
  shows "loop_run p = loop_run (p\<lparr>ab_next_aud_scan := r\<rparr>)"
  unfolding loop_run_def by (subst (1 2) push_loop.simps) (simp add: assms split: option.split prod.split)


section \<open>Chunks do not matter\<close>

text \<open>Running with the first part and then with the rest, or with all at once.\<close>

lemma run_chunk:
  "loop_run (p\<lparr>ab_buffer := ab_buffer p @ m\<rparr>) =
     (let q = fst (loop_run p); r = loop_run (q\<lparr>ab_buffer := ab_buffer q @ m\<rparr>) in (fst r, snd (loop_run p) @ snd r))"
proof (induction p rule: measure_induct_rule [of parser_measure])
  case (less p)
  let ?b = "ab_buffer p" and ?P = "p\<lparr>ab_buffer := ab_buffer p @ m\<rparr>"
  obtain found r where f: "find_h264_aud ?b (ab_next_aud_scan p) = (found, r)" by (metis prod.exhaust)
  note res = find_result [OF f]
  have scan: "find_h264_aud (?b @ m) (ab_next_aud_scan p) = find_h264_aud (?b @ m) r"
    using res by (intro find_clear clear_append) auto
  show ?case
  proof (cases found)
    case None
    have "loop_run ?P = loop_run (?P\<lparr>ab_next_aud_scan := r\<rparr>)" using scan by (intro run_rescan) simp
    moreover have "?P\<lparr>ab_next_aud_scan := r\<rparr> = p\<lparr>ab_next_aud_scan := r, ab_buffer := ?b @ m\<rparr>" by simp
    ultimately show ?thesis using run_None [OF f [unfolded None]] by (simp add: Let_def)
  next
    case (Some a)
    have a: "a = r" "decided ?b a" "is_aud ?b a" "a \<le> length ?b" using res Some by (auto simp: decided_def)
    have F: "find_h264_aud (ab_buffer ?P) (ab_next_aud_scan ?P) = (Some a, a)"
      using scan a decided_append [of ?b a m] find_step [of "?b @ m" a] by simp
    have f': "find_h264_aud (ab_buffer p) (ab_next_aud_scan p) = (Some a, a)" using f Some a(1) by simp
    note b = found_bounds [OF f']
    show ?thesis
    proof (cases "ab_has_access_unit_start p")
      case False
      let ?p = "p\<lparr>ab_buffer := drop a ?b, ab_has_access_unit_start := True, ab_next_aud_scan := 4\<rparr>"
      have "parser_measure ?p < parser_measure p" using False b by (simp add: parser_measure_def)
      note IH = less [OF this]
      have "?P\<lparr>ab_buffer := drop a (ab_buffer ?P), ab_has_access_unit_start := True, ab_next_aud_scan := 4\<rparr> =
          ?p\<lparr>ab_buffer := ab_buffer ?p @ m\<rparr>"
        using a(4) by (cases p) simp
      then have "loop_run ?P = loop_run (?p\<lparr>ab_buffer := ab_buffer ?p @ m\<rparr>)" using run_first [OF F] False by simp
      then show ?thesis using IH run_first [OF f' False] by simp
    next
      case True
      let ?p = "p\<lparr>ab_buffer := drop a ?b, ab_next_aud_scan := 4\<rparr>"
      have "parser_measure ?p < parser_measure p" using True b by (auto simp: parser_measure_def)
      note IH = less [OF this]
      have "?P\<lparr>ab_buffer := drop a (?b @ m), ab_next_aud_scan := 4\<rparr> = ?p\<lparr>ab_buffer := ab_buffer ?p @ m\<rparr>"
        using a(4) by simp
      moreover have "take a (?b @ m) = take a ?b" using a(4) by simp
      ultimately have "loop_run ?P = (fst (loop_run (?p\<lparr>ab_buffer := ab_buffer ?p @ m\<rparr>)),
          (if take a ?b = [] then [] else [take a ?b]) @ snd (loop_run (?p\<lparr>ab_buffer := ab_buffer ?p @ m\<rparr>)))"
        using run_next [OF F] True by (simp only: Let_def) simp
      then show ?thesis using run_next [OF f' True] IH by (simp add: Let_def)
    qed
  qed
qed

lemma run_length: "length (ab_buffer (fst (loop_run p))) \<le> length (ab_buffer p)"
proof (induction p rule: measure_induct_rule [of parser_measure])
  case (less p)
  obtain found r where f: "find_h264_aud (ab_buffer p) (ab_next_aud_scan p) = (found, r)" by (metis prod.exhaust)
  show ?case
  proof (cases found)
    case None
    then show ?thesis using run_None f by simp
  next
    case (Some a)
    note b = found_bounds [OF f [unfolded Some]]
    show ?thesis
    proof (cases "ab_has_access_unit_start p")
      case False
      let ?p = "p\<lparr>ab_buffer := drop a (ab_buffer p), ab_has_access_unit_start := True, ab_next_aud_scan := 4\<rparr>"
      have "parser_measure ?p < parser_measure p" using False b by (simp add: parser_measure_def)
      from less [OF this] show ?thesis using run_first [OF f [unfolded Some] False] by simp
    next
      case True
      let ?p = "p\<lparr>ab_buffer := drop a (ab_buffer p), ab_next_aud_scan := 4\<rparr>"
      have "parser_measure ?p < parser_measure p" using True b by (auto simp: parser_measure_def)
      from less [OF this] show ?thesis using run_next [OF f [unfolded Some] True] by (simp add: Let_def)
    qed
  qed
qed

lemma push_Inr: "push bs p = Some (q, Inr frames) \<longleftrightarrow>
    (bs = [] \<and> q = p \<and> frames = [] \<or>
     bs \<noteq> [] \<and> length (ab_buffer p) + length bs \<le> MAX_ENCODE_BUFFER \<and> loop_run (p\<lparr>ab_buffer := ab_buffer p @ bs\<rparr>) = (q, frames))"
  by (auto simp: push_def push_loop_run map_prod_def split_beta)

lemma push_append:
  assumes "push (a @ b) p = Some (q, Inr frames)"
  shows "\<exists>q1 f1 f2. push a p = Some (q1, Inr f1) \<and> push b q1 = Some (q, Inr f2) \<and> frames = f1 @ f2"
proof (cases "a = [] \<or> b = []")
  case True
  then show ?thesis using assms by (auto simp: push_Inr)
next
  case False
  have l: "length (ab_buffer p) + length a + length b \<le> MAX_ENCODE_BUFFER"
    "loop_run (p\<lparr>ab_buffer := ab_buffer p @ a @ b\<rparr>) = (q, frames)"
    using assms False by (auto simp: push_Inr)
  obtain q1 f1 where r: "loop_run (p\<lparr>ab_buffer := ab_buffer p @ a\<rparr>) = (q1, f1)" by (metis prod.exhaust)
  obtain q2 f2 where r2: "loop_run (q1\<lparr>ab_buffer := ab_buffer q1 @ b\<rparr>) = (q2, f2)" by (metis prod.exhaust)
  have "loop_run (p\<lparr>ab_buffer := ab_buffer p @ a @ b\<rparr>) = (q2, f1 @ f2)"
    using run_chunk [of "p\<lparr>ab_buffer := ab_buffer p @ a\<rparr>" b] by (simp add: r r2 Let_def)
  then have q: "q = q2" "frames = f1 @ f2" using l(2) by simp_all
  have "length (ab_buffer q1) \<le> length (ab_buffer p) + length a" using run_length [of "p\<lparr>ab_buffer := ab_buffer p @ a\<rparr>"] by (simp add: r)
  then have "push a p = Some (q1, Inr f1)" "push b q1 = Some (q2, Inr f2)"
    using False l(1) by (simp_all add: push_Inr r r2)
  then show ?thesis using q by blast
qed

text \<open>
  C39: How the pipe cuts the stream does not matter. Whenever the parser accepts a stretch of the stream
  in one piece, it accepts it in any chunks - also when a start code or its header is split - and gives
  the same frames in the same order and ends in the same state.
\<close>

theorem chunking_is_irrelevant:
  assumes "push (concat chunks) p = Some (q, Inr frames)"
  shows "push_all chunks p = Some (q, Inr frames)"
  using assms
proof (induction chunks arbitrary: p frames)
  case Nil
  then show ?case by (simp add: push_Inr)
next
  case (Cons c chunks)
  obtain q1 f1 f2 where 1: "push c p = Some (q1, Inr f1)" "push (concat chunks) q1 = Some (q, Inr f2)" "frames = f1 @ f2"
    using push_append [of c "concat chunks" p q frames] Cons.prems by auto
  show ?case using Cons.IH [OF 1(2)] by (simp add: 1)
qed


section \<open>Nothing is lost\<close>

text \<open>An access unit begins with a delimiter and has no other from its fifth byte on.\<close>

definition access_unit :: "bytes \<Rightarrow> bool" where
  "access_unit f \<longleftrightarrow> is_aud f 0 \<and> (\<forall>i. 4 \<le> i \<longrightarrow> \<not> is_aud f i)"

lemma window_shorter: "window data i 4 = [a, b, c, d] \<Longrightarrow> window data i 3 = [a, b, c]"
proof -
  assume w: "window data i 4 = [a, b, c, d]"
  have "window data i 3 = take 3 (window data i 4)" by (simp add: window_def)
  then show ?thesis by (simp add: w)
qed

lemma is_aud_iff: "is_aud data i \<longleftrightarrow>
    window data i 4 = [0, 0, 0, 1] \<and> i + 4 < length data \<and> data ! (i + 4) AND 31 = 9 \<or>
    window data i 3 = [0, 0, 1] \<and> i + 3 < length data \<and> data ! (i + 3) AND 31 = 9"
  using window_shorter [of data i 0 0 0 1] by (auto simp: is_aud_def nal_offset_def)

lemma window_take:
  assumes "window (take a b) i n = w" "length w = n" "0 < n"
  shows "window b i n = w" "i + n \<le> a"
proof -
  have w: "w = take n (take (a - i) (drop i b))" using assms(1) by (auto simp: window_def drop_take)
  have "length w \<le> a - i" unfolding w by simp
  then have n: "n \<le> a - i" using assms(2) by simp
  then show "i + n \<le> a" using assms(3) by simp
  have "w = take n (drop i b)" using n unfolding w by (simp add: min_absorb1)
  then show "window b i n = w" by (simp add: window_def)
qed

lemma aud_take:
  assumes "is_aud (take a b) i"
  shows "is_aud b i" "i < a"
proof -
  consider "window (take a b) i 4 = [0, 0, 0, 1]" "i + 4 < length (take a b)" "take a b ! (i + 4) AND 31 = 9"
    | "window (take a b) i 3 = [0, 0, 1]" "i + 3 < length (take a b)" "take a b ! (i + 3) AND 31 = 9"
    using assms unfolding is_aud_iff by blast
  then have "is_aud b i \<and> i < a"
  proof cases
    case 1
    then show ?thesis using window_take(1) [OF 1(1)] by (auto simp: is_aud_iff)
  next
    case 2
    then show ?thesis using window_take(1) [OF 2(1)] by (auto simp: is_aud_iff)
  qed
  then show "is_aud b i" "i < a" by simp_all
qed

lemma aud_head: "is_aud b i \<Longrightarrow> b ! i = 0 \<and> i < length b"
proof -
  have z: "b ! i = 0 \<and> i < length b" if "window b i n = 0 # w" for n w
  proof -
    have "drop i b \<noteq> []" using that by (auto simp: window_def)
    then have l: "i < length b" by simp
    have "take n (drop i b) = 0 # w" using that by (simp add: window_def)
    then have "drop i b ! 0 = 0" by (cases n; cases "drop i b") auto
    with l show ?thesis by simp
  qed
  assume "is_aud b i"
  then show ?thesis unfolding is_aud_iff using z by blast
qed

lemma cut_access_unit:
  assumes s: "is_aud b 0" and c: "clear b 4 a" and a: "is_aud b a" "4 \<le> a" "a \<le> length b"
  shows "access_unit (take a b)"
proof -
  have "\<not> is_aud (take a b) i" if "4 \<le> i" for i
    using aud_take [of a b i] c that by (auto simp: clear_def)
  moreover have "is_aud (take a b) 0"
  proof -
    have w: "window (take a b) 0 4 = window b 0 4" "window (take a b) 0 3 = window b 0 3" using a(2) by (simp_all add: window_def min_absorb1)
    have "a \<noteq> 4" if "b ! 4 AND 31 = 9" using that aud_head [OF a(1)] by auto
    then show ?thesis using s a(2,3) by (auto simp: is_aud_iff w)
  qed
  ultimately show ?thesis by (simp add: access_unit_def)
qed

definition parser_ok :: "access_unit_parser \<Rightarrow> bool" where
  "parser_ok p \<longleftrightarrow> (if ab_has_access_unit_start p then is_aud (ab_buffer p) 0 \<and> 4 \<le> ab_next_aud_scan p \<and> clear (ab_buffer p) 4 (ab_next_aud_scan p)
     else clear (ab_buffer p) 0 (ab_next_aud_scan p))"

lemma clear_join: "clear b s m \<Longrightarrow> clear b m r \<Longrightarrow> clear b s r"
  unfolding clear_def by (meson linorder_not_le)

lemma run_splits:
  assumes "parser_ok p"
  shows "parser_ok (fst (loop_run p)) \<and> (\<forall>f \<in> set (snd (loop_run p)). access_unit f) \<and>
    (ab_has_access_unit_start p \<longrightarrow> ab_has_access_unit_start (fst (loop_run p))) \<and>
    (\<exists>junk. ab_buffer p = junk @ concat (snd (loop_run p)) @ ab_buffer (fst (loop_run p)) \<and> clear (ab_buffer p) 0 (length junk) \<and>
      (ab_has_access_unit_start p \<or> \<not> ab_has_access_unit_start (fst (loop_run p)) \<longrightarrow> junk = []) \<and>
      (\<not> ab_has_access_unit_start (fst (loop_run p)) \<longrightarrow> snd (loop_run p) = []))"
  using assms
proof (induction p rule: measure_induct_rule [of parser_measure])
  case (less p)
  let ?b = "ab_buffer p"
  obtain found r where f: "find_h264_aud ?b (ab_next_aud_scan p) = (found, r)" by (metis prod.exhaust)
  note res = find_result [OF f]
  show ?case
  proof (cases found)
    case None
    note run = run_None [OF f [unfolded None]]
    have "clear ?b (ab_next_aud_scan p) r" "ab_next_aud_scan p \<le> r" using res by simp_all
    then have "parser_ok (fst (loop_run p))"
      using less.prems unfolding run parser_ok_def by (auto intro: clear_join split: if_splits)
    then show ?thesis using less.prems by (auto simp: run clear_def intro!: exI [of _ "[]"])
  next
    case (Some a)
    have f': "find_h264_aud ?b (ab_next_aud_scan p) = (Some a, r)" using f Some by simp
    have a: "clear ?b (ab_next_aud_scan p) a" "ab_next_aud_scan p \<le> a" "is_aud ?b a" "a \<le> length ?b"
      using res Some by (auto simp: decided_def)
    have head: "is_aud (drop a ?b) 0" using aud_drop [OF a(4), of 0] a(3) by simp
    note b = found_bounds [OF f']
    show ?thesis
    proof (cases "ab_has_access_unit_start p")
      case False
      let ?p = "p\<lparr>ab_buffer := drop a ?b, ab_has_access_unit_start := True, ab_next_aud_scan := 4\<rparr>"
      have m: "parser_measure ?p < parser_measure p" using False b by (simp add: parser_measure_def)
      have "parser_ok ?p" using head by (simp add: parser_ok_def)
      note IH = less.IH [OF m this]
      have c: "clear ?b 0 a" using less.prems False a(1) by (auto simp: parser_ok_def intro: clear_join)
      have run: "loop_run p = loop_run ?p" by (rule run_first [OF f' False])
      have split: "drop a ?b = concat (snd (loop_run ?p)) @ ab_buffer (fst (loop_run ?p))" "ab_has_access_unit_start (fst (loop_run ?p))"
        using IH by auto
      have "?b = take a ?b @ concat (snd (loop_run ?p)) @ ab_buffer (fst (loop_run ?p))" using split(1) by (metis append_take_drop_id)
      moreover have "length (take a ?b) = a" using a(4) by simp
      ultimately show ?thesis unfolding run using IH c split(2) False by (auto intro!: exI [of _ "take a ?b"])
    next
      case True
      let ?p = "p\<lparr>ab_buffer := drop a ?b, ab_next_aud_scan := 4\<rparr>"
      have m: "parser_measure ?p < parser_measure p" using True b by (auto simp: parser_measure_def)
      have pk: "is_aud ?b 0" "4 \<le> ab_next_aud_scan p" "clear ?b 4 (ab_next_aud_scan p)" using less.prems True by (simp_all add: parser_ok_def)
      have "parser_ok ?p" using head True by (simp add: parser_ok_def)
      note IH = less.IH [OF m this]
      have "access_unit (take a ?b)" using pk a by (intro cut_access_unit) (auto intro: clear_join)
      moreover have "take a ?b \<noteq> []" using a(2,4) pk(2) by auto
      ultimately have run: "loop_run p = (fst (loop_run ?p), take a ?b # snd (loop_run ?p))" "access_unit (take a ?b)"
        using run_next [OF f' True] by (simp_all add: Let_def)
      have split: "drop a ?b = concat (snd (loop_run ?p)) @ ab_buffer (fst (loop_run ?p))" "ab_has_access_unit_start (fst (loop_run ?p))"
        using IH True by auto
      have "?b = take a ?b @ concat (snd (loop_run ?p)) @ ab_buffer (fst (loop_run ?p))" using split(1) by (metis append_take_drop_id)
      then show ?thesis unfolding run(1) using IH run(2) split(2) by (auto simp: clear_def intro!: exI [of _ "[]"])
    qed
  qed
qed

definition cut_into :: "bool \<Rightarrow> bytes \<Rightarrow> bytes list \<Rightarrow> access_unit_parser \<Rightarrow> bool" where
  "cut_into started data frames q \<longleftrightarrow> parser_ok q \<and> (\<forall>f \<in> set frames. access_unit f) \<and> (started \<longrightarrow> ab_has_access_unit_start q) \<and>
     (\<exists>junk. data = junk @ concat frames @ ab_buffer q \<and> clear data 0 (length junk) \<and>
       (started \<or> \<not> ab_has_access_unit_start q \<longrightarrow> junk = []) \<and> (\<not> ab_has_access_unit_start q \<longrightarrow> frames = []))"

lemma cut_compose:
  assumes a: "cut_into started data f1 p" and b: "cut_into (ab_has_access_unit_start p) (ab_buffer p @ m) f2 q"
  shows "cut_into started (data @ m) (f1 @ f2) q"
proof -
  obtain j1 where j1: "data = j1 @ concat f1 @ ab_buffer p" "clear data 0 (length j1)"
    "started \<or> \<not> ab_has_access_unit_start p \<Longrightarrow> j1 = []" "\<not> ab_has_access_unit_start p \<Longrightarrow> f1 = []"
    using a unfolding cut_into_def by blast
  obtain j2 where j2: "ab_buffer p @ m = j2 @ concat f2 @ ab_buffer q" "clear (ab_buffer p @ m) 0 (length j2)"
    "ab_has_access_unit_start p \<or> \<not> ab_has_access_unit_start q \<Longrightarrow> j2 = []" "\<not> ab_has_access_unit_start q \<Longrightarrow> f2 = []"
    using b unfolding cut_into_def by blast
  have base: "parser_ok q" "\<forall>f \<in> set (f1 @ f2). access_unit f" "started \<longrightarrow> ab_has_access_unit_start q"
    "ab_has_access_unit_start p \<longrightarrow> ab_has_access_unit_start q"
    using a b unfolding cut_into_def by auto
  have all: "data @ m = j1 @ concat f1 @ j2 @ concat f2 @ ab_buffer q"
    using arg_cong [OF j1(1), of "\<lambda>x. x @ m"] j2(1) by simp
  have "\<exists>junk. data @ m = junk @ concat (f1 @ f2) @ ab_buffer q \<and> clear (data @ m) 0 (length junk) \<and>
       (started \<or> \<not> ab_has_access_unit_start q \<longrightarrow> junk = []) \<and> (\<not> ab_has_access_unit_start q \<longrightarrow> f1 @ f2 = [])"
  proof (cases "ab_has_access_unit_start p")
    case True
    then have "j2 = []" "ab_has_access_unit_start q" using j2(3) base(4) by blast+
    then show ?thesis using all j1(3) clear_append [OF j1(2), of m] by (intro exI [of _ j1]) simp
  next
    case False
    then have n: "j1 = []" "f1 = []" "\<not> started" using j1(3,4) a by (auto simp: cut_into_def)
    then have "data @ m = ab_buffer p @ m" using j1(1) by simp
    then show ?thesis using all n j2 by (intro exI [of _ j2]) simp
  qed
  with base show ?thesis unfolding cut_into_def by blast
qed

lemma push_cut:
  assumes ok: "parser_ok p" and push: "push c p = Some (q, Inr frames)"
  shows "cut_into (ab_has_access_unit_start p) (ab_buffer p @ c) frames q"
proof (cases "c = []")
  case True
  then show ?thesis using assms by (auto simp: push_Inr cut_into_def)
next
  case False
  let ?p = "p\<lparr>ab_buffer := ab_buffer p @ c\<rparr>"
  have r: "loop_run ?p = (q, frames)" using push False by (auto simp: push_Inr)
  have "is_aud (ab_buffer p @ c) 0" if "is_aud (ab_buffer p) 0"
    using that by (auto simp: is_aud_iff window_append nth_append)
  then have "parser_ok ?p" using ok by (auto simp: parser_ok_def clear_append)
  from run_splits [OF this] show ?thesis by (simp add: r cut_into_def)
qed

lemma push_all_cut:
  assumes "parser_ok p" "push_all chunks p = Some (q, Inr frames)"
  shows "cut_into (ab_has_access_unit_start p) (ab_buffer p @ concat chunks) frames q"
  using assms
proof (induction chunks arbitrary: p frames)
  case Nil
  then show ?case by (simp add: cut_into_def)
next
  case (Cons c chunks)
  obtain p1 f1 where 1: "push c p = Some (p1, Inr f1)" using Cons.prems(2) by (auto split: option.splits sum.splits prod.splits)
  then obtain f2 where 2: "push_all chunks p1 = Some (q, Inr f2)" "frames = f1 @ f2"
    using Cons.prems(2) by (auto split: option.splits sum.splits prod.splits)
  note c = push_cut [OF Cons.prems(1) 1]
  have "parser_ok p1" using c by (simp add: cut_into_def)
  from cut_compose [OF c Cons.IH [OF this 2(1)]] show ?case by (simp add: 2(2))
qed

text \<open>
  C40: The stream is cut into access units and nothing is lost. After any accepted chunks, the bytes
  received are: what came before the first delimiter, then the frames in order, then the buffer. Each
  frame begins with a delimiter and holds no second one, the dropped prefix holds none, and before the
  first delimiter nothing is emitted.
\<close>

theorem frames_are_the_access_units:
  assumes "push_all chunks parser_default = Some (q, Inr frames)"
  shows "(\<forall>f \<in> set frames. access_unit f) \<and>
    (\<exists>junk. concat chunks = junk @ concat frames @ ab_buffer q \<and> (\<forall>i < length junk. \<not> is_aud (concat chunks) i) \<and>
      (\<not> ab_has_access_unit_start q \<longrightarrow> frames = [] \<and> junk = []))"
proof -
  have "parser_ok parser_default" by (simp add: parser_ok_def parser_default_def clear_def)
  from push_all_cut [OF this assms] show ?thesis by (auto simp: cut_into_def parser_default_def clear_def)
qed


section \<open>On a stream\<close>

text \<open>Two bytes before the first delimiter, an access unit, and the delimiter of the next, cut inside a start code.\<close>

definition demo_chunks :: "bytes list" where
  "demo_chunks = [[7, 7, 0, 0], [1, 9, 16, 0], [0, 1, 5, 2, 0, 0, 0, 1], [9, 16]]"

definition demo_parser :: access_unit_parser where
  "demo_parser = \<lparr>ab_buffer = [0, 0, 0, 1, 9, 16], ab_next_aud_scan = 4, ab_has_access_unit_start = True\<rparr>"

lemma demo_finds: "find_h264_aud [7, 7, 0, 0, 1, 9, 16, 0, 0, 1, 5, 2, 0, 0, 0, 1, 9, 16] 0 = (Some 2, 2)"
  "find_h264_aud [0, 0, 1, 9, 16, 0, 0, 1, 5, 2, 0, 0, 0, 1, 9, 16] 4 = (Some 10, 10)"
  "find_h264_aud [0, 0, 0, 1, 9, 16] 4 = (None, 4)"
  by code_simp+

lemma demo_push: "push (concat demo_chunks) parser_default = Some (demo_parser, Inr [[0, 0, 1, 9, 16, 0, 0, 1, 5, 2]])"
proof -
  have "push_loop \<lparr>ab_buffer = [7, 7, 0, 0, 1, 9, 16, 0, 0, 1, 5, 2, 0, 0, 0, 1, 9, 16], ab_next_aud_scan = 0,
      ab_has_access_unit_start = False\<rparr> [] = Some (demo_parser, [[0, 0, 1, 9, 16, 0, 0, 1, 5, 2]])"
    by (subst push_loop.simps, simp add: demo_finds, subst push_loop.simps, simp add: demo_finds, subst push_loop.simps,
        simp add: demo_finds demo_parser_def)
  then show ?thesis by (simp add: push_def demo_chunks_def parser_default_def MAX_ENCODE_BUFFER_def)
qed

theorem chunking_is_irrelevant_witness:
  "push_all demo_chunks parser_default = Some (demo_parser, Inr [[0, 0, 1, 9, 16, 0, 0, 1, 5, 2]])"
  by (rule chunking_is_irrelevant [OF demo_push])

lemma demo_push_all: "push_all [concat demo_chunks] parser_default = Some (demo_parser, Inr [[0, 0, 1, 9, 16, 0, 0, 1, 5, 2]])"
  by (simp add: demo_push)

theorem frames_are_the_access_units_witness:
  "access_unit [0, 0, 1, 9, 16, 0, 0, 1, 5, 2] \<and>
   (\<exists>junk. concat demo_chunks = junk @ [0, 0, 1, 9, 16, 0, 0, 1, 5, 2] @ ab_buffer demo_parser)"
  using frames_are_the_access_units [OF demo_push_all] by auto

end
