(* ===== verification/Spec2Isabelle.thy ===== *)
theory Spec2Isabelle
  imports Focus_Properties Session_Gaps Audio_Codec Media_V3_Codec Feedback_Codec Token_Properties Motion_Properties Feedback_Ingress Generation_Properties Authorization_Demo Generation_Joining Annexb_Properties
begin

text \<open>
  A verification library for goq: Sigil, the host daemon (\<open>crates/sigil-host\<close>), the protocol it
  speaks (\<open>crates/sigil-protocol\<close>), and Portal, the client (\<open>src-tauri\<close>).

  A host streams one game session to a handful of viewers. Every viewer may watch according to its
  grants; at most one at a time holds the input focus of controller slot 0, and every handoff first
  invalidates the former focus generation, neutralizes what it injected, and only then grants a
  successor. Viewers are admitted with signed, peer-bound tokens, media is attached with signed
  capabilities bound to endpoint, generation and authorization revision, and every queue, table and
  rate is bounded. The library models the code that decides all this, and proves that it does.

  The theories, in the order of their imports:

    \<^item> \<open>Prelude\<close>: results (\<open>Inl\<close> an error, \<open>Inr\<close> a value), operations that return a new state and
      a result even when they fail (\<open>bind_op\<close>), checked and saturating arithmetic, big-endian bytes,
      decimal digits, association lists. The collections \<open>res_simps\<close> and \<open>byte_simps\<close>.
    \<^item> \<open>Protocol_Base\<close>: \<open>error.rs\<close>, \<open>framing.rs\<close>, \<open>handshake.rs\<close>, the limits of \<open>lib.rs\<close>, permissions
      and controller slots.
    \<^item> \<open>Tokens\<close>: \<open>invitation.rs\<close> and \<open>subscription.rs\<close>. Ed25519 and base64 are the parameter
      \<open>crypto\<close>; \<open>crypto_ok\<close> states their documented laws.
    \<^item> \<open>Control_Protocol\<close>: the messages of \<open>control_v2.rs\<close> and their validation; \<open>snapshot_wf\<close> is
      what a valid snapshot means, proved equivalent to the code's checks.
    \<^item> \<open>Rate_Window\<close>: \<open>RateWindow\<close> of \<open>server/session.rs\<close> and the locale \<open>sliding_window\<close>, the
      contract of a limiter; its theorem bounds the events of every window. The focus arbiter's
      limiter is a second interpretation.
    \<^item> \<open>Focus_Arbiter\<close>, \<open>Focus_Invariants\<close>, \<open>Focus_Properties\<close>: \<open>server/focus.rs\<close>, every method of
      \<open>FocusArbiter\<close> as a function on its record; the invariant \<open>focus_wf\<close>, the runs \<open>focus_steps\<close>
      and the safety of handoffs.
    \<^item> \<open>Session_Registry\<close>, \<open>Session_Operations\<close>: \<open>server/session.rs\<close>, every operation of
      \<open>SessionRegistry\<close> on the legacy session, the v2 roster, leases, attachments, focus and
      authorization.
    \<^item> \<open>Session_Invariants\<close>, \<open>Session_Preservation\<close>, \<open>Session_Runs\<close>: the invariant of the registry
      (\<open>registry_wf\<close>), that every operation keeps it and keeps published snapshots current
      (\<open>reg_keeps\<close>), and runs of the registry together with the leases that are out
      (\<open>registry_run\<close>).
    \<^item> \<open>Session_Demo\<close>: a concrete run for the examples.
    \<^item> \<open>Session_Properties\<close>, \<open>Session_Access\<close>, \<open>Session_Gaps\<close>: the refinement of the arbiter by the
      registry, roster, admission, revocation and attachment; and what modelling found.
    \<^item> \<open>Wire_Codec\<close>, \<open>Media_Codec\<close>, \<open>Audio_Codec\<close>, \<open>Media_V3_Codec\<close>, \<open>Feedback_Codec\<close>: the fixed-layout
      records of \<open>media.rs\<close>, \<open>audio.rs\<close>, \<open>media_v3.rs\<close> and \<open>feedback.rs\<close> with their encoders, decoders
      and stream readers; the theorems are round trips and that every accepted record is canonical.
    \<^item> \<open>Media_Auth\<close>, \<open>Demo_Crypto\<close>, \<open>Token_Properties\<close>: \<open>media_auth.rs\<close>; a concrete instance of
      \<open>crypto\<close>; that signed statements cannot be confused, tokens are canonical, capabilities open
      exactly what they name, and media objects are accepted exactly as signed.
    \<^item> \<open>Bitrate_Controller\<close>, \<open>Bitrate_Properties\<close>, \<open>Motion_Resolution\<close>, \<open>Motion_Properties\<close>,
      \<open>Feedback_Ingress\<close>, \<open>Generation_Adaptive\<close>, \<open>Generation_Properties\<close>: \<open>server/adaptive.rs\<close>, the
      bitrate controller of one viewer, the resolution policy, cumulative feedback and the detachment
      of a viewer that does not recover, and the coordinator that shares one encoder between viewers.
    \<^item> \<open>Authorization_State\<close>, \<open>Authorization_Store\<close>: \<open>authorization.rs\<close>, the durable document of
      enrolled portals with its validation and migration; every operation as a candidate document,
      the files it is written to with the faults of writing, and \<open>AuthorizationStore\<close> on top.
    \<^item> \<open>Authorization_Invariant\<close>, \<open>Authorization_Runs\<close>: \<open>state_ok\<close>, the meaning of a valid document,
      kept by every candidate; histories \<open>store_run\<close> of requests, administration, failed writes and
      restarts of the process, and what survives them (\<open>process_holds\<close>).
    \<^item> \<open>Authorization_Properties\<close>, \<open>Authorization_Membership\<close>, \<open>Authorization_Access\<close>,
      \<open>Authorization_Durability\<close>: single use of invitations, resets, the refinement of a map of
      members, who stays out, and what is on disk. \<open>Demo_Store\<close> and \<open>Authorization_Demo\<close> apply them
      to a concrete history.
    \<^item> \<open>Media_Catalog\<close>, \<open>Catalog_Properties\<close>: \<open>moq_catalog.rs\<close> of the protocol, the host and Portal;
      that a version 2 catalog is canonical.
    \<^item> \<open>Generation_Manager\<close>, \<open>Generation_Leases\<close>, \<open>Generation_Joining\<close>: \<open>server/generation.rs\<close>, the
      shared capture and encoder that viewers lease, as a step relation over the tasks between two
      awaits; one generation for all, no lost wake-up, and for how long it can be joined.
    \<^item> \<open>Annexb\<close>, \<open>Annexb_Properties\<close>: \<open>source/annexb.rs\<close>, cutting the encoder's byte stream into
      access units; the loop is a partial function, and that it returns is a theorem.

  Bounds and fuel. No definition uses fuel for a loop of the source, except \<open>draw_handle\<close>, which has
  the source's own bound of 16 attempts. \<open>find_h264_aud\<close> ends because the index grows to the length of
  the data, the parser's loop because every round but the first shortens the buffer.

  Not modelled. Capture, encoding and audio (GStreamer and PipeWire pipelines), input devices (uinput
  and ACL system calls), the async glue of connections, the command line and appliance scripts, the
  probes, the Tauri shell and the TypeScript front ends: they are calls into libraries and the
  operating system. JSON, the text of endpoint ids, Ed25519, SHA-256, base64, \<open>hang::Catalog\<close> and the
  MoQ transport are parameters, with the documented laws that a theorem needs as its hypotheses.

  Conventions. A lock is held for the whole of an operation in the code, so an operation is one
  function from state to state; interleavings of operations are sequences of them. A \<open>HashMap\<close> is
  an association list with distinct keys; where the code iterates one, the order of the list stands
  for the unspecified order. Clocks (\<open>Instant::now\<close>, \<open>SystemTime::now\<close>) are arguments, in
  nanoseconds where they are monotonic. \<open>u64\<close> is \<open>64 word\<close> where the code can overflow it.
  Counters that would overflow after \<open>2^64\<close> steps are excluded from runs by \<open>not_exhausted\<close>; the
  single operations are modelled with their overflow branches. The text of errors is kept without
  the values \<open>format!\<close> puts into it. Async tasks, sockets, telemetry, logging and wake-ups are not
  modelled.
\<close>

end
